(* ===== verification/Prelude.thy ===== *)
theory Prelude
  imports Main "HOL-Library.Word"
begin

text \<open>
  Shared vocabulary of the development.

  \<^item> Faults: what the C++ code does where the language gives it no defined result (a null or
    freed pointer is used, an index leaves its array, an iterator is used after its element was
    erased) or where it stops on purpose (\<open>assert\<close>).  A handler that can reach such a
    point returns a value of \<open>fault + 'a\<close>, so every such point is a branch of the model.
  \<^item> Machine integers: \<open>int\<close> of the code is a HOL \<open>int\<close>; where the code does arithmetic
    on it the two's complement wrap-around is written out with \<open>wrap32\<close>.  A \<open>char\<close> of a
    serial packet is an \<open>8 word\<close>; \<open>char\<close> is signed on the target (gcc, x86), so its
    promotion to \<open>int\<close> is \<open>sint\<close>.
  \<^item> Decimal text: what \<open>ostream << int\<close> and \<open>%d\<close> print and what the digit loops of the
    code read back.
\<close>

named_theorems handler_defs \<open>definitions of the event handlers, for unfolding in proofs\<close>
named_theorems codec_defs \<open>definitions of the packet and message codecs\<close>
named_theorems inv_intros \<open>preservation lemmas of the component invariants\<close>

section \<open>Faults and results\<close>

datatype fault =
    NullDeref              \<comment> \<open>a member of a null pointer is used\<close>
  | OutOfBounds            \<comment> \<open>an array is indexed outside its bounds\<close>
  | IteratorInvalidated    \<comment> \<open>an iterator is advanced after its element was erased\<close>
  | AssertFailed           \<comment> \<open>an \<open>assert\<close> of the source fails\<close>
  | EmptyContainer         \<comment> \<open>\<open>front\<close>, \<open>top\<close> or \<open>pop\<close> of an empty container\<close>
  | Uncaught               \<comment> \<open>an exception that nothing catches\<close>
  | Unspecified            \<comment> \<open>a value the source never initialised is used\<close>
  | DestroyedInUse         \<comment> \<open>an object is destroyed while another thread uses it\<close>

type_synonym 'a result = "fault + 'a"

definition bindr :: "'a result \<Rightarrow> ('a \<Rightarrow> 'b result) \<Rightarrow> 'b result" where
  "bindr r f = (case r of Inl e \<Rightarrow> Inl e | Inr x \<Rightarrow> f x)"

lemma bindr_simps [simp]:
  "bindr (Inl e) f = Inl e"
  "bindr (Inr x) f = f x"
  by (simp_all add: bindr_def)

lemma bindr_Inr_iff: "bindr r f = Inr y \<longleftrightarrow> (\<exists>x. r = Inr x \<and> f x = Inr y)"
  by (cases r) simp_all

lemma bindr_Inl_iff: "bindr r f = Inl e \<longleftrightarrow> r = Inl e \<or> (\<exists>x. r = Inr x \<and> f x = Inl e)"
  by (cases r) simp_all

lemma bindr_assoc: "bindr (bindr r f) g = bindr r (\<lambda>x. bindr (f x) g)"
  by (cases r) simp_all

section \<open>Texts\<close>

text \<open>What a C string holds: the characters in front of the first zero.\<close>

definition c_string :: "string \<Rightarrow> string" where
  "c_string s = takeWhile (\<lambda>c. c \<noteq> CHR 0x00) s"

lemma c_string_id [simp]: "CHR 0x00 \<notin> set s \<Longrightarrow> c_string s = s"
  by (auto simp: c_string_def takeWhile_eq_all_conv)

lemma c_string_no_nul [simp]: "CHR 0x00 \<notin> set (c_string s)"
  by (auto simp: c_string_def dest: set_takeWhileD)

section \<open>Machine integers\<close>

type_synonym byte = "8 word"

definition wrap32 :: "int \<Rightarrow> int" where
  "wrap32 x = (x + 2 ^ 31) mod 2 ^ 32 - 2 ^ 31"

definition is_int32 :: "int \<Rightarrow> bool" where
  "is_int32 x \<longleftrightarrow> - (2 ^ 31) \<le> x \<and> x < 2 ^ 31"

lemma wrap32_id [simp]: "is_int32 x \<Longrightarrow> wrap32 x = x"
  by (simp add: wrap32_def is_int32_def)

lemma wrap32_range [simp]: "is_int32 (wrap32 x)"
proof -
  have "0 \<le> (x + 2 ^ 31) mod 2 ^ 32" and "(x + 2 ^ 31) mod 2 ^ 32 < (2 ^ 32 :: int)"
    by (rule pos_mod_sign, simp) (rule pos_mod_bound, simp)
  then show ?thesis
    by (simp add: wrap32_def is_int32_def)
qed

section \<open>Decimal text\<close>

definition is_digit :: "char \<Rightarrow> bool" where
  "is_digit c \<longleftrightarrow> 48 \<le> (of_char c :: nat) \<and> (of_char c :: nat) \<le> 57"

definition digit_val :: "char \<Rightarrow> int" where
  "digit_val c = int (of_char c) - 48"

definition digit_char :: "nat \<Rightarrow> char" where
  "digit_char d = char_of (48 + d)"

fun nat_digits :: "nat \<Rightarrow> string" where
  "nat_digits n = (if n < 10 then [digit_char n] else nat_digits (n div 10) @ [digit_char (n mod 10)])"

declare nat_digits.simps [simp del]

text \<open>What \<open>ostream << int\<close>, \<open>sprintf "%d"\<close> write.\<close>

definition show_int :: "int \<Rightarrow> string" where
  "show_int i = (if i < 0 then CHR ''-'' # nat_digits (nat (- i)) else nat_digits (nat i))"

text \<open>
  The digit loop that \<open>initResource\<close>, \<open>toInteger\<close> and their kin share:
  \<open>while(*p>='0' && *p<='9') { n *= 10; n += (*p - '0'); ++p; }\<close>, on the value read so far
  and the text from \<open>p\<close> on.
\<close>

fun scan_digits :: "int \<Rightarrow> string \<Rightarrow> int \<times> string" where
  "scan_digits n [] = (n, [])"
| "scan_digits n (c # cs) =
     (if is_digit c then scan_digits (wrap32 (wrap32 (n * 10) + digit_val c)) cs else (n, c # cs))"

lemma of_char_digit_char: "d < 10 \<Longrightarrow> (of_char (digit_char d) :: nat) = 48 + d"
  by (simp add: digit_char_def)

lemma is_digit_digit_char [simp]: "d < 10 \<Longrightarrow> is_digit (digit_char d)"
  by (simp add: is_digit_def of_char_digit_char)

lemma digit_val_digit_char [simp]: "d < 10 \<Longrightarrow> digit_val (digit_char d) = int d"
  by (simp add: digit_val_def of_char_digit_char)

lemma digit_val_range: "is_digit c \<Longrightarrow> 0 \<le> digit_val c \<and> digit_val c \<le> 9"
  by (auto simp: is_digit_def digit_val_def)

lemma nat_digits_nonempty [simp]: "nat_digits n \<noteq> []"
  by (subst nat_digits.simps) simp

lemma nat_digits_all_digits: "c \<in> set (nat_digits n) \<Longrightarrow> is_digit c"
proof (induction n rule: nat_digits.induct)
  case (1 n)
  then show ?case
    by (cases "n < 10") (auto simp: nat_digits.simps [of n])
qed

text \<open>The number of digits, as used by the buffer bounds.\<close>

lemma length_nat_digits: "n < 10 ^ Suc k \<Longrightarrow> length (nat_digits n) \<le> Suc k"
proof (induction k arbitrary: n)
  case 0
  then show ?case by (simp add: nat_digits.simps)
next
  case (Suc k)
  then have "n div 10 < 10 ^ Suc k"
    by (simp add: div_less_iff_less_mult algebra_simps)
  then have "length (nat_digits (n div 10)) \<le> Suc k"
    by (rule Suc.IH)
  then show ?case
    by (simp add: nat_digits.simps [of n])
qed

lemma scan_digits_append:
  "(\<And>c. c \<in> set ds \<Longrightarrow> is_digit c) \<Longrightarrow>
   scan_digits n (ds @ rest) = scan_digits (fst (scan_digits n ds)) rest"
  by (induction ds arbitrary: n) auto

lemma scan_digits_stop [simp]:
  "rest = [] \<or> \<not> is_digit (hd rest) \<Longrightarrow> scan_digits n rest = (n, rest)"
  by (cases rest) auto

lemma scan_nat_digits:
  assumes "int n < 2 ^ 31"
  shows "scan_digits 0 (nat_digits n) = (int n, [])"
  using assms
proof (induction n rule: nat_digits.induct)
  case (1 n)
  show ?case
  proof (cases "n < 10")
    case True
    then show ?thesis
      by (simp add: nat_digits.simps [of n] is_int32_def)
  next
    case False
    with "1.prems" have small: "int (n div 10) < 2 ^ 31"
      by linarith
    with "1.IH" False have IH: "scan_digits 0 (nat_digits (n div 10)) = (int (n div 10), [])"
      by simp
    have "int (n div 10) * 10 + int (n mod 10) = int n"
      by (simp add: zdiv_int zmod_int)
    moreover have "0 \<le> int (n mod 10)" and "0 \<le> int (n div 10) * 10"
      by simp_all
    ultimately have "is_int32 (int (n div 10) * 10)"
      and "is_int32 (int (n div 10) * 10 + int (n mod 10))"
      using "1.prems" by (auto simp: is_int32_def)
    with \<open>int (n div 10) * 10 + int (n mod 10) = int n\<close> IH False show ?thesis
      by (simp add: nat_digits.simps [of n] scan_digits_append nat_digits_all_digits)
  qed
qed

text \<open>Reading back what was printed: the loop returns the number and stops at the separator.\<close>

lemma scan_digits_roundtrip:
  assumes "int n < 2 ^ 31" and "rest = [] \<or> \<not> is_digit (hd rest)"
  shows "scan_digits 0 (nat_digits n @ rest) = (int n, rest)"
  using assms by (simp add: scan_digits_append nat_digits_all_digits scan_nat_digits)

lemma scan_digits_length: "length (snd (scan_digits n s)) \<le> length s"
  by (induction s arbitrary: n) (auto simp: le_SucI)

lemma scan_digits_rest: "(n, p) = scan_digits k s \<Longrightarrow> length p \<le> length s"
  using scan_digits_length [of k s] by (metis snd_conv)

section \<open>Lists\<close>

lemma find_SomeD: "find P xs = Some x \<Longrightarrow> x \<in> set xs \<and> P x"
  by (induction xs) (auto split: if_splits)

lemma find_None_iff_all: "find P xs = None \<longleftrightarrow> (\<forall>x\<in>set xs. \<not> P x)"
  by (induction xs) auto

text \<open>\<open>vector::erase\<close> of the first element with a property.\<close>

fun erase_first :: "('a \<Rightarrow> bool) \<Rightarrow> 'a list \<Rightarrow> 'a list" where
  "erase_first P [] = []"
| "erase_first P (x # xs) = (if P x then xs else x # erase_first P xs)"

lemma erase_first_none: "\<not> (\<exists>x\<in>set xs. P x) \<Longrightarrow> erase_first P xs = xs"
  by (induction xs) auto

lemma Suc_length_erase_first: "\<exists>x\<in>set xs. P x \<Longrightarrow> Suc (length (erase_first P xs)) = length xs"
  by (induction xs) auto

lemma set_erase_first: "set (erase_first P xs) \<subseteq> set xs"
  by (induction xs) auto

end
