(* ===== verification/Config_Tree.thy ===== *)
theory Config_Tree
  imports Prelude "HOL-Library.Char_ord" "HOL-Library.List_Lexorder" "HOL-Library.Sublist"
begin

text \<open>
  The binary tree of \<open>confile.c\<close> that stores the settings: a node holds a key, with its terminating zero, and behind
  it the data in the same allocation.  A search compares with \<open>strcmp\<close>; an insertion compares with \<open>memcmp\<close> over
  the length of the new key, so it takes a longer key that starts with the new one for the same key.

  \<^item> Nodes are allocated with \<open>calloc\<close>, which does not fail here; \<open>Config_Free\<close> models freeing them.
  \<^item> A pointer to a character together with a length is the text from that pointer on and a number.
  \<^item> The loops that walk down through a pointer to the link they came from are structural recursions.
\<close>

section \<open>Comparing\<close>

text \<open>The sign of \<open>strcmp\<close> on two C strings and of \<open>memcmp\<close> on \<open>n\<close> bytes; running out of the memory at hand is a fault.\<close>

fun strcmp :: "string \<Rightarrow> string \<Rightarrow> int" where
  "strcmp [] [] = 0"
| "strcmp [] (y # ys) = -1"
| "strcmp (x # xs) [] = 1"
| "strcmp (x # xs) (y # ys) = (if x = y then strcmp xs ys else if x > y then 1 else -1)"

fun memcmp :: "string \<Rightarrow> string \<Rightarrow> nat \<Rightarrow> int result" where
  "memcmp xs ys 0 = Inr 0"
| "memcmp (x # xs) (y # ys) (Suc n) = (if x = y then memcmp xs ys n else Inr (if x > y then 1 else -1))"
| "memcmp xs ys (Suc n) = Inl OutOfBounds"

section \<open>The tree\<close>

datatype 'd config_node = Null | Node string 'd "'d config_node" "'d config_node"

record 'd CONFIG_BTREE =
  bt_numNodes :: int
  bt_root :: "'d config_node"

definition config_btree_create :: "'d CONFIG_BTREE" where
  "config_btree_create = \<lparr>bt_numNodes = 0, bt_root = Null\<rparr>"

definition config_btree_create_node :: "string \<Rightarrow> 'd \<Rightarrow> 'd config_node" where
  "config_btree_create_node key data = Node key data Null Null"

text \<open>\<open>if(len==0) len=strlen(p)\<close>, and the bytes at \<open>p\<close>.\<close>

definition sized :: "string \<Rightarrow> nat \<Rightarrow> string" where
  "sized p n = (if n = 0 then c_string p else take n p)"

text \<open>The memory from a node's key on: the key, its zero, the data and a zero; \<open>img\<close> gives the bytes of the data.\<close>

definition node_mem :: "('d \<Rightarrow> string) \<Rightarrow> string \<Rightarrow> 'd \<Rightarrow> string" where
  "node_mem img key data = key @ CHR 0x00 # img data @ [CHR 0x00]"

text \<open>The walk of \<open>config_btree_insert_node\<close>: 1 for a new node, 2 for an update.\<close>

fun insert_at :: "('d \<Rightarrow> string) \<Rightarrow> string \<Rightarrow> 'd \<Rightarrow> 'd config_node \<Rightarrow> (int \<times> 'd config_node) result" where
  "insert_at img key data Null = Inr (1, config_btree_create_node key data)"
| "insert_at img key data (Node k d l r) =
     bindr (memcmp key (node_mem img k d) (length key)) (\<lambda>comp.
       if comp > 0 then bindr (insert_at img key data r) (\<lambda>(rc, r). Inr (rc, Node k d l r))
       else if comp < 0 then bindr (insert_at img key data l) (\<lambda>(rc, l). Inr (rc, Node k d l r))
       else Inr (2, Node key data l r))"

definition config_btree_insert_node :: "('d \<Rightarrow> string) \<Rightarrow> string \<Rightarrow> nat \<Rightarrow> 'd \<Rightarrow> 'd CONFIG_BTREE \<Rightarrow> (int \<times> 'd CONFIG_BTREE) result" where
  "config_btree_insert_node img key key_len data t =
     bindr (insert_at img (sized key key_len) data (bt_root t)) (\<lambda>(rc, root).
       Inr (rc, t\<lparr>bt_root := root, bt_numNodes := (if rc = 1 then bt_numNodes t + 1 else bt_numNodes t)\<rparr>))"

fun find_at :: "string \<Rightarrow> 'd config_node \<Rightarrow> 'd option" where
  "find_at key Null = None"
| "find_at key (Node k d l r) =
     (let comp = strcmp (c_string key) (c_string k) in
      if comp > 0 then find_at key r else if comp < 0 then find_at key l else Some d)"

definition config_btree_find_node :: "'d CONFIG_BTREE \<Rightarrow> string \<Rightarrow> 'd option" where
  "config_btree_find_node t key = find_at key (bt_root t)"

text \<open>Writing through the data pointer of the node found.\<close>

fun put_at :: "string \<Rightarrow> 'd \<Rightarrow> 'd config_node \<Rightarrow> 'd config_node" where
  "put_at key data Null = Null"
| "put_at key data (Node k d l r) =
     (let comp = strcmp (c_string key) (c_string k) in
      if comp > 0 then Node k d l (put_at key data r) else if comp < 0 then Node k d (put_at key data l) r else Node k data l r)"

text \<open>
  \<open>config_btree_delete_node\<close>: the greatest node of the left subtree takes the place of the deleted one, or, without a
  left subtree, the smallest node of the right one.
\<close>

fun split_max :: "string \<Rightarrow> 'd \<Rightarrow> 'd config_node \<Rightarrow> 'd config_node \<Rightarrow> (string \<times> 'd) \<times> 'd config_node" where
  "split_max k d l Null = ((k, d), l)"
| "split_max k d l (Node k2 d2 l2 r2) = (case split_max k2 d2 l2 r2 of (kd, r) \<Rightarrow> (kd, Node k d l r))"

fun split_min :: "string \<Rightarrow> 'd \<Rightarrow> 'd config_node \<Rightarrow> 'd config_node \<Rightarrow> (string \<times> 'd) \<times> 'd config_node" where
  "split_min k d Null r = ((k, d), r)"
| "split_min k d (Node k2 d2 l2 r2) r = (case split_min k2 d2 l2 r2 of (kd, l) \<Rightarrow> (kd, Node k d l r))"

definition unlink :: "'d config_node \<Rightarrow> 'd config_node \<Rightarrow> 'd config_node" where
  "unlink l r =
    (case l of
       Node k d l2 r2 \<Rightarrow> (case split_max k d l2 r2 of ((k, d), l) \<Rightarrow> Node k d l r)
     | Null \<Rightarrow>
         (case r of
            Node k d l2 r2 \<Rightarrow> (case split_min k d l2 r2 of ((k, d), r) \<Rightarrow> Node k d Null r)
          | Null \<Rightarrow> Null))"

fun delete_at :: "string \<Rightarrow> 'd config_node \<Rightarrow> int \<times> 'd config_node" where
  "delete_at key Null = (0, Null)"
| "delete_at key (Node k d l r) =
     (let comp = strcmp (c_string key) (c_string k) in
      if comp > 0 then (case delete_at key r of (rc, r) \<Rightarrow> (rc, Node k d l r))
      else if comp < 0 then (case delete_at key l of (rc, l) \<Rightarrow> (rc, Node k d l r))
      else (1, unlink l r))"

definition config_btree_delete_node :: "'d CONFIG_BTREE \<Rightarrow> string \<Rightarrow> int \<times> 'd CONFIG_BTREE" where
  "config_btree_delete_node t key =
    (case delete_at key (bt_root t) of (rc, root) \<Rightarrow>
      (rc, t\<lparr>bt_root := root, bt_numNodes := (if rc = 1 then bt_numNodes t - 1 else bt_numNodes t)\<rparr>))"

text \<open>The traversals stop when the callback returns 0; \<open>'s\<close> is what the callback works on.\<close>

fun inorder_traverse :: "(string \<Rightarrow> 'd \<Rightarrow> 's \<Rightarrow> int \<times> 's) \<Rightarrow> 'd config_node \<Rightarrow> 's \<Rightarrow> int \<times> 's" where
  "inorder_traverse f Null s = (1, s)"
| "inorder_traverse f (Node k d l r) s =
     (case inorder_traverse f l s of (rc, s) \<Rightarrow> if rc = 0 then (0, s) else
      case f k d s of (rc, s) \<Rightarrow> if rc = 0 then (0, s) else
      case inorder_traverse f r s of (rc, s) \<Rightarrow> if rc = 0 then (0, s) else (1, s))"

fun preorder_traverse :: "(string \<Rightarrow> 'd \<Rightarrow> 's \<Rightarrow> int \<times> 's) \<Rightarrow> 'd config_node \<Rightarrow> 's \<Rightarrow> int \<times> 's" where
  "preorder_traverse f Null s = (1, s)"
| "preorder_traverse f (Node k d l r) s =
     (case f k d s of (rc, s) \<Rightarrow> if rc = 0 then (0, s) else
      case preorder_traverse f l s of (rc, s) \<Rightarrow> if rc = 0 then (0, s) else
      case preorder_traverse f r s of (rc, s) \<Rightarrow> if rc = 0 then (0, s) else (1, s))"

fun postorder_traverse :: "(string \<Rightarrow> 'd \<Rightarrow> 's \<Rightarrow> int \<times> 's) \<Rightarrow> 'd config_node \<Rightarrow> 's \<Rightarrow> int \<times> 's" where
  "postorder_traverse f Null s = (1, s)"
| "postorder_traverse f (Node k d l r) s =
     (case postorder_traverse f l s of (rc, s) \<Rightarrow> if rc = 0 then (0, s) else
      case postorder_traverse f r s of (rc, s) \<Rightarrow> if rc = 0 then (0, s) else
      case f k d s of (rc, s) \<Rightarrow> if rc = 0 then (0, s) else (1, s))"

section \<open>The order\<close>

lemma strcmp_cases: "strcmp a b = (if a = b then 0 else if a > b then 1 else -1)"
  by (induction a b rule: strcmp.induct) (auto simp: not_less)

lemma memcmp_prefix: "memcmp (xs @ zs) (xs @ ys) (length xs + n) = memcmp zs ys n"
  by (induction xs) simp_all

lemma zero_least: "c \<noteq> CHR 0x00 \<Longrightarrow> CHR 0x00 < c"
proof -
  assume "c \<noteq> CHR 0x00"
  then have "of_char c \<noteq> (0 :: nat)"
    using of_char_eq_iff [of c "CHR 0x00", where 'a = nat] by simp
  then show ?thesis
    by (simp add: less_char_def)
qed

text \<open>Two keys without zeros compare as their order says unless the new one is the beginning of the old one.\<close>

lemma memcmp_keys:
  "CHR 0x00 \<notin> set key \<Longrightarrow>
   memcmp key (k @ CHR 0x00 # rest) (length key) = Inr (if prefix key k then 0 else if key > k then 1 else -1)"
proof (induction key arbitrary: k)
  case (Cons c key)
  then show ?case
    using zero_least [of c] by (cases k) (auto simp: not_less)
qed simp

fun inorder :: "'d config_node \<Rightarrow> (string \<times> 'd) list" where
  "inorder Null = []"
| "inorder (Node k d l r) = inorder l @ (k, d) # inorder r"

definition keys :: "'d config_node \<Rightarrow> string list" where
  "keys t = map fst (inorder t)"

text \<open>The tree invariant: the keys hold no zeros and ascend strictly.\<close>

definition search_tree :: "'d config_node \<Rightarrow> bool" where
  "search_tree t \<longleftrightarrow> sorted_wrt (<) (keys t) \<and> (\<forall>k \<in> set (keys t). CHR 0x00 \<notin> set k)"

lemma keys_simps [simp]: "keys Null = []" "keys (Node k d l r) = keys l @ k # keys r"
  by (simp_all add: keys_def)

lemma search_tree_Null [simp]: "search_tree Null"
  by (simp add: search_tree_def)

lemma search_tree_Node:
  "search_tree (Node k d l r) \<longleftrightarrow> search_tree l \<and> search_tree r \<and> CHR 0x00 \<notin> set k \<and>
     (\<forall>x \<in> set (keys l). x < k) \<and> (\<forall>x \<in> set (keys r). k < x)"
  by (auto simp: search_tree_def sorted_wrt_append; meson less_trans)

lemma search_tree_nul: "search_tree t \<Longrightarrow> x \<in> set (keys t) \<Longrightarrow> CHR 0x00 \<notin> set x"
  by (simp add: search_tree_def)

definition tree_map :: "'d config_node \<Rightarrow> string \<rightharpoonup> 'd" where
  "tree_map t = map_of (inorder t)"

lemma tree_map_None: "x \<notin> set (keys t) \<Longrightarrow> tree_map t x = None"
  by (simp add: tree_map_def keys_def map_of_eq_None_iff)

lemma tree_map_Node:
  assumes "search_tree (Node k d l r)"
  shows "tree_map (Node k d l r) x = (if x = k then Some d else if x < k then tree_map l x else tree_map r x)"
proof -
  have "tree_map (Node k d l r) x = (case tree_map l x of Some v \<Rightarrow> Some v | None \<Rightarrow> if x = k then Some d else tree_map r x)"
    by (simp add: tree_map_def map_add_def split: option.splits)
  moreover have "x \<ge> k \<Longrightarrow> tree_map l x = None" and "x \<le> k \<Longrightarrow> tree_map r x = None"
    using assms by (fastforce simp: search_tree_Node intro!: tree_map_None)+
  ultimately show ?thesis
    by (auto simp: not_less split: option.splits)
qed

lemma find_at_map: "search_tree t \<Longrightarrow> CHR 0x00 \<notin> set x \<Longrightarrow> find_at x t = tree_map t x"
proof (induction t)
  case (Node k d l r)
  then show ?case
    by (auto simp: tree_map_Node strcmp_cases search_tree_Node Let_def)
qed (simp add: tree_map_def)

lemma dom_tree_map: "dom (tree_map t) = set (keys t)"
  by (auto simp: tree_map_def keys_def dom_map_of_conv_image_fst)

section \<open>What the operations do\<close>

lemma insert_at_total:
  "CHR 0x00 \<notin> set key \<Longrightarrow> \<exists>rc t'. insert_at img key d t = Inr (rc, t')"
  by (induction t) (auto simp: node_mem_def memcmp_keys)

text \<open>A key is inserted as expected when no stored key begins with it.\<close>

definition key_fits :: "string \<Rightarrow> (string \<rightharpoonup> 'd) \<Rightarrow> bool" where
  "key_fits key m \<longleftrightarrow> CHR 0x00 \<notin> set key \<and> (\<forall>k \<in> dom m. \<not> strict_prefix key k)"

lemma memcmp_fits:
  assumes "CHR 0x00 \<notin> set key" and "\<not> strict_prefix key k"
  shows "memcmp key (node_mem img k d) (length key) = Inr (if key = k then 0 else if key > k then 1 else -1)"
  using assms by (auto simp: node_mem_def memcmp_keys strict_prefix_def)

lemma insert_at_fits:
  assumes "search_tree t" and "key_fits key (tree_map t)"
  shows "\<exists>t'. insert_at img key d t = Inr (if key \<in> set (keys t) then 2 else 1, t') \<and> search_tree t' \<and>
    set (keys t') = insert key (set (keys t)) \<and> tree_map t' = (tree_map t)(key \<mapsto> d) \<and>
    length (keys t') = (if key \<in> set (keys t) then length (keys t) else Suc (length (keys t)))"
  using assms
proof (induction t)
  case Null
  then show ?case
    by (auto simp: config_btree_create_node_def search_tree_Node key_fits_def tree_map_def)
next
  case (Node k v l r)
  have st: "search_tree l" "search_tree r" "CHR 0x00 \<notin> set k" "\<forall>x \<in> set (keys l). x < k" "\<forall>x \<in> set (keys r). k < x"
    using Node.prems(1) by (simp_all add: search_tree_Node)
  have fit: "key_fits key (tree_map l)" "key_fits key (tree_map r)" "CHR 0x00 \<notin> set key" "\<not> strict_prefix key k"
    using Node.prems(2) by (simp_all add: key_fits_def dom_tree_map)
  note cmp = memcmp_fits [OF fit(3,4), of img v]
  consider "key = k" | "key > k" | "key < k" by fastforce
  then show ?case
  proof cases
    case 1
    have "search_tree (Node key d l r)"
      using st 1 by (simp add: search_tree_Node)
    moreover have "tree_map (Node key d l r) = (tree_map (Node k v l r))(key \<mapsto> d)"
      using tree_map_Node [OF Node.prems(1)] tree_map_Node [OF calculation] 1 by (auto simp: fun_eq_iff)
    ultimately show ?thesis
      using 1 cmp by (auto simp: fun_upd_def)
  next
    case 2
    obtain r' where r': "insert_at img key d r = Inr (if key \<in> set (keys r) then 2 else 1, r')" "search_tree r'"
        "set (keys r') = insert key (set (keys r))" "tree_map r' = (tree_map r)(key \<mapsto> d)"
        "length (keys r') = (if key \<in> set (keys r) then length (keys r) else Suc (length (keys r)))"
      using Node.IH(2) [OF st(2) fit(2)] by blast
    have s: "search_tree (Node k v l r')"
      using st r' 2 by (simp add: search_tree_Node)
    have "tree_map (Node k v l r') = (tree_map (Node k v l r))(key \<mapsto> d)"
      using tree_map_Node [OF Node.prems(1)] tree_map_Node [OF s] r'(4) 2 by (auto simp: fun_eq_iff)
    with s 2 cmp r' st(4) show ?thesis
      by auto
  next
    case 3
    obtain l' where l': "insert_at img key d l = Inr (if key \<in> set (keys l) then 2 else 1, l')" "search_tree l'"
        "set (keys l') = insert key (set (keys l))" "tree_map l' = (tree_map l)(key \<mapsto> d)"
        "length (keys l') = (if key \<in> set (keys l) then length (keys l) else Suc (length (keys l)))"
      using Node.IH(1) [OF st(1) fit(1)] by blast
    have s: "search_tree (Node k v l' r)"
      using st l' 3 by (simp add: search_tree_Node)
    have "tree_map (Node k v l' r) = (tree_map (Node k v l r))(key \<mapsto> d)"
      using tree_map_Node [OF Node.prems(1)] tree_map_Node [OF s] l'(4) 3 by (auto simp: fun_eq_iff)
    with s 3 cmp l' st(5) show ?thesis
      by auto
  qed
qed

lemma put_at_keys [simp]: "keys (put_at key d t) = keys t"
  by (induction t) (simp_all add: Let_def)

lemma put_at_map:
  assumes "search_tree t" and "key \<in> set (keys t)"
  shows "search_tree (put_at key d t) \<and> tree_map (put_at key d t) = (tree_map t)(key \<mapsto> d)"
proof
  show s: "search_tree (put_at key d t)"
    using assms(1) by (simp add: search_tree_def)
  have "tree_map (put_at key d t) x = ((tree_map t)(key \<mapsto> d)) x" for x
    using assms s
  proof (induction t)
    case (Node k v l r)
    have k: "CHR 0x00 \<notin> set k" "CHR 0x00 \<notin> set key"
      using search_tree_nul [OF Node.prems(1)] Node.prems(2) by simp_all
    have sub: "search_tree (put_at key d l)" "search_tree (put_at key d r)" "search_tree l" "search_tree r"
      using Node.prems(1) unfolding search_tree_Node by (auto simp: search_tree_def)
    note IH = Node.IH(1) [OF sub(3) _ sub(1)] Node.IH(2) [OF sub(4) _ sub(2)]
    note orig = tree_map_Node [OF Node.prems(1), of x]
    consider "k = key" | "key > k" | "key < k" by fastforce
    then show ?case
    proof cases
      case 1
      then show ?thesis
        using Node.prems(3) orig k by (simp add: strcmp_cases tree_map_Node)
    next
      case 2
      then have "key \<in> set (keys r)" and res: "put_at key d (Node k v l r) = Node k v l (put_at key d r)"
        using Node.prems(1,2) k by (auto simp: search_tree_Node strcmp_cases)
      then show ?thesis
        using tree_map_Node [of k v l "put_at key d r" x] Node.prems(3) orig IH(2) 2 by auto
    next
      case 3
      then have "key \<in> set (keys l)" and res: "put_at key d (Node k v l r) = Node k v (put_at key d l) r"
        using Node.prems(1,2) k by (auto simp: search_tree_Node strcmp_cases)
      then show ?thesis
        using tree_map_Node [of k v "put_at key d l" r x] Node.prems(3) orig IH(1) 3 by auto
    qed
  qed simp
  then show "tree_map (put_at key d t) = (tree_map t)(key \<mapsto> d)"
    by blast
qed

lemma split_max_inorder: "split_max k d l r = ((k', d'), t) \<Longrightarrow> inorder t @ [(k', d')] = inorder l @ (k, d) # inorder r"
  by (induction k d l r arbitrary: t rule: split_max.induct) (auto split: prod.splits)

lemma split_min_inorder: "split_min k d l r = ((k', d'), t) \<Longrightarrow> (k', d') # inorder t = inorder l @ (k, d) # inorder r"
  by (induction k d l r arbitrary: t rule: split_min.induct) (fastforce split: prod.splits)+

lemma unlink_inorder: "inorder (unlink l r) = inorder l @ inorder r"
  by (auto simp: unlink_def split: config_node.splits prod.splits dest!: split_max_inorder split_min_inorder)

lemma map_of_remove: "map_of (filter (\<lambda>x. fst x \<noteq> k) xs) = (map_of xs)(k := None)"
  by (induction xs) auto

lemma delete_at_inorder:
  assumes "search_tree t" and "CHR 0x00 \<notin> set key"
  shows "inorder (snd (delete_at key t)) = filter (\<lambda>x. fst x \<noteq> key) (inorder t) \<and> fst (delete_at key t) = (if key \<in> set (keys t) then 1 else 0)"
  using assms
proof (induction t)
  case (Node k d l r)
  have all: "filter (\<lambda>x. fst x \<noteq> key) (inorder t) = inorder t" if "key \<notin> set (keys t)" for t :: "'a config_node"
    using that by (force simp: keys_def filter_id_conv)
  have st: "search_tree l" "search_tree r" "CHR 0x00 \<notin> set k" "\<forall>x \<in> set (keys l). x < k" "\<forall>x \<in> set (keys r). k < x"
    using Node.prems(1) by (simp_all add: search_tree_Node)
  consider "k = key" | "key > k" | "key < k" by fastforce
  then show ?case
  proof cases
    case 1
    then have "key \<notin> set (keys l)" "key \<notin> set (keys r)"
      using st by auto
    with 1 st(3) show ?thesis
      by (simp add: strcmp_cases unlink_inorder all)
  next
    case 2
    then have "key \<notin> set (keys l)"
      using st by auto
    with 2 st(3) Node.prems(2) Node.IH(2) [OF st(2)] show ?thesis
      by (auto simp: strcmp_cases all split: prod.splits)
  next
    case 3
    then have "key \<notin> set (keys r)"
      using st by auto
    with 3 st(3) Node.prems(2) Node.IH(1) [OF st(1)] show ?thesis
      by (auto simp: strcmp_cases all split: prod.splits)
  qed
qed simp

section \<open>The tree as a finite map\<close>

definition btree_ok :: "'d CONFIG_BTREE \<Rightarrow> bool" where
  "btree_ok t \<longleftrightarrow> search_tree (bt_root t) \<and> bt_numNodes t = int (length (keys (bt_root t)))"

definition btree_map :: "'d CONFIG_BTREE \<Rightarrow> string \<rightharpoonup> 'd" where
  "btree_map t = tree_map (bt_root t)"

lemma btree_create [simp]: "btree_ok config_btree_create" "btree_map config_btree_create = Map.empty"
  by (simp_all add: btree_ok_def btree_map_def config_btree_create_def tree_map_def)

lemma insert_node_fits:
  assumes "btree_ok t" and "key_fits (sized key n) (btree_map t)"
  shows "\<exists>t'. config_btree_insert_node img key n d t = Inr (if sized key n \<in> dom (btree_map t) then 2 else 1, t') \<and>
    btree_ok t' \<and> btree_map t' = (btree_map t)(sized key n \<mapsto> d)"
  using insert_at_fits [of "bt_root t" "sized key n" img d] assms
  by (auto simp: config_btree_insert_node_def btree_ok_def btree_map_def dom_tree_map)

lemma find_node_map: "btree_ok t \<Longrightarrow> CHR 0x00 \<notin> set key \<Longrightarrow> config_btree_find_node t key = btree_map t key"
  by (simp add: config_btree_find_node_def btree_ok_def btree_map_def find_at_map)

lemma length_without: "distinct xs \<Longrightarrow> length (filter (\<lambda>x. x \<noteq> k) xs) + (if k \<in> set xs then 1 else 0) = length xs"
  by (induction xs) (auto simp: filter_id_conv cong: conj_cong)

lemma delete_node_map:
  assumes "btree_ok t" and "CHR 0x00 \<notin> set key"
  shows "\<exists>t'. config_btree_delete_node t key = (if key \<in> dom (btree_map t) then 1 else 0, t') \<and> btree_ok t' \<and>
    btree_map t' = (btree_map t)(key := None)"
proof -
  obtain rc root where d: "delete_at key (bt_root t) = (rc, root)" by fastforce
  have st: "search_tree (bt_root t)" "bt_numNodes t = int (length (keys (bt_root t)))"
    using assms(1) by (simp_all add: btree_ok_def)
  have i: "inorder root = filter (\<lambda>x. fst x \<noteq> key) (inorder (bt_root t))" "rc = (if key \<in> set (keys (bt_root t)) then 1 else 0)"
    using delete_at_inorder [OF st(1) assms(2)] d by simp_all
  have k: "keys root = filter (\<lambda>x. x \<noteq> key) (keys (bt_root t))"
    by (simp add: keys_def i(1) filter_map o_def)
  have "distinct (keys (bt_root t))"
    using st(1) by (simp add: search_tree_def strict_sorted_iff)
  then have "int (length (keys root)) = int (length (keys (bt_root t))) - rc"
    using length_without [of "keys (bt_root t)" key] by (auto simp: k i(2) split: if_splits)
  moreover have "search_tree root"
    using st(1) by (simp add: search_tree_def k sorted_wrt_filter)
  moreover have "tree_map root = (tree_map (bt_root t))(key := None)"
    by (simp add: tree_map_def i(1) map_of_remove)
  ultimately show ?thesis
    using st(2) i(2) by (auto simp: config_btree_delete_node_def d btree_ok_def btree_map_def dom_tree_map)
qed

lemma prefix_le: "prefix a b \<Longrightarrow> a \<le> b" for a b :: string
proof (induction a arbitrary: b)
  case (Cons x a)
  then show ?case
    by (cases b) auto
qed simp

lemma less_extension: "a < k \<Longrightarrow> \<not> prefix a k \<Longrightarrow> prefix a b \<Longrightarrow> b < k" for a b k :: string
proof (induction a arbitrary: b k)
  case (Cons x a)
  then show ?case
    by (cases b; cases k) auto
qed simp

text \<open>An insertion whose key is the beginning of a stored key takes the place of one such key.\<close>

lemma insert_at_evicts:
  assumes "search_tree t" and "CHR 0x00 \<notin> set key" and "key \<notin> set (keys t)" and "x \<in> set (keys t)" and "strict_prefix key x"
  shows "\<exists>t' old. insert_at img key d t = Inr (2, t') \<and> strict_prefix key old \<and> old \<in> set (keys t) \<and>
    set (keys t') = insert key (set (keys t) - {old})"
  using assms
proof (induction t)
  case (Node k v l r)
  have st: "search_tree l" "search_tree r" "\<forall>x \<in> set (keys l). x < k" "\<forall>x \<in> set (keys r). k < x"
    using Node.prems(1) by (simp_all add: search_tree_Node)
  have cmp: "memcmp key (node_mem img k v) (length key) = Inr (if prefix key k then 0 else if key > k then 1 else -1)"
    using Node.prems(2) by (simp add: node_mem_def memcmp_keys)
  have out: "key \<notin> set (keys l)" "key \<notin> set (keys r)" "key \<noteq> k"
    using Node.prems(3) by simp_all
  consider "prefix key k" | "\<not> prefix key k" "key > k" | "\<not> prefix key k" "key < k"
    using out(3) by fastforce
  then show ?case
  proof cases
    case 1
    then have "strict_prefix key k"
      using out(3) by (simp add: strict_prefix_def)
    moreover have "set (keys (Node key d l r)) = insert key (set (keys (Node k v l r)) - {k})"
      using st by auto
    ultimately show ?thesis
      using 1 cmp by (intro exI [of _ "Node key d l r"] exI [of _ k]) simp
  next
    case 2
    have "x > k"
      using 2 Node.prems(5) prefix_le [of key x] by (auto simp: strict_prefix_def)
    then have "x \<in> set (keys r)"
      using Node.prems(4) st by auto
    from Node.IH(2) [OF st(2) Node.prems(2) out(2) this Node.prems(5)] obtain r' old where
      "insert_at img key d r = Inr (2, r')" "strict_prefix key old" "old \<in> set (keys r)" "set (keys r') = insert key (set (keys r) - {old})"
      by blast
    moreover have "old \<notin> set (keys l)" "old \<noteq> k"
      using calculation(3) st by (metis less_asym, metis less_irrefl)
    ultimately show ?thesis
      using 2 cmp by (intro exI [of _ "Node k v l r'"] exI [of _ old]) auto
  next
    case 3
    have "x < k"
      using 3 Node.prems(5) less_extension by (auto simp: strict_prefix_def)
    then have "x \<in> set (keys l)"
      using Node.prems(4) st by auto
    from Node.IH(1) [OF st(1) Node.prems(2) out(1) this Node.prems(5)] obtain l' old where
      "insert_at img key d l = Inr (2, l')" "strict_prefix key old" "old \<in> set (keys l)" "set (keys l') = insert key (set (keys l) - {old})"
      by blast
    moreover have "old \<notin> set (keys r)" "old \<noteq> k"
      using calculation(3) st by (metis less_asym, metis less_irrefl)
    ultimately show ?thesis
      using 3 cmp by (intro exI [of _ "Node k v l' r"] exI [of _ old]) auto
  qed
qed simp

section \<open>Filling a store\<close>

text \<open>
  The interface through which the parser fills a tree: what a store holds after entries have been put into it in
  ascending order.  \<open>meaning\<close> is what an entry stands for, \<open>usable\<close> the entries the store can take.
\<close>

locale config_store =
  fixes put :: "string \<Rightarrow> 'd \<Rightarrow> 't \<Rightarrow> 't result" and view :: "'t \<Rightarrow> string \<rightharpoonup> 'v" and good :: "'t \<Rightarrow> bool"
    and meaning :: "'d \<Rightarrow> 'v" and usable :: "string \<Rightarrow> 'd \<Rightarrow> bool"
  assumes put_fits: "good t \<Longrightarrow> key_fits key (view t) \<Longrightarrow> usable key d \<Longrightarrow>
    \<exists>t'. put key d t = Inr t' \<and> good t' \<and> view t' = (view t)(key \<mapsto> meaning d)"
begin

fun put_all :: "(string \<times> 'd) list \<Rightarrow> 't \<Rightarrow> 't result" where
  "put_all [] t = Inr t"
| "put_all ((k, d) # es) t = bindr (put k d t) (put_all es)"

lemma put_all_ascending:
  assumes "good t" and "sorted_wrt (<) (map fst es)" and "\<forall>k \<in> set (map fst es). CHR 0x00 \<notin> set k"
    and "\<forall>k \<in> set (map fst es). \<forall>x \<in> dom (view t). \<not> strict_prefix k x" and "\<forall>(k, d) \<in> set es. usable k d"
  shows "\<exists>t'. put_all es t = Inr t' \<and> good t' \<and> view t' = view t ++ map_of (map (apsnd meaning) es)"
  using assms
proof (induction es arbitrary: t)
  case (Cons e es)
  obtain k d where e: "e = (k, d)" by fastforce
  have "key_fits k (view t)"
    using Cons.prems(3,4) e by (simp add: key_fits_def)
  then obtain t' where t': "put k d t = Inr t'" "good t'" "view t' = (view t)(k \<mapsto> meaning d)"
    using put_fits [OF Cons.prems(1), of k d] Cons.prems(5) e by auto
  have "\<not> strict_prefix k2 k" if "k2 \<in> set (map fst es)" for k2
  proof
    assume "strict_prefix k2 k"
    then have "k2 \<le> k"
      by (simp add: strict_prefix_def prefix_le)
    moreover have "k < k2"
      using Cons.prems(2) e that by auto
    ultimately show False by simp
  qed
  then have "\<forall>k2 \<in> set (map fst es). \<forall>x \<in> dom (view t'). \<not> strict_prefix k2 x"
    using Cons.prems(4) t'(3) by auto
  then obtain t'' where t'': "put_all es t' = Inr t''" "good t''" "view t'' = view t' ++ map_of (map (apsnd meaning) es)"
    using Cons.IH [OF t'(2)] Cons.prems(2,3,5) by auto
  have "k \<notin> dom (map_of (map (apsnd meaning) es))"
    using Cons.prems(2) e by (auto simp: dom_map_of_conv_image_fst)
  then have "view t' ++ map_of (map (apsnd meaning) es) = view t ++ map_of (map (apsnd meaning) (e # es))"
    using t'(3) e by (auto simp: fun_eq_iff map_add_def split: option.splits)
  with t' t'' have "put_all (e # es) t = Inr t'' \<and> good t'' \<and> view t'' = view t ++ map_of (map (apsnd meaning) (e # es))"
    by (simp add: e del: map_of.simps list.map)
  then show ?case
    by blast
qed simp

end

text \<open>Keys and values as the parser passes them.\<close>

definition put_node :: "('d \<Rightarrow> string) \<Rightarrow> string \<Rightarrow> 'd \<Rightarrow> 'd CONFIG_BTREE \<Rightarrow> 'd CONFIG_BTREE result" where
  "put_node img key d t = bindr (config_btree_insert_node img key (length key) d t) (\<lambda>(_, t). Inr t)"

interpretation tree_store: config_store "put_node img" btree_map btree_ok "\<lambda>d. d" "\<lambda>_ _. True" for img :: "'d \<Rightarrow> string"
proof
  fix t :: "'d CONFIG_BTREE" and key d
  assume "btree_ok t" and fit: "key_fits key (btree_map t)"
  moreover have "sized key (length key) = key"
    by (simp add: sized_def c_string_def)
  ultimately show "\<exists>t'. put_node img key d t = Inr t' \<and> btree_ok t' \<and> btree_map t' = (btree_map t)(key \<mapsto> d)"
    using insert_node_fits [of t key "length key" img d] by (auto simp: put_node_def)
qed

end
