(* ===== verification/Config_File.thy ===== *)
theory Config_File
  imports Config_Tree
begin

text \<open>
  The rest of \<open>confile.c\<close>: the parser of a settings text, the functions that read and write settings, and saving.
  A configuration is a tree of sections, whose data are trees of values; a value is the bytes up to its
  terminating zero.

  \<^item> The parser calls one function per character from a table of 256; \<open>action\<close> is that table.  It reads the text through
    positions; every access outside of the text is a fault.
  \<^item> \<open>section_name\<close> has 64 bytes.  A name of 64 or extra bytes overruns it or leaves it without a zero, which the following
    \<open>strlen\<close> then reads past.
  \<^item> A section node's data is the address of its tree; no comparison reads that far, because section names are C strings.
\<close>

section \<open>Sections\<close>

type_synonym Section = "string CONFIG_BTREE"
type_synonym INI_CONFIG = "Section CONFIG_BTREE"

definition config_btree_insert_section :: "INI_CONFIG \<Rightarrow> string \<Rightarrow> (int \<times> INI_CONFIG) result" where
  "config_btree_insert_section config section_name =
     bindr (config_btree_insert_node (\<lambda>_. []) section_name 0 config_btree_create config) (\<lambda>(rc, config).
       Inr (if rc \<noteq> 0 then 1 else 0, config))"

definition config_btree_get_section :: "INI_CONFIG \<Rightarrow> string \<Rightarrow> Section option" where
  "config_btree_get_section config section_name = config_btree_find_node config section_name"

definition put_section :: "string \<Rightarrow> Section \<Rightarrow> INI_CONFIG \<Rightarrow> INI_CONFIG" where
  "put_section section_name sect config = config\<lparr>bt_root := put_at section_name sect (bt_root config)\<rparr>"

definition config_btree_insert_section_node ::
    "INI_CONFIG \<Rightarrow> string \<Rightarrow> string \<Rightarrow> nat \<Rightarrow> string \<Rightarrow> nat \<Rightarrow> (int \<times> INI_CONFIG) result" where
  "config_btree_insert_section_node config section_name key key_len data data_len =
    (case config_btree_find_node config section_name of
       None \<Rightarrow> Inr (0, config)
     | Some sect \<Rightarrow>
         bindr (config_btree_insert_node (\<lambda>d. d) key key_len (sized data data_len) sect) (\<lambda>(rc, sect).
           Inr (rc, put_section section_name sect config)))"

section \<open>The parser\<close>

datatype parse_status = GET_KEY_OR_SECTION | GET_SECTION | GET_VALUE | COMMENT_LINE

record PARSER =
  pa_status :: parse_status
  pa_pos :: nat
  pa_start1 :: nat
  pa_end1 :: nat
  pa_start2 :: nat
  pa_row :: nat
  pa_col :: nat
  pa_str :: string
  pa_config :: INI_CONFIG
  pa_section_name :: string

definition MAX_SECTION_SIZE :: nat where
  "MAX_SECTION_SIZE = 64"

text \<open>\<open>mem_trim\<close> on the \<open>len\<close> bytes at \<open>src\<close>: the text without blanks at its ends; null, here \<open>None\<close>, when nothing is left.\<close>

definition is_blank :: "char \<Rightarrow> bool" where
  "is_blank c \<longleftrightarrow> c \<in> {CHR '' '', CHR 0x0D, CHR 0x0A}"

definition mem_trim :: "string \<Rightarrow> nat \<Rightarrow> string option result" where
  "mem_trim src len =
    (if len = 0 then Inr None
     else if length src < len then Inl OutOfBounds
     else
       let p = dropWhile is_blank (take len src);
           p = rev (dropWhile is_blank (rev p))
       in Inr (if p = [] then None else Some p))"

definition advance :: "PARSER \<Rightarrow> PARSER" where
  "advance pa = pa\<lparr>pa_pos := pa_pos pa + 1, pa_col := pa_col pa + 1\<rparr>"

definition parser_default_action :: "PARSER \<Rightarrow> int \<times> PARSER" where
  "parser_default_action pa = (1, advance pa)"

definition parse_default_gbk_action :: "PARSER \<Rightarrow> int \<times> PARSER" where
  "parse_default_gbk_action pa = (1, pa\<lparr>pa_pos := pa_pos pa + 2, pa_col := pa_col pa + 2\<rparr>)"

definition parser_on_section_start :: "PARSER \<Rightarrow> int \<times> PARSER" where
  "parser_on_section_start pa =
     (1, advance (if pa_status pa = GET_KEY_OR_SECTION
                  then pa\<lparr>pa_start1 := pa_pos pa + 1, pa_status := GET_SECTION\<rparr> else pa))"

definition parser_on_section_end :: "PARSER \<Rightarrow> (int \<times> PARSER) result" where
  "parser_on_section_end pa =
    (if pa_status pa = GET_SECTION then
       bindr (mem_trim (drop (pa_start1 pa) (pa_str pa)) (pa_pos pa - pa_start1 pa)) (\<lambda>p.
         case p of
           None \<Rightarrow> Inr (0, pa\<lparr>pa_section_name := []\<rparr>)
         | Some name \<Rightarrow>
             if MAX_SECTION_SIZE \<le> length name then Inl OutOfBounds
             else
               bindr (config_btree_insert_section (pa_config pa) (c_string name)) (\<lambda>(r, config).
                 let pa = pa\<lparr>pa_section_name := c_string name, pa_config := config\<rparr> in
                 if r = 0 then Inr (0, pa)
                 else Inr (1, advance (pa\<lparr>pa_status := GET_KEY_OR_SECTION, pa_start1 := pa_pos pa + 1\<rparr>))))
     else Inr (1, advance pa))"

definition parser_on_value_start :: "PARSER \<Rightarrow> int \<times> PARSER" where
  "parser_on_value_start pa =
     (1, advance (if pa_status pa = GET_KEY_OR_SECTION
                  then pa\<lparr>pa_status := GET_VALUE, pa_end1 := pa_pos pa, pa_start2 := pa_pos pa + 1\<rparr> else pa))"

definition next_line :: "PARSER \<Rightarrow> PARSER" where
  "next_line pa = pa\<lparr>pa_start1 := pa_pos pa + 1, pa_status := GET_KEY_OR_SECTION, pa_pos := pa_pos pa + 1, pa_col := 1, pa_row := pa_row pa + 1\<rparr>"

definition parser_on_new_line :: "PARSER \<Rightarrow> (int \<times> PARSER) result" where
  "parser_on_new_line pa =
    (case pa_status pa of
       COMMENT_LINE \<Rightarrow> Inr (1, next_line pa)
     | GET_VALUE \<Rightarrow>
         bindr (mem_trim (drop (pa_start1 pa) (pa_str pa)) (pa_end1 pa - pa_start1 pa)) (\<lambda>k.
         bindr (mem_trim (drop (pa_start2 pa) (pa_str pa)) (pa_pos pa - pa_start2 pa)) (\<lambda>v.
           case k of
             None \<Rightarrow> Inr (0, pa)
           | Some k \<Rightarrow>
               let v = (case v of None \<Rightarrow> [] | Some v \<Rightarrow> v) in
               bindr (config_btree_insert_section_node (pa_config pa) (pa_section_name pa) k (length k) v (length v)) (\<lambda>(r, config).
                 if r = 0 then Inr (0, pa) else Inr (1, next_line (pa\<lparr>pa_config := config\<rparr>)))))
     | GET_KEY_OR_SECTION \<Rightarrow> Inr (1, next_line pa)
     | GET_SECTION \<Rightarrow> Inr (0, pa))"

definition parser_on_comment :: "PARSER \<Rightarrow> int \<times> PARSER" where
  "parser_on_comment pa = (1, advance (if pa_col pa = 1 then pa\<lparr>pa_status := COMMENT_LINE\<rparr> else pa))"

text \<open>The table: with \<open>isGBK\<close> the first loop stops before 127, so that this entry stays uninitialised.\<close>

definition action :: "bool \<Rightarrow> char \<Rightarrow> PARSER \<Rightarrow> (int \<times> PARSER) result" where
  "action isGBK c pa =
    (if c = CHR ''['' then Inr (parser_on_section_start pa)
     else if c = CHR '']'' then parser_on_section_end pa
     else if c = CHR ''='' then Inr (parser_on_value_start pa)
     else if c = CHR 0x0A then parser_on_new_line pa
     else if c = CHR '';'' then Inr (parser_on_comment pa)
     else if \<not> isGBK then Inr (parser_default_action pa)
     else if of_char c < (127 :: nat) then Inr (parser_default_action pa)
     else if of_char c = (127 :: nat) then Inl Unspecified
     else Inr (parse_default_gbk_action pa))"

lemma advance_pos [simp]: "pa_pos (advance pa) = Suc (pa_pos pa)" "pa_pos (next_line pa) = Suc (pa_pos pa)"
  by (simp_all add: advance_def next_line_def)

lemma action_progress: "action isGBK c pa = Inr (r, pa') \<Longrightarrow> r \<noteq> 0 \<Longrightarrow> pa_pos pa < pa_pos pa'"
  by (auto simp: action_def parser_on_section_start_def parser_on_section_end_def parser_on_value_start_def parser_on_new_line_def
      parser_on_comment_def parser_default_action_def parse_default_gbk_action_def bindr_Inr_iff Let_def
      split: if_splits option.splits parse_status.splits prod.splits)

lemma bindr_cong [fundef_cong]: "r = r' \<Longrightarrow> (\<And>x. r' = Inr x \<Longrightarrow> f x = g x) \<Longrightarrow> bindr r f = bindr r' g"
  by (cases r') simp_all

text \<open>The main loop: \<open>None\<close> when an action reports an error.\<close>

function parse_loop :: "bool \<Rightarrow> nat \<Rightarrow> PARSER \<Rightarrow> PARSER option result" where
  "parse_loop isGBK slen pa =
    (if pa_pos pa < slen then
       (if length (pa_str pa) \<le> pa_pos pa then Inl OutOfBounds
        else bindr (action isGBK (pa_str pa ! pa_pos pa) pa) (\<lambda>(r, pa). if r = 0 then Inr None else parse_loop isGBK slen pa))
     else Inr (Some pa))"
  by pat_completeness auto
termination
  by (relation "measure (\<lambda>(g, slen, pa). slen - pa_pos pa)") (auto dest!: action_progress)

declare parse_loop.simps [simp del]

definition parser_init :: "string \<Rightarrow> INI_CONFIG \<Rightarrow> PARSER" where
  "parser_init str config =
     \<lparr>pa_status = GET_KEY_OR_SECTION, pa_pos = 0, pa_start1 = 0, pa_end1 = 0, pa_start2 = 0, pa_row = 1, pa_col = 1, pa_str = str,
      pa_config = config, pa_section_name = ''default''\<rparr>"

definition ini_config_create_from_string :: "string \<Rightarrow> nat \<Rightarrow> bool \<Rightarrow> INI_CONFIG option result" where
  "ini_config_create_from_string str slen isGBK =
    (if slen = 0 \<and> CHR 0x00 \<notin> set str then Inl OutOfBounds
     else
       let slen = (if slen = 0 then length (c_string str) else slen) in
       bindr (config_btree_insert_section config_btree_create ''default'') (\<lambda>(r, config).
         if r = 0 then Inr None
         else
           bindr (parse_loop isGBK slen (parser_init str config)) (\<lambda>pa.
             case pa of
               None \<Rightarrow> Inr None
             | Some pa \<Rightarrow> bindr (parser_on_new_line pa) (\<lambda>(r, pa). Inr (if r = 0 then None else Some (pa_config pa))))))"

text \<open>\<open>file\<close> is what \<open>stat\<close> finds, \<open>opens\<close> whether \<open>fopen\<close> succeeds.\<close>

definition ini_config_create_from_file :: "string option \<Rightarrow> bool \<Rightarrow> bool \<Rightarrow> INI_CONFIG option result" where
  "ini_config_create_from_file file opens isGBK =
    (case file of
       None \<Rightarrow> Inr None
     | Some buf \<Rightarrow> if \<not> opens then Inr None else ini_config_create_from_string buf (length buf) isGBK)"

section \<open>Reading and writing settings\<close>

text \<open>\<open>atoi\<close> of the C library; a number that is no \<open>int\<close> has no defined result.\<close>

definition is_space :: "char \<Rightarrow> bool" where
  "is_space c \<longleftrightarrow> c \<in> {CHR '' '', CHR 0x09, CHR 0x0A, CHR 0x0B, CHR 0x0C, CHR 0x0D}"

definition c_atoi :: "string \<Rightarrow> int result" where
  "c_atoi s =
    (let s = dropWhile is_space s;
         (sign, s) = (case s of c # cs \<Rightarrow> if c = CHR ''-'' then (-1, cs) else if c = CHR ''+'' then (1, cs) else (1, s) | [] \<Rightarrow> (1, s));
         v = sign * foldl (\<lambda>n c. n * 10 + digit_val c) 0 (takeWhile is_digit s)
     in if is_int32 v then Inr v else Inl Unspecified)"

definition section_or_default :: "string option \<Rightarrow> string" where
  "section_or_default sect = (case sect of None \<Rightarrow> ''default'' | Some s \<Rightarrow> s)"

definition ini_config_get_int :: "INI_CONFIG \<Rightarrow> string option \<Rightarrow> string \<Rightarrow> int \<Rightarrow> int result" where
  "ini_config_get_int config sect key default_int =
    (case config_btree_get_section config (section_or_default sect) of
       None \<Rightarrow> Inr default_int
     | Some sec \<Rightarrow>
         (case config_btree_find_node sec key of
            None \<Rightarrow> Inr default_int
          | Some data \<Rightarrow> c_atoi (c_string data)))"

definition ini_config_get_string :: "INI_CONFIG \<Rightarrow> string option \<Rightarrow> string \<Rightarrow> string option \<Rightarrow> string option" where
  "ini_config_get_string config sect key default_string =
    (case config_btree_get_section config (section_or_default sect) of
       None \<Rightarrow> default_string
     | Some sec \<Rightarrow>
         (case config_btree_find_node sec key of
            None \<Rightarrow> default_string
          | Some data \<Rightarrow> Some (c_string data)))"

definition ini_config_set_string :: "INI_CONFIG \<Rightarrow> string option \<Rightarrow> string \<Rightarrow> nat \<Rightarrow> string \<Rightarrow> nat \<Rightarrow> (int \<times> INI_CONFIG) result" where
  "ini_config_set_string config sect key key_len val val_len =
    (let name = section_or_default sect in
     bindr (case config_btree_get_section config name of
              Some _ \<Rightarrow> Inr (1, config)
            | None \<Rightarrow> config_btree_insert_section config name) (\<lambda>(r, config).
       if r = 0 then Inr (0, config)
       else
         case config_btree_get_section config name of
           None \<Rightarrow> Inl NullDeref
         | Some sect \<Rightarrow>
             bindr (config_btree_insert_node (\<lambda>d. d) key key_len (sized val val_len) sect) (\<lambda>(rc, sect).
               Inr (rc, put_section name sect config))))"

definition ini_config_set_int :: "INI_CONFIG \<Rightarrow> string option \<Rightarrow> string \<Rightarrow> nat \<Rightarrow> int \<Rightarrow> (int \<times> INI_CONFIG) result" where
  "ini_config_set_int config sect key key_len val =
     ini_config_set_string config sect key key_len (show_int val) (length (show_int val))"

section \<open>Saving\<close>

definition save_traverse_value :: "string \<Rightarrow> string \<Rightarrow> string \<Rightarrow> int \<times> string" where
  "save_traverse_value key data fp = (1, fp @ c_string key @ CHR ''='' # c_string data @ [CHR 0x0A])"

definition save_traverse_section :: "string \<Rightarrow> Section \<Rightarrow> string \<Rightarrow> int \<times> string" where
  "save_traverse_section name sect fp =
     (1, snd (inorder_traverse save_traverse_value (bt_root sect) (fp @ CHR ''['' # c_string name @ [CHR '']'', CHR 0x0A])))"

text \<open>What \<open>ini_config_save\<close> and \<open>ini_config_print\<close> write.\<close>

definition ini_config_print :: "INI_CONFIG \<Rightarrow> string" where
  "ini_config_print config = snd (inorder_traverse save_traverse_section (bt_root config) [])"

definition ini_config_save :: "INI_CONFIG \<Rightarrow> bool \<Rightarrow> int \<times> string option" where
  "ini_config_save config opens = (if opens then (1, Some (ini_config_print config)) else (0, None))"

section \<open>The parser, line by line\<close>

text \<open>The specification: a text is a list of lines, and a line acts on the configuration and the name of the current section.\<close>

definition trim :: "string \<Rightarrow> string" where
  "trim s = rev (dropWhile is_blank (rev (dropWhile is_blank s)))"

datatype ini_line = SectionLine string string | ValueLine string string | OtherLine string

fun line_text :: "ini_line \<Rightarrow> string" where
  "line_text (SectionLine name rest) = CHR ''['' # name @ CHR '']'' # rest"
| "line_text (ValueLine key val) = key @ CHR ''='' # val"
| "line_text (OtherLine s) = s"

definition lines_text :: "ini_line list \<Rightarrow> string" where
  "lines_text ls = concat (map (\<lambda>l. line_text l @ [CHR 0x0A]) ls)"

definition no_setting :: "string \<Rightarrow> bool" where
  "no_setting s \<longleftrightarrow> set s \<inter> {CHR ''['', CHR ''='', CHR 0x0A} = {}"

fun line_ok :: "ini_line \<Rightarrow> bool" where
  "line_ok (SectionLine name rest) \<longleftrightarrow> set name \<inter> {CHR '']'', CHR 0x0A} = {} \<and> no_setting rest"
| "line_ok (ValueLine key val) \<longleftrightarrow> no_setting key \<and> (key \<noteq> [] \<longrightarrow> hd key \<noteq> CHR '';'') \<and> CHR 0x0A \<notin> set val"
| "line_ok (OtherLine s) \<longleftrightarrow> (s \<noteq> [] \<and> hd s = CHR '';'' \<and> CHR 0x0A \<notin> set s) \<or> no_setting s"

fun apply_line :: "ini_line \<Rightarrow> INI_CONFIG \<times> string \<Rightarrow> (INI_CONFIG \<times> string) option result" where
  "apply_line (SectionLine name rest) (config, _) =
     (if trim name = [] then Inr None
      else if MAX_SECTION_SIZE \<le> length (trim name) then Inl OutOfBounds
      else bindr (config_btree_insert_section config (c_string (trim name))) (\<lambda>(_, config). Inr (Some (config, c_string (trim name)))))"
| "apply_line (ValueLine key val) (config, name) =
     (if trim key = [] then Inr None
      else
        bindr (config_btree_insert_section_node config name (trim key) (length (trim key)) (trim val) (length (trim val))) (\<lambda>(r, config).
          Inr (if r = 0 then None else Some (config, name))))"
| "apply_line (OtherLine s) st = Inr (Some st)"

fun apply_lines :: "ini_line list \<Rightarrow> INI_CONFIG \<times> string \<Rightarrow> (INI_CONFIG \<times> string) option result" where
  "apply_lines [] st = Inr (Some st)"
| "apply_lines (l # ls) st = bindr (apply_line l st) (\<lambda>r. case r of None \<Rightarrow> Inr None | Some st \<Rightarrow> apply_lines ls st)"

lemma mem_trim_slice: "mem_trim (s @ rest) (length s) = Inr (if trim s = [] then None else Some (trim s))"
  by (auto simp: mem_trim_def trim_def Let_def)

lemma insert_section_code:
  "config_btree_insert_section config name = Inr (r, config') \<Longrightarrow> r = 1"
proof -
  have "insert_at img key d t = Inr (rc, t') \<Longrightarrow> rc = 1 \<or> rc = 2" for img key and d :: Section and t rc t'
    by (induction t arbitrary: rc t') (auto simp: bindr_Inr_iff split: if_splits)
  then show "config_btree_insert_section config name = Inr (r, config') \<Longrightarrow> r = 1"
    by (fastforce simp: config_btree_insert_section_def config_btree_insert_node_def bindr_Inr_iff split: if_splits)
qed

definition quiet :: "parse_status \<Rightarrow> char \<Rightarrow> bool" where
  "quiet st c \<longleftrightarrow> c \<noteq> CHR 0x0A \<and> (st = GET_KEY_OR_SECTION \<longrightarrow> c \<noteq> CHR ''['' \<and> c \<noteq> CHR ''='') \<and> (st = GET_SECTION \<longrightarrow> c \<noteq> CHR '']'')"

lemma action_quiet: "quiet (pa_status pa) c \<Longrightarrow> c = CHR '';'' \<longrightarrow> pa_col pa \<noteq> 1 \<or> pa_status pa = COMMENT_LINE \<Longrightarrow> action False c pa = Inr (1, advance pa)"
  by (cases pa) (auto simp: quiet_def action_def parser_on_section_start_def parser_on_section_end_def parser_on_value_start_def
      parser_on_comment_def parser_default_action_def)

lemma loop_step:
  assumes "drop (pa_pos pa) (pa_str pa) = c # rest" and "slen = length (pa_str pa)"
  shows "parse_loop g slen pa = bindr (action g c pa) (\<lambda>(r, pa). if r = 0 then Inr None else parse_loop g slen pa)"
proof -
  have "pa_pos pa < length (pa_str pa)"
    using assms(1) by (metis drop_all list.distinct(1) not_less)
  moreover from this have "pa_str pa ! pa_pos pa = c"
    using assms(1) by (metis hd_drop_conv_nth list.sel(1))
  ultimately show ?thesis
    using assms(2) by (subst parse_loop.simps) simp
qed

lemma loop_quiet:
  assumes "drop (pa_pos pa) (pa_str pa) = w @ rest" and "list_all (quiet (pa_status pa)) w" and "pa_col pa \<ge> 1"
    and "w \<noteq> [] \<longrightarrow> hd w = CHR '';'' \<longrightarrow> pa_col pa \<noteq> 1 \<or> pa_status pa = COMMENT_LINE"
  shows "parse_loop False (length (pa_str pa)) pa =
    parse_loop False (length (pa_str pa)) (pa\<lparr>pa_pos := pa_pos pa + length w, pa_col := pa_col pa + length w\<rparr>)"
  using assms
proof (induction w arbitrary: pa)
  case (Cons c w)
  have act: "action False c pa = Inr (1, advance pa)"
    using Cons.prems by (intro action_quiet) auto
  have "drop (Suc (pa_pos pa)) (pa_str pa) = w @ rest"
    using Cons.prems(1) by (metis append_Cons drop_Suc list.sel(3) tl_drop)
  then have "parse_loop False (length (pa_str pa)) (advance pa) =
      parse_loop False (length (pa_str pa)) ((advance pa)\<lparr>pa_pos := pa_pos (advance pa) + length w, pa_col := pa_col (advance pa) + length w\<rparr>)"
    using Cons.IH [of "advance pa"] Cons.prems(2,3) by (simp add: advance_def)
  then show ?case
    using loop_step [of pa c "w @ rest" "length (pa_str pa)" False] Cons.prems(1) act by (simp add: advance_def)
qed simp

definition at_line :: "string \<Rightarrow> nat \<Rightarrow> INI_CONFIG \<Rightarrow> string \<Rightarrow> PARSER \<Rightarrow> bool" where
  "at_line str p config name pa \<longleftrightarrow> pa_status pa = GET_KEY_OR_SECTION \<and> pa_pos pa = p \<and> pa_start1 pa = p \<and> pa_col pa = 1 \<and>
     pa_str pa = str \<and> pa_config pa = config \<and> pa_section_name pa = name"

lemma drop_later: "drop p str = w @ rest \<Longrightarrow> drop (p + length w) str = rest"
  by (metis append_eq_conv_conj drop_drop add.commute)

lemma loop_new_line:
  assumes "pa_status pa = GET_KEY_OR_SECTION \<or> pa_status pa = COMMENT_LINE" and "drop (pa_pos pa) (pa_str pa) = CHR 0x0A # rest"
  shows "parse_loop False (length (pa_str pa)) pa = parse_loop False (length (pa_str pa)) (next_line pa)"
    and "at_line (pa_str pa) (Suc (pa_pos pa)) (pa_config pa) (pa_section_name pa) (next_line pa)"
proof -
  show "parse_loop False (length (pa_str pa)) pa = parse_loop False (length (pa_str pa)) (next_line pa)"
    using loop_step [OF assms(2) refl, of False] assms(1) by (auto simp: action_def parser_on_new_line_def)
  show "at_line (pa_str pa) (Suc (pa_pos pa)) (pa_config pa) (pa_section_name pa) (next_line pa)"
    by (simp add: at_line_def next_line_def)
qed

text \<open>The rest of a line without settings, from the first or a later column on.\<close>

lemma loop_rest:
  assumes "pa_status pa = GET_KEY_OR_SECTION \<or> pa_status pa = COMMENT_LINE" and "drop (pa_pos pa) (pa_str pa) = w @ CHR 0x0A # rest"
    and "list_all (quiet (pa_status pa)) w" and "pa_col pa \<ge> 1" and "w \<noteq> [] \<longrightarrow> hd w = CHR '';'' \<longrightarrow> pa_col pa \<noteq> 1 \<or> pa_status pa = COMMENT_LINE"
  shows "\<exists>pa'. parse_loop False (length (pa_str pa)) pa = parse_loop False (length (pa_str pa)) pa' \<and>
    at_line (pa_str pa) (pa_pos pa + length w + 1) (pa_config pa) (pa_section_name pa) pa'"
proof -
  let ?pa = "pa\<lparr>pa_pos := pa_pos pa + length w, pa_col := pa_col pa + length w\<rparr>"
  have d: "drop (pa_pos ?pa) (pa_str ?pa) = CHR 0x0A # rest"
    using drop_later [OF assms(2)] by simp
  have st: "pa_status ?pa = GET_KEY_OR_SECTION \<or> pa_status ?pa = COMMENT_LINE"
    using assms(1) by simp
  show ?thesis
    using loop_quiet [OF assms(2-5)] loop_new_line [OF st d] by (intro exI [of _ "next_line ?pa"]) simp
qed

lemma line_other:
  assumes "at_line str p config name pa" and "line_ok (OtherLine s)" and "drop p str = s @ CHR 0x0A # rest"
  shows "\<exists>pa'. parse_loop False (length str) pa = parse_loop False (length str) pa' \<and> at_line str (p + length s + 1) config name pa'"
proof (cases "s \<noteq> [] \<and> hd s = CHR '';''")
  case True
  then obtain w where s: "s = CHR '';'' # w"
    by (cases s) auto
  let ?pa = "advance (pa\<lparr>pa_status := COMMENT_LINE\<rparr>)"
  have "parse_loop False (length str) pa = parse_loop False (length str) ?pa"
    using loop_step [of pa "CHR '';''" "w @ CHR 0x0A # rest" "length str" False] assms(1,3) s
    by (simp add: at_line_def action_def parser_on_comment_def)
  moreover have "drop (Suc p) str = w @ CHR 0x0A # rest"
    using drop_later [of p str "[CHR '';'']"] assms(3) s by simp
  moreover have "list_all (quiet COMMENT_LINE) w"
    using assms(2) s by (auto simp: quiet_def no_setting_def list_all_iff)
  ultimately show ?thesis
    using loop_rest [of ?pa w rest] assms(1) s by (simp add: at_line_def advance_def)
next
  case False
  then have "no_setting s"
    using assms(2) by auto
  then have "list_all (quiet GET_KEY_OR_SECTION) s"
    by (auto simp: quiet_def no_setting_def list_all_iff)
  then show ?thesis
    using loop_rest [of pa s rest] assms(1,3) False by (auto simp: at_line_def)
qed

lemma line_section:
  assumes "at_line str p config name0 pa" and "line_ok (SectionLine name extra)" and "drop p str = line_text (SectionLine name extra) @ CHR 0x0A # rest"
  shows "case apply_line (SectionLine name extra) (config, name0) of
      Inl e \<Rightarrow> parse_loop False (length str) pa = Inl e
    | Inr None \<Rightarrow> parse_loop False (length str) pa = Inr None
    | Inr (Some (config', name')) \<Rightarrow> \<exists>pa'. parse_loop False (length str) pa = parse_loop False (length str) pa' \<and>
        at_line str (p + length (line_text (SectionLine name extra)) + 1) config' name' pa'"
proof -
  have pa: "pa_status pa = GET_KEY_OR_SECTION" "pa_pos pa = p" "pa_start1 pa = p" "pa_col pa = 1" "pa_str pa = str" "pa_config pa = config"
    using assms(1) by (simp_all add: at_line_def)
  let ?tail = "CHR '']'' # extra @ CHR 0x0A # rest"
  let ?pa1 = "advance (pa\<lparr>pa_start1 := p + 1, pa_status := GET_SECTION\<rparr>)"
  define pa2 where "pa2 = ?pa1\<lparr>pa_pos := pa_pos ?pa1 + length name, pa_col := pa_col ?pa1 + length name\<rparr>"
  have d0: "drop p str = CHR ''['' # name @ ?tail"
    using assms(3) by simp
  then have d1: "drop (pa_pos ?pa1) (pa_str ?pa1) = name @ ?tail"
    using drop_later [of p str "[CHR ''['']" "name @ ?tail"] pa by (simp add: advance_def)
  then have d2: "drop (pa_pos pa2) (pa_str pa2) = ?tail"
    using drop_later [of "pa_pos ?pa1" "pa_str ?pa1" name ?tail] by (simp add: pa2_def)
  have "parse_loop False (length str) pa = parse_loop False (length str) ?pa1"
    using loop_step [of pa "CHR ''[''" "name @ ?tail" "length str" False] d0 pa by (simp add: action_def parser_on_section_start_def)
  moreover have "list_all (quiet (pa_status ?pa1)) name"
    using assms(2) by (auto simp: quiet_def list_all_iff advance_def)
  then have "parse_loop False (length str) ?pa1 = parse_loop False (length str) pa2"
    using loop_quiet [OF d1] pa by (simp add: advance_def pa2_def)
  moreover have trim: "mem_trim (drop (Suc p) str) (length name) = Inr (if trim name = [] then None else Some (trim name))"
    using d1 mem_trim_slice [of name ?tail] pa by (simp add: advance_def pa2_def)
  ultimately have run: "parse_loop False (length str) pa = bindr (parser_on_section_end pa2) (\<lambda>(r, pa). if r = 0 then Inr None else parse_loop False (length str) pa)"
    using loop_step [OF d2, of "length str" False] pa by (simp add: action_def advance_def pa2_def)
  have st: "pa_status pa2 = GET_SECTION" "pa_config pa2 = config" "pa_str pa2 = str" "pa_pos pa2 = p + 1 + length name" "pa_start1 pa2 = Suc p" "pa_col pa2 \<ge> 1"
    using pa by (simp_all add: advance_def pa2_def)
  show ?thesis
  proof (cases "config_btree_insert_section config (c_string (trim name))")
    case (Inl e)
    then show ?thesis
      unfolding run by (simp add: parser_on_section_end_def st trim)
  next
    case (Inr rc)
    then obtain config' where ins: "config_btree_insert_section config (c_string (trim name)) = Inr (1, config')"
      using insert_section_code by (metis surj_pair)
    let ?pa3 = "advance (pa2\<lparr>pa_section_name := c_string (trim name), pa_config := config', pa_status := GET_KEY_OR_SECTION, pa_start1 := pa_pos pa2 + 1\<rparr>)"
    have d3: "drop (pa_pos ?pa3) (pa_str ?pa3) = extra @ CHR 0x0A # rest"
      using drop_later [of "pa_pos pa2" "pa_str pa2" "[CHR '']'']" "extra @ CHR 0x0A # rest"] d2 by (simp add: advance_def)
    have q: "list_all (quiet (pa_status ?pa3)) extra"
      using assms(2) by (auto simp: quiet_def no_setting_def list_all_iff advance_def)
    have "\<exists>pa'. parse_loop False (length str) ?pa3 = parse_loop False (length str) pa' \<and>
        at_line str (pa_pos ?pa3 + length extra + 1) config' (c_string (trim name)) pa'"
      using loop_rest [OF _ d3 q] st by (simp add: advance_def)
    moreover have "pa_pos ?pa3 + length extra + 1 = p + length (line_text (SectionLine name extra)) + 1"
      using st by simp
    ultimately show ?thesis
      using ins unfolding run by (simp add: parser_on_section_end_def st trim add.assoc)
  qed
qed

lemma line_value:
  assumes "at_line str p config name pa" and "line_ok (ValueLine key val)" and "drop p str = line_text (ValueLine key val) @ CHR 0x0A # rest"
  shows "case apply_line (ValueLine key val) (config, name) of
      Inl e \<Rightarrow> parse_loop False (length str) pa = Inl e
    | Inr None \<Rightarrow> parse_loop False (length str) pa = Inr None
    | Inr (Some (config', name')) \<Rightarrow> \<exists>pa'. parse_loop False (length str) pa = parse_loop False (length str) pa' \<and>
        at_line str (p + length (line_text (ValueLine key val)) + 1) config' name' pa'"
proof -
  have pa: "pa_status pa = GET_KEY_OR_SECTION" "pa_pos pa = p" "pa_start1 pa = p" "pa_col pa = 1" "pa_str pa = str" "pa_config pa = config"
      "pa_section_name pa = name"
    using assms(1) by (simp_all add: at_line_def)
  let ?tail = "CHR ''='' # val @ CHR 0x0A # rest"
  define pa1 where "pa1 = pa\<lparr>pa_pos := pa_pos pa + length key, pa_col := pa_col pa + length key\<rparr>"
  define pa2 where "pa2 = advance (pa1\<lparr>pa_status := GET_VALUE, pa_end1 := pa_pos pa1, pa_start2 := pa_pos pa1 + 1\<rparr>)"
  define pa3 where "pa3 = pa2\<lparr>pa_pos := pa_pos pa2 + length val, pa_col := pa_col pa2 + length val\<rparr>"
  have st1: "pa_status pa1 = GET_KEY_OR_SECTION" "pa_pos pa1 = p + length key" "pa_str pa1 = str"
    using pa by (simp_all add: pa1_def)
  have st2: "pa_status pa2 = GET_VALUE" "pa_pos pa2 = p + length key + 1" "pa_str pa2 = str" "pa_col pa2 > 1"
    using pa by (simp_all add: pa1_def pa2_def advance_def)
  have st3: "pa_status pa3 = GET_VALUE" "pa_pos pa3 = p + length key + 1 + length val" "pa_str pa3 = str" "pa_start1 pa3 = p"
      "pa_end1 pa3 = p + length key" "pa_start2 pa3 = p + length key + 1" "pa_config pa3 = config" "pa_section_name pa3 = name"
    using pa by (simp_all add: pa1_def pa2_def pa3_def advance_def)
  have d0: "drop p str = key @ ?tail"
    using assms(3) by simp
  have d1: "drop (p + length key) str = ?tail"
    using drop_later [OF d0] .
  have d2: "drop (p + length key + 1) str = val @ CHR 0x0A # rest"
    using drop_later [of "p + length key" str "[CHR ''='']"] d1 by simp
  have d3: "drop (p + length key + 1 + length val) str = CHR 0x0A # rest"
    using drop_later [OF d2] .
  have "list_all (quiet (pa_status pa)) key"
    using assms(2) pa by (auto simp: quiet_def no_setting_def list_all_iff)
  then have "parse_loop False (length str) pa = parse_loop False (length str) pa1"
    using loop_quiet [of pa key ?tail] d0 assms(2) pa by (auto simp: pa1_def)
  moreover have "parse_loop False (length str) pa1 = parse_loop False (length str) pa2"
    using loop_step [of pa1 "CHR ''=''" "val @ CHR 0x0A # rest" "length str" False] d1 st1
    by (simp add: action_def parser_on_value_start_def pa2_def)
  moreover have "parse_loop False (length str) pa2 = parse_loop False (length str) pa3"
  proof -
    have "list_all (quiet (pa_status pa2)) val"
      using assms(2) st2 by (auto simp: quiet_def list_all_iff)
    then show ?thesis
      using loop_quiet [of pa2 val "CHR 0x0A # rest"] d2 st2 by (simp add: pa3_def)
  qed
  ultimately have to3: "parse_loop False (length str) pa = parse_loop False (length str) pa3"
    by simp
  have run: "parse_loop False (length str) pa =
      bindr (parser_on_new_line pa3) (\<lambda>(r, pa). if r = 0 then Inr None else parse_loop False (length str) pa)"
  proof -
    have d3': "drop (pa_pos pa3) (pa_str pa3) = CHR 0x0A # rest"
      unfolding st3(2,3) by (rule d3)
    have len: "length str = length (pa_str pa3)" and act: "action False (CHR 0x0A) pa3 = parser_on_new_line pa3"
      by (simp_all add: st3(3) action_def)
    show ?thesis
      by (simp only: to3 loop_step [OF d3' len] act)
  qed
  have k: "mem_trim (drop p str) (length key) = Inr (if trim key = [] then None else Some (trim key))"
    using d0 mem_trim_slice [of key ?tail] by simp
  have v: "mem_trim (drop (Suc (p + length key)) str) (length val) = Inr (if trim val = [] then None else Some (trim val))"
    using d2 mem_trim_slice [of val "CHR 0x0A # rest"] by simp
  let ?ins = "config_btree_insert_section_node config name (trim key) (length (trim key)) (trim val) (length (trim val))"
  have body: "parser_on_new_line pa3 = (if trim key = [] then Inr (0, pa3)
      else bindr ?ins (\<lambda>(r, config). if r = 0 then Inr (0, pa3) else Inr (1, next_line (pa3\<lparr>pa_config := config\<rparr>))))"
    by (cases "trim val = []"; cases "trim key = []") (simp_all add: parser_on_new_line_def st3 k v Let_def)
  show ?thesis
  proof (cases ?ins)
    case (Inl e)
    then show ?thesis
      by (simp add: run body)
  next
    case (Inr rc)
    then obtain r config' where ins: "?ins = Inr (r, config')"
      by (metis surj_pair)
    have "at_line str (p + length (line_text (ValueLine key val)) + 1) config' name (next_line (pa3\<lparr>pa_config := config'\<rparr>))"
      using st3 by (simp add: at_line_def next_line_def)
    with ins show ?thesis
      by (auto simp: run body)
  qed
qed

text \<open>The whole text.\<close>

lemma line_step:
  assumes "at_line str p config name pa" and "line_ok l" and "drop p str = line_text l @ CHR 0x0A # rest"
  shows "case apply_line l (config, name) of
      Inl e \<Rightarrow> parse_loop False (length str) pa = Inl e
    | Inr None \<Rightarrow> parse_loop False (length str) pa = Inr None
    | Inr (Some (config', name')) \<Rightarrow> \<exists>pa'. parse_loop False (length str) pa = parse_loop False (length str) pa' \<and>
        at_line str (p + length (line_text l) + 1) config' name' pa'"
proof (cases l)
  case (OtherLine s)
  then show ?thesis
    using line_other [of str p config name pa s rest] assms by (simp del: line_ok.simps)
qed (use assms line_section line_value in blast)+

lemma parse_lines:
  assumes "list_all line_ok ls" and "at_line str p config name pa" and "drop p str = lines_text ls"
  shows "case apply_lines ls (config, name) of
      Inl e \<Rightarrow> parse_loop False (length str) pa = Inl e
    | Inr None \<Rightarrow> parse_loop False (length str) pa = Inr None
    | Inr (Some (config', name')) \<Rightarrow> \<exists>pa'. parse_loop False (length str) pa = Inr (Some pa') \<and> pa_status pa' = GET_KEY_OR_SECTION \<and> pa_config pa' = config'"
  using assms
proof (induction ls arbitrary: p config name pa)
  case Nil
  then show ?case
    by (simp add: lines_text_def at_line_def parse_loop.simps)
next
  case (Cons l ls)
  have d: "drop p str = line_text l @ CHR 0x0A # lines_text ls"
    using Cons.prems(3) by (simp add: lines_text_def)
  have step: "case apply_line l (config, name) of
      Inl e \<Rightarrow> parse_loop False (length str) pa = Inl e
    | Inr None \<Rightarrow> parse_loop False (length str) pa = Inr None
    | Inr (Some (config', name')) \<Rightarrow> \<exists>pa'. parse_loop False (length str) pa = parse_loop False (length str) pa' \<and>
        at_line str (p + length (line_text l) + 1) config' name' pa'"
    using line_step [OF Cons.prems(2) _ d] Cons.prems(1) by simp
  show ?case
  proof (cases "apply_line l (config, name)")
    case (Inl e)
    then show ?thesis
      using step by simp
  next
    case (Inr r)
    show ?thesis
    proof (cases r)
      case None
      then show ?thesis
        using Inr step by simp
    next
      case (Some st)
      obtain config' name' where st: "st = (config', name')" by fastforce
      obtain pa' where pa': "parse_loop False (length str) pa = parse_loop False (length str) pa'"
          "at_line str (p + length (line_text l) + 1) config' name' pa'"
        using step Inr Some st by auto
      have "drop (p + length (line_text l) + 1) str = lines_text ls"
        using drop_later [of p str "line_text l @ [CHR 0x0A]" "lines_text ls"] d by simp
      then show ?thesis
        using Cons.IH [OF _ pa'(2)] Cons.prems(1) Inr Some st pa'(1) by (simp split: sum.splits option.splits prod.splits)
    qed
  qed
qed

definition empty_config :: INI_CONFIG where
  "empty_config = \<lparr>bt_numNodes = 1, bt_root = Node ''default'' config_btree_create Null Null\<rparr>"

lemma insert_default: "config_btree_insert_section config_btree_create ''default'' = Inr (1, empty_config)"
  by (simp add: config_btree_insert_section_def config_btree_insert_node_def config_btree_create_def config_btree_create_node_def
      empty_config_def sized_def c_string_def)

lemma create_from_lines:
  assumes "list_all line_ok ls" and "ls \<noteq> []"
  shows "ini_config_create_from_string (lines_text ls) (length (lines_text ls)) False =
    bindr (apply_lines ls (empty_config, ''default'')) (\<lambda>r. Inr (map_option fst r))"
proof -
  let ?str = "lines_text ls"
  have "length ?str \<noteq> 0"
    using assms(2) by (cases ls) (simp_all add: lines_text_def)
  then have run: "ini_config_create_from_string ?str (length ?str) False =
      bindr (parse_loop False (length ?str) (parser_init ?str empty_config)) (\<lambda>pa.
        case pa of None \<Rightarrow> Inr None
        | Some pa \<Rightarrow> bindr (parser_on_new_line pa) (\<lambda>(r, pa). Inr (if r = 0 then None else Some (pa_config pa))))"
    by (simp add: ini_config_create_from_string_def insert_default)
  have "at_line ?str 0 empty_config ''default'' (parser_init ?str empty_config)"
    by (simp add: at_line_def parser_init_def)
  from parse_lines [OF assms(1) this] show ?thesis
    by (auto simp: run parser_on_new_line_def next_line_def split: sum.splits option.splits prod.splits)
qed

end
