(* ===== verification/Config_Props.thy ===== *)
theory Config_Props
  imports Config_File
begin

text \<open>
  What the settings file functions promise: the trees are finite maps as long as no key is the beginning of a stored
  one, the parser acts line by line, and a saved configuration reads back with the same settings.
\<close>

section \<open>The settings a configuration holds\<close>

definition config_ok :: "INI_CONFIG \<Rightarrow> bool" where
  "config_ok c \<longleftrightarrow> btree_ok c \<and> (\<forall>s \<in> ran (btree_map c). btree_ok s)"

definition config_view :: "INI_CONFIG \<Rightarrow> string \<rightharpoonup> (string \<rightharpoonup> string)" where
  "config_view c n = map_option btree_map (btree_map c n)"

definition setting :: "INI_CONFIG \<Rightarrow> string option \<Rightarrow> string \<Rightarrow> string option" where
  "setting c sect key = (case config_view c (c_string (section_or_default sect)) of None \<Rightarrow> None | Some m \<Rightarrow> m (c_string key))"

lemma find_at_c_string: "find_at (c_string k) t = find_at k t"
  by (induction t) (simp_all add: Let_def)

lemma find_node_view: "btree_ok t \<Longrightarrow> config_btree_find_node t key = btree_map t (c_string key)"
  using find_node_map [of t "c_string key"] by (simp add: config_btree_find_node_def find_at_c_string)

lemma get_string_setting:
  assumes "config_ok c"
  shows "ini_config_get_string c sect key d = (case setting c sect key of None \<Rightarrow> d | Some v \<Rightarrow> Some (c_string v))"
proof -
  have "btree_ok s" if "btree_map c n = Some s" for n s
    using assms that by (auto simp: config_ok_def ran_def)
  then show ?thesis
    using assms by (auto simp: ini_config_get_string_def config_btree_get_section_def find_node_view config_ok_def setting_def config_view_def
        split: option.splits)
qed

lemma get_int_setting:
  assumes "config_ok c"
  shows "ini_config_get_int c sect key d = (case setting c sect key of None \<Rightarrow> Inr d | Some v \<Rightarrow> c_atoi (c_string v))"
proof -
  have "btree_ok s" if "btree_map c n = Some s" for n s
    using assms that by (auto simp: config_ok_def ran_def)
  then show ?thesis
    using assms by (auto simp: ini_config_get_int_def config_btree_get_section_def find_node_view config_ok_def setting_def config_view_def
        split: option.splits)
qed

section \<open>Filling a configuration\<close>

lemma sized_length [simp]: "sized s (length s) = s"
  by (simp add: sized_def c_string_def)

lemma sized_name [simp]: "sized s 0 = c_string s"
  by (simp add: sized_def)

lemma dom_config_view [simp]: "dom (config_view c) = dom (btree_map c)"
  by (auto simp: config_view_def)

lemma insert_section_fits:
  assumes "config_ok c" and "key_fits name (btree_map c)"
  shows "\<exists>c'. config_btree_insert_section c name = Inr (1, c') \<and> config_ok c' \<and> btree_map c' = (btree_map c)(name \<mapsto> config_btree_create)"
proof -
  have "sized name 0 = name"
    using assms(2) by (simp add: key_fits_def)
  then obtain c' where "config_btree_insert_node (\<lambda>_. []) name 0 config_btree_create c = Inr (if name \<in> dom (btree_map c) then 2 else 1, c')"
      "btree_ok c'" "btree_map c' = (btree_map c)(name \<mapsto> config_btree_create)"
    using insert_node_fits [of c name 0 "\<lambda>_. []" config_btree_create] assms by (auto simp: config_ok_def)
  then show ?thesis
    using assms(1) by (auto simp: config_btree_insert_section_def config_ok_def ran_def)
qed

lemma put_section_map:
  assumes "config_ok c" and "btree_map c name = Some s0" and "btree_ok s"
  shows "config_ok (put_section name s c) \<and> btree_map (put_section name s c) = (btree_map c)(name \<mapsto> s)"
proof -
  have "search_tree (bt_root c)" and "name \<in> set (keys (bt_root c))"
    using assms(1,2) dom_tree_map [of "bt_root c"] by (auto simp: config_ok_def btree_ok_def btree_map_def)
  from put_at_map [OF this, of s] have m: "search_tree (put_at name s (bt_root c))" "tree_map (put_at name s (bt_root c)) = (btree_map c)(name \<mapsto> s)"
    by (simp_all add: btree_map_def)
  then show ?thesis
    using assms by (auto simp: put_section_def config_ok_def btree_ok_def btree_map_def ran_def split: if_splits)
qed

text \<open>Texts that the parser takes as they are.\<close>

definition key_clean :: "string \<Rightarrow> bool" where
  "key_clean k \<longleftrightarrow> k \<noteq> [] \<and> trim k = k \<and> hd k \<noteq> CHR '';'' \<and> no_setting k \<and> CHR 0x00 \<notin> set k"

definition value_clean :: "string \<Rightarrow> bool" where
  "value_clean v \<longleftrightarrow> trim v = v \<and> CHR 0x0A \<notin> set v \<and> CHR 0x00 \<notin> set v"

definition name_clean :: "string \<Rightarrow> bool" where
  "name_clean n \<longleftrightarrow> n \<noteq> [] \<and> trim n = n \<and> set n \<inter> {CHR '']'', CHR 0x0A, CHR 0x00} = {} \<and> length n < MAX_SECTION_SIZE \<and>
     \<not> strict_prefix n ''default''"

lemma apply_values:
  assumes "config_ok c" and "btree_map c name = Some s" and "CHR 0x00 \<notin> set name"
    and "\<forall>(k, v) \<in> set es. k \<noteq> [] \<and> trim k = k \<and> trim v = v"
    and "tree_store.put_all (\<lambda>d. d) es s = Inr s'" and "sorted_wrt (<) (map fst es)" and "\<forall>k \<in> set (map fst es). CHR 0x00 \<notin> set k"
    and "\<forall>k \<in> set (map fst es). \<forall>x \<in> dom (btree_map s). \<not> strict_prefix k x"
  shows "\<exists>c'. apply_lines (map (\<lambda>(k, v). ValueLine k v) es) (c, name) = Inr (Some (c', name)) \<and> config_ok c' \<and>
    btree_map c' = (btree_map c)(name \<mapsto> s')"
  using assms
proof (induction es arbitrary: c s)
  case Nil
  then show ?case
    by auto
next
  case (Cons e es)
  obtain k v where e: "e = (k, v)" by fastforce
  have ok: "btree_ok s" "btree_ok c"
    using Cons.prems(1,2) by (auto simp: config_ok_def ran_def)
  have fit: "key_fits k (btree_map s)"
    using Cons.prems(7,8) e by (auto simp: key_fits_def)
  obtain s1 where s1: "config_btree_insert_node (\<lambda>d. d) k (length k) v s = Inr (if k \<in> dom (btree_map s) then 2 else 1, s1)"
      "btree_ok s1" "btree_map s1 = (btree_map s)(k \<mapsto> v)"
    using insert_node_fits [of s k "length k" "\<lambda>d. d" v] ok fit by auto
  let ?c = "put_section name s1 c"
  have c: "config_ok ?c" "btree_map ?c = (btree_map c)(name \<mapsto> s1)"
    using put_section_map [OF Cons.prems(1,2) s1(2)] by simp_all
  have "put_node (\<lambda>d. d) k v s = Inr s1"
    using s1(1) by (simp add: put_node_def)
  then have put: "tree_store.put_all (\<lambda>d. d) es s1 = Inr s'"
    using Cons.prems(5) by (simp add: e)
  have "\<not> strict_prefix k2 k" if "k2 \<in> set (map fst es)" for k2
  proof
    assume "strict_prefix k2 k"
    then have "k2 \<le> k"
      by (simp add: strict_prefix_def prefix_le)
    moreover have "k < k2"
      using Cons.prems(6) e that by auto
    ultimately show False by simp
  qed
  then have pre: "\<forall>k2 \<in> set (map fst es). \<forall>x \<in> dom (btree_map s1). \<not> strict_prefix k2 x"
    using Cons.prems(8) s1(3) by auto
  have rest: "btree_map ?c name = Some s1" "\<forall>(k, v) \<in> set es. k \<noteq> [] \<and> trim k = k \<and> trim v = v" "sorted_wrt (<) (map fst es)"
      "\<forall>k \<in> set (map fst es). CHR 0x00 \<notin> set k"
    using c(2) Cons.prems(4,6,7) by simp_all
  obtain c' where "apply_lines (map (\<lambda>(k, v). ValueLine k v) es) (?c, name) = Inr (Some (c', name))" "config_ok c'"
      "btree_map c' = (btree_map ?c)(name \<mapsto> s')"
    using Cons.IH [OF c(1) rest(1) Cons.prems(3) rest(2) put rest(3,4) pre] by blast
  moreover have "config_btree_find_node c name = Some s"
    using Cons.prems(2,3) ok(2) by (simp add: find_node_view)
  moreover have "trim k = k" "k \<noteq> []" "trim v = v"
    using Cons.prems(4) e by auto
  ultimately show ?case
    using s1(1) c(2) by (simp add: e config_btree_insert_section_node_def) (simp add: fun_upd_def)
qed

text \<open>The sections as a store: an entry is a name with the settings under it in ascending order.\<close>

fun section_lines :: "string \<Rightarrow> (string \<times> string) list \<Rightarrow> ini_line list" where
  "section_lines name es = SectionLine name [] # map (\<lambda>(k, v). ValueLine k v) es"

definition put_entries :: "string \<Rightarrow> (string \<times> string) list \<Rightarrow> INI_CONFIG \<Rightarrow> INI_CONFIG result" where
  "put_entries name es c =
     bindr (apply_lines (section_lines name es) (c, [])) (\<lambda>r. case r of None \<Rightarrow> Inl AssertFailed | Some (c, _) \<Rightarrow> Inr c)"

definition entries_clean :: "string \<Rightarrow> (string \<times> string) list \<Rightarrow> bool" where
  "entries_clean name es \<longleftrightarrow> name_clean name \<and> sorted_wrt (<) (map fst es) \<and> (\<forall>(k, v) \<in> set es. key_clean k \<and> value_clean v)"

lemma apply_section:
  assumes "config_ok c" and "key_fits name (btree_map c)" and "entries_clean name es"
  shows "\<exists>c'. apply_lines (section_lines name es) (c, nm) = Inr (Some (c', name)) \<and> config_ok c' \<and>
    config_view c' = (config_view c)(name \<mapsto> map_of es)"
proof -
  have name: "name \<noteq> []" "trim name = name" "length name < MAX_SECTION_SIZE" "CHR 0x00 \<notin> set name"
    using assms(3) by (auto simp: entries_clean_def name_clean_def)
  have es: "sorted_wrt (<) (map fst es)" "\<forall>k \<in> set (map fst es). CHR 0x00 \<notin> set k" "\<forall>(k, v) \<in> set es. k \<noteq> [] \<and> trim k = k \<and> trim v = v"
    using assms(3) by (auto simp: entries_clean_def key_clean_def value_clean_def)
  obtain c1 where c1: "config_btree_insert_section c name = Inr (1, c1)" "config_ok c1" "btree_map c1 = (btree_map c)(name \<mapsto> config_btree_create)"
    using insert_section_fits [OF assms(1,2)] by blast
  obtain s' where s': "tree_store.put_all (\<lambda>d. d) es config_btree_create = Inr s'" "btree_ok s'" "btree_map s' = map_of es"
    using tree_store.put_all_ascending [of config_btree_create es "\<lambda>d. d"] es(1,2) by (auto simp: apsnd_def map_prod_def)
  obtain c' where "apply_lines (map (\<lambda>(k, v). ValueLine k v) es) (c1, name) = Inr (Some (c', name))" "config_ok c'"
      "btree_map c' = (btree_map c1)(name \<mapsto> s')"
    using apply_values [OF c1(2) _ name(4) es(3) s'(1) es(1,2)] c1(3) by auto
  then show ?thesis
    using name c1 s'(3) by (auto simp: config_view_def fun_eq_iff)
qed

interpretation section_store: config_store put_entries config_view config_ok map_of entries_clean
proof
  fix c name es
  assume "config_ok c" and "key_fits name (config_view c)" and "entries_clean name es"
  then show "\<exists>c'. put_entries name es c = Inr c' \<and> config_ok c' \<and> config_view c' = (config_view c)(name \<mapsto> map_of es)"
    using apply_section [of c name es "[]"] by (auto simp: put_entries_def key_fits_def simp del: section_lines.simps)
qed

lemma apply_lines_append:
  "apply_lines (ls1 @ ls2) st = bindr (apply_lines ls1 st) (\<lambda>r. case r of None \<Rightarrow> Inr None | Some st \<Rightarrow> apply_lines ls2 st)"
  by (induction ls1 arbitrary: st) (auto simp: bindr_assoc bindr_def split: sum.splits option.splits)

lemma section_lines_start: "apply_lines (section_lines name es) (c, nm) = apply_lines (section_lines name es) (c, nm')"
  by simp

lemma apply_sections:
  "section_store.put_all secs c = Inr c' \<Longrightarrow>
   \<exists>nm'. apply_lines (concat (map (\<lambda>(n, es). section_lines n es) secs)) (c, nm) = Inr (Some (c', nm'))"
proof (induction secs arbitrary: c nm)
  case (Cons e secs)
  obtain n es where e: "e = (n, es)" by fastforce
  obtain c1 where c1: "put_entries n es c = Inr c1" "section_store.put_all secs c1 = Inr c'"
    using Cons.prems e by (auto simp: bindr_Inr_iff)
  then obtain nm1 where "apply_lines (section_lines n es) (c, nm) = Inr (Some (c1, nm1))"
    using section_lines_start [of n es c nm "[]"] by (auto simp: put_entries_def bindr_Inr_iff split: option.splits simp del: section_lines.simps)
  then show ?case
    using Cons.IH [OF c1(2), of nm1] by (simp add: e apply_lines_append del: section_lines.simps)
qed simp

section \<open>Saving and loading\<close>

lemma traverse_fold: "inorder_traverse (\<lambda>k d s. (1, g k d s)) t s = (1, fold (\<lambda>(k, d). g k d) (inorder t) s)"
  by (induction t arbitrary: s) simp_all

lemma fold_append: "fold (\<lambda>x s. s @ f x) xs s = s @ concat (map f xs)"
  by (induction xs arbitrary: s) simp_all

definition config_clean :: "INI_CONFIG \<Rightarrow> bool" where
  "config_clean c \<longleftrightarrow>
     (\<forall>(n, s) \<in> set (inorder (bt_root c)). name_clean n \<and> (\<forall>(k, v) \<in> set (inorder (bt_root s)). key_clean k \<and> value_clean v))"

definition config_entries :: "INI_CONFIG \<Rightarrow> (string \<times> (string \<times> string) list) list" where
  "config_entries c = map (\<lambda>(n, s). (n, inorder (bt_root s))) (inorder (bt_root c))"

definition entry_text :: "string \<times> string \<Rightarrow> string" where
  "entry_text = (\<lambda>(k, d). c_string k @ CHR ''='' # c_string d @ [CHR 0x0A])"

lemma save_section_text:
  "save_traverse_section n s fp = (1, fp @ CHR ''['' # c_string n @ [CHR '']'', CHR 0x0A] @ concat (map entry_text (inorder (bt_root s))))"
proof -
  have "save_traverse_value = (\<lambda>k d s. (1, s @ entry_text (k, d)))"
    by (simp add: save_traverse_value_def entry_text_def fun_eq_iff)
  from this show ?thesis
    unfolding save_traverse_section_def \<open>save_traverse_value = _\<close> traverse_fold by (simp add: case_prod_unfold fold_append)
qed

lemma lines_text_concat: "lines_text (concat lss) = concat (map lines_text lss)"
  by (induction lss) (simp_all add: lines_text_def)

lemma print_lines:
  assumes "config_clean c"
  shows "ini_config_print c = lines_text (concat (map (\<lambda>(n, es). section_lines n es) (config_entries c)))"
proof -
  have "ini_config_print c = concat (map (\<lambda>(n, s). CHR ''['' # c_string n @ [CHR '']'', CHR 0x0A] @ concat (map entry_text (inorder (bt_root s)))) (inorder (bt_root c)))"
    unfolding ini_config_print_def save_section_text [abs_def] by (simp add: traverse_fold case_prod_unfold fold_append)
  also have "\<dots> = concat (map (\<lambda>(n, s). lines_text (section_lines n (inorder (bt_root s)))) (inorder (bt_root c)))"
  proof (intro arg_cong [of _ _ concat] map_cong refl)
    fix x
    assume x: "x \<in> set (inorder (bt_root c))"
    obtain n s where ns: "x = (n, s)" by fastforce
    have n: "c_string n = n"
      using assms x ns by (auto simp: config_clean_def name_clean_def)
    have e: "concat (map entry_text (inorder (bt_root s))) = concat (map (\<lambda>(k, v). k @ CHR ''='' # v @ [CHR 0x0A]) (inorder (bt_root s)))"
      using assms x ns
      by (intro arg_cong [of _ _ concat] map_cong refl) (fastforce simp: entry_text_def config_clean_def key_clean_def value_clean_def)
    show "(case x of (n, s) \<Rightarrow> CHR ''['' # c_string n @ [CHR '']'', CHR 0x0A] @ concat (map entry_text (inorder (bt_root s)))) =
        (case x of (n, s) \<Rightarrow> lines_text (section_lines n (inorder (bt_root s))))"
      using ns n e by (simp add: lines_text_def o_def case_prod_unfold)
  qed
  also have "\<dots> = lines_text (concat (map (\<lambda>(n, es). section_lines n es) (config_entries c)))"
    by (simp add: lines_text_concat config_entries_def case_prod_unfold o_def del: section_lines.simps)
  finally show ?thesis .
qed

lemma section_lines_ok: "entries_clean n es \<Longrightarrow> list_all line_ok (section_lines n es)"
  by (auto simp: entries_clean_def name_clean_def key_clean_def value_clean_def no_setting_def list_all_iff)

lemma entries_of_ok:
  assumes "config_ok c" and "config_clean c"
  shows "\<forall>(n, es) \<in> set (config_entries c). entries_clean n es" and "sorted_wrt (<) (map fst (config_entries c))"
    and "map_of (map (apsnd map_of) (config_entries c)) = config_view c"
proof -
  have st: "search_tree (bt_root c)"
    using assms(1) by (simp add: config_ok_def btree_ok_def)
  then have dist: "distinct (map fst (inorder (bt_root c)))"
    by (simp add: search_tree_def keys_def strict_sorted_iff)
  have "search_tree (bt_root s)" if "(n, s) \<in> set (inorder (bt_root c))" for n s
  proof -
    have "btree_map c n = Some s"
      using that dist by (simp add: btree_map_def tree_map_def)
    then show ?thesis
      using assms(1) by (auto simp: config_ok_def ran_def btree_ok_def)
  qed
  then show "\<forall>(n, es) \<in> set (config_entries c). entries_clean n es"
    using assms(2) by (fastforce simp: config_entries_def entries_clean_def config_clean_def search_tree_def keys_def)
  have fst: "map fst (config_entries c) = keys (bt_root c)"
    by (simp add: config_entries_def keys_def case_prod_unfold)
  then show "sorted_wrt (<) (map fst (config_entries c))"
    using st by (simp add: search_tree_def)
  have "map (apsnd map_of) (config_entries c) = map (\<lambda>(n, s). (n, btree_map s)) (inorder (bt_root c))"
    by (simp add: config_entries_def btree_map_def tree_map_def case_prod_unfold)
  then show "map_of (map (apsnd map_of) (config_entries c)) = config_view c"
    by (intro ext) (auto simp: config_view_def btree_map_def tree_map_def map_of_map intro!: option.map_cong0)
qed

lemma empty_config_ok: "config_ok empty_config" "config_view empty_config = [''default'' \<mapsto> Map.empty]" "dom (btree_map empty_config) = {''default''}"
proof -
  have m: "btree_map empty_config = [''default'' \<mapsto> config_btree_create]"
    by (simp add: empty_config_def btree_map_def tree_map_def)
  show "config_ok empty_config" "config_view empty_config = [''default'' \<mapsto> Map.empty]" "dom (btree_map empty_config) = {''default''}"
    by (auto simp: m config_ok_def config_view_def) (simp_all add: empty_config_def btree_ok_def search_tree_Node)
qed

lemma load_saved:
  assumes "config_ok c" and "config_clean c" and "bt_root c \<noteq> Null"
  shows "\<exists>c'. ini_config_create_from_string (ini_config_print c) (length (ini_config_print c)) False = Inr (Some c') \<and> config_ok c' \<and>
    config_view c' = [''default'' \<mapsto> Map.empty] ++ config_view c"
proof -
  let ?ls = "concat (map (\<lambda>(n, es). section_lines n es) (config_entries c))"
  note en = entries_of_ok [OF assms(1,2)]
  have names: "\<forall>n \<in> set (map fst (config_entries c)). name_clean n"
    using en(1) by (auto simp: entries_clean_def)
  obtain c' where c': "section_store.put_all (config_entries c) empty_config = Inr c'" "config_ok c'"
      "config_view c' = config_view empty_config ++ map_of (map (apsnd map_of) (config_entries c))"
    using section_store.put_all_ascending [OF empty_config_ok(1) en(2)] names en(1) empty_config_ok(3) by (auto simp: name_clean_def)
  obtain nm where nm: "apply_lines ?ls (empty_config, ''default'') = Inr (Some (c', nm))"
    using apply_sections [OF c'(1)] by blast
  have "list_all line_ok ?ls"
    using en(1) section_lines_ok by (fastforce simp: list_all_iff simp del: section_lines.simps)
  moreover have "?ls \<noteq> []"
    using assms(3) by (cases "bt_root c") (auto simp: config_entries_def)
  ultimately have "ini_config_create_from_string (lines_text ?ls) (length (lines_text ?ls)) False = Inr (Some c')"
    by (simp add: create_from_lines nm del: section_lines.simps)
  then show ?thesis
    using c' en(3) empty_config_ok(2) by (simp add: print_lines [OF assms(2)])
qed

section \<open>Claims\<close>

text \<open>C15. The configuration tree is a finite map: on a well-formed tree, inserting a key that is not the beginning of a stored one
  adds or updates exactly this key, a search finds what the map holds, deleting removes exactly the key, every operation
  keeps the tree well-formed with the right node count and reports whether the key was there.\<close>

theorem config_tree_is_a_map:
  assumes "btree_ok t" and "CHR 0x00 \<notin> set key"
  shows "((\<forall>k \<in> dom (btree_map t). \<not> strict_prefix key k) \<longrightarrow>
      (\<exists>t'. config_btree_insert_node img key 0 d t = Inr (if key \<in> dom (btree_map t) then 2 else 1, t') \<and> btree_ok t' \<and>
        btree_map t' = (btree_map t)(key \<mapsto> d))) \<and>
    config_btree_find_node t key = btree_map t key \<and>
    (\<exists>t'. config_btree_delete_node t key = (if key \<in> dom (btree_map t) then 1 else 0, t') \<and> btree_ok t' \<and>
      btree_map t' = (btree_map t)(key := None))"
  using insert_node_fits [of t key 0 img d] find_node_map [OF assms] delete_node_map [OF assms] assms by (simp add: key_fits_def)

definition demo_tree3 :: "string CONFIG_BTREE" where
  "demo_tree3 = \<lparr>bt_numNodes = 3, bt_root = Node ''Level'' ''1'' (Node ''Cameras'' ''1:2'' Null Null) (Node ''MatrixID'' ''7'' Null Null)\<rparr>"

lemma demo_tree3_ok: "btree_ok demo_tree3"
  by (simp add: demo_tree3_def btree_ok_def search_tree_Node less_char_def)

theorem config_tree_is_a_map_witness:
  "config_btree_find_node demo_tree3 ''Cameras'' = Some ''1:2'' \<and>
   (\<exists>t'. config_btree_delete_node demo_tree3 ''Level'' = (1, t') \<and> btree_map t' ''Level'' = None)"
proof -
  have "''Level'' \<in> dom (btree_map demo_tree3)" and "btree_map demo_tree3 ''Cameras'' = Some ''1:2''"
    by (simp_all add: demo_tree3_def btree_map_def tree_map_def)
  then show ?thesis
    using config_tree_is_a_map [OF demo_tree3_ok, of "''Level''" "\<lambda>d. d" "[]"] config_tree_is_a_map [OF demo_tree3_ok, of "''Cameras''" "\<lambda>d. d" "[]"]
    by auto
qed

text \<open>A key that is the beginning of stored keys displaces one of them: the insertion reports an update, the node count stays,
  and a longer key is gone although the configuration never held the shorter one.\<close>

theorem shorter_key_evicts:
  assumes "btree_ok t" and "CHR 0x00 \<notin> set key" and "key \<noteq> []" and "key \<notin> dom (btree_map t)"
    and "x \<in> dom (btree_map t)" and "strict_prefix key x"
  shows "\<exists>t' old. config_btree_insert_node img key (length key) d t = Inr (2, t') \<and> bt_numNodes t' = bt_numNodes t \<and>
    strict_prefix key old \<and> old \<in> dom (btree_map t) \<and> dom (btree_map t') = insert key (dom (btree_map t) - {old})"
proof -
  have st: "search_tree (bt_root t)" "key \<notin> set (keys (bt_root t))" "x \<in> set (keys (bt_root t))"
    using assms(1,4,5) by (simp_all add: btree_ok_def btree_map_def dom_tree_map)
  obtain r old where r: "insert_at img key d (bt_root t) = Inr (2, r)" "strict_prefix key old" "old \<in> set (keys (bt_root t))"
      "set (keys r) = insert key (set (keys (bt_root t)) - {old})"
    using insert_at_evicts [OF st(1) assms(2) st(2,3) assms(6)] by blast
  then show ?thesis
    by (intro exI [of _ "t\<lparr>bt_root := r, bt_numNodes := bt_numNodes t\<rparr>"] exI [of _ old])
      (simp add: config_btree_insert_node_def btree_map_def dom_tree_map)
qed

theorem shorter_key_evicts_witness:
  "\<exists>t' old. config_btree_insert_node (\<lambda>d. d) ''Matrix'' (length ''Matrix'') ''x'' demo_tree3 = Inr (2, t') \<and> bt_numNodes t' = bt_numNodes demo_tree3 \<and>
    strict_prefix ''Matrix'' old \<and> old \<in> dom (btree_map demo_tree3) \<and> dom (btree_map t') = insert ''Matrix'' (dom (btree_map demo_tree3) - {old})"
proof -
  have d: "dom (btree_map demo_tree3) = {''Cameras'', ''Level'', ''MatrixID''}"
    by (auto simp: demo_tree3_def btree_map_def tree_map_def)
  show ?thesis
    by (rule shorter_key_evicts [OF demo_tree3_ok, of _ "''MatrixID''"]) (simp_all add: d strict_prefix_def)
qed

text \<open>C14. The parser with its table of actions and its positions does what the lines say, one after the other: on a text of section
  lines, setting lines, comments and blank lines it gives the configuration that applying them gives, and reports an error
  or leaves its section buffer exactly where the lines do.\<close>

theorem parser_applies_lines:
  assumes "list_all line_ok ls" and "ls \<noteq> []"
  shows "ini_config_create_from_string (lines_text ls) (length (lines_text ls)) False =
    bindr (apply_lines ls (empty_config, ''default'')) (\<lambda>r. Inr (map_option fst r))"
  by (rule create_from_lines [OF assms])

definition demo_lines :: "ini_line list" where
  "demo_lines = [OtherLine ''; settings'', SectionLine '' MCC '' [], OtherLine [], ValueLine ''Level '' '' 1'', ValueLine ''Cameras'' ''1:2'']"

theorem parser_applies_lines_witness:
  "\<exists>c. ini_config_create_from_string (lines_text demo_lines) (length (lines_text demo_lines)) False = Inr (Some c) \<and>
     ini_config_get_string c (Some ''MCC'') ''Level'' None = Some ''1''"
proof -
  have "list_all line_ok demo_lines" and "demo_lines \<noteq> []"
    by (simp_all add: demo_lines_def no_setting_def)
  from parser_applies_lines [OF this] show ?thesis
    by (simp add: demo_lines_def trim_def is_blank_def MAX_SECTION_SIZE_def config_btree_insert_section_def config_btree_insert_node_def
        empty_config_def config_btree_create_def config_btree_create_node_def config_btree_insert_section_node_def config_btree_find_node_def
        put_section_def sized_def c_string_def node_mem_def less_char_def ini_config_get_string_def config_btree_get_section_def
        section_or_default_def Let_def)
qed

text \<open>C24. Saving and loading: the text that \<open>ini_config_save\<close> writes for a configuration whose names, keys and values hold none of the
  characters the parser reacts to is accepted by the parser, and the configuration it gives has the same settings, as text
  and as number, under every section and key.\<close>

theorem save_then_load:
  assumes "config_ok c" and "config_clean c" and "bt_root c \<noteq> Null"
  shows "\<exists>c'. ini_config_create_from_string (ini_config_print c) (length (ini_config_print c)) False = Inr (Some c') \<and>
    (\<forall>sect key d n. ini_config_get_string c' sect key d = ini_config_get_string c sect key d \<and>
      ini_config_get_int c' sect key n = ini_config_get_int c sect key n)"
proof -
  obtain c' where c': "ini_config_create_from_string (ini_config_print c) (length (ini_config_print c)) False = Inr (Some c')"
      "config_ok c'" "config_view c' = [''default'' \<mapsto> Map.empty] ++ config_view c"
    using load_saved [OF assms] by blast
  have "setting c' sect key = setting c sect key" for sect key
    by (simp add: setting_def c'(3) map_add_def split: option.splits)
  with c' show ?thesis
    by (auto simp: get_string_setting get_int_setting assms(1))
qed

definition demo_config :: INI_CONFIG where
  "demo_config = \<lparr>bt_numNodes = 2, bt_root = Node ''default'' config_btree_create (Node ''MCC'' demo_tree3 Null Null) Null\<rparr>"

theorem save_then_load_witness:
  "\<exists>c'. ini_config_create_from_string (ini_config_print demo_config) (length (ini_config_print demo_config)) False = Inr (Some c') \<and>
     ini_config_get_string c' (Some ''MCC'') ''Cameras'' None = Some ''1:2''"
proof -
  have m: "btree_map demo_config = [''MCC'' \<mapsto> demo_tree3, ''default'' \<mapsto> config_btree_create]"
    by (auto simp: demo_config_def btree_map_def tree_map_def fun_eq_iff)
  have "config_ok demo_config"
    using demo_tree3_ok by (auto simp: config_ok_def m ran_def split: if_splits)
      (simp add: demo_config_def btree_ok_def search_tree_Node less_char_def)
  moreover have "config_clean demo_config"
    by (simp add: config_clean_def demo_config_def demo_tree3_def config_btree_create_def name_clean_def key_clean_def value_clean_def
        no_setting_def trim_def is_blank_def MAX_SECTION_SIZE_def strict_prefix_def)
  moreover have "bt_root demo_config \<noteq> Null"
    by (simp add: demo_config_def)
  ultimately have "\<exists>c'. ini_config_create_from_string (ini_config_print demo_config) (length (ini_config_print demo_config)) False = Inr (Some c') \<and>
    (\<forall>sect key d n. ini_config_get_string c' sect key d = ini_config_get_string demo_config sect key d \<and>
      ini_config_get_int c' sect key n = ini_config_get_int demo_config sect key n)"
    by (rule save_then_load)
  moreover have "ini_config_get_string demo_config (Some ''MCC'') ''Cameras'' None = Some ''1:2''"
    using \<open>config_ok demo_config\<close> by (simp add: get_string_setting setting_def config_view_def m section_or_default_def)
      (simp add: demo_tree3_def btree_map_def tree_map_def)
  ultimately show ?thesis
    by auto
qed

end
