(* ===== verification/Global_Id.thy ===== *)
theory Global_Id
  imports Prelude
begin

text \<open>
  \<open>mccglobalid.h\<close> and \<open>mccglobalid.cpp\<close>: the identifier (matrix, local number) that names a
  camera, monitor, keyboard or client anywhere in the tree of matrices, and that doubles as the
  priority of a user.  The six comparison operators are translated one by one; the class instance
  for \<open>MCCGlobalID\<close> rests on them, so that the order of the library is the order of the code.
\<close>

section \<open>The class\<close>

datatype MCCGlobalID = MCCGlobalID (mid: int) (lid: int)

definition NullID :: MCCGlobalID where
  "NullID = MCCGlobalID (-1) (-1)"

definition gid_set :: "int \<Rightarrow> int \<Rightarrow> MCCGlobalID \<Rightarrow> MCCGlobalID" where
  "gid_set matrix_id local_id g = MCCGlobalID matrix_id local_id"

definition gid_eq :: "MCCGlobalID \<Rightarrow> MCCGlobalID \<Rightarrow> bool" where
  "gid_eq a b \<longleftrightarrow> mid a = mid b \<and> lid a = lid b"

definition gid_ne :: "MCCGlobalID \<Rightarrow> MCCGlobalID \<Rightarrow> bool" where
  "gid_ne a b \<longleftrightarrow> \<not> gid_eq a b"

definition gid_gt :: "MCCGlobalID \<Rightarrow> MCCGlobalID \<Rightarrow> bool" where
  "gid_gt a b \<longleftrightarrow> (if mid a > mid b \<or> (mid a = mid b \<and> lid a > lid b) then True else False)"

definition gid_lt :: "MCCGlobalID \<Rightarrow> MCCGlobalID \<Rightarrow> bool" where
  "gid_lt a b \<longleftrightarrow> (if mid a < mid b \<or> (mid a = mid b \<and> lid a < lid b) then True else False)"

definition gid_ge :: "MCCGlobalID \<Rightarrow> MCCGlobalID \<Rightarrow> bool" where
  "gid_ge a b \<longleftrightarrow> \<not> gid_lt a b"

definition gid_le :: "MCCGlobalID \<Rightarrow> MCCGlobalID \<Rightarrow> bool" where
  "gid_le a b \<longleftrightarrow> \<not> gid_gt a b"

definition gid_print :: "MCCGlobalID \<Rightarrow> string" where
  "gid_print g = ''('' @ show_int (mid g) @ '','' @ show_int (lid g) @ '')''"

section \<open>The order of the code is a linear order\<close>

lemmas gid_defs = gid_eq_def gid_ne_def gid_gt_def gid_lt_def gid_ge_def gid_le_def

lemma gid_eq_iff [simp]: "gid_eq a b \<longleftrightarrow> a = b"
  by (cases a; cases b) (simp add: gid_eq_def)

instantiation MCCGlobalID :: linorder
begin

definition less_eq_MCCGlobalID :: "MCCGlobalID \<Rightarrow> MCCGlobalID \<Rightarrow> bool" where
  "less_eq_MCCGlobalID a b \<longleftrightarrow> gid_le a b"

definition less_MCCGlobalID :: "MCCGlobalID \<Rightarrow> MCCGlobalID \<Rightarrow> bool" where
  "less_MCCGlobalID a b \<longleftrightarrow> gid_lt a b"

instance
  by intro_classes
    (auto simp: less_eq_MCCGlobalID_def less_MCCGlobalID_def gid_defs split: if_splits
      intro: MCCGlobalID.expand)

end

lemma gid_ops [simp]:
  "gid_lt a b \<longleftrightarrow> a < b"
  "gid_le a b \<longleftrightarrow> a \<le> b"
  "gid_gt a b \<longleftrightarrow> b < a"
  "gid_ge a b \<longleftrightarrow> b \<le> a"
  "gid_ne a b \<longleftrightarrow> a \<noteq> b"
  by (simp_all add: less_MCCGlobalID_def less_eq_MCCGlobalID_def)
    (auto simp: gid_defs less_MCCGlobalID_def less_eq_MCCGlobalID_def)

lemma gid_less_iff:
  "a < b \<longleftrightarrow> mid a < mid b \<or> (mid a = mid b \<and> lid a < lid b)" for a b :: MCCGlobalID
  by (simp add: less_MCCGlobalID_def gid_lt_def del: gid_ops)

lemma NullID_le: "-1 \<le> mid g \<Longrightarrow> -1 \<le> lid g \<Longrightarrow> NullID \<le> g"
  by (simp add: NullID_def less_eq_MCCGlobalID_def gid_le_def gid_gt_def del: gid_ops)

end
