(* ===== verification/Std_Heap.thy ===== *)
theory Std_Heap
  imports Prelude "HOL-Library.Multiset"
begin

text \<open>
  The heap algorithms of the C++ standard library that \<open>heap.h\<close> (class \<open>Heap\<close>) and the trunk's
  user list (a \<open>std::priority_queue\<close>) call.  A vector is a list; the algorithms move a hole
  through it by index, bottom-up, as libstdc++ does, and take the comparison as an argument.
  The theory proves the contract the two clients rely on: the elements are permuted, the heap
  property is kept, and the first element is one that no other precedes.  The contract itself is
  the locale \<open>prio_queue\<close>; \<open>std_compare\<close> is the requirement the standard puts on a
  comparison, and every comparison that meets it gives a \<open>prio_queue\<close>.
\<close>

section \<open>The algorithms\<close>

definition heap_parent :: "nat \<Rightarrow> nat" where
  "heap_parent i = (i - 1) div 2"

lemma heap_parent_less [simp]: "0 < i \<Longrightarrow> heap_parent i < i"
  by (simp add: heap_parent_def)

lemma heap_parent_le [simp]: "heap_parent i \<le> i"
  by (simp add: heap_parent_def)

lemma heap_parent_neq [simp]: "0 < i \<Longrightarrow> heap_parent i \<noteq> i" "0 < i \<Longrightarrow> i \<noteq> heap_parent i"
  by (auto simp: heap_parent_def)

lemma heap_parent_bound [simp]: "i < n \<Longrightarrow> heap_parent i < n"
  by (rule order.strict_trans1 [OF heap_parent_le])

lemma children_of: "0 < i \<Longrightarrow> heap_parent i = c \<longleftrightarrow> i = 2 * c + 1 \<or> i = 2 * c + 2"
  by (auto simp: heap_parent_def)

lemma heap_parent_child [simp]: "heap_parent (Suc (2 * c)) = c" "heap_parent (Suc (Suc (2 * c))) = c"
  by (simp_all add: heap_parent_def)

text \<open>\<open>__push_heap\<close>: move the hole up while its parent precedes the value, then fill it.\<close>

function hole_up :: "('a \<Rightarrow> 'a \<Rightarrow> bool) \<Rightarrow> 'a list \<Rightarrow> nat \<Rightarrow> 'a \<Rightarrow> 'a list" where
  "hole_up lt h hole v =
     (if 0 < hole \<and> lt (h ! heap_parent hole) v
      then hole_up lt (h[hole := h ! heap_parent hole]) (heap_parent hole) v
      else h[hole := v])"
  by pat_completeness auto
termination
  by (relation "measure (\<lambda>(lt, h, hole, v). hole)") auto

declare hole_up.simps [simp del]

text \<open>\<open>__adjust_heap\<close>, its first part: move the hole down to a leaf along the larger children.\<close>

function hole_down :: "('a \<Rightarrow> 'a \<Rightarrow> bool) \<Rightarrow> 'a list \<Rightarrow> nat \<Rightarrow> nat \<Rightarrow> 'a list \<times> nat" where
  "hole_down lt h c n =
     (if c < (n - 1) div 2
      then (let r = 2 * (c + 1); k = (if lt (h ! r) (h ! (r - 1)) then r - 1 else r)
            in hole_down lt (h[c := h ! k]) k n)
      else if 2 \<le> n \<and> even n \<and> c = (n - 2) div 2
      then (h[c := h ! (2 * c + 1)], 2 * c + 1)
      else (h, c))"
  by pat_completeness auto
termination
  by (relation "measure (\<lambda>(lt, h, c, n). n - c)") (auto simp: Let_def)

declare hole_down.simps [simp del]

definition push_heap :: "('a \<Rightarrow> 'a \<Rightarrow> bool) \<Rightarrow> 'a list \<Rightarrow> 'a list" where
  "push_heap lt h = (if h = [] then [] else hole_up lt h (length h - 1) (last h))"

definition pop_heap :: "('a \<Rightarrow> 'a \<Rightarrow> bool) \<Rightarrow> 'a list \<Rightarrow> 'a list" where
  "pop_heap lt h =
     (if 1 < length h
      then (let n = length h - 1; (g, hole) = hole_down lt (butlast h) 0 n
            in hole_up lt g hole (last h) @ [hd h])
      else h)"

text \<open>\<open>std::priority_queue\<close> over a vector.\<close>

definition pq_push :: "('a \<Rightarrow> 'a \<Rightarrow> bool) \<Rightarrow> 'a \<Rightarrow> 'a list \<Rightarrow> 'a list" where
  "pq_push lt x q = push_heap lt (q @ [x])"

definition pq_top :: "'a list \<Rightarrow> 'a" where
  "pq_top q = hd q"

definition pq_pop :: "('a \<Rightarrow> 'a \<Rightarrow> bool) \<Rightarrow> 'a list \<Rightarrow> 'a list" where
  "pq_pop lt q = butlast (pop_heap lt q)"

definition heap_order :: "('a \<Rightarrow> 'a \<Rightarrow> bool) \<Rightarrow> 'a list \<Rightarrow> bool" where
  "heap_order lt h \<longleftrightarrow> (\<forall>i. 0 < i \<and> i < length h \<longrightarrow> \<not> lt (h ! heap_parent i) (h ! i))"

section \<open>Facts about any comparison\<close>

lemma length_hole_up [simp]: "length (hole_up lt h hole v) = length h"
  by (induction lt h hole v rule: hole_up.induct) (subst hole_up.simps, simp)

lemma mset_move_hole:
  assumes "i < length h" and "j < length h" and "i \<noteq> j"
  shows "mset (h[i := h ! j, j := v]) = mset (h[i := v])"
proof -
  let ?l = "h[i := v]"
  have "mset (?l[i := ?l ! j, j := ?l ! i]) = mset ?l"
    by (rule mset_swap) (use assms in simp_all)
  then show ?thesis
    using assms by simp
qed

lemma mset_hole_up: "hole < length h \<Longrightarrow> mset (hole_up lt h hole v) = mset (h[hole := v])"
proof (induction lt h hole v rule: hole_up.induct)
  case (1 lt h hole v)
  show ?case
  proof (cases "0 < hole \<and> lt (h ! heap_parent hole) v")
    case True
    with "1.prems" have "heap_parent hole < length h" and "heap_parent hole \<noteq> hole"
      by auto
    with True "1.prems" "1.IH" show ?thesis
      by (simp add: hole_up.simps [of lt h hole] mset_move_hole)
  next
    case False
    then show ?thesis
      by (subst hole_up.simps) auto
  qed
qed

text \<open>The three ways a step of the downward loop ends.\<close>

lemma hole_down_cases:
  assumes "hole_down lt h c n = (g, hole)"
  obtains (inner) k where "c < (n - 1) div 2" and "k < n" and "0 < k" and "c < k" and "heap_parent k = c"
      and "k = 2 * c + 1 \<Longrightarrow> lt (h ! (2 * c + 2)) (h ! k)" and "k \<noteq> 2 * c + 1 \<Longrightarrow> \<not> lt (h ! k) (h ! (2 * c + 1))"
      and "hole_down lt (h[c := h ! k]) k n = (g, hole)"
  | (only_left) "2 * c + 2 = n" and "g = h[c := h ! (2 * c + 1)]" and "hole = 2 * c + 1"
  | (leaf) "n \<le> 2 * c + 1" and "g = h" and "hole = c"
proof (cases "c < (n - 1) div 2")
  case True
  define k where "k = (if lt (h ! (2 * (c + 1))) (h ! (2 * (c + 1) - 1)) then 2 * (c + 1) - 1 else 2 * (c + 1))"
  have "hole_down lt (h[c := h ! k]) k n = (g, hole)"
    using True assms by (simp only: hole_down.simps [of lt h c n] k_def Let_def if_True)
  with True show thesis
    by (intro inner [of k]) (auto simp: k_def split: if_splits)
next
  case False
  note deep = False
  show thesis
  proof (cases "2 \<le> n \<and> even n \<and> c = (n - 2) div 2")
    case True
    then have "hole_down lt h c n = (h[c := h ! (2 * c + 1)], 2 * c + 1)"
      using deep by (subst hole_down.simps) (simp only: if_True if_False simp_thms)
    with True assms show thesis
      by (intro only_left) auto
  next
    case False
    then have "hole_down lt h c n = (h, c)"
      using deep by (subst hole_down.simps) (simp only: if_False simp_thms)
    moreover have "n \<le> 2 * c + 1"
      using deep False by (cases "even n") (auto elim!: evenE oddE)
    ultimately show thesis
      using assms by (intro leaf) auto
  qed
qed

lemma hole_down_shape:
  assumes "hole_down lt h c n = (g, hole)" and "length h = n" and "c < n"
  shows "length g = n \<and> hole < n \<and> n \<le> 2 * hole + 1 \<and> (\<forall>v. mset (g[hole := v]) = mset (h[c := v]))"
  using assms
proof (induction "n - c" arbitrary: h c rule: less_induct)
  case less
  from less.prems(1) show ?case
  proof (cases rule: hole_down_cases)
    case (inner k)
    with less.prems have "n - k < n - c" by linarith
    with less.hyps [of k "h[c := h ! k]"] less.prems inner show ?thesis
      by (simp add: mset_move_hole)
  next
    case only_left
    with less.prems show ?thesis
      by (auto simp: mset_move_hole)
  next
    case leaf
    with less.prems show ?thesis by simp
  qed
qed

section \<open>The contracts\<close>

text \<open>
  A priority queue over some representation: what its clients may rely on.  \<open>before x y\<close> says
  that \<open>x\<close> must come out before \<open>y\<close>.
\<close>

locale prio_queue =
  fixes push :: "'a \<Rightarrow> 'q \<Rightarrow> 'q"
    and top :: "'q \<Rightarrow> 'a"
    and pop :: "'q \<Rightarrow> 'q"
    and content :: "'q \<Rightarrow> 'a multiset"
    and before :: "'a \<Rightarrow> 'a \<Rightarrow> bool"
    and invar :: "'q \<Rightarrow> bool"
  assumes content_push: "invar q \<Longrightarrow> content (push x q) = add_mset x (content q)"
    and top_in: "invar q \<Longrightarrow> content q \<noteq> {#} \<Longrightarrow> top q \<in># content q"
    and top_first: "invar q \<Longrightarrow> x \<in># content q \<Longrightarrow> \<not> before x (top q)"
    and content_pop: "invar q \<Longrightarrow> content q \<noteq> {#} \<Longrightarrow> content (pop q) = content q - {#top q#}"
    and invar_push: "invar q \<Longrightarrow> invar (push x q)"
    and invar_pop: "invar q \<Longrightarrow> content q \<noteq> {#} \<Longrightarrow> invar (pop q)"
begin

lemma size_pop: "invar q \<Longrightarrow> content q \<noteq> {#} \<Longrightarrow> Suc (size (content (pop q))) = size (content q)"
  using top_in [of q] by (simp add: content_pop size_Diff_singleton nonempty_has_size)

lemma content_pop_subset: "invar q \<Longrightarrow> content q \<noteq> {#} \<Longrightarrow> x \<in># content (pop q) \<Longrightarrow> x \<in># content q"
  by (simp add: content_pop in_diffD)

lemma pop_after_top:
  assumes "invar q" and "content q \<noteq> {#}" and "content (pop q) \<noteq> {#}"
  shows "\<not> before (top (pop q)) (top q)"
proof (rule top_first)
  show "top (pop q) \<in># content q"
    using top_in [OF invar_pop [OF assms(1,2)] assms(3)] by (rule content_pop_subset [OF assms(1,2)])
qed (rule assms)

lemma push_top_first: "invar q \<Longrightarrow> \<not> before x (top (push x q))"
  by (simp add: top_first invar_push content_push)

end

text \<open>What the standard asks of a comparison: a strict weak order.\<close>

locale std_compare =
  fixes lt :: "'a \<Rightarrow> 'a \<Rightarrow> bool"
  assumes asym: "lt x y \<Longrightarrow> \<not> lt y x"
    and neg_trans: "\<not> lt x y \<Longrightarrow> \<not> lt y z \<Longrightarrow> \<not> lt x z"
begin

text \<open>
  The heap with a hole: the heap order holds for every pair that does not touch the hole, the
  value fits above the hole's children, and the hole's parent fits above them too.
\<close>

definition holed :: "'a list \<Rightarrow> nat \<Rightarrow> bool" where
  "holed h hole \<longleftrightarrow> hole < length h \<and>
     (\<forall>i. 0 < i \<and> i < length h \<and> i \<noteq> hole \<and> heap_parent i \<noteq> hole \<longrightarrow> \<not> lt (h ! heap_parent i) (h ! i)) \<and>
     (0 < hole \<longrightarrow> (\<forall>i. 0 < i \<and> i < length h \<and> heap_parent i = hole \<longrightarrow> \<not> lt (h ! heap_parent hole) (h ! i)))"

lemma holed_up:
  assumes "holed h hole" and "0 < hole"
  shows "holed (h[hole := h ! heap_parent hole]) (heap_parent hole)"
proof -
  let ?p = "heap_parent hole" and ?h = "h[hole := h ! heap_parent hole]"
  from assms have p: "?p < hole" "?p < length h" and hole: "hole < length h"
    by (auto simp: holed_def)
  have pairs: "\<not> lt (?h ! heap_parent i) (?h ! i)"
    if "0 < i" "i < length ?h" "i \<noteq> ?p" "heap_parent i \<noteq> ?p" for i
    using that assms p by (cases "heap_parent i = hole") (auto simp: holed_def nth_list_update)
  have kids: "\<not> lt (?h ! heap_parent ?p) (?h ! i)"
    if "0 < ?p" "0 < i" "i < length ?h" "heap_parent i = ?p" for i
  proof -
    from that p have q: "heap_parent ?p \<noteq> hole" "heap_parent ?p \<noteq> ?p"
      using heap_parent_less [of ?p] by linarith+
    with assms that p have up: "\<not> lt (h ! heap_parent ?p) (h ! ?p)"
      by (auto simp: holed_def)
    show ?thesis
    proof (cases "i = hole")
      case True
      with up q hole show ?thesis by (simp add: nth_list_update)
    next
      case False
      with assms that p have "\<not> lt (h ! ?p) (h ! i)"
        by (metis holed_def length_list_update less_irrefl)
      with up have "\<not> lt (h ! heap_parent ?p) (h ! i)"
        using neg_trans by blast
      with False q show ?thesis
        by simp
    qed
  qed
  show ?thesis
    unfolding holed_def using p pairs kids by simp
qed

lemma hole_up_heap:
  assumes "holed h hole" and "\<forall>i. 0 < i \<and> i < length h \<and> heap_parent i = hole \<longrightarrow> \<not> lt v (h ! i)"
  shows "heap_order lt (hole_up lt h hole v)"
  using assms
proof (induction hole arbitrary: h rule: less_induct)
  case (less hole)
  note prems = less.prems
  let ?p = "heap_parent hole"
  show ?case
  proof (cases "0 < hole \<and> lt (h ! ?p) v")
    case True
    let ?h = "h[hole := h ! ?p]"
    from True have p: "?p < hole" by auto
    from prems(1) True have hd': "holed ?h ?p" by (intro holed_up) auto
    have "\<not> lt v (?h ! i)" if "0 < i" "i < length ?h" "heap_parent i = ?p" for i
    proof (cases "i = hole")
      case True
      with \<open>0 < hole \<and> lt (h ! ?p) v\<close> that show ?thesis by (simp add: asym)
    next
      case False
      with prems(1) that p have "\<not> lt (h ! ?p) (h ! i)"
        by (metis holed_def length_list_update less_irrefl)
      moreover from True have "\<not> lt v (h ! ?p)"
        by (simp add: asym)
      ultimately have "\<not> lt v (h ! i)"
        using neg_trans by blast
      with False show ?thesis by simp
    qed
    with less.IH [OF p hd'] True show ?thesis
      by (simp add: hole_up.simps [of lt h hole])
  next
    case False
    then have eq: "hole_up lt h hole v = h[hole := v]"
      by (subst hole_up.simps) auto
    have "\<not> lt (h[hole := v] ! heap_parent i) (h[hole := v] ! i)" if "0 < i" "i < length h" for i
    proof (cases "i = hole")
      case True
      moreover from that True have "?p \<noteq> hole" by auto
      ultimately show ?thesis
        using False that by (simp add: nth_list_update)
    next
      case False
      with prems that show ?thesis
        by (cases "heap_parent i = hole") (auto simp: holed_def nth_list_update)
    qed
    then show ?thesis
      by (simp add: eq heap_order_def)
  qed
qed

lemma holed_down:
  assumes "holed h c" and "k < length h" and "0 < k" and "heap_parent k = c"
    and larger: "\<forall>i. 0 < i \<and> i < length h \<and> heap_parent i = c \<longrightarrow> \<not> lt (h ! k) (h ! i)"
  shows "holed (h[c := h ! k]) k"
proof -
  let ?h = "h[c := h ! k]"
  from assms have ck: "c < k" "c < length h" by auto
  have pairs: "\<not> lt (?h ! heap_parent i) (?h ! i)"
    if "0 < i" "i < length ?h" "i \<noteq> k" "heap_parent i \<noteq> k" for i
  proof (cases "i = c")
    case True
    with that have q: "heap_parent c \<noteq> c" "heap_parent c < length h" by auto
    from True that assms(1,2,3,4) ck have "\<not> lt (h ! heap_parent c) (h ! k)"
      by (auto simp: holed_def)
    with True q ck show ?thesis
      by simp
  next
    case False
    with assms that ck show ?thesis
      by (cases "heap_parent i = c") (auto simp: holed_def nth_list_update)
  qed
  have kids: "\<not> lt (?h ! heap_parent k) (?h ! i)"
    if "0 < i" "i < length ?h" "heap_parent i = k" for i
  proof -
    from that ck heap_parent_le [of i] have "i \<noteq> c" and "heap_parent i \<noteq> c" by linarith+
    with assms that ck show ?thesis
      by (metis holed_def length_list_update nth_list_update_eq nth_list_update_neq)
  qed
  show ?thesis
    unfolding holed_def using assms(2) pairs kids by simp
qed

lemma hole_down_holed:
  assumes "hole_down lt h c n = (g, hole)" and "length h = n" and "holed h c"
  shows "holed g hole"
  using assms
proof (induction "n - c" arbitrary: h c rule: less_induct)
  case less
  note prems = less.prems
  from prems(1) show ?case
  proof (cases rule: hole_down_cases)
    case (inner k)
    have "\<not> lt (h ! k) (h ! i)" if "0 < i" "i < length h" "heap_parent i = c" for i
    proof (cases "i = k")
      case False
      with that inner(3,5) have "k = 2 * c + 1 \<and> i = 2 * c + 2 \<or> k \<noteq> 2 * c + 1 \<and> i = 2 * c + 1"
        by (auto simp: children_of)
      with inner(6,7) show ?thesis
        using asym by blast
    qed (use asym in blast)
    with inner prems have "holed (h[c := h ! k]) k"
      by (intro holed_down) auto
    moreover from inner have "n - k < n - c" by linarith
    ultimately show ?thesis
      using less.hyps [of k "h[c := h ! k]"] inner prems(2) by simp
  next
    case only_left
    then have "\<not> lt (h ! (2 * c + 1)) (h ! i)" if "0 < i" "i < length h" "heap_parent i = c" for i
      using that prems(2) asym by (auto simp: children_of)
    with only_left prems have "holed (h[c := h ! (2 * c + 1)]) (2 * c + 1)"
      by (intro holed_down) auto
    with only_left show ?thesis by simp
  next
    case leaf
    with prems show ?thesis by simp
  qed
qed

lemma push_heap_order:
  assumes "heap_order lt q"
  shows "heap_order lt (push_heap lt (q @ [x]))"
proof -
  have "holed (q @ [x]) (length q)"
    using assms by (auto simp: holed_def heap_order_def nth_append children_of)
  then have "heap_order lt (hole_up lt (q @ [x]) (length q) x)"
    by (rule hole_up_heap) (auto simp: children_of)
  then show ?thesis
    by (simp add: push_heap_def)
qed

lemma pop_heap_order:
  assumes "heap_order lt q"
  shows "heap_order lt (butlast (pop_heap lt q))"
proof (cases "1 < length q")
  case True
  obtain g hole where g: "hole_down lt (butlast q) 0 (length q - 1) = (g, hole)"
    by fastforce
  with True have shape: "length g = length q - 1" "hole < length q - 1" "length q - 1 \<le> 2 * hole + 1"
    using hole_down_shape [OF g] by auto
  have "holed (butlast q) 0"
    using True assms by (auto simp: holed_def heap_order_def nth_butlast)
  with g have "holed g hole"
    by (intro hole_down_holed [OF g]) simp_all
  moreover have "\<not> (0 < i \<and> i < length g \<and> heap_parent i = hole)" for i
    using shape children_of [of i hole] by auto
  ultimately have "heap_order lt (hole_up lt g hole (last q))"
    by (intro hole_up_heap) auto
  with True g show ?thesis
    by (simp add: pop_heap_def Let_def)
next
  case False
  then have "length (butlast (pop_heap lt q)) = 0"
    by (simp add: pop_heap_def)
  then show ?thesis
    by (simp add: heap_order_def)
qed

lemma heap_order_first:
  assumes "heap_order lt q" and "i < length q"
  shows "\<not> lt (hd q) (q ! i)"
  using assms(2)
proof (induction i rule: less_induct)
  case (less i)
  show ?case
  proof (cases "i = 0")
    case True
    with less.prems show ?thesis
      using asym by (cases q) auto
  next
    case False
    with less.prems have "\<not> lt (hd q) (q ! heap_parent i)"
      by (intro less.IH) auto
    moreover from False less.prems assms(1) have "\<not> lt (q ! heap_parent i) (q ! i)"
      by (simp add: heap_order_def)
    ultimately show ?thesis by (rule neg_trans)
  qed
qed

end

lemma mset_push_heap: "mset (push_heap lt h) = mset h"
proof (cases "h = []")
  case False
  then have "h[length h - 1 := last h] = h"
    by (simp add: last_conv_nth)
  with False show ?thesis
    by (simp add: push_heap_def mset_hole_up)
qed (simp add: push_heap_def)

lemma mset_pop_heap: "mset (pop_heap lt h) = mset h"
proof (cases "1 < length h")
  case True
  then obtain x t where "h = x # t" and "t \<noteq> []"
    by (cases h) auto
  then obtain b y where h: "h = x # b @ [y]"
    by (cases t rule: rev_cases) auto
  obtain g hole where g: "hole_down lt (butlast h) 0 (length h - 1) = (g, hole)"
    by fastforce
  from True h hole_down_shape [OF g]
  have "hole < length g" and "mset (g[hole := y]) = mset ((x # b)[0 := y])"
    by (auto simp: butlast_append)
  with g h show ?thesis
    by (simp add: pop_heap_def mset_hole_up)
qed (simp add: pop_heap_def)

lemma pop_heap_last: "h \<noteq> [] \<Longrightarrow> last (pop_heap lt h) = hd h"
  by (cases h) (auto simp: pop_heap_def Let_def split: prod.splits)

lemma length_pop_heap [simp]: "length (pop_heap lt h) = length h"
  by (metis mset_pop_heap size_mset)

lemma length_pq_pop [simp]: "length (pq_pop lt q) = length q - 1"
  by (simp add: pq_pop_def)

lemma mset_pq_push [simp]: "mset (pq_push lt x q) = add_mset x (mset q)"
  by (simp add: pq_push_def mset_push_heap)

lemma mset_pq_pop:
  assumes "q \<noteq> []"
  shows "mset (pq_pop lt q) = mset q - {#hd q#}"
proof -
  from assms have "pop_heap lt q \<noteq> []"
    by (metis length_0_conv length_pop_heap)
  then have "pop_heap lt q = pq_pop lt q @ [hd q]"
    using assms pop_heap_last [of q lt] by (simp add: pq_pop_def append_butlast_last_id flip: pop_heap_last [of q lt])
  then have "mset q = mset (pq_pop lt q @ [hd q])"
    by (metis mset_pop_heap)
  then show ?thesis
    by simp
qed

text \<open>Every comparison the standard accepts makes the vector heap a priority queue.\<close>

sublocale std_compare \<subseteq> pq: prio_queue "pq_push lt" pq_top "pq_pop lt" mset "\<lambda>x y. lt y x" "heap_order lt"
proof unfold_locales
  fix q x
  assume "heap_order lt q"
  then show "heap_order lt (pq_push lt x q)"
    by (simp add: pq_push_def push_heap_order)
next
  fix q
  assume "heap_order lt q"
  then show "heap_order lt (pq_pop lt q)"
    by (simp add: pq_pop_def pop_heap_order)
next
  fix q x
  assume "heap_order lt q" and "x \<in># mset q"
  then show "\<not> lt (pq_top q) x"
    by (auto simp: pq_top_def in_set_conv_nth heap_order_first)
qed (auto simp: pq_top_def mset_pq_pop)

end
