(* ===== verification/User.thy ===== *)
theory User
  imports Global_Id Std_Heap
begin

text \<open>
  \<open>mccuser.h\<close> and \<open>mccuser.cpp\<close>: the user who occupies a monitor, a camera's pan-tilt head or a
  trunk.  A user is ordered by its global identifier only.  The constructors leave
  \<open>mExpireTime\<close> uninitialised, so the model's constructors take that value as the argument
  \<open>junk\<close>; \<open>gettimeofday\<close> is the argument \<open>now\<close>.
\<close>

section \<open>The class\<close>

datatype eMCCUserType = eMCCUserType_Keyboard | eMCCUserType_Client

record MCCUser =
  u_id :: MCCGlobalID
  u_type :: eMCCUserType
  u_expire :: int
  u_expireTime :: int

definition DEFAULT_EXPIRE :: int where
  "DEFAULT_EXPIRE = 20"

definition MCCUser_new :: "MCCGlobalID \<Rightarrow> eMCCUserType \<Rightarrow> int \<Rightarrow> int \<Rightarrow> MCCUser" where
  "MCCUser_new gid t e junk = \<lparr>u_id = gid, u_type = t, u_expire = e, u_expireTime = junk\<rparr>"

definition MCCUser_default :: "int \<Rightarrow> MCCUser" where
  "MCCUser_default junk =
     \<lparr>u_id = NullID, u_type = eMCCUserType_Keyboard, u_expire = DEFAULT_EXPIRE, u_expireTime = junk\<rparr>"

text \<open>\<open>MCCUser::min\<close>; a static object, so its \<open>mExpireTime\<close> starts at zero.\<close>

definition MCCUser_min :: MCCUser where
  "MCCUser_min = MCCUser_new (MCCGlobalID (-1) (-1)) eMCCUserType_Client 0 0"

definition updateExpire :: "int \<Rightarrow> MCCUser \<Rightarrow> MCCUser" where
  "updateExpire now u = u\<lparr>u_expireTime := now + u_expire u\<rparr>"

definition isExpired :: "int \<Rightarrow> MCCUser \<Rightarrow> bool" where
  "isExpired now u \<longleftrightarrow> now > u_expireTime u"

definition user_eq :: "MCCUser \<Rightarrow> MCCUser \<Rightarrow> bool" where
  "user_eq a b \<longleftrightarrow> gid_eq (u_id a) (u_id b)"

definition user_lt :: "MCCUser \<Rightarrow> MCCUser \<Rightarrow> bool" where
  "user_lt a b \<longleftrightarrow> gid_lt (u_id a) (u_id b)"

definition user_gt :: "MCCUser \<Rightarrow> MCCUser \<Rightarrow> bool" where
  "user_gt a b \<longleftrightarrow> gid_gt (u_id a) (u_id b)"

lemmas user_order_defs = user_eq_def user_lt_def user_gt_def

section \<open>Expiry\<close>

lemma user_select_simps [simp]:
  "u_id (MCCUser_new gid t e junk) = gid"
  "u_expire (MCCUser_new gid t e junk) = e"
  "u_expireTime (MCCUser_new gid t e junk) = junk"
  "u_id (MCCUser_default junk) = NullID"
  "u_expire (MCCUser_default junk) = DEFAULT_EXPIRE"
  "u_expireTime (MCCUser_default junk) = junk"
  "u_id (updateExpire now u) = u_id u"
  "u_expire (updateExpire now u) = u_expire u"
  "u_expireTime (updateExpire now u) = now + u_expire u"
  by (simp_all add: MCCUser_new_def MCCUser_default_def updateExpire_def)

lemma isExpired_updateExpire [simp]:
  "isExpired now' (updateExpire now u) \<longleftrightarrow> now + u_expire u < now'"
  by (auto simp: isExpired_def)

lemma isExpired_mono: "isExpired now u \<Longrightarrow> now \<le> now' \<Longrightarrow> isExpired now' u"
  by (simp add: isExpired_def)

section \<open>The order of users meets the requirement of the standard containers\<close>

interpretation user_less: std_compare user_lt
  by unfold_locales (auto simp: user_order_defs)

text \<open>\<open>std::greater<MCCUser>\<close>, the comparison of the trunk's user queue.\<close>

interpretation user_greater: std_compare user_gt
  by unfold_locales (auto simp: user_order_defs)

lemma user_queue_top_least:
  "heap_order user_gt q \<Longrightarrow> u \<in> set q \<Longrightarrow> u_id (pq_top q) \<le> u_id u"
  using user_greater.pq.top_first [of q u] by (simp add: user_order_defs)

end
