(* ===== verification/Keyboard_Message.thy ===== *)
theory Keyboard_Message
  imports Global_Id
begin

text \<open>
  \<open>mcckeyboardmessage.h\<close> and \<open>mcckeyboardmessage.cpp\<close>: the message that every keyboard driver, the
  client manager and the resource manager exchange.  The static \<open>counter\<close> of the class is passed
  in and out of the constructor.  \<open>cached_cmd\<close> is a pointer that no code reads after the
  constructor; it is kept as an address, 0 for \<open>NULL\<close>.
\<close>

section \<open>The class\<close>

definition eKBMsg_UNKNOWN :: int where "eKBMsg_UNKNOWN = 0"
definition eKBMsg_SWITCH :: int where "eKBMsg_SWITCH = 1"
definition eKBMsg_PTZ :: int where "eKBMsg_PTZ = 2"
definition eKBMsg_Pin :: int where "eKBMsg_Pin = 3"

lemmas eKBMsg_defs = eKBMsg_UNKNOWN_def eKBMsg_SWITCH_def eKBMsg_PTZ_def eKBMsg_Pin_def

definition ptz_UP :: int where "ptz_UP = 1"
definition ptz_DOWN :: int where "ptz_DOWN = 2"
definition ptz_LEFT :: int where "ptz_LEFT = 4"
definition ptz_RIGHT :: int where "ptz_RIGHT = 8"
definition ptz_ZOOMIN :: int where "ptz_ZOOMIN = 16"
definition ptz_ZOOMOUT :: int where "ptz_ZOOMOUT = 32"
definition ptz_STOP :: int where "ptz_STOP = 0"

lemmas ptz_defs = ptz_UP_def ptz_DOWN_def ptz_LEFT_def ptz_RIGHT_def ptz_ZOOMIN_def ptz_ZOOMOUT_def
  ptz_STOP_def

record MCCKeyboardMessage =
  msg_type :: int
  keyboard_id :: int
  camera_id :: MCCGlobalID
  monitor_id :: int
  left_up_monitor_id :: int
  right_down_monitor_id :: int
  ptz_opt_type :: int
  ptz_opt_vstep :: int
  ptz_opt_hstep :: int
  msg_seq :: int
  lock_resource :: int
  cached_cmd :: int

text \<open>The constructor, from the class counter; it returns the message and the next counter.\<close>

definition MCCKeyboardMessage_new :: "int \<Rightarrow> MCCKeyboardMessage \<times> int" where
  "MCCKeyboardMessage_new counter =
     (\<lparr>msg_type = 0, keyboard_id = 0, camera_id = MCCGlobalID (-1) (-1), monitor_id = 0,
       left_up_monitor_id = 0, right_down_monitor_id = 0, ptz_opt_type = ptz_STOP,
       ptz_opt_vstep = 0, ptz_opt_hstep = 0, msg_seq = counter, lock_resource = 0,
       cached_cmd = 0\<rparr>,
      wrap32 (counter + 1))"

definition msg_eq :: "MCCKeyboardMessage \<Rightarrow> MCCKeyboardMessage \<Rightarrow> bool" where
  "msg_eq a b \<longleftrightarrow>
     (if msg_type a = msg_type b \<and>
         keyboard_id a = keyboard_id b \<and>
         gid_eq (camera_id a) (camera_id b) \<and>
         monitor_id a = monitor_id b \<and>
         left_up_monitor_id a = left_up_monitor_id b \<and>
         right_down_monitor_id a = right_down_monitor_id b \<and>
         ptz_opt_type a = ptz_opt_type b \<and>
         ptz_opt_vstep a = ptz_opt_vstep b \<and>
         ptz_opt_hstep a = ptz_opt_hstep b \<and>
         lock_resource a = lock_resource b
      then True else False)"

definition buildSwitchMessage :: "int \<Rightarrow> int \<Rightarrow> int \<Rightarrow> MCCKeyboardMessage \<Rightarrow> bool \<times> MCCKeyboardMessage" where
  "buildSwitchMessage matrixid inport outport msg =
     (True, msg\<lparr>msg_type := eKBMsg_SWITCH, keyboard_id := 0,
                camera_id := MCCGlobalID matrixid inport, monitor_id := outport\<rparr>)"

text \<open>\<open>encode\<close>, what \<open>operator<<\<close> writes; \<open>addr\<close> is the text of the object's address.\<close>

definition nl :: string where
  "nl = [CHR 0x0A]"

definition msg_encode :: "string \<Rightarrow> MCCKeyboardMessage \<Rightarrow> string" where
  "msg_encode addr m =
     nl @ ''keyboard message info ['' @ addr @ '']'' @ nl @
     (if msg_type m = eKBMsg_SWITCH then ''type'' @ [CHR 0x09] @ '': switch'' @ nl
      else if msg_type m = eKBMsg_PTZ then ''type'' @ [CHR 0x09] @ '': ptz'' @ nl
      else ''type'' @ [CHR 0x09] @ '': unknown'' @ nl) @
     ''cid'' @ [CHR 0x09] @ '': '' @ show_int (mid (camera_id m)) @ '','' @ show_int (lid (camera_id m)) @ nl @
     ''kid'' @ [CHR 0x09] @ '': '' @ show_int (keyboard_id m) @ nl @
     ''mid'' @ [CHR 0x09] @ '': '' @ show_int (monitor_id m) @ nl @
     ''ptz'' @ [CHR 0x09] @ '': '' @ show_int (ptz_opt_type m) @ nl @
     ''vstep'' @ [CHR 0x09] @ '': '' @ show_int (ptz_opt_vstep m) @ nl @
     ''hstep'' @ [CHR 0x09] @ '': '' @ show_int (ptz_opt_hstep m) @ nl @
     ''seq'' @ [CHR 0x09] @ '': '' @ show_int (msg_seq m) @ nl"

section \<open>The comparison\<close>

text \<open>The comparison ignores exactly the sequence number and the cached command.\<close>

lemma msg_eq_iff:
  "msg_eq a b \<longleftrightarrow> a\<lparr>msg_seq := s, cached_cmd := c\<rparr> = b\<lparr>msg_seq := s, cached_cmd := c\<rparr>"
  by (cases a; cases b) (auto simp: msg_eq_def)

lemma msg_eq_refl [simp]: "msg_eq a a"
  by (simp add: msg_eq_def)

lemma msg_eq_sym: "msg_eq a b \<Longrightarrow> msg_eq b a"
  by (simp add: msg_eq_iff [of _ _ 0 0])

lemma msg_eq_trans: "msg_eq a b \<Longrightarrow> msg_eq b c \<Longrightarrow> msg_eq a c"
  by (simp add: msg_eq_iff [of _ _ 0 0])

lemma msg_new_seq [simp]:
  "msg_seq (fst (MCCKeyboardMessage_new n)) = n"
  "snd (MCCKeyboardMessage_new n) = wrap32 (n + 1)"
  by (simp_all add: MCCKeyboardMessage_new_def)

lemma msg_new_fields [simp]:
  "msg_type (fst (MCCKeyboardMessage_new n)) = 0"
  "keyboard_id (fst (MCCKeyboardMessage_new n)) = 0"
  "monitor_id (fst (MCCKeyboardMessage_new n)) = 0"
  "ptz_opt_type (fst (MCCKeyboardMessage_new n)) = 0"
  "ptz_opt_vstep (fst (MCCKeyboardMessage_new n)) = 0"
  "ptz_opt_hstep (fst (MCCKeyboardMessage_new n)) = 0"
  "left_up_monitor_id (fst (MCCKeyboardMessage_new n)) = 0"
  "right_down_monitor_id (fst (MCCKeyboardMessage_new n)) = 0"
  "lock_resource (fst (MCCKeyboardMessage_new n)) = 0"
  by (simp_all add: MCCKeyboardMessage_new_def ptz_STOP_def)

end
