(* ===== verification/Std_Map.thy ===== *)
theory Std_Map
  imports Prelude
begin

text \<open>
  The ordered containers \<open>std::map<int, T>\<close> and \<open>std::set<int>\<close> where the code iterates over them: a
  list of entries in increasing order of the keys.  The contract the resource manager relies on is
  the locale \<open>ordered_map\<close>; it is interpreted on the sorted lists.  Where a map is never iterated
  but is read with \<open>operator[]\<close>, which adds a null entry for an absent key, it is a function
  \<open>int \<rightharpoonup> 'a option\<close> and \<open>bracket\<close> is that operator.
\<close>

section \<open>Sorted association lists\<close>

fun smap_insert :: "int \<Rightarrow> 'v \<Rightarrow> (int \<times> 'v) list \<Rightarrow> (int \<times> 'v) list" where
  "smap_insert k v [] = [(k, v)]"
| "smap_insert k v ((k', v') # m) =
     (if k < k' then (k, v) # (k', v') # m else if k = k' then (k', v') # m else (k', v') # smap_insert k v m)"

definition smap_erase :: "int \<Rightarrow> (int \<times> 'v) list \<Rightarrow> (int \<times> 'v) list" where
  "smap_erase k m = filter (\<lambda>e. fst e \<noteq> k) m"

text \<open>Assignment through an iterator or a pointer held in the map: the entry of a present key.\<close>

definition smap_update :: "int \<Rightarrow> 'v \<Rightarrow> (int \<times> 'v) list \<Rightarrow> (int \<times> 'v) list" where
  "smap_update k v m = map (\<lambda>e. if fst e = k then (k, v) else e) m"

definition smap_sorted :: "(int \<times> 'v) list \<Rightarrow> bool" where
  "smap_sorted m \<longleftrightarrow> sorted_wrt (<) (map fst m)"

lemma smap_insert_keys: "fst ` set (smap_insert k v m) = insert k (fst ` set m)"
  by (induction k v m rule: smap_insert.induct) auto

lemma smap_insert_lookup:
  "map_of (smap_insert k v m) k' = (if k' = k \<and> map_of m k = None then Some v else map_of m k')" if "smap_sorted m"
  using that
proof (induction k v m rule: smap_insert.induct)
  case (2 k v k1 v1 m)
  have "map_of m k = None" if "k \<le> k1"
    using "2.prems" that by (force simp: smap_sorted_def map_of_eq_None_iff)
  with 2 show ?case
    by (auto simp: smap_sorted_def)
qed simp

lemma smap_insert_sorted: "smap_sorted m \<Longrightarrow> smap_sorted (smap_insert k v m)"
proof (induction k v m rule: smap_insert.induct)
  case (2 k v k1 v1 m)
  then show ?case
    using smap_insert_keys [of k v m] by (fastforce simp: smap_sorted_def)
qed (simp add: smap_sorted_def)

lemma smap_erase_lookup: "map_of (smap_erase k m) k' = (if k' = k then None else map_of m k')"
  by (induction m) (auto simp: smap_erase_def)

lemma smap_erase_sorted: "smap_sorted m \<Longrightarrow> smap_sorted (smap_erase k m)"
  unfolding smap_sorted_def smap_erase_def
  by (induction m) auto

lemma smap_update_lookup:
  "map_of (smap_update k v m) k' = (if k' = k \<and> map_of m k \<noteq> None then Some v else map_of m k')"
  by (induction m) (auto simp: smap_update_def)

lemma smap_update_sorted: "smap_sorted m \<Longrightarrow> smap_sorted (smap_update k v m)"
proof -
  have "map fst (smap_update k v m) = map fst m"
    by (induction m) (auto simp: smap_update_def)
  then show "smap_sorted m \<Longrightarrow> smap_sorted (smap_update k v m)"
    by (simp add: smap_sorted_def)
qed

section \<open>The contract\<close>

locale ordered_map =
  fixes insert :: "int \<Rightarrow> 'v \<Rightarrow> 'm \<Rightarrow> 'm"
    and erase :: "int \<Rightarrow> 'm \<Rightarrow> 'm"
    and update :: "int \<Rightarrow> 'v \<Rightarrow> 'm \<Rightarrow> 'm"
    and entries :: "'m \<Rightarrow> (int \<times> 'v) list"
    and invar :: "'m \<Rightarrow> bool"
  assumes sorted_entries: "invar m \<Longrightarrow> sorted_wrt (<) (map fst (entries m))"
    and lookup_insert: "invar m \<Longrightarrow>
      map_of (entries (insert k v m)) = (if map_of (entries m) k = None then (map_of (entries m))(k \<mapsto> v) else map_of (entries m))"
    and lookup_erase: "invar m \<Longrightarrow> map_of (entries (erase k m)) = (map_of (entries m))(k := None)"
    and lookup_update: "invar m \<Longrightarrow>
      map_of (entries (update k v m)) = (if map_of (entries m) k = None then map_of (entries m) else (map_of (entries m))(k \<mapsto> v))"
    and invar_insert: "invar m \<Longrightarrow> invar (insert k v m)"
    and invar_erase: "invar m \<Longrightarrow> invar (erase k m)"
    and invar_update: "invar m \<Longrightarrow> invar (update k v m)"
begin

lemma distinct_keys: "invar m \<Longrightarrow> distinct (map fst (entries m))"
  using sorted_entries strict_sorted_iff by blast

lemma entry_lookup: "invar m \<Longrightarrow> (k, v) \<in> set (entries m) \<longleftrightarrow> map_of (entries m) k = Some v"
  by (simp add: distinct_keys)

lemma set_insert_new:
  assumes "invar m" and "map_of (entries m) k = None"
  shows "set (entries (insert k v m)) = {(k, v)} \<union> set (entries m)"
proof -
  have "(k', v') \<in> set (entries (insert k v m)) \<longleftrightarrow> (k', v') \<in> {(k, v)} \<union> set (entries m)" for k' v'
    using assms by (auto simp: entry_lookup invar_insert lookup_insert)
  then show ?thesis by auto
qed

lemma set_erase: "invar m \<Longrightarrow> set (entries (erase k m)) = {e \<in> set (entries m). fst e \<noteq> k}"
proof -
  assume m: "invar m"
  have "(k', v') \<in> set (entries (erase k m)) \<longleftrightarrow> (k', v') \<in> {e \<in> set (entries m). fst e \<noteq> k}" for k' v'
    using m by (auto simp: entry_lookup invar_erase lookup_erase)
  then show ?thesis by auto
qed

end

interpretation smap: ordered_map smap_insert smap_erase smap_update "\<lambda>m. m" smap_sorted
  by unfold_locales
    (auto simp: smap_insert_lookup smap_erase_lookup smap_update_lookup smap_insert_sorted smap_erase_sorted
      smap_update_sorted fun_eq_iff, simp add: smap_sorted_def)

section \<open>Sets of integers\<close>

fun sset_insert :: "int \<Rightarrow> int list \<Rightarrow> int list" where
  "sset_insert x [] = [x]"
| "sset_insert x (y # ys) = (if x < y then x # y # ys else if x = y then y # ys else y # sset_insert x ys)"

lemma set_sset_insert [simp]: "set (sset_insert x s) = insert x (set s)"
  by (induction x s rule: sset_insert.induct) auto

lemma sset_insert_sorted: "sorted_wrt (<) s \<Longrightarrow> sorted_wrt (<) (sset_insert x s)"
  by (induction x s rule: sset_insert.induct) auto

lemma set_fold_sset_insert: "set (fold sset_insert xs s) = set xs \<union> set s"
  by (induction xs arbitrary: s) auto

section \<open>operator[]\<close>

definition bracket :: "(int \<rightharpoonup> 'a option) \<Rightarrow> int \<Rightarrow> 'a option \<times> (int \<rightharpoonup> 'a option)" where
  "bracket m k = (case m k of Some p \<Rightarrow> (p, m) | None \<Rightarrow> (None, m(k \<mapsto> None)))"

lemma bracket_fst: "fst (bracket m k) = Option.bind (m k) id"
  by (simp add: bracket_def split: option.splits)

lemma bracket_snd:
  "snd (bracket m k) k' = (if k' = k \<and> m k = None then Some None else m k')"
  by (simp add: bracket_def split: option.splits)

text \<open>No pointer of the map changes: only null entries can be added.\<close>

lemma bracket_objects: "Option.bind (snd (bracket m k) k') id = Option.bind (m k') id"
  by (simp add: bracket_snd)

end
