(* ===== verification/Resource_Data.thy ===== *)
theory Resource_Data
  imports User Keyboard_Message Std_Map
begin

text \<open>
  The resource classes nested in \<open>MCCResourceManager\<close> (\<open>mccresourcemanager.h\<close>): \<open>Camera\<close>,
  \<open>Trunk\<close>, \<open>Monitor\<close>, \<open>MatrixInfo\<close> and \<open>ProcessContext\<close>, one operation per method.  A new object holds
  a default-constructed user whose \<open>mExpireTime\<close> is not initialised; it is the argument \<open>junk\<close>.
\<close>

section \<open>Camera\<close>

record Camera =
  cam_id :: int
  cam_ptzUser :: MCCUser
  cam_users :: "MCCUser list"
  cam_ptzLocked :: bool

definition Camera_new :: "int \<Rightarrow> int \<Rightarrow> Camera" where
  "Camera_new junk i = \<lparr>cam_id = i, cam_ptzUser = MCCUser_default junk, cam_users = [], cam_ptzLocked = False\<rparr>"

definition setPtzUser :: "int \<Rightarrow> MCCUser \<Rightarrow> Camera \<Rightarrow> Camera" where
  "setPtzUser now user c = c\<lparr>cam_ptzUser := updateExpire now user\<rparr>"

definition addUser :: "MCCUser \<Rightarrow> Camera \<Rightarrow> Camera" where
  "addUser user c = c\<lparr>cam_users := cam_users c @ [user]\<rparr>"

definition removeUser :: "MCCGlobalID \<Rightarrow> Camera \<Rightarrow> bool \<times> Camera" where
  "removeUser userid c =
     (if \<exists>u \<in> set (cam_users c). gid_eq (u_id u) userid
      then (True, c\<lparr>cam_users := erase_first (\<lambda>u. gid_eq (u_id u) userid) (cam_users c)\<rparr>)
      else (False, c))"

text \<open>\<open>releasePtz\<close> is the comparison \<open>mPtzUser == MCCUser::min\<close>, whose result is discarded.\<close>

definition releasePtz :: "Camera \<Rightarrow> Camera" where
  "releasePtz c = (let _ = user_eq (cam_ptzUser c) MCCUser_min in c)"

definition acquirePtz :: "int \<Rightarrow> MCCGlobalID \<Rightarrow> Camera \<Rightarrow> Camera" where
  "acquirePtz now userid c = c\<lparr>cam_ptzUser := updateExpire now ((cam_ptzUser c)\<lparr>u_id := userid\<rparr>)\<rparr>"

definition lockPtz :: "int \<Rightarrow> MCCGlobalID \<Rightarrow> Camera \<Rightarrow> Camera" where
  "lockPtz now userid c = (acquirePtz now userid c)\<lparr>cam_ptzLocked := True\<rparr>"

definition unlockPtz :: "Camera \<Rightarrow> Camera" where
  "unlockPtz c = (releasePtz c)\<lparr>cam_ptzLocked := False\<rparr>"

section \<open>Trunk\<close>

record Trunk =
  t_id :: int
  t_outport :: int
  t_cid :: MCCGlobalID
  t_users :: "MCCUser list"

definition Trunk_new :: "int \<Rightarrow> int \<Rightarrow> Trunk" where
  "Trunk_new i outport = \<lparr>t_id = i, t_outport = outport, t_cid = NullID, t_users = []\<rparr>"

definition isIdle :: "Trunk \<Rightarrow> bool" where
  "isIdle t \<longleftrightarrow> length (t_users t) = 0"

definition setCameraId :: "MCCGlobalID \<Rightarrow> Trunk \<Rightarrow> Trunk" where
  "setCameraId cameraid t = t\<lparr>t_cid := cameraid\<rparr>"

text \<open>The user list is a \<open>std::priority_queue\<close> with \<open>std::greater\<close>: its top is the least user.\<close>

definition Trunk_push :: "MCCUser \<Rightarrow> Trunk \<Rightarrow> Trunk" where
  "Trunk_push user t = t\<lparr>t_users := pq_push user_gt user (t_users t)\<rparr>"

definition Trunk_top :: "Trunk \<Rightarrow> MCCUser result" where
  "Trunk_top t = (if t_users t = [] then Inl EmptyContainer else Inr (pq_top (t_users t)))"

definition Trunk_pop :: "Trunk \<Rightarrow> Trunk result" where
  "Trunk_pop t =
     (if t_users t = [] then Inl EmptyContainer
      else (let us = pq_pop user_gt (t_users t)
            in Inr (if us = [] then t\<lparr>t_users := us, t_cid := NullID\<rparr> else t\<lparr>t_users := us\<rparr>)))"

definition Trunk_empty :: "Trunk \<Rightarrow> bool" where
  "Trunk_empty t \<longleftrightarrow> t_users t = []"

function drop_expired :: "int \<Rightarrow> MCCUser list \<Rightarrow> MCCUser list" where
  "drop_expired now us =
     (if us \<noteq> [] \<and> isExpired now (pq_top us) then drop_expired now (pq_pop user_gt us) else us)"
  by pat_completeness auto
termination
  by (relation "measure (\<lambda>(now, us). length us)") auto

declare drop_expired.simps [simp del]

definition updateUsers :: "int \<Rightarrow> Trunk \<Rightarrow> Trunk" where
  "updateUsers now t =
     (let us = drop_expired now (t_users t)
      in if us = [] then t\<lparr>t_users := us, t_cid := NullID\<rparr> else t\<lparr>t_users := us\<rparr>)"

section \<open>Monitor\<close>

record Monitor =
  mon_id :: int
  mon_user :: MCCUser

definition Monitor_new :: "int \<Rightarrow> int \<Rightarrow> Monitor" where
  "Monitor_new junk i = \<lparr>mon_id = i, mon_user = MCCUser_default junk\<rparr>"

definition Monitor_replace :: "int \<Rightarrow> int \<Rightarrow> Monitor \<Rightarrow> Monitor" where
  "Monitor_replace now keyboardId m =
     m\<lparr>mon_user := updateExpire now ((mon_user m)\<lparr>u_id := MCCGlobalID 0 keyboardId\<rparr>)\<rparr>"

definition Monitor_setUser :: "int \<Rightarrow> MCCUser \<Rightarrow> Monitor \<Rightarrow> Monitor" where
  "Monitor_setUser now user m = m\<lparr>mon_user := updateExpire now user\<rparr>"

section \<open>MatrixInfo\<close>

record MatrixInfo =
  mx_id :: int
  mx_fd :: int
  mx_children :: "int list"

definition MatrixInfo_new :: "int \<Rightarrow> int \<Rightarrow> MatrixInfo" where
  "MatrixInfo_new i fd = \<lparr>mx_id = i, mx_fd = fd, mx_children = []\<rparr>"

definition addChild :: "int \<Rightarrow> MatrixInfo \<Rightarrow> MatrixInfo" where
  "addChild matrixid m =
     (if matrixid \<in> set (mx_children m) then m else m\<lparr>mx_children := sset_insert matrixid (mx_children m)\<rparr>)"

definition hasChild :: "int \<Rightarrow> MatrixInfo \<Rightarrow> bool" where
  "hasChild matrixid m \<longleftrightarrow> matrixid \<in> set (mx_children m)"

text \<open>The loop erases the element its iterator stands on and then advances the iterator.\<close>

definition clearChildren :: "MatrixInfo \<Rightarrow> MatrixInfo result" where
  "clearChildren m = (if mx_children m = [] then Inr m else Inl IteratorInvalidated)"

section \<open>ProcessContext\<close>

text \<open>The keyboard pointer is the number of the keyboard, or \<open>None\<close> for a null pointer.\<close>

record ProcessContext =
  ctx_id :: int
  ctx_keyboard :: "int option"
  ctx_event :: MCCKeyboardMessage

definition ProcessContext_new :: "int \<Rightarrow> int option \<Rightarrow> MCCKeyboardMessage \<Rightarrow> ProcessContext" where
  "ProcessContext_new i kb msg = \<lparr>ctx_id = i, ctx_keyboard = kb, ctx_event = msg\<rparr>"

section \<open>Facts about the classes\<close>

lemma releasePtz_id [simp]: "releasePtz c = c"
  by (simp add: releasePtz_def)

lemma camera_ops [simp]:
  "cam_ptzLocked (acquirePtz now u c) = cam_ptzLocked c"
  "u_id (cam_ptzUser (acquirePtz now u c)) = u"
  "u_expireTime (cam_ptzUser (acquirePtz now u c)) = now + u_expire (cam_ptzUser c)"
  "u_expire (cam_ptzUser (acquirePtz now u c)) = u_expire (cam_ptzUser c)"
  "cam_ptzLocked (lockPtz now u c)"
  "cam_ptzUser (lockPtz now u c) = cam_ptzUser (acquirePtz now u c)"
  "\<not> cam_ptzLocked (unlockPtz c)"
  "cam_ptzUser (unlockPtz c) = cam_ptzUser c"
  "cam_users (unlockPtz c) = cam_users c"
  "cam_users (acquirePtz now u c) = cam_users c"
  "cam_users (lockPtz now u c) = cam_users c"
  "cam_id (unlockPtz c) = cam_id c"
  "cam_id (acquirePtz now u c) = cam_id c"
  "cam_id (lockPtz now u c) = cam_id c"
  by (simp_all add: acquirePtz_def lockPtz_def unlockPtz_def)

lemma drop_expired_spec:
  assumes "heap_order user_gt us"
  shows "heap_order user_gt (drop_expired now us)"
    and "mset (drop_expired now us) \<subseteq># mset us"
    and "u \<in># mset us - mset (drop_expired now us) \<Longrightarrow> isExpired now u"
    and "drop_expired now us \<noteq> [] \<Longrightarrow> \<not> isExpired now (pq_top (drop_expired now us))"
  using assms
proof (induction "length us" arbitrary: us rule: less_induct)
  case less
  {
    case 1
    then show ?case
      using less(1) [of "pq_pop user_gt us"] user_greater.pq.invar_pop [of us]
      by (subst drop_expired.simps) auto
  next
    case 2
    have "mset (pq_pop user_gt us) \<subseteq># mset us" if "us \<noteq> []"
      using that by (simp add: mset_pq_pop)
    with 2 show ?case
      using less(2) [of "pq_pop user_gt us"] user_greater.pq.invar_pop [of us]
      by (subst drop_expired.simps) (auto intro: subset_mset.order_trans)
  next
    case 3
    show ?case
    proof (cases "us \<noteq> [] \<and> isExpired now (pq_top us)")
      case True
      then have eq: "drop_expired now us = drop_expired now (pq_pop user_gt us)"
        by (simp add: drop_expired.simps [of now us])
      have pop: "mset us = add_mset (pq_top us) (mset (pq_pop user_gt us))"
        using True by (simp add: mset_pq_pop pq_top_def)
      have heap: "heap_order user_gt (pq_pop user_gt us)"
        using 3 True user_greater.pq.invar_pop [of us] by auto
      have "u = pq_top us \<or> u \<in># mset (pq_pop user_gt us) - mset (drop_expired now (pq_pop user_gt us))"
        using 3(1) unfolding eq pop by (auto simp: in_diff_count split: if_splits)
      then show ?thesis
        using True heap less(3) [of "pq_pop user_gt us"] by auto
    next
      case False
      then have "drop_expired now us = us"
        by (subst drop_expired.simps) auto
      with 3 show ?thesis by simp
    qed
  next
    case 4
    then show ?case
      using less(4) [of "pq_pop user_gt us"] user_greater.pq.invar_pop [of us]
      by (cases "us \<noteq> [] \<and> isExpired now (pq_top us)") (auto simp: drop_expired.simps [of now us])
  }
qed

end
