(* ===== verification/Agent_Message.thy ===== *)
theory Agent_Message
  imports Global_Id
begin

text \<open>
  \<open>mccagentmessage.h\<close> and \<open>mccagentmessage.cpp\<close>: the requests and responses that the agents of
  neighbouring matrices exchange as XML text, with the builders, the printers and the parsers.

  The union \<open>Content\<close> is its memory: an array of 52 \<open>int\<close> cells that the three structures share,
  so that a field written under one structure and read under another has the value the code sees.
  The enumerations are \<open>int\<close> because the parser stores unchecked integers in them.

  TinyXML is not part of the program: the functions that use it take it as the argument
  \<open>X\<close>, of type \<open>TiXml\<close>, which holds the two things the code asks of the library and that depend on
  its implementation: the root element of a parsed text, and what \<open>Attribute(name, &i)\<close> leaves in
  \<open>i\<close>.  The navigation (first child by value, next sibling element, attribute by name) is the
  documented one.
\<close>

section \<open>The XML tree\<close>

datatype xml = Element (xml_name: string) (xml_attrs: "(string \<times> string) list") (xml_children: "xml list")
  | XText string

fun xml_value :: "xml \<Rightarrow> string" where
  "xml_value (Element n as cs) = n"
| "xml_value (XText t) = t"

fun to_element :: "xml \<Rightarrow> xml option" where
  "to_element (Element n as cs) = Some (Element n as cs)"
| "to_element (XText t) = None"

record TiXml =
  xml_root :: "string \<Rightarrow> xml option"
  xml_int :: "string option \<Rightarrow> int \<Rightarrow> int"

text \<open>\<open>Attribute(name, &i)\<close>: the attribute's text, if there is one, and the new value of \<open>i\<close>.\<close>

definition Attribute :: "TiXml \<Rightarrow> xml \<Rightarrow> string \<Rightarrow> int \<Rightarrow> string option \<times> int" where
  "Attribute X e name i = (let v = map_of (xml_attrs e) name in (v, xml_int X v i))"

text \<open>\<open>FirstChild(value)\<close>, and the chain \<open>handle.FirstChild(value).ToElement()\<close>.\<close>

definition FirstChild :: "xml \<Rightarrow> string \<Rightarrow> xml option" where
  "FirstChild e v = find (\<lambda>c. xml_value c = v) (xml_children e)"

definition child_element :: "xml \<Rightarrow> string \<Rightarrow> xml option" where
  "child_element e v = Option.bind (FirstChild e v) to_element"

text \<open>
  The items the loop of \<open>Parse\<close> visits: the first child named \<open>Item\<close> and then every element sibling
  after it, by \<open>NextSiblingElement()\<close>.
\<close>

definition item_chain :: "xml \<Rightarrow> xml list" where
  "item_chain e =
     (case dropWhile (\<lambda>c. xml_value c \<noteq> ''Item'') (xml_children e) of
        [] \<Rightarrow> []
      | c # cs \<Rightarrow> (case to_element c of None \<Rightarrow> [] | Some i \<Rightarrow> i # filter (\<lambda>d. to_element d \<noteq> None) cs))"

section \<open>Messages\<close>

definition MAX_CHILDREN_NUM :: nat where "MAX_CHILDREN_NUM = 50"

definition REQUEST :: int where "REQUEST = 0"
definition RESPONSE :: int where "RESPONSE = 1"
definition REGISTER :: int where "REGISTER = 0"
definition SWITCH :: int where "SWITCH = 1"
definition PTZ :: int where "PTZ = 2"

lemmas message_enums = REQUEST_def RESPONSE_def REGISTER_def SWITCH_def PTZ_def

type_synonym Content = "int list"

definition content_size :: nat where
  "content_size = 2 + MAX_CHILDREN_NUM"

abbreviation reg_expire :: "Content \<Rightarrow> int" where "reg_expire c \<equiv> c ! 0"
abbreviation reg_children_num :: "Content \<Rightarrow> int" where "reg_children_num c \<equiv> c ! 1"
abbreviation swi_userid :: "Content \<Rightarrow> int" where "swi_userid c \<equiv> c ! 0"
abbreviation swi_cameraid :: "Content \<Rightarrow> int" where "swi_cameraid c \<equiv> c ! 1"
abbreviation swi_outport :: "Content \<Rightarrow> int" where "swi_outport c \<equiv> c ! 2"
abbreviation ptz_userid :: "Content \<Rightarrow> int" where "ptz_userid c \<equiv> c ! 0"
abbreviation ptz_cameraid :: "Content \<Rightarrow> int" where "ptz_cameraid c \<equiv> c ! 1"
abbreviation ptz_direction :: "Content \<Rightarrow> int" where "ptz_direction c \<equiv> c ! 2"
abbreviation ptz_angle :: "Content \<Rightarrow> int" where "ptz_angle c \<equiv> c ! 3"

text \<open>\<open>reg.children[i]\<close>, read and written; the array has \<open>MAX_CHILDREN_NUM\<close> elements.\<close>

definition children_get :: "Content \<Rightarrow> nat \<Rightarrow> int result" where
  "children_get c i = (if i < MAX_CHILDREN_NUM then Inr (c ! (2 + i)) else Inl OutOfBounds)"

definition children_set :: "Content \<Rightarrow> nat \<Rightarrow> int \<Rightarrow> Content result" where
  "children_set c i v = (if i < MAX_CHILDREN_NUM then Inr (c[2 + i := v]) else Inl OutOfBounds)"

record MCCAgentMessage =
  a_initiator :: int
  a_from :: int
  a_to :: int
  a_type :: int
  a_method :: int
  a_id :: int
  a_content :: Content
  a_valid :: bool

record MCCAgentResponse = MCCAgentMessage +
  r_statuscode :: int
  r_reason :: string

type_synonym MCCAgentRequest = MCCAgentMessage

definition getUserId :: "('a) MCCAgentMessage_scheme \<Rightarrow> MCCGlobalID" where
  "getUserId m = MCCGlobalID (a_from m) (a_initiator m)"

section \<open>The builders\<close>

text \<open>
  Each fills in a message whose other fields are uninitialised; \<open>rnd\<close> is the value of \<open>rand()\<close>.
\<close>

definition buildRegRequest :: "int \<Rightarrow> int \<Rightarrow> MCCAgentRequest \<Rightarrow> MCCAgentRequest" where
  "buildRegRequest m expire request =
     request\<lparr>a_type := REQUEST, a_initiator := 0, a_from := m, a_to := 0, a_method := REGISTER, a_id := 0,
             a_content := (a_content request)[0 := expire]\<rparr>"

definition buildSwitchRequest :: "int \<Rightarrow> MCCGlobalID \<Rightarrow> MCCGlobalID \<Rightarrow> MCCAgentRequest \<Rightarrow> MCCAgentRequest" where
  "buildSwitchRequest rnd uid cid request =
     request\<lparr>a_type := REQUEST, a_initiator := lid uid, a_from := mid uid, a_to := mid cid, a_method := SWITCH,
             a_id := rnd, a_content := (a_content request)[0 := lid uid, 1 := lid cid, 2 := 0]\<rparr>"

definition buildPtzRequest :: "int \<Rightarrow> MCCGlobalID \<Rightarrow> MCCGlobalID \<Rightarrow> int \<Rightarrow> int \<Rightarrow> MCCAgentRequest \<Rightarrow> MCCAgentRequest" where
  "buildPtzRequest rnd uid cid opcode angle request =
     request\<lparr>a_type := REQUEST, a_initiator := lid uid, a_from := mid uid, a_to := mid cid, a_method := PTZ,
             a_id := rnd, a_content := (a_content request)[0 := lid uid, 1 := lid cid, 2 := opcode, 3 := angle]\<rparr>"

definition buildSwitchResponse ::
    "MCCAgentRequest \<Rightarrow> int \<Rightarrow> string \<Rightarrow> int \<Rightarrow> MCCAgentResponse \<Rightarrow> MCCAgentResponse" where
  "buildSwitchResponse request statuscode reason outport response =
     response\<lparr>a_type := RESPONSE, a_initiator := a_initiator request, a_from := a_to request, a_to := a_from request,
              a_method := a_method request, a_id := a_id request, r_statuscode := statuscode, r_reason := reason,
              a_content := (a_content response)[2 := outport]\<rparr>"

definition buildPtzResponse ::
    "MCCAgentRequest \<Rightarrow> int \<Rightarrow> string \<Rightarrow> MCCAgentResponse \<Rightarrow> MCCAgentResponse" where
  "buildPtzResponse request statuscode reason response =
     response\<lparr>a_type := RESPONSE, a_initiator := a_initiator request, a_from := a_to request, a_to := a_from request,
              a_method := a_method request, a_id := a_id request, r_statuscode := statuscode, r_reason := reason\<rparr>"

section \<open>Printing\<close>

definition quote :: string where "quote = [CHR 0x22]"
definition eol :: string where "eol = [CHR 0x0D, CHR 0x0A]"

definition xml_prolog :: string where
  "xml_prolog = ''<?xml version='' @ quote @ ''1.0'' @ quote @ '' encoding='' @ quote @ ''UTF-8'' @ quote @ ''?>'' @ eol"

text \<open>\<open>name="value"\<close> with the blank before it.\<close>

definition attr_text :: "string \<Rightarrow> string \<Rightarrow> string" where
  "attr_text n v = '' '' @ n @ ''='' @ quote @ v @ quote"

definition message_head :: "('a) MCCAgentMessage_scheme \<Rightarrow> string" where
  "message_head m =
     xml_prolog @ ''<XML_MESSAGE'' @ attr_text ''type'' (show_int (a_type m)) @ attr_text ''method'' (show_int (a_method m)) @
     attr_text ''seq'' (show_int (a_id m)) @ attr_text ''from'' (show_int (a_from m)) @ attr_text ''to'' (show_int (a_to m)) @
     attr_text ''initiator'' (show_int (a_initiator m)) @ ''>'' @ eol"

definition message_tail :: string where
  "message_tail = ''</XML_MESSAGE>'' @ eol"

text \<open>The loop over the children prints \<open>children[i]\<close> for every \<open>i\<close> below \<open>children_num\<close>.\<close>

fun print_children :: "Content \<Rightarrow> nat \<Rightarrow> nat \<Rightarrow> string result" where
  "print_children c i 0 = Inr []"
| "print_children c i (Suc n) =
     bindr (children_get c i) (\<lambda>v. bindr (print_children c (Suc i) n) (\<lambda>s.
       Inr (''<Item'' @ attr_text ''id'' (show_int v) @ ''/>'' @ eol @ s)))"

definition request_text :: "MCCAgentRequest \<Rightarrow> string result" where
  "request_text m =
    (let c = a_content m in
     if a_method m = REGISTER then
       bindr (print_children c 0 (nat (reg_children_num c))) (\<lambda>items.
         Inr (message_head m @ ''<Expire'' @ attr_text ''time'' (show_int (reg_expire c)) @ ''/>'' @ eol @
              ''<ChildMatrix>'' @ eol @ items @ ''</ChildMatrix>'' @ eol @ message_tail))
     else if a_method m = SWITCH then
       Inr (message_head m @ ''<User'' @ attr_text ''id'' (show_int (swi_userid c)) @ ''/>'' @ eol @
            ''<Camera'' @ attr_text ''id'' (show_int (swi_cameraid c)) @ ''/>'' @ eol @ message_tail)
     else if a_method m = PTZ then
       Inr (message_head m @ ''<User'' @ attr_text ''id'' (show_int (ptz_userid c)) @ ''/>'' @ eol @
            ''<Camera'' @ attr_text ''id'' (show_int (ptz_cameraid c)) @ ''/>'' @ eol @
            ''<Operation'' @ attr_text ''direction'' (show_int (ptz_direction c)) @
            attr_text ''angle'' (show_int (ptz_angle c)) @ ''/>'' @ eol @ message_tail)
     else Inr [])"

definition response_text :: "MCCAgentResponse \<Rightarrow> string" where
  "response_text m =
     message_head m @ ''<Status'' @ attr_text ''code'' (show_int (r_statuscode m)) @ attr_text ''reason'' (r_reason m) @ ''/>'' @ eol @
     (if a_method m = SWITCH then ''<Connection'' @ attr_text ''outport'' (show_int (swi_outport (a_content m))) @ ''/>'' @ eol
      else []) @
     message_tail"

text \<open>\<open>print(buf, len)\<close>: the text is copied with \<open>strcpy\<close> into a buffer of \<open>cap\<close> bytes.\<close>

definition strcpy_into :: "nat \<Rightarrow> string \<Rightarrow> string result" where
  "strcpy_into cap s = (if length s + 1 \<le> cap then Inr s else Inl OutOfBounds)"

definition MCCAgentRequest_print :: "nat \<Rightarrow> MCCAgentRequest \<Rightarrow> string result" where
  "MCCAgentRequest_print cap m = bindr (request_text m) (strcpy_into cap)"

definition MCCAgentResponse_print :: "nat \<Rightarrow> MCCAgentResponse \<Rightarrow> string result" where
  "MCCAgentResponse_print cap m = strcpy_into cap (response_text m)"

text \<open>\<open>operator<<\<close>, which the log macros evaluate on every message logged (the logger passes every level): the text
  goes into a buffer of its own, whose size \<open>print\<close> is not told.  \<open>print\<close> writes nothing for a request of another method, so that
  the uninitialised buffer is read.\<close>

definition LOGBUF :: nat where
  "LOGBUF = 1024"

definition request_output :: "MCCAgentRequest \<Rightarrow> string result" where
  "request_output m =
    (if a_method m = REGISTER \<or> a_method m = SWITCH \<or> a_method m = PTZ then MCCAgentRequest_print LOGBUF m else Inl Unspecified)"

definition response_output :: "MCCAgentResponse \<Rightarrow> string result" where
  "response_output m = MCCAgentResponse_print LOGBUF m"

lemma request_output_Inr:
  "a_method m \<in> {REGISTER, SWITCH, PTZ} \<Longrightarrow> request_text m = Inr txt \<Longrightarrow> length txt < LOGBUF \<Longrightarrow> request_output m = Inr txt"
  by (auto simp: request_output_def MCCAgentRequest_print_def strcpy_into_def)

lemma response_output_Inr: "length (response_text m) < LOGBUF \<Longrightarrow> response_output m = Inr (response_text m)"
  by (simp add: response_output_def MCCAgentResponse_print_def strcpy_into_def)

section \<open>Parsing\<close>

text \<open>
  The attributes of the root element, in the order the code reads them.  The first component is the
  value to return at once (1), or 0 to go on; fields already read keep their new values.
\<close>

definition parse_header :: "TiXml \<Rightarrow> xml \<Rightarrow> int \<Rightarrow> ('a) MCCAgentMessage_scheme \<Rightarrow> int \<times> ('a) MCCAgentMessage_scheme" where
  "parse_header X root want m =
    (case Attribute X root ''type'' (a_type m) of (p, i) \<Rightarrow> let m = m\<lparr>a_type := i\<rparr> in
     if p = None then (1, m) else if a_type m \<noteq> want then (1, m) else
     case Attribute X root ''method'' (a_method m) of (p, i) \<Rightarrow> let m = m\<lparr>a_method := i\<rparr> in
     if p = None then (1, m) else
     case Attribute X root ''seq'' (a_id m) of (p, i) \<Rightarrow> let m = m\<lparr>a_id := i\<rparr> in
     if p = None then (1, m) else
     case Attribute X root ''from'' (a_from m) of (p, i) \<Rightarrow> let m = m\<lparr>a_from := i\<rparr> in
     if p = None then (1, m) else
     case Attribute X root ''to'' (a_to m) of (p, i) \<Rightarrow> let m = m\<lparr>a_to := i\<rparr> in
     if p = None then (1, m) else
     case Attribute X root ''initiator'' (a_initiator m) of (p, i) \<Rightarrow> let m = m\<lparr>a_initiator := i\<rparr> in
     if p = None then (1, m) else (0, m))"

text \<open>The loop over the items; \<open>matrixid\<close> keeps its value when an item has no \<open>id\<close>.\<close>

fun parse_items :: "TiXml \<Rightarrow> xml list \<Rightarrow> nat \<Rightarrow> int \<Rightarrow> Content \<Rightarrow> (Content \<times> nat) result" where
  "parse_items X [] i matrixid c = Inr (c, i)"
| "parse_items X (item # items) i matrixid c =
     (let v = snd (Attribute X item ''id'' matrixid)
      in bindr (children_set c i v) (\<lambda>c. parse_items X items (Suc i) v c))"

definition parse_register :: "TiXml \<Rightarrow> int \<Rightarrow> xml \<Rightarrow> MCCAgentRequest \<Rightarrow> (int \<times> MCCAgentRequest) result" where
  "parse_register X junk root m =
    (case child_element root ''Expire'' of
       None \<Rightarrow> Inr (1, m)
     | Some param \<Rightarrow>
         (case Attribute X param ''time'' junk of (p, expire) \<Rightarrow>
          if p = None then Inr (1, m)
          else
            (let c = (a_content m)[0 := expire];
                 items = (case FirstChild root ''ChildMatrix'' of None \<Rightarrow> []
                          | Some cm \<Rightarrow> (case to_element cm of None \<Rightarrow> [] | Some e \<Rightarrow> item_chain e))
             in bindr (parse_items X items 0 junk c) (\<lambda>(c, n).
                  Inr (0, m\<lparr>a_content := c[1 := int n]\<rparr>)))))"

definition parse_switch :: "TiXml \<Rightarrow> int \<Rightarrow> xml \<Rightarrow> MCCAgentRequest \<Rightarrow> (int \<times> MCCAgentRequest) result" where
  "parse_switch X junk root m =
    (case child_element root ''User'' of
       None \<Rightarrow> Inr (1, m)
     | Some param \<Rightarrow>
         (let u = snd (Attribute X param ''id'' junk);
              m = m\<lparr>a_content := (a_content m)[0 := u]\<rparr>
          in case child_element root ''Camera'' of
               None \<Rightarrow> Inr (1, m)
             | Some param \<Rightarrow> Inr (0, m\<lparr>a_content := (a_content m)[1 := snd (Attribute X param ''id'' u)]\<rparr>)))"

definition parse_ptz :: "TiXml \<Rightarrow> int \<Rightarrow> xml \<Rightarrow> MCCAgentRequest \<Rightarrow> (int \<times> MCCAgentRequest) result" where
  "parse_ptz X junk root m =
    bindr (parse_switch X junk root m) (\<lambda>(rc, m).
      if rc \<noteq> 0 then Inr (rc, m)
      else case child_element root ''Operation'' of
             None \<Rightarrow> Inr (1, m)
           | Some param \<Rightarrow>
               (let d = snd (Attribute X param ''direction'' junk); a = snd (Attribute X param ''angle'' junk)
                in Inr (0, m\<lparr>a_content := (a_content m)[2 := d, 3 := a]\<rparr>)))"

text \<open>
  \<open>MCCAgentRequest::Parse\<close>: \<open>m\<close> is the object before the call and \<open>junk\<close> the content of
  the local variables.  A text without a root element makes \<open>root\<close> null.
\<close>

definition MCCAgentRequest_Parse :: "TiXml \<Rightarrow> int \<Rightarrow> string \<Rightarrow> MCCAgentRequest \<Rightarrow> (int \<times> MCCAgentRequest) result" where
  "MCCAgentRequest_Parse X junk buf m =
    (case xml_root X buf of
       None \<Rightarrow> Inl NullDeref
     | Some root \<Rightarrow>
         (case parse_header X root REQUEST m of (rc, m) \<Rightarrow>
          if rc \<noteq> 0 then Inr (rc, m)
          else if a_method m = REGISTER then parse_register X junk root m
          else if a_method m = SWITCH then parse_switch X junk root m
          else if a_method m = PTZ then parse_ptz X junk root m
          else Inr (1, m)))"

definition MCCAgentResponse_Parse :: "TiXml \<Rightarrow> int \<Rightarrow> string \<Rightarrow> MCCAgentResponse \<Rightarrow> (int \<times> MCCAgentResponse) result" where
  "MCCAgentResponse_Parse X junk buf m =
    (case xml_root X buf of
       None \<Rightarrow> Inl NullDeref
     | Some root \<Rightarrow>
         (case parse_header X root RESPONSE m of (rc, m) \<Rightarrow>
          if rc \<noteq> 0 then Inr (rc, m)
          else case child_element root ''Status'' of
            None \<Rightarrow> Inr (1, m)
          | Some param \<Rightarrow>
              (case Attribute X param ''code'' (r_statuscode m) of (p, i) \<Rightarrow> let m = m\<lparr>r_statuscode := i\<rparr> in
               if p = None then Inr (1, m) else
               case Attribute X param ''reason'' (a_initiator m) of (p, i) \<Rightarrow> let m = m\<lparr>a_initiator := i\<rparr> in
               case p of None \<Rightarrow> Inr (1, m)
               | Some reason \<Rightarrow>
                   (let m = m\<lparr>r_reason := reason\<rparr> in
                    if a_method m = SWITCH then
                      (case child_element root ''Connection'' of
                         None \<Rightarrow> Inr (1, m)
                       | Some param \<Rightarrow>
                           Inr (0, m\<lparr>a_content := (a_content m)[2 := snd (Attribute X param ''outport'' junk)]\<rparr>))
                    else Inr (1, m)))))"

text \<open>The constructors from a buffer: parse and record whether it succeeded.\<close>

definition MCCAgentRequest_new :: "TiXml \<Rightarrow> int \<Rightarrow> string \<Rightarrow> MCCAgentRequest \<Rightarrow> MCCAgentRequest result" where
  "MCCAgentRequest_new X junk buf m =
     bindr (MCCAgentRequest_Parse X junk buf m) (\<lambda>(rc, m). Inr (m\<lparr>a_valid := (rc = 0)\<rparr>))"

definition MCCAgentResponse_new :: "TiXml \<Rightarrow> int \<Rightarrow> string \<Rightarrow> MCCAgentResponse \<Rightarrow> MCCAgentResponse result" where
  "MCCAgentResponse_new X junk buf m =
     bindr (MCCAgentResponse_Parse X junk buf m) (\<lambda>(rc, m). Inr (m\<lparr>a_valid := (rc = 0)\<rparr>))"

end
