(* ===== verification/Resource_Manager.thy ===== *)
theory Resource_Manager
  imports Resource_Data Agent_Message "HOL-Library.Signed_Division"
begin

text \<open>
  \<open>mccresourcemanager.cpp\<close>: the arbitration of cameras, monitors and trunks.  The state record holds
  the members of the class, the static \<open>__last_switch_cid\<close> of the file and the static message counter.
  Each handler returns the new state and, in the order of the code, the calls it makes on the
  other components: the keyboard manager, the client manager, the keyboards and the two agents.
  A handler that reaches a point where C++ gives no result returns the fault instead.

  The environment of a call is the record \<open>rm_env\<close>: the time of day, the value of \<open>rand()\<close>, and the
  uninitialised contents of the local message objects and of a new user's expiry time.
\<close>

section \<open>State, environment and calls\<close>

datatype ProcessResult = ACCEPT | REJECT | PENDING

record rm_env =
  e_now :: int
  e_rand :: int
  e_request :: MCCAgentRequest
  e_response :: MCCAgentResponse
  e_junk :: int

datatype rm_call =
    KbMgrSendSwitch int MCCKeyboardMessage      \<comment> \<open>\<open>mKeyboardManager->SendSwitch(id, msg)\<close>\<close>
  | KbMgrSendPtz int MCCKeyboardMessage         \<comment> \<open>\<open>mKeyboardManager->SendPtz(id, msg)\<close>\<close>
  | ClientMgrNotify MCCKeyboardMessage          \<comment> \<open>\<open>mClientManager->Notify(msg)\<close>\<close>
  | KbNotify int MCCKeyboardMessage int string  \<comment> \<open>\<open>kb->Notify(msg, status, reason)\<close>\<close>
  | ServerSend int MCCAgentRequest              \<comment> \<open>\<open>mServer->Send(fd, request)\<close>\<close>
  | ClientSendRequest MCCAgentRequest           \<comment> \<open>\<open>mClient->Send(request)\<close>\<close>
  | ClientSendResponse MCCAgentResponse         \<comment> \<open>\<open>mClient->Send(response)\<close>\<close>

record MCCResourceManager =
  rm_matrixId :: int
  rm_cameras :: "int \<rightharpoonup> Camera option"
  rm_trunks :: "Trunk list"
  rm_monitors :: "int \<rightharpoonup> Monitor option"
  rm_children :: "(int \<times> MatrixInfo) list"
  rm_contexts :: "int \<rightharpoonup> ProcessContext"
  rm_clientConnected :: bool
  rm_level :: int
  rm_lastCid :: MCCGlobalID
  rm_msgCounter :: int

definition isCameraExist :: "int \<Rightarrow> MCCResourceManager \<Rightarrow> bool \<times> MCCResourceManager" where
  "isCameraExist i s =
     (case bracket (rm_cameras s) i of (p, cams) \<Rightarrow> (p \<noteq> None, s\<lparr>rm_cameras := cams\<rparr>))"

definition isChild :: "int \<Rightarrow> MCCResourceManager \<Rightarrow> bool" where
  "isChild matrixId s \<longleftrightarrow> find (\<lambda>e. hasChild matrixId (snd e)) (rm_children s) \<noteq> None"

definition matchMatrix :: "int \<Rightarrow> MCCResourceManager \<Rightarrow> MatrixInfo option" where
  "matchMatrix matrixId s =
     map_option snd (find (\<lambda>e. mx_id (snd e) = matrixId \<or> hasChild matrixId (snd e)) (rm_children s))"

definition isLocal :: "int \<Rightarrow> MCCResourceManager \<Rightarrow> bool" where
  "isLocal matrixId s \<longleftrightarrow> matrixId = rm_matrixId s"

section \<open>Keyboard messages\<close>

definition processSwitchMessage ::
    "rm_env \<Rightarrow> MCCKeyboardMessage \<Rightarrow> int option \<Rightarrow> MCCResourceManager \<Rightarrow>
     ProcessResult \<times> MCCResourceManager \<times> rm_call list" where
  "processSwitchMessage e msg kb s =
    (let m = mid (camera_id msg) in
     case bracket (rm_monitors s) (monitor_id msg) of (p, mons) \<Rightarrow>
     let s = s\<lparr>rm_monitors := mons\<rparr> in
     case p of None \<Rightarrow> (REJECT, s, [])
     | Some monitor \<Rightarrow>
       if \<not> isExpired (e_now e) (mon_user monitor) \<and> lid (u_id (mon_user monitor)) > keyboard_id msg
       then (REJECT, s, [])
       else if m = rm_matrixId s then
         (case isCameraExist (lid (camera_id msg)) s of (exists, s) \<Rightarrow>
          if exists
          then (ACCEPT, s\<lparr>rm_monitors := (rm_monitors s)(monitor_id msg \<mapsto>
                  Some (Monitor_replace (e_now e) (keyboard_id msg) monitor))\<rparr>, [])
          else (REJECT, s, []))
       else
         (case matchMatrix m s of
            Some matrix \<Rightarrow>
              (let request = buildSwitchRequest (e_rand e) (MCCGlobalID (rm_matrixId s) (keyboard_id msg)) (camera_id msg) (e_request e);
                   context = ProcessContext_new (a_id request) kb msg
               in (PENDING, s\<lparr>rm_contexts := (rm_contexts s)(a_id request \<mapsto> context)\<rparr>,
                   [ServerSend (mx_fd matrix) request]))
          | None \<Rightarrow> (REJECT, s, [])))"

definition processLocalPtz :: "int \<Rightarrow> Camera \<Rightarrow> MCCGlobalID \<Rightarrow> int \<Rightarrow> int \<Rightarrow> ProcessResult \<times> Camera" where
  "processLocalPtz now cam userId optcode lockcode =
    (let cam = (if cam_ptzLocked cam \<and> isExpired now (cam_ptzUser cam) then unlockPtz cam else cam) in
     if cam_ptzLocked cam then
       (if gid_le (u_id (cam_ptzUser cam)) userId \<or> isExpired now (cam_ptzUser cam) then
          (ACCEPT, if lockcode = 1 then lockPtz now userId cam
                   else if lockcode = 2 then unlockPtz cam else cam)
        else (REJECT, cam))
     else if lockcode = 1 then
       (if gid_le (u_id (cam_ptzUser cam)) userId then (ACCEPT, lockPtz now userId cam) else (REJECT, cam))
     else if lockcode = 2 then (REJECT, cam)
     else if gid_le (u_id (cam_ptzUser cam)) userId \<or> isExpired now (cam_ptzUser cam) then
       (ACCEPT, acquirePtz now userId cam)
     else (REJECT, cam))"

definition processPtzMessage ::
    "rm_env \<Rightarrow> MCCKeyboardMessage \<Rightarrow> int option \<Rightarrow> MCCResourceManager \<Rightarrow>
     ProcessResult \<times> MCCResourceManager \<times> rm_call list" where
  "processPtzMessage e msg kb s =
    (let m = mid (camera_id msg); operatorId = MCCGlobalID m (keyboard_id msg) in
     if isLocal m s then
       (case bracket (rm_cameras s) (lid (camera_id msg)) of (p, cams) \<Rightarrow>
        let s = s\<lparr>rm_cameras := cams\<rparr> in
        case p of None \<Rightarrow> (REJECT, s, [])
        | Some cam \<Rightarrow>
            (case processLocalPtz (e_now e) cam operatorId (ptz_opt_type msg) (lock_resource msg) of (r, cam) \<Rightarrow>
             (r, s\<lparr>rm_cameras := (rm_cameras s)(lid (camera_id msg) \<mapsto> Some cam)\<rparr>, [])))
     else
       (case matchMatrix m s of
          Some matrix \<Rightarrow>
            (let request = buildPtzRequest (e_rand e) (MCCGlobalID (rm_matrixId s) (keyboard_id msg)) (camera_id msg)
                             (ptz_opt_type msg) 2 (e_request e);
                 context = ProcessContext_new (a_id request) kb msg;
                 s = (if rm_contexts s (a_id request) = None
                      then s\<lparr>rm_contexts := (rm_contexts s)(a_id request \<mapsto> context)\<rparr> else s)
             in (PENDING, s, [ServerSend (mx_fd matrix) request]))
        | None \<Rightarrow> (ACCEPT, s, [])))"

text \<open>\<open>kb->Notify(...)\<close> through a pointer that may be null.\<close>

definition notify_kb :: "int option \<Rightarrow> MCCKeyboardMessage \<Rightarrow> int \<Rightarrow> string \<Rightarrow> rm_call list result" where
  "notify_kb kb msg status reason =
     (case kb of None \<Rightarrow> Inl NullDeref | Some k \<Rightarrow> Inr [KbNotify k msg status reason])"

definition onSwitch ::
    "rm_env \<Rightarrow> int option \<Rightarrow> MCCKeyboardMessage \<Rightarrow> MCCResourceManager \<Rightarrow> (MCCResourceManager \<times> rm_call list) result" where
  "onSwitch e kb msg s =
    (case processSwitchMessage e msg kb s of (rc, s, calls) \<Rightarrow>
     if rc = ACCEPT then
       Inr (s\<lparr>rm_lastCid := camera_id msg\<rparr>, calls @ [KbMgrSendSwitch 0 msg, ClientMgrNotify msg])
     else if rc = REJECT then
       bindr (notify_kb kb msg 400 ''Rejected'') (\<lambda>n. Inr (s, calls @ n))
     else Inr (s, calls))"

definition onPtz ::
    "rm_env \<Rightarrow> int option \<Rightarrow> MCCKeyboardMessage \<Rightarrow> MCCResourceManager \<Rightarrow> (MCCResourceManager \<times> rm_call list) result" where
  "onPtz e kb msg0 s =
    (let msg = msg0\<lparr>camera_id := rm_lastCid s\<rparr> in
     case processPtzMessage e msg kb s of (rc, s, calls) \<Rightarrow>
     if rc = ACCEPT then Inr (s, calls @ [KbMgrSendPtz 0 msg, ClientMgrNotify msg])
     else if rc = REJECT then
       bindr (notify_kb kb msg 400 ''Rejected'') (\<lambda>n. Inr (s, calls @ n))
     else Inr (s, calls))"

section \<open>Initialisation\<close>

definition toInteger :: "string \<Rightarrow> int \<times> string" where
  "toInteger buf = scan_digits 0 buf"

definition skipSpace :: "string \<Rightarrow> string" where
  "skipSpace buf = dropWhile (\<lambda>c. c \<in> {CHR '' '', CHR 0x09, CHR 0x0D, CHR 0x0A}) buf"

text \<open>\<open>skipToNumber\<close>; the end of the text is its terminating zero.\<close>

definition skipToNumber :: "string \<Rightarrow> string option" where
  "skipToNumber buf =
     (let p = dropWhile (\<lambda>c. c \<noteq> CHR 0x00 \<and> c \<noteq> CHR 0x0A \<and> \<not> is_digit c) buf
      in if p \<noteq> [] \<and> hd p = CHR 0x0D then None else Some p)"

text \<open>The colon-separated numbers of the settings \<open>Cameras\<close> and \<open>Monitors\<close>.\<close>

function parse_ids :: "string \<Rightarrow> int list" where
  "parse_ids buf =
     (case scan_digits 0 buf of (n, p) \<Rightarrow>
      n # (if p \<noteq> [] \<and> hd p = CHR '':'' then parse_ids (tl p) else []))"
  by pat_completeness auto
termination
  by (relation "measure length") (auto dest!: scan_digits_rest simp: neq_Nil_conv)

declare parse_ids.simps [simp del]

text \<open>The setting \<open>Trunks\<close>: pairs \<open>outport-inport\<close>; the hyphen is asserted.\<close>

function parse_trunks :: "string \<Rightarrow> (int \<times> int) list result" where
  "parse_trunks buf =
     (case scan_digits 0 buf of (outport, p) \<Rightarrow>
      if p \<noteq> [] \<and> hd p = CHR ''-'' then
        (case scan_digits 0 (tl p) of (inport, q) \<Rightarrow>
         if q \<noteq> [] \<and> hd q = CHR '':'' then bindr (parse_trunks (tl q)) (\<lambda>ts. Inr ((outport, inport) # ts))
         else Inr [(outport, inport)])
      else Inl AssertFailed)"
  by pat_completeness auto
termination
  by (relation "measure length") (auto dest!: scan_digits_rest simp: neq_Nil_conv)

declare parse_trunks.simps [simp del]

definition initResource ::
    "(int \<Rightarrow> int) \<Rightarrow> string \<Rightarrow> string \<Rightarrow> string \<Rightarrow> MCCResourceManager \<Rightarrow> MCCResourceManager result" where
  "initResource junk cameras monitors trunks s =
     (let s = s\<lparr>rm_cameras := fold (\<lambda>i m. m(i \<mapsto> Some (Camera_new (junk i) i))) (parse_ids cameras) (rm_cameras s)\<rparr>;
          s = s\<lparr>rm_monitors := fold (\<lambda>i m. m(i \<mapsto> Some (Monitor_new (junk i) i))) (parse_ids monitors) (rm_monitors s)\<rparr>
      in bindr (parse_trunks trunks) (\<lambda>ts.
           Inr (s\<lparr>rm_trunks := rm_trunks s @ map (\<lambda>(out, inp). Trunk_new out inp) ts\<rparr>)))"

text \<open>
  \<open>initAgentMessenger\<close>: \<open>serverRc\<close> and \<open>clientRc\<close> are what the two \<open>Start\<close> calls return,
  \<open>parentip\<close> is the setting (null or a text).  The second component lists the calls of \<open>Start\<close>.
\<close>

datatype start_call = StartServer int | StartClient string int

definition initAgentMessenger ::
    "int \<Rightarrow> int \<Rightarrow> string option \<Rightarrow> int \<Rightarrow> int \<Rightarrow> MCCResourceManager \<Rightarrow> int \<times> MCCResourceManager \<times> start_call list" where
  "initAgentMessenger level matrixid parentip serverRc clientRc s =
    (let s = s\<lparr>rm_level := level, rm_matrixId := matrixid\<rparr> in
     if serverRc \<noteq> 0 then (1, s, [StartServer 10001])
     else case parentip of
       Some ip \<Rightarrow>
         if rm_level s \<noteq> 0
         then (if clientRc \<noteq> 0 then 1 else 0, s, [StartServer 10001, StartClient ip 10001])
         else (0, s, [StartServer 10001])
     | None \<Rightarrow> (0, s, [StartServer 10001]))"

text \<open>The constructor, with the statics of the file at their initial values.\<close>

definition MCCResourceManager_new :: MCCResourceManager where
  "MCCResourceManager_new =
     \<lparr>rm_matrixId = 0, rm_cameras = Map.empty, rm_trunks = [], rm_monitors = Map.empty, rm_children = [],
      rm_contexts = Map.empty, rm_clientConnected = False, rm_level = 0, rm_lastCid = MCCGlobalID 0 1,
      rm_msgCounter = 0\<rparr>"

section \<open>The registration of lower matrices\<close>

definition onNewConnection :: "int \<Rightarrow> MCCResourceManager \<Rightarrow> MCCResourceManager" where
  "onNewConnection fd s = s"

text \<open>
  \<open>onDisconnect\<close>: the loop erases the entry its iterator stands on, deletes the object and then
  advances the erased iterator.
\<close>

definition onDisconnect :: "int \<Rightarrow> MCCResourceManager \<Rightarrow> MCCResourceManager result" where
  "onDisconnect fd s =
     (case find (\<lambda>e. mx_fd (snd e) = fd) (rm_children s) of
        None \<Rightarrow> Inr s
      | Some _ \<Rightarrow> Inl IteratorInvalidated)"

text \<open>The loop that copies \<open>children[0..n-1]\<close> of a request into the child set.\<close>

fun add_children :: "Content \<Rightarrow> nat \<Rightarrow> nat \<Rightarrow> MatrixInfo \<Rightarrow> MatrixInfo result" where
  "add_children c i 0 m = Inr m"
| "add_children c i (Suc n) m = bindr (children_get c i) (\<lambda>v. add_children c (Suc i) n (addChild v m))"

text \<open>\<open>buildRegister\<close>: the identifiers of the registered matrices, each followed by its child set.\<close>

definition registered_ids :: "MCCResourceManager \<Rightarrow> int list" where
  "registered_ids s = concat (map (\<lambda>e. mx_id (snd e) # mx_children (snd e)) (rm_children s))"

fun store_children :: "int list \<Rightarrow> nat \<Rightarrow> Content \<Rightarrow> (Content \<times> nat) result" where
  "store_children [] j c = Inr (c, j)"
| "store_children (v # vs) j c = bindr (children_set c j v) (store_children vs (Suc j))"

definition buildRegister :: "rm_env \<Rightarrow> MCCResourceManager \<Rightarrow> MCCAgentRequest result" where
  "buildRegister e s =
    (let request = buildRegRequest (rm_matrixId s) 60 (e_request e)
     in bindr (store_children (registered_ids s) 0 (a_content request)) (\<lambda>(c, j).
          Inr (request\<lparr>a_content := c[1 := int j]\<rparr>)))"

definition onRegister ::
    "rm_env \<Rightarrow> int \<Rightarrow> MCCAgentRequest \<Rightarrow> MCCResourceManager \<Rightarrow> (MCCResourceManager \<times> rm_call list) result" where
  "onRegister e fd reg s =
    (if a_method reg \<noteq> REGISTER then Inr (s, [])
     else
       (let m = a_from reg; c = a_content reg; entry = map_of (rm_children s) m in
        bindr
          (if reg_expire c > 0 then
             (case entry of
                None \<Rightarrow>
                  bindr (add_children c 0 (nat (reg_children_num c)) (MatrixInfo_new m fd)) (\<lambda>matrix.
                    Inr (s\<lparr>rm_children := smap_insert m matrix (rm_children s)\<rparr>))
              | Some matrix \<Rightarrow>
                  bindr (clearChildren matrix) (\<lambda>matrix.
                    bindr (add_children c 0 (nat (reg_children_num c)) matrix) (\<lambda>matrix.
                      Inr (s\<lparr>rm_children := smap_update m matrix (rm_children s)\<rparr>))))
           else
             (case entry of
                None \<Rightarrow> Inr s
              | Some matrix \<Rightarrow> Inr (s\<lparr>rm_children := smap_erase m (rm_children s)\<rparr>)))
          (\<lambda>s. if rm_level s \<noteq> 0 \<and> rm_clientConnected s
               then bindr (buildRegister e s) (\<lambda>r. Inr (s, [ClientSendRequest r]))
               else Inr (s, []))))"

text \<open>Requests other than \<open>REGISTER\<close> that reach the server side are logged and dropped.\<close>

definition onServerRxRequest :: "int \<Rightarrow> MCCAgentRequest \<Rightarrow> MCCResourceManager \<Rightarrow> MCCResourceManager result" where
  "onServerRxRequest fd request s = bindr (request_output request) (\<lambda>logged. Inr s)"

definition onClientConnected :: "rm_env \<Rightarrow> int \<Rightarrow> MCCResourceManager \<Rightarrow> (MCCResourceManager \<times> rm_call list) result" where
  "onClientConnected e fd s =
    (let s = s\<lparr>rm_clientConnected := True\<rparr>
     in bindr (buildRegister e s) (\<lambda>r. Inr (s, [ClientSendRequest r])))"

definition onClientDisconnected :: "int \<Rightarrow> MCCResourceManager \<Rightarrow> MCCResourceManager" where
  "onClientDisconnected fd s = s\<lparr>rm_clientConnected := False\<rparr>"

text \<open>So are the responses that reach the client side.\<close>

definition onClientRxResponse :: "int \<Rightarrow> MCCAgentResponse \<Rightarrow> MCCResourceManager \<Rightarrow> MCCResourceManager result" where
  "onClientRxResponse fd response s = bindr (response_output response) (\<lambda>logged. Inr s)"

definition forwardRequest :: "MCCAgentRequest \<Rightarrow> MCCResourceManager \<Rightarrow> bool" where
  "forwardRequest request s = False"

definition forwardResponse :: "MCCAgentResponse \<Rightarrow> MCCResourceManager \<Rightarrow> rm_call list" where
  "forwardResponse response s = [ClientSendResponse response]"

section \<open>Responses from a lower matrix\<close>

definition onServerRxResponse ::
    "int \<Rightarrow> MCCAgentResponse \<Rightarrow> MCCResourceManager \<Rightarrow> (MCCResourceManager \<times> rm_call list)" where
  "onServerRxResponse fd response s =
    (case rm_contexts s (a_id response) of
       None \<Rightarrow> (s, [])
     | Some context \<Rightarrow>
       (let s = s\<lparr>rm_contexts := (rm_contexts s)(a_id response := None)\<rparr> in
        if a_to response = rm_matrixId s then
          (if a_method response = SWITCH then
             (if r_statuscode response sdiv 100 \<noteq> 2 then
                (case ctx_keyboard context of
                   None \<Rightarrow> (s, [])
                 | Some k \<Rightarrow> (s, [KbNotify k (ctx_event context) (r_statuscode response) (r_reason response)]))
              else
                (case ctx_keyboard context of
                   None \<Rightarrow> (s, [])
                 | Some k \<Rightarrow>
                     (let inport = swi_outport (a_content response);
                          msg = ctx_event context;
                          s = s\<lparr>rm_lastCid := camera_id msg\<rparr>;
                          msg = msg\<lparr>msg_type := eKBMsg_SWITCH, camera_id := MCCGlobalID (rm_matrixId s) inport\<rparr>
                      in (s, [KbMgrSendSwitch 0 msg]))))
           else if a_method response = PTZ then
             (if r_statuscode response sdiv 100 \<noteq> 2 then
                (case ctx_keyboard context of
                   None \<Rightarrow> (s, [])
                 | Some k \<Rightarrow> (s, [KbNotify k (ctx_event context) (r_statuscode response) (r_reason response)]))
              else (s, [ClientMgrNotify (ctx_event context)]))
           else (s, []))
        else if a_method response = SWITCH then
          (s\<lparr>rm_msgCounter := snd (MCCKeyboardMessage_new (rm_msgCounter s))\<rparr>, [ClientSendResponse response])
        else if a_method response = PTZ then (s, [ClientSendResponse response])
        else (s, [])))"

section \<open>Requests from the upper matrix\<close>

text \<open>The scan for the trunk with the greatest top, from the first trunk on.\<close>

fun scan_trunks :: "Trunk list \<Rightarrow> nat \<Rightarrow> nat \<Rightarrow> Trunk list \<Rightarrow> nat result" where
  "scan_trunks ts i best [] = Inr best"
| "scan_trunks ts i best (t # rest) =
     bindr (Trunk_top t) (\<lambda>u. bindr (Trunk_top (ts ! best)) (\<lambda>v.
       scan_trunks ts (Suc i) (if user_gt u v then i else best) rest))"

definition find_index :: "('a \<Rightarrow> bool) \<Rightarrow> 'a list \<Rightarrow> nat option" where
  "find_index P xs = find (\<lambda>i. P (xs ! i)) [0..<length xs]"

text \<open>
  \<open>checkTrunk\<close>: the position of the trunk it selects, if any, and the trunks after the expired users
  have been dropped.
\<close>

definition checkTrunk :: "int \<Rightarrow> MCCUser \<Rightarrow> MCCGlobalID \<Rightarrow> Trunk list \<Rightarrow> (nat option \<times> Trunk list) result" where
  "checkTrunk now user cameraid trunks =
    (let ts = map (updateUsers now) trunks in
     case find_index (\<lambda>t. gid_eq (t_cid t) cameraid) ts of
       Some i \<Rightarrow> Inr (Some i, ts)
     | None \<Rightarrow>
       (case find_index Trunk_empty ts of
          Some i \<Rightarrow> Inr (Some i, ts)
        | None \<Rightarrow>
            if ts = [] then Inl OutOfBounds
            else bindr (scan_trunks ts 0 0 ts) (\<lambda>i.
                   bindr (Trunk_top (ts ! i)) (\<lambda>v.
                     Inr (if user_gt v user then Some i else None, ts)))))"

definition onClientRxSwitch ::
    "rm_env \<Rightarrow> MCCAgentRequest \<Rightarrow> MCCResourceManager \<Rightarrow> (MCCResourceManager \<times> rm_call list) result" where
  "onClientRxSwitch e request s =
    (let remoteUser = MCCUser_new (MCCGlobalID (a_from request) (a_initiator request)) eMCCUserType_Keyboard DEFAULT_EXPIRE (e_junk e);
         camera = swi_cameraid (a_content request);
         cameraId = MCCGlobalID (a_to request) camera;
         answer = (\<lambda>status reason outport. ClientSendResponse (buildSwitchResponse request status reason outport (e_response e)))
     in bindr (checkTrunk (e_now e) remoteUser cameraId (rm_trunks s)) (\<lambda>(found, ts).
       let s = s\<lparr>rm_trunks := ts\<rparr> in
       case found of
         None \<Rightarrow> Inr (s, [answer 404 ''Trunk Busy'' 0])
       | Some i \<Rightarrow>
           if a_to request = rm_matrixId s then
             (if rm_cameras s camera \<noteq> None then
                (let trunk = (Trunk_push (updateExpire (e_now e) remoteUser) (ts ! i))\<lparr>t_cid := MCCGlobalID (rm_matrixId s) camera\<rparr>;
                     (msg, counter) = MCCKeyboardMessage_new (rm_msgCounter s);
                     msg = msg\<lparr>msg_type := eKBMsg_SWITCH, keyboard_id := 0, camera_id := cameraId, monitor_id := t_outport trunk\<rparr>;
                     s = s\<lparr>rm_trunks := ts[i := trunk], rm_msgCounter := counter\<rparr>
                 in Inr (s, [KbMgrSendSwitch 0 msg, ClientMgrNotify msg, answer 200 ''Ok'' (t_outport trunk)]))
              else Inr (s, [answer 404 ''Camera Not Found'' (t_outport (ts ! i))]))
           else
             (case matchMatrix (a_to request) s of
                None \<Rightarrow> Inr (s, [answer 404 ''Matrix Not Found'' (t_outport (ts ! i))])
              | Some matrix \<Rightarrow>
                  (let (null, counter) = MCCKeyboardMessage_new (rm_msgCounter s);
                       s = s\<lparr>rm_msgCounter := counter\<rparr>;
                       context = ProcessContext_new (a_id request) None null
                   in if rm_contexts s (a_id request) \<noteq> None then Inl AssertFailed
                      else Inr (s\<lparr>rm_contexts := (rm_contexts s)(a_id request \<mapsto> context)\<rparr>,
                                [ServerSend (mx_fd matrix) request])))))"

definition onClientRxPtz ::
    "rm_env \<Rightarrow> MCCAgentRequest \<Rightarrow> MCCResourceManager \<Rightarrow> (MCCResourceManager \<times> rm_call list) result" where
  "onClientRxPtz e request s =
    (let userId = MCCGlobalID (a_from request) (a_initiator request);
         cameraId = MCCGlobalID (a_to request) (swi_cameraid (a_content request));
         camera = ptz_cameraid (a_content request);
         answer = (\<lambda>status reason. ClientSendResponse (buildPtzResponse request status reason (e_response e)))
     in if a_to request = rm_matrixId s then
          (case rm_cameras s camera of
             None \<Rightarrow> Inr (s, [answer 404 ''Ptz Not Found''])
           | Some None \<Rightarrow> Inl NullDeref
           | Some (Some cam) \<Rightarrow>
               (case processLocalPtz (e_now e) cam userId (ptz_direction (a_content request)) 0 of (r, cam) \<Rightarrow>
                let s = s\<lparr>rm_cameras := (rm_cameras s)(camera \<mapsto> Some cam)\<rparr> in
                if r = ACCEPT then
                  (let (msg, counter) = MCCKeyboardMessage_new (rm_msgCounter s);
                       msg = msg\<lparr>msg_type := eKBMsg_PTZ, keyboard_id := 0, camera_id := cameraId,
                                 ptz_opt_type := ptz_direction (a_content request), ptz_opt_vstep := 32, ptz_opt_hstep := 32\<rparr>
                   in Inr (s\<lparr>rm_msgCounter := counter\<rparr>,
                           [answer 200 ''Ok'', KbMgrSendPtz 0 msg, ClientMgrNotify msg]))
                else Inr (s, [answer 400 ''Ptz Not Avaliable''])))
        else
          (case matchMatrix (a_to request) s of
             None \<Rightarrow> Inr (s, [answer 404 ''Matrix Not Found''])
           | Some matrix \<Rightarrow> Inl NullDeref))"

definition onClientRxRequest ::
    "rm_env \<Rightarrow> int \<Rightarrow> MCCAgentRequest \<Rightarrow> MCCResourceManager \<Rightarrow> (MCCResourceManager \<times> rm_call list) result" where
  "onClientRxRequest e fd request s =
    (if a_method request = SWITCH then onClientRxSwitch e request s
     else if a_method request = PTZ then onClientRxPtz e request s
     else Inr (s, []))"

lemmas rm_handlers [handler_defs] =
  onSwitch_def onPtz_def processSwitchMessage_def processPtzMessage_def onRegister_def onServerRxResponse_def
  onClientRxSwitch_def onClientRxPtz_def onClientRxRequest_def onClientConnected_def

end
