(* ===== verification/Resource_Invariant.thy ===== *)
theory Resource_Invariant
  imports Resource_Manager
begin

text \<open>
  The well-formedness of the resource manager's state and its preservation by every handler, the
  events as a step relation and the reachable states.
\<close>

section \<open>The invariant\<close>

definition trunk_ok :: "Trunk \<Rightarrow> bool" where
  "trunk_ok t \<longleftrightarrow> heap_order user_gt (t_users t) \<and> (t_users t = [] \<longrightarrow> t_cid t = NullID)"

definition camera_ok :: "int \<Rightarrow> Camera \<Rightarrow> bool" where
  "camera_ok k c \<longleftrightarrow> cam_id c = k \<and> u_expire (cam_ptzUser c) = DEFAULT_EXPIRE"

definition monitor_ok :: "int \<Rightarrow> Monitor \<Rightarrow> bool" where
  "monitor_ok k m \<longleftrightarrow> mon_id m = k \<and> u_expire (mon_user m) = DEFAULT_EXPIRE"

definition matrix_ok :: "int \<Rightarrow> MatrixInfo \<Rightarrow> bool" where
  "matrix_ok k m \<longleftrightarrow> mx_id m = k \<and> sorted_wrt (<) (mx_children m)"

definition rm_inv :: "MCCResourceManager \<Rightarrow> bool" where
  "rm_inv s \<longleftrightarrow>
     (\<forall>t \<in> set (rm_trunks s). trunk_ok t) \<and>
     (\<forall>k c. rm_cameras s k = Some (Some c) \<longrightarrow> camera_ok k c) \<and>
     (\<forall>k m. rm_monitors s k = Some (Some m) \<longrightarrow> monitor_ok k m) \<and>
     smap_sorted (rm_children s) \<and> (\<forall>e \<in> set (rm_children s). matrix_ok (fst e) (snd e)) \<and>
     (\<forall>k c. rm_contexts s k = Some c \<longrightarrow> ctx_id c = k)"

lemma rm_invD:
  assumes "rm_inv s"
  shows "t \<in> set (rm_trunks s) \<Longrightarrow> trunk_ok t"
    and "rm_cameras s k = Some (Some c) \<Longrightarrow> camera_ok k c"
    and "rm_monitors s k = Some (Some m) \<Longrightarrow> monitor_ok k m"
    and "smap_sorted (rm_children s)"
    and "(k, x) \<in> set (rm_children s) \<Longrightarrow> matrix_ok k x"
    and "rm_contexts s k = Some ctx \<Longrightarrow> ctx_id ctx = k"
  using assms unfolding rm_inv_def by fastforce+

section \<open>The classes keep their part of it\<close>

lemma trunk_ok_push: "trunk_ok t \<Longrightarrow> trunk_ok ((Trunk_push u t)\<lparr>t_cid := c\<rparr>)"
proof -
  assume t: "trunk_ok t"
  have "mset (pq_push user_gt u (t_users t)) \<noteq> {#}" by simp
  then have "pq_push user_gt u (t_users t) \<noteq> []" by (metis mset.simps(1))
  with t show ?thesis
    using user_greater.pq.invar_push [of "t_users t" u] by (simp add: trunk_ok_def Trunk_push_def)
qed

lemma trunk_ok_update: "trunk_ok t \<Longrightarrow> trunk_ok (updateUsers now t)"
  using drop_expired_spec(1) [of "t_users t" now] by (auto simp: trunk_ok_def updateUsers_def Let_def)

lemma camera_ok_new: "camera_ok k (Camera_new junk k)"
  by (simp add: camera_ok_def Camera_new_def)

lemma monitor_ok_new: "monitor_ok k (Monitor_new junk k)"
  by (simp add: monitor_ok_def Monitor_new_def)

lemma monitor_ok_replace: "monitor_ok k m \<Longrightarrow> monitor_ok k (Monitor_replace now kb m)"
  by (simp add: monitor_ok_def Monitor_replace_def)

lemma camera_ok_ptz:
  "camera_ok k c \<Longrightarrow> camera_ok k (snd (processLocalPtz now c u opt lock))"
  by (simp add: camera_ok_def processLocalPtz_def Let_def)

lemma matrix_ok_add: "matrix_ok k m \<Longrightarrow> matrix_ok k (addChild v m)"
  by (simp add: matrix_ok_def addChild_def sset_insert_sorted)

lemma matrix_ok_add_children:
  "add_children c i n m = Inr m' \<Longrightarrow> matrix_ok k m \<Longrightarrow> matrix_ok k m'"
  by (induction c i n m rule: add_children.induct) (auto simp: bindr_Inr_iff matrix_ok_add)

lemma clearChildren_Inr: "clearChildren m = Inr m' \<longleftrightarrow> mx_children m = [] \<and> m' = m"
  by (auto simp: clearChildren_def)

section \<open>The handlers keep it\<close>

lemma rm_inv_bracket_monitors:
  "rm_inv s \<Longrightarrow> bracket (rm_monitors s) k = (p, mons) \<Longrightarrow> rm_inv (s\<lparr>rm_monitors := mons\<rparr>)"
  using bracket_snd [of "rm_monitors s" k] by (auto simp: rm_inv_def split: if_splits)

lemma rm_inv_bracket_cameras:
  "rm_inv s \<Longrightarrow> bracket (rm_cameras s) k = (p, cams) \<Longrightarrow> rm_inv (s\<lparr>rm_cameras := cams\<rparr>)"
  using bracket_snd [of "rm_cameras s" k] by (auto simp: rm_inv_def split: if_splits)

lemma bracket_Some: "bracket m k = (Some x, m') \<longleftrightarrow> m k = Some (Some x) \<and> m' = m"
  by (auto simp: bracket_def split: option.splits)

lemma rm_same [simp]:
  "s\<lparr>rm_monitors := rm_monitors s\<rparr> = s"
  "s\<lparr>rm_cameras := rm_cameras s\<rparr> = s"
  by (cases s; simp)+

lemma rm_inv_updates:
  assumes "rm_inv s"
  shows "camera_ok k c \<Longrightarrow> rm_inv (s\<lparr>rm_cameras := (rm_cameras s)(k \<mapsto> Some c)\<rparr>)"
    and "monitor_ok k m \<Longrightarrow> rm_inv (s\<lparr>rm_monitors := (rm_monitors s)(k \<mapsto> Some m)\<rparr>)"
    and "ctx_id ctx = k \<Longrightarrow> rm_inv (s\<lparr>rm_contexts := (rm_contexts s)(k \<mapsto> ctx)\<rparr>)"
    and "rm_inv (s\<lparr>rm_contexts := (rm_contexts s)(k := None)\<rparr>)"
    and "rm_inv (s\<lparr>rm_lastCid := cid\<rparr>)"
    and "rm_inv (s\<lparr>rm_msgCounter := n\<rparr>)"
    and "rm_inv (s\<lparr>rm_clientConnected := b\<rparr>)"
    and "(\<And>t. t \<in> set ts \<Longrightarrow> trunk_ok t) \<Longrightarrow> rm_inv (s\<lparr>rm_trunks := ts\<rparr>)"
  using assms by (auto simp: rm_inv_def split: if_splits)

lemma isCameraExist_inv:
  "rm_inv s \<Longrightarrow> isCameraExist i s = (b, s') \<Longrightarrow> rm_inv s'"
  by (auto simp: isCameraExist_def rm_inv_bracket_cameras split: prod.splits)

lemma isCameraExist_monitors: "isCameraExist i s = (b, s') \<Longrightarrow> rm_monitors s' = rm_monitors s"
  by (auto simp: isCameraExist_def split: prod.splits)

lemma processSwitchMessage_inv:
  assumes "rm_inv s" and "processSwitchMessage e msg kb s = (r, s', calls)"
  shows "rm_inv s'"
proof -
  obtain p mons where b: "bracket (rm_monitors s) (monitor_id msg) = (p, mons)" by fastforce
  with assms(1) have inv: "rm_inv (s\<lparr>rm_monitors := mons\<rparr>)"
    by (rule rm_inv_bracket_monitors)
  show ?thesis
  proof (cases p)
    case None
    with assms(2) b inv show ?thesis by (simp add: processSwitchMessage_def)
  next
    case (Some monitor)
    with b have m: "rm_monitors s (monitor_id msg) = Some (Some monitor)" "mons = rm_monitors s"
      by (simp_all add: bracket_Some)
    with assms(1) have "monitor_ok (monitor_id msg) monitor"
      by (simp add: rm_invD)
    with assms b Some m(2) show ?thesis
      by (auto simp: processSwitchMessage_def Let_def ProcessContext_new_def monitor_ok_replace
          split: if_splits prod.splits option.splits
          intro!: rm_inv_updates elim: isCameraExist_inv)
  qed
qed

lemma processPtzMessage_inv:
  assumes "rm_inv s" and "processPtzMessage e msg kb s = (r, s', calls)"
  shows "rm_inv s'"
proof (cases "isLocal (mid (camera_id msg)) s")
  case True
  obtain p cams where b: "bracket (rm_cameras s) (lid (camera_id msg)) = (p, cams)" by fastforce
  with assms(1) have inv: "rm_inv (s\<lparr>rm_cameras := cams\<rparr>)"
    by (rule rm_inv_bracket_cameras)
  show ?thesis
  proof (cases p)
    case None
    with assms(2) b inv True show ?thesis by (simp add: processPtzMessage_def)
  next
    case (Some cam)
    with b have c: "rm_cameras s (lid (camera_id msg)) = Some (Some cam)" "cams = rm_cameras s"
      by (simp_all add: bracket_Some)
    obtain r0 cam' where l: "processLocalPtz (e_now e) cam (MCCGlobalID (mid (camera_id msg)) (keyboard_id msg))
        (ptz_opt_type msg) (lock_resource msg) = (r0, cam')"
      by fastforce
    from assms(1) c have "camera_ok (lid (camera_id msg)) cam"
      by (simp add: rm_invD)
    then have "camera_ok (lid (camera_id msg)) cam'"
      using camera_ok_ptz l by (metis snd_conv)
    moreover from assms(2) b Some True c l
    have "s' = s\<lparr>rm_cameras := (rm_cameras s)(lid (camera_id msg) \<mapsto> Some cam')\<rparr>"
      by (simp add: processPtzMessage_def Let_def)
    ultimately show ?thesis
      using assms(1) by (simp add: rm_inv_updates)
  qed
next
  case False
  with assms show ?thesis
    by (auto simp: processPtzMessage_def Let_def ProcessContext_new_def rm_inv_updates split: option.splits if_splits)
qed

lemma onSwitch_inv [inv_intros]: "rm_inv s \<Longrightarrow> onSwitch e kb msg s = Inr (s', calls) \<Longrightarrow> rm_inv s'"
  by (auto simp: onSwitch_def bindr_Inr_iff rm_inv_updates processSwitchMessage_inv split: prod.splits if_splits)

lemma onPtz_inv [inv_intros]: "rm_inv s \<Longrightarrow> onPtz e kb msg s = Inr (s', calls) \<Longrightarrow> rm_inv s'"
  by (auto simp: onPtz_def bindr_Inr_iff Let_def processPtzMessage_inv split: prod.splits if_splits)

lemma onDisconnect_inv [inv_intros]: "rm_inv s \<Longrightarrow> onDisconnect fd s = Inr s' \<Longrightarrow> rm_inv s'"
  by (auto simp: onDisconnect_def split: option.splits)

lemma onServerRxResponse_inv [inv_intros]:
  "rm_inv s \<Longrightarrow> onServerRxResponse fd r s = (s', calls) \<Longrightarrow> rm_inv s'"
  by (auto simp: onServerRxResponse_def Let_def rm_inv_updates split: option.splits if_splits)

lemma onClientConnected_inv [inv_intros]: "rm_inv s \<Longrightarrow> onClientConnected e fd s = Inr (s', calls) \<Longrightarrow> rm_inv s'"
  by (auto simp: onClientConnected_def bindr_Inr_iff Let_def rm_inv_updates)

text \<open>Selecting a trunk only drops expired users; its position is in range.\<close>

lemma find_index_Some: "find_index P xs = Some i \<Longrightarrow> i < length xs \<and> P (xs ! i)"
  unfolding find_index_def by (drule find_SomeD) auto

lemma scan_trunks_bound:
  "scan_trunks ts i best rest = Inr k \<Longrightarrow> best < length ts \<Longrightarrow> i + length rest \<le> length ts \<Longrightarrow> k < length ts"
proof (induction rest arbitrary: i best)
  case (Cons t rest)
  from Cons.prems obtain b where "b = i \<or> b = best" and "scan_trunks ts (Suc i) b rest = Inr k"
    by (auto simp: bindr_Inr_iff split: if_splits)
  with Cons.prems show ?case
    by (intro Cons.IH [of "Suc i" b]) auto
qed simp

lemma checkTrunk_Inr:
  assumes "checkTrunk now u cid ts0 = Inr (found, ts)"
  shows "ts = map (updateUsers now) ts0 \<and> (\<forall>i. found = Some i \<longrightarrow> i < length ts)"
  using assms
  by (auto simp: checkTrunk_def Let_def bindr_Inr_iff split: option.splits if_splits
      dest!: find_index_Some scan_trunks_bound)

lemma trunks_ok_check:
  "rm_inv s \<Longrightarrow> checkTrunk now u cid (rm_trunks s) = Inr (found, ts) \<Longrightarrow> t \<in> set ts \<Longrightarrow> trunk_ok t"
  using checkTrunk_Inr by (fastforce simp: rm_invD trunk_ok_update)

lemma onClientRxSwitch_inv:
  assumes "rm_inv s" and "onClientRxSwitch e request s = Inr (s', calls)"
  shows "rm_inv s'"
proof -
  define remoteUser where "remoteUser = MCCUser_new (MCCGlobalID (a_from request) (a_initiator request)) eMCCUserType_Keyboard DEFAULT_EXPIRE (e_junk e)"
  obtain found ts where chk: "checkTrunk (e_now e) remoteUser (MCCGlobalID (a_to request) (swi_cameraid (a_content request))) (rm_trunks s) = Inr (found, ts)"
    using assms(2) by (auto simp: onClientRxSwitch_def Let_def bindr_Inr_iff remoteUser_def)
  have inv: "rm_inv (s\<lparr>rm_trunks := ts\<rparr>)"
    using assms(1) trunks_ok_check [OF assms(1) chk] by (rule rm_inv_updates(8))
  have ok: "trunk_ok ((Trunk_push u (ts ! i))\<lparr>t_cid := c\<rparr>)" if "found = Some i" for i u c
    using that checkTrunk_Inr [OF chk] by (intro trunk_ok_push trunks_ok_check [OF assms(1) chk] nth_mem) auto
  have upd: "rm_inv (s\<lparr>rm_trunks := ts[i := t], rm_msgCounter := n\<rparr>)" if "trunk_ok t" for i t n
  proof -
    have "trunk_ok x" if "x \<in> set (ts[i := t])" for x
      using set_update_subset_insert [of ts i t] that \<open>trunk_ok t\<close> trunks_ok_check [OF assms(1) chk] by blast
    then have "rm_inv (s\<lparr>rm_trunks := ts[i := t]\<rparr>)"
      by (rule rm_inv_updates(8) [OF assms(1)])
    then show ?thesis
      by (simp add: rm_inv_def)
  qed
  have fwd: "rm_inv (s\<lparr>rm_trunks := ts, rm_msgCounter := n, rm_contexts := (rm_contexts s)(k \<mapsto> ProcessContext_new k None x)\<rparr>)" for n k x
    using inv by (auto simp: rm_inv_def ProcessContext_new_def)
  from assms(2) chk show ?thesis
    by (auto simp: onClientRxSwitch_def Let_def remoteUser_def [symmetric] MCCKeyboardMessage_new_def
        split: option.splits if_splits intro!: upd ok fwd inv)
qed

lemma onClientRxPtz_inv:
  assumes "rm_inv s" and "onClientRxPtz e request s = Inr (s', calls)"
  shows "rm_inv s'"
proof (cases "a_to request = rm_matrixId s")
  case True
  let ?k = "ptz_cameraid (a_content request)"
  show ?thesis
  proof (cases "rm_cameras s ?k")
    case None
    with assms True show ?thesis by (simp add: onClientRxPtz_def Let_def)
  next
    case (Some p)
    then obtain cam where cam: "rm_cameras s ?k = Some (Some cam)"
      using assms(2) True by (cases p) (simp_all add: onClientRxPtz_def Let_def)
    obtain r0 cam' where l: "processLocalPtz (e_now e) cam (MCCGlobalID (a_from request) (a_initiator request))
        (ptz_direction (a_content request)) 0 = (r0, cam')"
      by fastforce
    with assms(1) cam have "camera_ok ?k cam'"
      using camera_ok_ptz rm_invD(2) by (metis snd_conv)
    with assms(1) have base: "rm_inv (s\<lparr>rm_cameras := (rm_cameras s)(?k \<mapsto> Some cam')\<rparr>)"
      by (rule rm_inv_updates)
    with assms(2) True cam l show ?thesis
      using rm_inv_updates(6) [OF base]
      by (simp add: onClientRxPtz_def Let_def MCCKeyboardMessage_new_def split: if_splits) auto
  qed
next
  case False
  with assms show ?thesis
    by (auto simp: onClientRxPtz_def Let_def split: option.splits)
qed

lemma onClientRxRequest_inv [inv_intros]:
  "rm_inv s \<Longrightarrow> onClientRxRequest e fd request s = Inr (s', calls) \<Longrightarrow> rm_inv s'"
  by (auto simp: onClientRxRequest_def split: if_splits intro: onClientRxSwitch_inv onClientRxPtz_inv)

text \<open>The registration table stays sorted, and each entry carries its own key.\<close>

lemma rm_inv_children:
  assumes "rm_inv s" and "smap_sorted m" and "\<And>k x. (k, x) \<in> set m \<Longrightarrow> matrix_ok k x"
  shows "rm_inv (s\<lparr>rm_children := m\<rparr>)"
  using assms by (auto simp: rm_inv_def)

lemma matrix_ok_insert:
  assumes "rm_inv s" and "map_of (rm_children s) k = None" and "matrix_ok k x"
  shows "rm_inv (s\<lparr>rm_children := smap_insert k x (rm_children s)\<rparr>)"
  using assms(1)
proof (rule rm_inv_children)
  show "smap_sorted (smap_insert k x (rm_children s))"
    using assms(1) by (simp add: smap_insert_sorted rm_invD)
  show "matrix_ok k' x'" if "(k', x') \<in> set (smap_insert k x (rm_children s))" for k' x'
    using that assms smap.set_insert_new [OF rm_invD(4) [OF assms(1)] assms(2), of x] by (auto simp: rm_invD)
qed

lemma matrix_ok_smap_update:
  assumes "rm_inv s" and "matrix_ok k x"
  shows "rm_inv (s\<lparr>rm_children := smap_update k x (rm_children s)\<rparr>)"
  using assms(1)
proof (rule rm_inv_children)
  show "smap_sorted (smap_update k x (rm_children s))"
    using assms(1) by (simp add: smap_update_sorted rm_invD)
  show "matrix_ok k' x'" if "(k', x') \<in> set (smap_update k x (rm_children s))" for k' x'
    using that assms by (auto simp: smap_update_def rm_invD split: if_splits)
qed

lemma matrix_ok_erase: "rm_inv s \<Longrightarrow> rm_inv (s\<lparr>rm_children := smap_erase k (rm_children s)\<rparr>)"
  by (rule rm_inv_children, assumption, simp add: smap_erase_sorted rm_invD) (auto simp: rm_invD smap_erase_def)

lemma onRegister_inv [inv_intros]:
  assumes "rm_inv s" and "onRegister e fd reg s = Inr (s', calls)"
  shows "rm_inv s'"
proof (cases "a_method reg = REGISTER")
  case True
  let ?c = "a_content reg" and ?m = "a_from reg"
  have new: "matrix_ok ?m (MatrixInfo_new ?m fd)"
    by (simp add: matrix_ok_def MatrixInfo_new_def)
  have old: "matrix_ok ?m x" if "map_of (rm_children s) ?m = Some x" for x
    using that assms(1) by (metis map_of_SomeD rm_invD(5))
  from assms True show ?thesis
    by (auto simp: onRegister_def Let_def bindr_Inr_iff clearChildren_Inr new old
        split: if_splits option.splits
        intro!: matrix_ok_insert matrix_ok_smap_update matrix_ok_erase elim!: matrix_ok_add_children)
next
  case False
  with assms show ?thesis by (simp add: onRegister_def)
qed

section \<open>Events and reachable states\<close>

datatype rm_event =
    KeyboardSwitch "int option" MCCKeyboardMessage
  | KeyboardPtz "int option" MCCKeyboardMessage
  | ChildConnected int
  | ChildDisconnected int
  | ChildRegister int MCCAgentRequest
  | ChildRequest int MCCAgentRequest
  | ChildResponse int MCCAgentResponse
  | ParentConnected int
  | ParentDisconnected int
  | ParentRequest int MCCAgentRequest
  | ParentResponse int MCCAgentResponse

fun rm_handle :: "rm_env \<Rightarrow> rm_event \<Rightarrow> MCCResourceManager \<Rightarrow> (MCCResourceManager \<times> rm_call list) result" where
  "rm_handle e (KeyboardSwitch kb msg) s = onSwitch e kb msg s"
| "rm_handle e (KeyboardPtz kb msg) s = onPtz e kb msg s"
| "rm_handle e (ChildConnected fd) s = Inr (onNewConnection fd s, [])"
| "rm_handle e (ChildDisconnected fd) s = bindr (onDisconnect fd s) (\<lambda>s. Inr (s, []))"
| "rm_handle e (ChildRegister fd reg) s = onRegister e fd reg s"
| "rm_handle e (ChildRequest fd r) s = bindr (onServerRxRequest fd r s) (\<lambda>s. Inr (s, []))"
| "rm_handle e (ChildResponse fd r) s = Inr (onServerRxResponse fd r s)"
| "rm_handle e (ParentConnected fd) s = onClientConnected e fd s"
| "rm_handle e (ParentDisconnected fd) s = Inr (onClientDisconnected fd s, [])"
| "rm_handle e (ParentRequest fd r) s = onClientRxRequest e fd r s"
| "rm_handle e (ParentResponse fd r) s = bindr (onClientRxResponse fd r s) (\<lambda>s. Inr (s, []))"

inductive rm_reach :: "MCCResourceManager \<Rightarrow> bool" where
  start: "initResource junk cams mons trunks MCCResourceManager_new = Inr s0 \<Longrightarrow>
          initAgentMessenger level matrixid parentip serverRc clientRc s0 = (0, s, starts) \<Longrightarrow> rm_reach s"
| step: "rm_reach s \<Longrightarrow> rm_handle e ev s = Inr (s', calls) \<Longrightarrow> rm_reach s'"

inductive_cases rm_reachE: "rm_reach s"

lemma rm_handle_inv: "rm_inv s \<Longrightarrow> rm_handle e ev s = Inr (s', calls) \<Longrightarrow> rm_inv s'"
  by (cases ev)
    (auto simp: bindr_Inr_iff onNewConnection_def onServerRxRequest_def onClientDisconnected_def onClientRxResponse_def
      rm_inv_updates intro: inv_intros)

lemma fold_map_upd_Some:
  "fold (\<lambda>i m. m(i \<mapsto> f i)) is m k = Some v \<Longrightarrow> m k = Some v \<or> k \<in> set is \<and> v = f k"
  by (induction "is" arbitrary: m) (fastforce split: if_splits)+

lemma trunk_ok_new: "trunk_ok (Trunk_new a b)"
  by (simp add: trunk_ok_def Trunk_new_def heap_order_def)

lemma init_inv:
  "initResource junk cams mons trunks MCCResourceManager_new = Inr s0 \<Longrightarrow> rm_inv s0"
  by (auto simp: initResource_def MCCResourceManager_new_def bindr_Inr_iff Let_def rm_inv_def trunk_ok_new smap_sorted_def
      camera_ok_new monitor_ok_new dest!: fold_map_upd_Some)

lemma initAgentMessenger_inv: "rm_inv s \<Longrightarrow> initAgentMessenger l m p a b s = (rc, s', st) \<Longrightarrow> rm_inv s'"
  by (auto simp: initAgentMessenger_def Let_def rm_inv_def split: if_splits option.splits)

lemma reach_inv: "rm_reach s \<Longrightarrow> rm_inv s"
  by (induction rule: rm_reach.induct) (auto intro: rm_handle_inv initAgentMessenger_inv init_inv)

end
