(* ===== verification/Resource_Example.thy ===== *)
theory Resource_Example
  imports Resource_Invariant
begin

text \<open>
  A small installation in which the claims about the resource manager are instantiated: matrix 7 at level 1 with
  the cameras 1 and 2, the monitor 4 and one trunk from port 5 to port 6.  It is reached by the program's own
  initialisation.
\<close>

definition demo_state :: MCCResourceManager where
  "demo_state =
     \<lparr>rm_matrixId = 7, rm_cameras = [1 \<mapsto> Some (Camera_new 0 1), 2 \<mapsto> Some (Camera_new 0 2)],
      rm_trunks = [Trunk_new 5 6], rm_monitors = [4 \<mapsto> Some (Monitor_new 0 4)], rm_children = [],
      rm_contexts = Map.empty, rm_clientConnected = False, rm_level = 1, rm_lastCid = MCCGlobalID 0 1,
      rm_msgCounter = 0\<rparr>"

definition demo_request :: MCCAgentRequest where
  "demo_request = \<lparr>a_initiator = 0, a_from = 0, a_to = 0, a_type = 0, a_method = 0, a_id = 0,
     a_content = replicate content_size 0, a_valid = True\<rparr>"

definition demo_response :: MCCAgentResponse where
  "demo_response = \<lparr>a_initiator = 0, a_from = 0, a_to = 0, a_type = 0, a_method = 0, a_id = 0,
     a_content = replicate content_size 0, a_valid = True, r_statuscode = 0, r_reason = []\<rparr>"

definition demo_env :: "int \<Rightarrow> rm_env" where
  "demo_env now = \<lparr>e_now = now, e_rand = 99, e_request = demo_request, e_response = demo_response, e_junk = 0\<rparr>"

text \<open>A keyboard's switch of camera (m, c) to a monitor.\<close>

definition demo_switch :: "int \<Rightarrow> int \<Rightarrow> int \<Rightarrow> int \<Rightarrow> MCCKeyboardMessage" where
  "demo_switch kb m c mon = (fst (MCCKeyboardMessage_new 0))
     \<lparr>msg_type := eKBMsg_SWITCH, keyboard_id := kb, camera_id := MCCGlobalID m c, monitor_id := mon\<rparr>"

lemmas demo_defs = demo_state_def demo_env_def demo_switch_def demo_request_def demo_response_def

lemma demo_switch_fields [simp]:
  "keyboard_id (demo_switch kb m c mon) = kb" "camera_id (demo_switch kb m c mon) = MCCGlobalID m c"
  "monitor_id (demo_switch kb m c mon) = mon" "msg_type (demo_switch kb m c mon) = eKBMsg_SWITCH"
  by (simp_all add: demo_switch_def)

lemma demo_env_fields [simp]:
  "e_now (demo_env t) = t" "e_rand (demo_env t) = 99" "e_request (demo_env t) = demo_request"
  "e_response (demo_env t) = demo_response" "e_junk (demo_env t) = 0"
  by (simp_all add: demo_env_def)

lemma demo_state_fields [simp]:
  "rm_matrixId demo_state = 7" "rm_trunks demo_state = [Trunk_new 5 6]" "rm_children demo_state = []"
  "rm_contexts demo_state = Map.empty" "rm_level demo_state = 1" "\<not> rm_clientConnected demo_state"
  "rm_monitors demo_state = [4 \<mapsto> Some (Monitor_new 0 4)]"
  "rm_cameras demo_state = [1 \<mapsto> Some (Camera_new 0 1), 2 \<mapsto> Some (Camera_new 0 2)]"
  "rm_lastCid demo_state = MCCGlobalID 0 1" "rm_msgCounter demo_state = 0"
  by (simp_all add: demo_state_def)

lemma demo_reach: "rm_reach demo_state"
proof (rule rm_reach.start)
  show "initResource (\<lambda>i. 0) ''1:2'' ''4'' ''5-6'' MCCResourceManager_new =
      Inr (demo_state\<lparr>rm_level := 0, rm_matrixId := 0\<rparr>)"
    by (simp add: initResource_def parse_trunks.simps parse_ids.simps MCCResourceManager_new_def is_digit_def digit_val_def
        is_int32_def Let_def demo_state_def)
  show "initAgentMessenger 1 7 (Some ''10.0.0.1'') 0 0 (demo_state\<lparr>rm_level := 0, rm_matrixId := 0\<rparr>) =
      (0, demo_state, [StartServer 10001, StartClient ''10.0.0.1'' 10001])"
    by (simp add: initAgentMessenger_def Let_def demo_state_def)
qed

text \<open>Keyboard 3 switches camera 2 to monitor 4 at time 100.\<close>

definition demo_held :: MCCResourceManager where
  "demo_held = demo_state\<lparr>rm_monitors := [4 \<mapsto> Some (Monitor_replace 100 3 (Monitor_new 0 4))]\<rparr>"

lemma demo_accept: "processSwitchMessage (demo_env 100) (demo_switch 3 7 2 4) kb demo_state = (ACCEPT, demo_held, [])"
  by (simp add: processSwitchMessage_def bracket_def isCameraExist_def demo_held_def Monitor_new_def NullID_def Let_def)

end
