(* ===== verification/Resource_Props.thy ===== *)
theory Resource_Props
  imports Resource_Example
begin

text \<open>
  What the resource manager guarantees about monitors, pan-tilt heads and the registration of lower
  matrices: who is accepted and for how long, what a rejected request leaves behind, where requests are
  routed, and how pending requests are settled.
\<close>

section \<open>Sequences of events\<close>

fun rm_run :: "(rm_env \<times> rm_event) list \<Rightarrow> MCCResourceManager \<Rightarrow> (MCCResourceManager \<times> rm_call list) result" where
  "rm_run [] s = Inr (s, [])"
| "rm_run ((e, ev) # evs) s =
     bindr (rm_handle e ev s) (\<lambda>(s, calls). bindr (rm_run evs s) (\<lambda>(s, calls'). Inr (s, calls @ calls')))"

lemma rm_run_reach: "rm_reach s \<Longrightarrow> rm_run evs s = Inr (s', calls) \<Longrightarrow> rm_reach s'"
proof (induction evs arbitrary: s calls)
  case (Cons x evs)
  then show ?case
    by (cases x) (auto simp: bindr_Inr_iff intro: rm_reach.step)
qed simp

section \<open>Monitors\<close>

text \<open>The monitor is in the hands of a keyboard until the given time.\<close>

definition monitor_held :: "int \<Rightarrow> int \<Rightarrow> int \<Rightarrow> MCCResourceManager \<Rightarrow> bool" where
  "monitor_held mon k until s \<longleftrightarrow>
     (\<exists>m. rm_monitors s mon = Some (Some m) \<and> lid (u_id (mon_user m)) = k \<and> u_expireTime (mon_user m) = until)"

lemma bracket_monitor_held:
  "bracket (rm_monitors s) j = (p, mons) \<Longrightarrow> monitor_held mon k until (s\<lparr>rm_monitors := mons\<rparr>) \<longleftrightarrow> monitor_held mon k until s"
  using bracket_snd [of "rm_monitors s" j mon] by (auto simp: monitor_held_def split: if_splits)

lemma processSwitch_cases:
  assumes "processSwitchMessage e msg kb s = (r, s', calls)"
  obtains (no_monitor) mons where "r = REJECT" "bracket (rm_monitors s) (monitor_id msg) = (None, mons)"
      "s' = s\<lparr>rm_monitors := mons\<rparr>" "calls = []"
  | (in_use) m where "r = REJECT" "rm_monitors s (monitor_id msg) = Some (Some m)"
      "\<not> isExpired (e_now e) (mon_user m)" "keyboard_id msg < lid (u_id (mon_user m))" "s' = s" "calls = []"
  | (no_camera) m where "r = REJECT" "rm_monitors s (monitor_id msg) = Some (Some m)" "mid (camera_id msg) = rm_matrixId s"
      "isExpired (e_now e) (mon_user m) \<or> lid (u_id (mon_user m)) \<le> keyboard_id msg"
      "isCameraExist (lid (camera_id msg)) s = (False, s')" "calls = []"
  | (local) m where "r = ACCEPT" "rm_monitors s (monitor_id msg) = Some (Some m)" "mid (camera_id msg) = rm_matrixId s"
      "isExpired (e_now e) (mon_user m) \<or> lid (u_id (mon_user m)) \<le> keyboard_id msg"
      "isCameraExist (lid (camera_id msg)) s = (True, s)"
      "s' = s\<lparr>rm_monitors := (rm_monitors s)(monitor_id msg \<mapsto> Some (Monitor_replace (e_now e) (keyboard_id msg) m))\<rparr>" "calls = []"
  | (remote) m matrix request where "r = PENDING" "rm_monitors s (monitor_id msg) = Some (Some m)" "mid (camera_id msg) \<noteq> rm_matrixId s"
      "isExpired (e_now e) (mon_user m) \<or> lid (u_id (mon_user m)) \<le> keyboard_id msg"
      "matchMatrix (mid (camera_id msg)) s = Some matrix"
      "request = buildSwitchRequest (e_rand e) (MCCGlobalID (rm_matrixId s) (keyboard_id msg)) (camera_id msg) (e_request e)"
      "s' = s\<lparr>rm_contexts := (rm_contexts s)(e_rand e \<mapsto> ProcessContext_new (e_rand e) kb msg)\<rparr>"
      "calls = [ServerSend (mx_fd matrix) request]"
  | (no_route) m where "r = REJECT" "rm_monitors s (monitor_id msg) = Some (Some m)" "mid (camera_id msg) \<noteq> rm_matrixId s"
      "matchMatrix (mid (camera_id msg)) s = None" "s' = s" "calls = []"
proof -
  obtain p mons where b: "bracket (rm_monitors s) (monitor_id msg) = (p, mons)" by fastforce
  show thesis
  proof (cases p)
    case None
    with assms b show thesis
      by (intro no_monitor) (auto simp: processSwitchMessage_def)
  next
    case (Some m)
    with b have m: "rm_monitors s (monitor_id msg) = Some (Some m)" "mons = rm_monitors s"
      by (simp_all add: bracket_Some)
    have same: "s1 = s" if "isCameraExist i s = (True, s1)" for i s1
      using that by (auto simp: isCameraExist_def bracket_Some split: prod.splits)
    show thesis
    proof (cases "\<not> isExpired (e_now e) (mon_user m) \<and> keyboard_id msg < lid (u_id (mon_user m))")
      case True
      with assms b Some m show thesis
        by (intro in_use [of m]) (simp_all add: processSwitchMessage_def)
    next
      case False
      note free = False
      show thesis
      proof (cases "mid (camera_id msg) = rm_matrixId s")
        case True
        obtain x s1 where ex: "isCameraExist (lid (camera_id msg)) s = (x, s1)" by fastforce
        show thesis
        proof (cases x)
          case True
          with same ex have "s1 = s" by simp
          with True \<open>mid (camera_id msg) = rm_matrixId s\<close> assms b Some m free ex show thesis
            by (intro local [of m]) (auto simp: processSwitchMessage_def Let_def)
        next
          case False
          with \<open>mid (camera_id msg) = rm_matrixId s\<close> assms b Some m free ex show thesis
            by (intro no_camera [of m]) (auto simp: processSwitchMessage_def Let_def)
        qed
      next
        case False
        with assms b Some m free show thesis
          by (cases "matchMatrix (mid (camera_id msg)) s")
            (auto simp: processSwitchMessage_def Let_def buildSwitchRequest_def intro: no_route remote)
      qed
    qed
  qed
qed

lemma processSwitch_held:
  assumes "processSwitchMessage e msg kb s = (r, s', calls)" and "monitor_held mon k until s" and "e_now e \<le> until"
    and "monitor_id msg = mon \<Longrightarrow> keyboard_id msg < k"
  shows "monitor_held mon k until s' \<and> (monitor_id msg = mon \<longrightarrow> r = REJECT \<and> s' = s)"
  using assms(1)
proof (cases rule: processSwitch_cases)
  case (no_monitor mons)
  with assms(2) show ?thesis
    by (auto simp: bracket_monitor_held) (auto simp: monitor_held_def bracket_def)
next
  case (no_camera m)
  with assms show ?thesis
    by (auto simp: monitor_held_def isExpired_def isCameraExist_monitors)
next
  case (local m)
  with assms show ?thesis
    by (auto simp: monitor_held_def isExpired_def)
next
  case (remote m matrix request)
  with assms show ?thesis
    by (auto simp: monitor_held_def isExpired_def)
qed (use assms in \<open>auto simp: monitor_held_def isExpired_def\<close>)

text \<open>Only a keyboard's switch changes a monitor.\<close>

lemma processPtz_monitors: "processPtzMessage e msg kb s = (r, s', calls) \<Longrightarrow> rm_monitors s' = rm_monitors s"
  by (auto simp: processPtzMessage_def Let_def split: if_splits option.splits prod.splits)

lemma onRegister_fields:
  assumes "onRegister e fd reg s = Inr (s', calls)"
  shows "rm_monitors s' = rm_monitors s \<and> rm_cameras s' = rm_cameras s \<and> rm_trunks s' = rm_trunks s"
  using assms by (auto simp: onRegister_def Let_def bindr_Inr_iff split: if_splits option.splits)

lemma onServerRxResponse_monitors: "onServerRxResponse fd r s = (s', calls) \<Longrightarrow> rm_monitors s' = rm_monitors s"
  by (auto simp: onServerRxResponse_def Let_def split: if_splits option.splits)

abbreviation remote_user :: "rm_env \<Rightarrow> MCCAgentRequest \<Rightarrow> MCCUser" where
  "remote_user e r \<equiv> MCCUser_new (MCCGlobalID (a_from r) (a_initiator r)) eMCCUserType_Keyboard DEFAULT_EXPIRE (e_junk e)"

abbreviation switch_camera :: "MCCAgentRequest \<Rightarrow> MCCGlobalID" where
  "switch_camera r \<equiv> MCCGlobalID (a_to r) (swi_cameraid (a_content r))"

text \<open>The trunk after it has been given to the requester, and the message for the local matrix.\<close>

definition taken_trunk :: "rm_env \<Rightarrow> MCCAgentRequest \<Rightarrow> Trunk \<Rightarrow> Trunk" where
  "taken_trunk e r t = (Trunk_push (updateExpire (e_now e) (remote_user e r)) t)\<lparr>t_cid := switch_camera r\<rparr>"

definition trunk_message :: "MCCAgentRequest \<Rightarrow> int \<Rightarrow> int \<Rightarrow> MCCKeyboardMessage" where
  "trunk_message r outport counter = (fst (MCCKeyboardMessage_new counter))
     \<lparr>msg_type := eKBMsg_SWITCH, keyboard_id := 0, camera_id := switch_camera r, monitor_id := outport\<rparr>"

lemma onClientRxSwitch_cases:
  assumes "onClientRxSwitch e r s = Inr (s', calls)"
  obtains ts where "checkTrunk (e_now e) (remote_user e r) (switch_camera r) (rm_trunks s) = Inr (None, ts)"
      "s' = s\<lparr>rm_trunks := ts\<rparr>" "calls = [ClientSendResponse (buildSwitchResponse r 404 ''Trunk Busy'' 0 (e_response e))]"
  | (accepted) i ts where "checkTrunk (e_now e) (remote_user e r) (switch_camera r) (rm_trunks s) = Inr (Some i, ts)"
      "a_to r = rm_matrixId s" "rm_cameras s (swi_cameraid (a_content r)) \<noteq> None"
      "s' = s\<lparr>rm_trunks := ts[i := taken_trunk e r (ts ! i)], rm_msgCounter := wrap32 (rm_msgCounter s + 1)\<rparr>"
      "calls = [KbMgrSendSwitch 0 (trunk_message r (t_outport (ts ! i)) (rm_msgCounter s)),
                ClientMgrNotify (trunk_message r (t_outport (ts ! i)) (rm_msgCounter s)),
                ClientSendResponse (buildSwitchResponse r 200 ''Ok'' (t_outport (ts ! i)) (e_response e))]"
  | (refused) i ts reason where "checkTrunk (e_now e) (remote_user e r) (switch_camera r) (rm_trunks s) = Inr (Some i, ts)"
      "s' = s\<lparr>rm_trunks := ts\<rparr>" "calls = [ClientSendResponse (buildSwitchResponse r 404 reason (t_outport (ts ! i)) (e_response e))]"
      "a_to r = rm_matrixId s \<and> rm_cameras s (swi_cameraid (a_content r)) = None \<or> a_to r \<noteq> rm_matrixId s \<and> matchMatrix (a_to r) s = None"
  | (forwarded) i ts matrix where "checkTrunk (e_now e) (remote_user e r) (switch_camera r) (rm_trunks s) = Inr (Some i, ts)"
      "a_to r \<noteq> rm_matrixId s" "matchMatrix (a_to r) s = Some matrix" "rm_contexts s (a_id r) = None"
      "s' = s\<lparr>rm_trunks := ts, rm_msgCounter := wrap32 (rm_msgCounter s + 1),
             rm_contexts := (rm_contexts s)(a_id r \<mapsto> ProcessContext_new (a_id r) None (fst (MCCKeyboardMessage_new (rm_msgCounter s))))\<rparr>"
      "calls = [ServerSend (mx_fd matrix) r]"
proof -
  obtain found ts where chk: "checkTrunk (e_now e) (remote_user e r) (switch_camera r) (rm_trunks s) = Inr (found, ts)"
    using assms by (auto simp: onClientRxSwitch_def Let_def bindr_Inr_iff)
  have mm: "matchMatrix k (s\<lparr>rm_trunks := ts\<rparr>) = matchMatrix k s" for k
    by (simp add: matchMatrix_def)
  show thesis
  proof (cases found)
    case None
    with assms chk show thesis
      by (intro that(1)) (auto simp: onClientRxSwitch_def Let_def)
  next
    case (Some i)
    note found = chk [unfolded Some]
    note body = assms [unfolded onClientRxSwitch_def Let_def found bindr_simps prod.case option.case]
    show thesis
    proof (cases "a_to r = rm_matrixId s")
      case True
      show thesis
      proof (cases "rm_cameras s (swi_cameraid (a_content r)) = None")
        case False
        with body True show thesis
          by (intro accepted [OF found]) (auto simp: MCCKeyboardMessage_new_def taken_trunk_def trunk_message_def Trunk_push_def)
      qed (use body True in \<open>intro refused [OF found]; auto\<close>)
    next
      case False
      show thesis
      proof (cases "matchMatrix (a_to r) s")
        case None
        with body False mm show thesis
          by (intro refused [OF found]) auto
      next
        case (Some matrix)
        with body False mm show thesis
          by (intro forwarded [OF found False Some]) (auto simp: MCCKeyboardMessage_new_def split: if_splits)
      qed
    qed
  qed
qed

lemma onClientRxSwitch_monitors: "onClientRxSwitch e r s = Inr (s', calls) \<Longrightarrow> rm_monitors s' = rm_monitors s"
  by (erule onClientRxSwitch_cases) simp_all

lemma onClientRxPtz_monitors: "onClientRxPtz e r s = Inr (s', calls) \<Longrightarrow> rm_monitors s' = rm_monitors s"
  by (auto simp: onClientRxPtz_def Let_def MCCKeyboardMessage_new_def split: if_splits option.splits prod.splits)

lemma handle_monitors:
  assumes "rm_handle e ev s = Inr (s', calls)" and "\<And>kb msg. ev \<noteq> KeyboardSwitch kb msg"
  shows "rm_monitors s' = rm_monitors s"
  using assms
  by (cases ev)
    (auto simp: onPtz_def bindr_Inr_iff Let_def onNewConnection_def onDisconnect_def onServerRxRequest_def onClientConnected_def
      onClientDisconnected_def onClientRxResponse_def onClientRxRequest_def
      split: if_splits option.splits prod.splits
      dest!: processPtz_monitors onRegister_fields onServerRxResponse_monitors onClientRxSwitch_monitors onClientRxPtz_monitors)

text \<open>Events that do not come from a keyboard that may take the monitor over.\<close>

fun yields_to :: "int \<Rightarrow> int \<Rightarrow> rm_event \<Rightarrow> bool" where
  "yields_to mon k (KeyboardSwitch kb msg) \<longleftrightarrow> (monitor_id msg = mon \<longrightarrow> keyboard_id msg < k)"
| "yields_to mon k ev \<longleftrightarrow> True"

lemma handle_held:
  assumes "rm_handle e ev s = Inr (s', calls)" and "monitor_held mon k until s" and "e_now e \<le> until" and "yields_to mon k ev"
  shows "monitor_held mon k until s'"
proof (cases ev)
  case (KeyboardSwitch kb msg)
  obtain r s1 c where p: "processSwitchMessage e msg kb s = (r, s1, c)" by (metis prod_cases3)
  with assms KeyboardSwitch have "monitor_held mon k until s1"
    using processSwitch_held by (metis yields_to.simps(1))
  with p assms(1) KeyboardSwitch show ?thesis
    by (auto simp: onSwitch_def bindr_Inr_iff monitor_held_def split: if_splits)
next
  case (KeyboardPtz kb msg)
  with assms show ?thesis by (simp add: monitor_held_def handle_monitors [OF assms(1)])
qed (use assms in \<open>simp add: monitor_held_def handle_monitors [OF assms(1)]\<close>)+

lemma run_held:
  assumes "rm_run evs s = Inr (s', calls)" and "monitor_held mon k until s"
    and "\<And>e ev. (e, ev) \<in> set evs \<Longrightarrow> e_now e \<le> until \<and> yields_to mon k ev"
  shows "monitor_held mon k until s'"
  using assms
proof (induction evs arbitrary: s calls)
  case (Cons x evs)
  obtain e ev where x: "x = (e, ev)" by fastforce
  with Cons.prems(1) obtain s1 c1 c2 where "rm_handle e ev s = Inr (s1, c1)" and "rm_run evs s1 = Inr (s', c2)"
    by (auto simp: bindr_Inr_iff)
  with Cons x show ?case
    by (metis handle_held list.set_intros)
qed simp

lemma accepted_switch_holds:
  assumes "rm_inv s" and "processSwitchMessage e msg kb s = (ACCEPT, s', calls)"
  shows "monitor_held (monitor_id msg) (keyboard_id msg) (e_now e + DEFAULT_EXPIRE) s'"
  using assms(2)
proof (cases rule: processSwitch_cases)
  case (local m)
  with assms(1) have "u_expire (mon_user m) = DEFAULT_EXPIRE"
    using rm_invD(3) monitor_ok_def by blast
  with local show ?thesis
    by (simp add: monitor_held_def Monitor_replace_def)
qed simp_all

section \<open>Claims about monitors\<close>

text \<open>C1. In every state the program can reach from its start, the trunks' user queues are heaps and idle trunks
  carry no camera, every camera and monitor object is stored under its own number and renews its user for 20 seconds,
  the table of lower matrices is sorted and keyed by the matrix number, and every pending request is stored under its
  own identifier.\<close>

theorem reachable_invariant: "rm_reach s \<Longrightarrow> rm_inv s"
  by (rule reach_inv)

theorem reachable_invariant_witness: "rm_inv demo_state \<and> rm_trunks demo_state \<noteq> []"
  using reachable_invariant [OF demo_reach] by simp

text \<open>C5. A switch of a camera of this matrix is accepted exactly when the monitor exists, the camera exists, and the
  monitor's last user has expired or has a keyboard number that is not greater than the requester's; an accepted switch
  hands the monitor to the requester, and it is the only case that changes a monitor object.\<close>

theorem switch_local_accept_iff:
  assumes "mid (camera_id msg) = rm_matrixId s" and "processSwitchMessage e msg kb s = (r, s', calls)"
  shows "(r = ACCEPT \<longleftrightarrow>
      (\<exists>m c. rm_monitors s (monitor_id msg) = Some (Some m) \<and> rm_cameras s (lid (camera_id msg)) = Some (Some c) \<and>
        (isExpired (e_now e) (mon_user m) \<or> lid (u_id (mon_user m)) \<le> keyboard_id msg))) \<and>
    (r \<noteq> ACCEPT \<longrightarrow> r = REJECT \<and> (\<forall>k. Option.bind (rm_monitors s' k) id = Option.bind (rm_monitors s k) id)) \<and> calls = []"
  using assms(2)
proof (cases rule: processSwitch_cases)
  case (no_monitor mons)
  then show ?thesis
    using bracket_objects [of "rm_monitors s" "monitor_id msg"] by (auto simp: bracket_def split: option.splits)
next
  case (no_camera m)
  then show ?thesis
    by (auto simp: isCameraExist_monitors) (auto simp: isCameraExist_def bracket_def split: option.splits)
next
  case (local m)
  then obtain c where "rm_cameras s (lid (camera_id msg)) = Some (Some c)"
    by (auto simp: isCameraExist_def bracket_def split: option.splits)
  with local show ?thesis by auto
qed (use assms in \<open>auto simp: isExpired_def\<close>)

theorem switch_local_accept_iff_witness:
  "(\<exists>m c. rm_monitors demo_state 4 = Some (Some m) \<and> rm_cameras demo_state 2 = Some (Some c) \<and>
     (isExpired 100 (mon_user m) \<or> lid (u_id (mon_user m)) \<le> 3)) \<and>
   processSwitchMessage (demo_env 100) (demo_switch 3 7 2 4) None demo_state = (ACCEPT, demo_held, [])"
  using switch_local_accept_iff [of "demo_switch 3 7 2 4" demo_state "demo_env 100" None, OF _ demo_accept]
  by (simp add: demo_accept)

text \<open>Once a keyboard's switch has been accepted in a reachable state, the monitor stays in its hands for 20
  seconds, through any sequence of events of the whole system in which no keyboard with the same or a greater number
  switches that monitor.\<close>

theorem monitor_held_20_seconds:
  assumes "rm_reach s" and "processSwitchMessage e msg kb s = (ACCEPT, s1, calls)"
    and "rm_run evs s1 = Inr (s2, calls2)"
    and "\<And>e' ev. (e', ev) \<in> set evs \<Longrightarrow> e_now e' \<le> e_now e + 20 \<and> yields_to (monitor_id msg) (keyboard_id msg) ev"
  shows "monitor_held (monitor_id msg) (keyboard_id msg) (e_now e + 20) s2"
  using run_held [OF assms(3) accepted_switch_holds [OF reach_inv [OF assms(1)] assms(2)]] assms(4)
  by (simp add: DEFAULT_EXPIRE_def)

theorem monitor_held_20_seconds_witness:
  "\<exists>calls. rm_run [(demo_env 110, KeyboardSwitch (Some 1) (demo_switch 1 7 1 4)),
                   (demo_env 120, ParentDisconnected 8)] demo_held =
      Inr (demo_held, calls) \<and> monitor_held 4 3 120 demo_held"
proof -
  let ?evs = "[(demo_env 110, KeyboardSwitch (Some 1) (demo_switch 1 7 1 4)), (demo_env 120, ParentDisconnected 8)]"
  have run: "rm_run ?evs demo_held = Inr (demo_held, [KbNotify 1 (demo_switch 1 7 1 4) 400 ''Rejected''])"
    by (simp add: demo_held_def onSwitch_def processSwitchMessage_def bracket_def Monitor_replace_def Monitor_new_def
        isExpired_def DEFAULT_EXPIRE_def notify_kb_def onClientDisconnected_def)
  have "monitor_held (monitor_id (demo_switch 3 7 2 4)) (keyboard_id (demo_switch 3 7 2 4)) (e_now (demo_env 100) + 20) demo_held"
    by (rule monitor_held_20_seconds [OF demo_reach demo_accept [of None] run]) auto
  with run show ?thesis by simp
qed

text \<open>While a monitor is held, a switch to it by a keyboard with a smaller number is rejected: the state does not
  change, nothing is sent to the matrix, and the keyboard is told 400.\<close>

theorem held_monitor_rejects:
  assumes "monitor_held (monitor_id msg) k until s" and "e_now e \<le> until" and "keyboard_id msg < k"
  shows "onSwitch e (Some kb) msg s = Inr (s, [KbNotify kb msg 400 ''Rejected''])"
proof -
  obtain r s' calls where p: "processSwitchMessage e msg (Some kb) s = (r, s', calls)" by (metis prod_cases3)
  with assms have "r = REJECT" "s' = s"
    using processSwitch_held by blast+
  moreover from p \<open>r = REJECT\<close> have "calls = []"
    by (cases rule: processSwitch_cases) auto
  ultimately show ?thesis
    using p by (simp add: onSwitch_def notify_kb_def)
qed

theorem held_monitor_rejects_witness:
  "monitor_held 4 3 120 demo_held \<and>
   onSwitch (demo_env 115) (Some 1) (demo_switch 1 7 1 4) demo_held =
     Inr (demo_held, [KbNotify 1 (demo_switch 1 7 1 4) 400 ''Rejected''])"
proof -
  have "monitor_held (monitor_id (demo_switch 1 7 1 4)) 3 120 demo_held"
    by (simp add: monitor_held_def demo_held_def Monitor_replace_def Monitor_new_def DEFAULT_EXPIRE_def)
  from held_monitor_rejects [OF this, of "demo_env 115" 1] this show ?thesis by simp
qed

end
