(* ===== verification/Resource_Trunks.thy ===== *)
theory Resource_Trunks
  imports Resource_Props
begin

text \<open>
  The trunks to the upper matrix: which trunk \<open>checkTrunk\<close> selects, that dropping expired users keeps the others, and that
  a granted trunk is found again by every later request for the same camera while the grant lasts and nobody displaces its users.
\<close>

section \<open>Selection\<close>

lemma find_index_iff:
  "find_index P xs = Some i \<longleftrightarrow> i < length xs \<and> P (xs ! i) \<and> (\<forall>j < i. \<not> P (xs ! j))"
  by (auto simp: find_index_def find_Some_iff)

lemma find_index_None: "find_index P xs = None \<longleftrightarrow> (\<forall>x \<in> set xs. \<not> P x)"
  unfolding find_index_def find_None_iff_all by (metis atLeastLessThan_iff in_set_conv_nth nth_mem set_upt zero_le)

abbreviation top_user :: "Trunk \<Rightarrow> MCCGlobalID" where
  "top_user t \<equiv> u_id (pq_top (t_users t))"

lemma scan_trunks_max:
  assumes "\<And>t. t \<in> set ts \<Longrightarrow> t_users t \<noteq> []" and "best < length ts" and "rest = drop i ts"
    and "\<And>j. j < i \<Longrightarrow> j < length ts \<Longrightarrow> top_user (ts ! j) \<le> top_user (ts ! best)"
  shows "\<exists>k. scan_trunks ts i best rest = Inr k \<and> k < length ts \<and> (\<forall>t \<in> set ts. top_user t \<le> top_user (ts ! k))"
  using assms
proof (induction rest arbitrary: i best)
  case Nil
  then have "length ts \<le> i" by simp
  with Nil have "top_user t \<le> top_user (ts ! best)" if "t \<in> set ts" for t
    using that by (metis in_set_conv_nth order_less_le_trans)
  with Nil show ?case by simp
next
  case (Cons t rest)
  then have i: "i < length ts" by (metis drop_eq_Nil list.distinct(1) not_less)
  with Cons.prems(3) have t: "t = ts ! i" "rest = drop (Suc i) ts"
    by (simp_all add: Cons_nth_drop_Suc [symmetric])
  define b where "b = (if user_gt (pq_top (t_users t)) (pq_top (t_users (ts ! best))) then i else best)"
  have "top_user (ts ! j) \<le> top_user (ts ! b)" if "j < Suc i" "j < length ts" for j
    using that Cons.prems(4) [of j] t by (auto simp: b_def user_gt_def less_Suc_eq)
  with Cons.prems i t have "\<exists>k. scan_trunks ts (Suc i) b rest = Inr k \<and> k < length ts \<and> (\<forall>t \<in> set ts. top_user t \<le> top_user (ts ! k))"
    by (intro Cons.IH) (auto simp: b_def)
  moreover have "Trunk_top t = Inr (pq_top (t_users t))" "Trunk_top (ts ! best) = Inr (pq_top (t_users (ts ! best)))"
    using Cons.prems(1,2) i t by (simp_all add: Trunk_top_def)
  ultimately show ?case
    by (simp add: b_def)
qed

text \<open>The trunk that \<open>checkTrunk\<close> must select.\<close>

definition selects :: "MCCUser \<Rightarrow> MCCGlobalID \<Rightarrow> Trunk list \<Rightarrow> nat option \<Rightarrow> bool" where
  "selects user cid ts found \<longleftrightarrow>
     (if \<exists>t \<in> set ts. t_cid t = cid
      then \<exists>i < length ts. found = Some i \<and> t_cid (ts ! i) = cid \<and> (\<forall>j < i. t_cid (ts ! j) \<noteq> cid)
      else if \<exists>t \<in> set ts. t_users t = []
      then \<exists>i < length ts. found = Some i \<and> t_users (ts ! i) = []
      else if \<forall>t \<in> set ts. top_user t \<le> u_id user then found = None
      else \<exists>i < length ts. found = Some i \<and> (\<forall>t \<in> set ts. top_user t \<le> top_user (ts ! i)))"

lemma checkTrunk_selects:
  assumes "trunks \<noteq> []"
  shows "\<exists>found. checkTrunk now user cid trunks = Inr (found, map (updateUsers now) trunks) \<and>
    selects user cid (map (updateUsers now) trunks) found"
proof -
  define ts where "ts = map (updateUsers now) trunks"
  have ne: "ts \<noteq> []" using assms by (simp add: ts_def)
  show ?thesis
  proof (cases "find_index (\<lambda>t. gid_eq (t_cid t) cid) ts")
    case (Some i)
    then have "selects user cid ts (Some i)"
      by (auto simp: find_index_iff selects_def)
    with Some show ?thesis
      by (simp add: checkTrunk_def ts_def)
  next
    case None
    then have no_cid: "\<not> (\<exists>t \<in> set ts. t_cid t = cid)"
      by (simp add: find_index_None)
    show ?thesis
    proof (cases "find_index Trunk_empty ts")
      case (Some i)
      with no_cid have "selects user cid ts (Some i)"
        by (auto simp: find_index_iff selects_def Trunk_empty_def)
      with None Some show ?thesis
        by (simp add: checkTrunk_def ts_def)
    next
      case busy: None
      then have users: "\<And>t. t \<in> set ts \<Longrightarrow> t_users t \<noteq> []"
        by (simp add: find_index_None Trunk_empty_def)
      obtain k where k: "scan_trunks ts 0 0 ts = Inr k" "k < length ts" "\<forall>t \<in> set ts. top_user t \<le> top_user (ts ! k)"
        using scan_trunks_max [of ts 0 ts 0] users ne by auto
      have "(\<forall>t \<in> set ts. top_user t \<le> u_id user) \<longleftrightarrow> top_user (ts ! k) \<le> u_id user"
        using k by (meson nth_mem order_trans)
      with k no_cid users have "selects user cid ts (if user_gt (pq_top (t_users (ts ! k))) user then Some k else None)"
        by (auto simp: selects_def user_gt_def)
      moreover have "Trunk_top (ts ! k) = Inr (pq_top (t_users (ts ! k)))"
        using users k by (simp add: Trunk_top_def)
      ultimately show ?thesis
        using None busy k ne by (auto simp: checkTrunk_def Let_def simp flip: ts_def)
    qed
  qed
qed

text \<open>C9. With at least one trunk configured, \<open>checkTrunk\<close> always returns: it selects the first trunk that already
  carries the camera; otherwise an idle trunk; otherwise, when some trunk's lowest user is above the requester, a trunk whose
  lowest user is greatest; otherwise none.\<close>

theorem checkTrunk_selection:
  assumes "trunks \<noteq> []"
  shows "\<exists>found. checkTrunk now user cid trunks = Inr (found, map (updateUsers now) trunks) \<and>
    selects user cid (map (updateUsers now) trunks) found"
  using assms by (rule checkTrunk_selects)

theorem checkTrunk_selection_witness:
  "\<exists>found. checkTrunk 100 (MCCUser_default 0) (MCCGlobalID 7 2) [Trunk_new 5 6] = Inr (found, map (updateUsers 100) [Trunk_new 5 6]) \<and>
     selects (MCCUser_default 0) (MCCGlobalID 7 2) (map (updateUsers 100) [Trunk_new 5 6]) found"
  using checkTrunk_selection [of "[Trunk_new 5 6]" 100 "MCCUser_default 0" "MCCGlobalID 7 2"] by simp

section \<open>Expired users\<close>

text \<open>Updating a trunk of a reachable state removes only expired users, and leaves either an idle trunk without a
  camera or a trunk with its camera whose lowest user has not expired; the user queue stays a heap.\<close>

theorem updateUsers_removes_expired:
  assumes "trunk_ok t"
  shows "trunk_ok (updateUsers now t) \<and> mset (t_users (updateUsers now t)) \<subseteq># mset (t_users t) \<and>
    (\<forall>u \<in># mset (t_users t) - mset (t_users (updateUsers now t)). isExpired now u) \<and>
    (t_users (updateUsers now t) = [] \<longrightarrow> t_cid (updateUsers now t) = NullID) \<and>
    (t_users (updateUsers now t) \<noteq> [] \<longrightarrow>
       t_cid (updateUsers now t) = t_cid t \<and> \<not> isExpired now (pq_top (t_users (updateUsers now t))))"
proof -
  have h: "heap_order user_gt (t_users t)" using assms by (simp add: trunk_ok_def)
  have us: "t_users (updateUsers now t) = drop_expired now (t_users t)"
    and cid: "t_cid (updateUsers now t) = (if drop_expired now (t_users t) = [] then NullID else t_cid t)"
    by (simp_all add: updateUsers_def Let_def)
  show ?thesis
    using trunk_ok_update [OF assms, of now] drop_expired_spec [OF h, where now = now] unfolding us cid by auto
qed

theorem updateUsers_removes_expired_witness:
  "trunk_ok (updateUsers 100 (Trunk_new 5 6)) \<and> t_cid (updateUsers 100 (Trunk_new 5 6)) = NullID"
proof -
  have "drop_expired 100 [] = []" by (simp add: drop_expired.simps)
  with updateUsers_removes_expired [OF trunk_ok_new, of 100 5 6] show ?thesis
    by (simp add: updateUsers_def Trunk_new_def)
qed

lemma updateUsers_keeps_live:
  assumes "trunk_ok t" and "u \<in> set (t_users t)" and "\<not> isExpired now u"
  shows "t_cid (updateUsers now t) = t_cid t \<and> u \<in> set (t_users (updateUsers now t))"
proof -
  have h: "heap_order user_gt (t_users t)" using assms(1) by (simp add: trunk_ok_def)
  have "u \<in># mset (drop_expired now (t_users t))"
  proof (rule ccontr)
    assume "u \<notin># mset (drop_expired now (t_users t))"
    with assms(2) have "u \<in># mset (t_users t) - mset (drop_expired now (t_users t))"
      by (simp add: in_diff_count count_eq_zero_iff [THEN iffD2])
    with drop_expired_spec(3) [OF h] assms(3) show False by blast
  qed
  then show ?thesis
    by (auto simp: updateUsers_def Let_def)
qed

section \<open>A granted trunk\<close>

lemma onClientRx_granted:
  assumes "a_method r = SWITCH" and "a_to r = rm_matrixId s" and "rm_cameras s (swi_cameraid (a_content r)) \<noteq> None"
    and "checkTrunk (e_now e) (remote_user e r) (switch_camera r) (rm_trunks s) = Inr (Some i, ts)"
  shows "onClientRxRequest e fd r s =
      Inr (s\<lparr>rm_trunks := ts[i := taken_trunk e r (ts ! i)], rm_msgCounter := wrap32 (rm_msgCounter s + 1)\<rparr>,
        [KbMgrSendSwitch 0 (trunk_message r (t_outport (ts ! i)) (rm_msgCounter s)),
         ClientMgrNotify (trunk_message r (t_outport (ts ! i)) (rm_msgCounter s)),
         ClientSendResponse (buildSwitchResponse r 200 ''Ok'' (t_outport (ts ! i)) (e_response e))])"
  using assms by (simp add: onClientRxRequest_def onClientRxSwitch_def MCCKeyboardMessage_new_def taken_trunk_def
      trunk_message_def Trunk_push_def Let_def)

text \<open>C7. A request of the upper matrix for a camera of this matrix that is granted puts the requester, with 20 seconds
  to live, on the selected trunk, keeps that trunk's other live users and its ports, assigns the camera to it, leaves the other
  trunks as the update left them and counts one keyboard message; nothing else of the state changes.  It switches the
  camera to the trunk's port on the local matrix, notifies the clients and answers 200 with that port, in this order.\<close>

theorem trunk_granted:
  assumes "a_method r = SWITCH" and "a_to r = rm_matrixId s" and "rm_cameras s (swi_cameraid (a_content r)) \<noteq> None"
    and "checkTrunk (e_now e) (remote_user e r) (switch_camera r) (rm_trunks s) = Inr (Some i, ts)"
  shows "\<exists>ts'. onClientRxRequest e fd r s =
      Inr (s\<lparr>rm_trunks := ts', rm_msgCounter := wrap32 (rm_msgCounter s + 1)\<rparr>,
        [KbMgrSendSwitch 0 (trunk_message r (t_outport (ts ! i)) (rm_msgCounter s)),
         ClientMgrNotify (trunk_message r (t_outport (ts ! i)) (rm_msgCounter s)),
         ClientSendResponse (buildSwitchResponse r 200 ''Ok'' (t_outport (ts ! i)) (e_response e))]) \<and>
    ts = map (updateUsers (e_now e)) (rm_trunks s) \<and> length ts' = length ts \<and> i < length ts \<and>
    (\<forall>j < length ts. j \<noteq> i \<longrightarrow> ts' ! j = ts ! j) \<and>
    t_id (ts' ! i) = t_id (ts ! i) \<and> t_outport (ts' ! i) = t_outport (ts ! i) \<and> t_cid (ts' ! i) = switch_camera r \<and>
    mset (t_users (ts' ! i)) =
      add_mset \<lparr>u_id = MCCGlobalID (a_from r) (a_initiator r), u_type = eMCCUserType_Keyboard, u_expire = 20,
                u_expireTime = e_now e + 20\<rparr> (mset (t_users (ts ! i)))"
proof -
  have i: "i < length ts" and ts: "ts = map (updateUsers (e_now e)) (rm_trunks s)"
    using checkTrunk_Inr [OF assms(4)] by auto
  show ?thesis
    by (rule exI [of _ "ts[i := taken_trunk e r (ts ! i)]"])
      (use onClientRx_granted [OF assms, of fd] i ts in
        \<open>simp add: taken_trunk_def Trunk_push_def updateExpire_def MCCUser_new_def DEFAULT_EXPIRE_def\<close>)
qed

lemma demo_check:
  "checkTrunk 100 (remote_user (demo_env 100) r) (MCCGlobalID 7 2) [Trunk_new 5 6] = Inr (Some 0, [Trunk_new 5 6])"
proof -
  have "updateUsers 100 (Trunk_new 5 6) = Trunk_new 5 6"
    by (simp add: updateUsers_def Trunk_new_def drop_expired.simps Let_def)
  then show ?thesis
    by (simp add: checkTrunk_def find_index_def Trunk_new_def Trunk_empty_def NullID_def)
qed

definition demo_remote_switch :: MCCAgentRequest where
  "demo_remote_switch = buildSwitchRequest 99 (MCCGlobalID 3 1) (MCCGlobalID 7 2) demo_request"

lemma demo_remote_switch_fields [simp]:
  "a_method demo_remote_switch = SWITCH" "a_to demo_remote_switch = 7" "a_from demo_remote_switch = 3"
  "a_initiator demo_remote_switch = 1" "a_content demo_remote_switch ! Suc 0 = 2"
  by (simp_all add: demo_remote_switch_def buildSwitchRequest_def demo_request_def content_size_def MAX_CHILDREN_NUM_def)

theorem trunk_granted_witness:
  "\<exists>s' calls. onClientRxRequest (demo_env 100) 8 demo_remote_switch demo_state = Inr (s', calls) \<and>
     t_cid (rm_trunks s' ! 0) = MCCGlobalID 7 2 \<and> rm_lastCid s' = rm_lastCid demo_state \<and>
     ClientSendResponse (buildSwitchResponse demo_remote_switch 200 ''Ok'' 6 demo_response) \<in> set calls"
  using trunk_granted [of demo_remote_switch demo_state "demo_env 100" 0 "[Trunk_new 5 6]" 8] demo_check [of demo_remote_switch]
  by (fastforce simp: Trunk_new_def)

lemma selects_first:
  assumes "selects user cid ts (Some i)" and "j < i"
  shows "t_cid (ts ! j) \<noteq> cid"
proof (cases "\<exists>t \<in> set ts. t_cid t = cid")
  case True
  with assms show ?thesis by (auto simp: selects_def)
next
  case False
  from assms(1) False have "i < length ts"
    by (auto simp: selects_def split: if_splits)
  with assms(2) False show ?thesis by (metis nth_mem order_less_trans)
qed

lemma updateUsers_cid: "t_cid (updateUsers now t) = t_cid t \<or> t_cid (updateUsers now t) = NullID"
  by (simp add: updateUsers_def Let_def)

lemma updateUsers_outport [simp]: "t_outport (updateUsers now t) = t_outport t"
  by (simp add: updateUsers_def Let_def)

text \<open>A trunk that carries a camera, with a user who has not expired by \<open>until\<close>, and is the first one that does.\<close>

definition trunk_kept :: "MCCGlobalID \<Rightarrow> nat \<Rightarrow> int \<Rightarrow> int \<Rightarrow> Trunk list \<Rightarrow> bool" where
  "trunk_kept cid i port until ts \<longleftrightarrow>
     i < length ts \<and> t_cid (ts ! i) = cid \<and> t_outport (ts ! i) = port \<and> (\<forall>j < i. t_cid (ts ! j) \<noteq> cid) \<and>
     (\<exists>u \<in> set (t_users (ts ! i)). \<not> isExpired until u) \<and> (\<forall>t \<in> set ts. trunk_ok t)"

lemma trunk_kept_update:
  assumes "trunk_kept cid i port until ts" and "now \<le> until" and "cid \<noteq> NullID"
  shows "trunk_kept cid i port until (map (updateUsers now) ts)"
proof -
  from assms(1) obtain u where i: "i < length ts" and u: "u \<in> set (t_users (ts ! i))" "\<not> isExpired until u"
    and ok: "\<forall>t \<in> set ts. trunk_ok t"
    by (auto simp: trunk_kept_def)
  have live: "\<not> isExpired now u"
    using u(2) assms(2) isExpired_mono by blast
  have "t_cid (updateUsers now (ts ! i)) = t_cid (ts ! i) \<and> u \<in> set (t_users (updateUsers now (ts ! i)))"
    by (rule updateUsers_keeps_live) (use ok i u(1) live in auto)
  moreover have "t_cid (updateUsers now (ts ! j)) \<noteq> cid" if "j < i" for j
    using assms(1,3) that updateUsers_cid [of now "ts ! j"] by (auto simp: trunk_kept_def)
  ultimately show ?thesis
    using assms(1) u ok i by (auto simp: trunk_kept_def trunk_ok_update)
qed

lemma trunk_kept_found: "trunk_kept cid i port until ts \<Longrightarrow> find_index (\<lambda>t. gid_eq (t_cid t) cid) ts = Some i"
  by (simp add: trunk_kept_def find_index_iff)

lemma trunk_kept_port: "trunk_kept cid i port until ts \<Longrightarrow> t_outport (ts ! i) = port"
  by (simp add: trunk_kept_def)

lemma trunk_kept_check:
  assumes "trunk_kept cid i port until ts" and "now \<le> until" and "cid \<noteq> NullID"
  shows "checkTrunk now u cid ts = Inr (Some i, map (updateUsers now) ts)"
proof -
  have "find_index (\<lambda>t. gid_eq (t_cid t) cid) (map (updateUsers now) ts) = Some i"
    by (rule trunk_kept_found [OF trunk_kept_update [OF assms]])
  then show ?thesis
    by (simp add: checkTrunk_def)
qed

lemma trunk_kept_put:
  assumes "trunk_kept cid i port until ts" and "trunk_ok t"
    and "k = i \<Longrightarrow> t_cid t = cid \<and> t_outport t = port \<and> set (t_users (ts ! i)) \<subseteq> set (t_users t)" and "k \<noteq> i \<Longrightarrow> t_cid t \<noteq> cid"
  shows "trunk_kept cid i port until (ts[k := t])"
proof (cases "k = i")
  case True
  with assms set_update_subset_insert [of ts k t] show ?thesis
    by (auto simp: trunk_kept_def)
next
  case False
  with assms(4) have "t_cid (ts[k := t] ! j) \<noteq> cid" if "j < i" for j
    using assms(1) that by (cases "j = k") (auto simp: trunk_kept_def)
  with False assms(1,2) set_update_subset_insert [of ts k t] show ?thesis
    by (auto simp: trunk_kept_def)
qed

lemma set_pq_push: "set (pq_push lt x q) = insert x (set q)"
  by (metis mset_pq_push set_mset_add_mset_insert set_mset_mset)

text \<open>A switch request for another camera that displaces the users of trunk \<open>i\<close>: every trunk is in use, none for the camera that is
  asked for, and the greatest of the trunk's users is above the requester.\<close>

definition displaces :: "rm_env \<Rightarrow> rm_event \<Rightarrow> MCCGlobalID \<Rightarrow> nat \<Rightarrow> MCCResourceManager \<Rightarrow> bool" where
  "displaces e ev cid i s \<longleftrightarrow>
     (case ev of
        ParentRequest fd q \<Rightarrow>
          (let ts = map (updateUsers (e_now e)) (rm_trunks s) in
           a_method q = SWITCH \<and> a_to q = rm_matrixId s \<and> switch_camera q \<noteq> cid \<and>
           list_all (\<lambda>t. t_users t \<noteq> [] \<and> t_cid t \<noteq> switch_camera q) ts \<and>
           MCCGlobalID (a_from q) (a_initiator q) < top_user (ts ! i))
      | _ \<Rightarrow> False)"

lemma onClientRxSwitch_kept:
  assumes "onClientRxSwitch e q s = Inr (s', calls)" and "a_method q = SWITCH"
    and kept: "trunk_kept cid i port until (rm_trunks s)" and now: "e_now e \<le> until" "cid \<noteq> NullID"
    and calm: "\<not> displaces e (ParentRequest fd q) cid i s"
  shows "trunk_kept cid i port until (rm_trunks s')"
  using assms(1)
proof (cases rule: onClientRxSwitch_cases)
  case (accepted k ts)
  have ts: "ts = map (updateUsers (e_now e)) (rm_trunks s)" and k: "k < length ts"
    using checkTrunk_Inr [OF accepted(1)] by auto
  have upd: "trunk_kept cid i port until ts"
    unfolding ts by (rule trunk_kept_update [OF kept now])
  have ok: "trunk_ok (taken_trunk e q (ts ! k))"
    unfolding taken_trunk_def using upd k by (intro trunk_ok_push) (simp add: trunk_kept_def)
  show ?thesis
  proof (cases "switch_camera q = cid")
    case True
    then have "k = i"
      using accepted(1) trunk_kept_check [OF kept now, of "remote_user e q"] by simp
    with upd True have "trunk_kept cid i port until (ts[k := taken_trunk e q (ts ! k)])"
      by (intro trunk_kept_put [OF upd ok]) (auto simp: trunk_kept_def taken_trunk_def Trunk_push_def set_pq_push)
    then show ?thesis
      by (simp add: accepted(4))
  next
    case False
    have ne: "rm_trunks s \<noteq> []"
      using kept by (auto simp: trunk_kept_def)
    obtain found where chk: "checkTrunk (e_now e) (remote_user e q) (switch_camera q) (rm_trunks s) =
        Inr (found, map (updateUsers (e_now e)) (rm_trunks s))"
      and "selects (remote_user e q) (switch_camera q) (map (updateUsers (e_now e)) (rm_trunks s)) found"
      using checkTrunk_selects [OF ne] by blast
    with accepted(1) ts have sel: "selects (remote_user e q) (switch_camera q) ts (Some k)"
      by simp
    have i: "i < length ts" "t_users (ts ! i) \<noteq> []" "t_cid (ts ! i) = cid"
      using upd by (auto simp: trunk_kept_def)
    have "k \<noteq> i"
    proof
      assume ki: "k = i"
      have none: "\<not> (\<exists>t \<in> set ts. t_cid t = switch_camera q)"
        using sel ki i False by (auto simp: selects_def split: if_splits)
      with sel ki i have busy: "\<not> (\<exists>t \<in> set ts. t_users t = [])"
        by (auto simp: selects_def split: if_splits)
      have "\<not> (\<forall>t \<in> set ts. top_user t \<le> u_id (remote_user e q))" and "\<forall>t \<in> set ts. top_user t \<le> top_user (ts ! i)"
        using sel none busy ki by (auto simp: selects_def split: if_splits)
      then have "u_id (remote_user e q) < top_user (ts ! i)"
        by (meson not_le order_less_le_trans)
      with calm none busy assms(2) accepted(2) False show False
        by (auto simp: displaces_def Let_def list_all_iff simp flip: ts)
    qed
    with False have "trunk_kept cid i port until (ts[k := taken_trunk e q (ts ! k)])"
      by (intro trunk_kept_put [OF upd ok]) (auto simp: taken_trunk_def)
    then show ?thesis
      by (simp add: accepted(4))
  qed
qed (use trunk_kept_update [OF kept now] checkTrunk_Inr in \<open>auto dest!: checkTrunk_Inr\<close>)

text \<open>Nothing but the switch requests from above touches the trunks.\<close>

lemma processSwitch_trunks: "processSwitchMessage e msg kb s = (r, s', calls) \<Longrightarrow> rm_trunks s' = rm_trunks s"
  by (erule processSwitch_cases) (auto simp: isCameraExist_def split: prod.splits)

lemma processPtz_trunks: "processPtzMessage e msg kb s = (r, s', calls) \<Longrightarrow> rm_trunks s' = rm_trunks s"
  by (auto simp: processPtzMessage_def isCameraExist_def Let_def split: if_splits option.splits prod.splits)

lemma onServerRxResponse_trunks: "onServerRxResponse fd r s = (s', calls) \<Longrightarrow> rm_trunks s' = rm_trunks s"
  by (auto simp: onServerRxResponse_def Let_def split: if_splits option.splits)

lemma onClientRxPtz_trunks: "onClientRxPtz e r s = Inr (s', calls) \<Longrightarrow> rm_trunks s' = rm_trunks s"
  by (auto simp: onClientRxPtz_def Let_def MCCKeyboardMessage_new_def split: if_splits option.splits prod.splits)

lemma handle_trunks:
  assumes "rm_handle e ev s = Inr (s', calls)" and "\<And>fd q. ev = ParentRequest fd q \<Longrightarrow> a_method q \<noteq> SWITCH"
  shows "rm_trunks s' = rm_trunks s"
  using assms
  by (cases ev)
    (auto simp: onSwitch_def onPtz_def bindr_Inr_iff Let_def onNewConnection_def onDisconnect_def onServerRxRequest_def
      onClientConnected_def onClientDisconnected_def onClientRxResponse_def onClientRxRequest_def
      split: if_splits option.splits prod.splits
      dest!: processSwitch_trunks processPtz_trunks onRegister_fields onServerRxResponse_trunks onClientRxPtz_trunks)

lemma handle_kept:
  assumes "rm_handle e ev s = Inr (s', calls)" and "trunk_kept cid i port until (rm_trunks s)" and "e_now e \<le> until" "cid \<noteq> NullID"
    and "\<not> displaces e ev cid i s"
  shows "trunk_kept cid i port until (rm_trunks s')"
proof (cases "\<exists>fd q. ev = ParentRequest fd q \<and> a_method q = SWITCH")
  case True
  then obtain fd q where ev: "ev = ParentRequest fd q" "a_method q = SWITCH"
    by blast
  with assms(1) have "onClientRxSwitch e q s = Inr (s', calls)"
    by (simp add: onClientRxRequest_def)
  from onClientRxSwitch_kept [OF this ev(2) assms(2-4)] assms(5) ev(1) show ?thesis
    by blast
next
  case False
  with assms(1,2) handle_trunks show ?thesis
    by metis
qed

text \<open>Handlers run one after another, none of them later than \<open>until\<close> and none displacing the users of trunk \<open>i\<close>.\<close>

inductive calm_run :: "MCCGlobalID \<Rightarrow> nat \<Rightarrow> int \<Rightarrow> MCCResourceManager \<Rightarrow> MCCResourceManager \<Rightarrow> bool" where
  calm_refl: "calm_run cid i until s s"
| calm_step: "calm_run cid i until s s1 \<Longrightarrow> rm_handle e ev s1 = Inr (s2, calls) \<Longrightarrow> e_now e \<le> until \<Longrightarrow>
    \<not> displaces e ev cid i s1 \<Longrightarrow> calm_run cid i until s s2"

lemma calm_run_kept:
  "calm_run cid i until s s' \<Longrightarrow> cid \<noteq> NullID \<Longrightarrow> trunk_kept cid i port until (rm_trunks s) \<Longrightarrow>
   trunk_kept cid i port until (rm_trunks s')"
  by (induction rule: calm_run.induct) (auto intro: handle_kept)

lemma granted_kept:
  assumes "rm_reach s" and "a_to r = rm_matrixId s" and "rm_cameras s (swi_cameraid (a_content r)) \<noteq> None"
    and "checkTrunk (e_now e) (remote_user e r) (switch_camera r) (rm_trunks s) = Inr (Some i, ts)"
    and "onClientRxSwitch e r s = Inr (s', calls)" and "switch_camera r \<noteq> NullID"
  shows "trunk_kept (switch_camera r) i (t_outport (ts ! i)) (e_now e + 20) (rm_trunks s')"
proof -
  let ?cid = "switch_camera r" and ?new = "updateExpire (e_now e) (remote_user e r)" and ?t = "taken_trunk e r (ts ! i)"
  have ne: "rm_trunks s \<noteq> []"
    using assms(4) by (auto simp: checkTrunk_def find_index_def)
  obtain found where "checkTrunk (e_now e) (remote_user e r) ?cid (rm_trunks s) = Inr (found, map (updateUsers (e_now e)) (rm_trunks s))"
    and "selects (remote_user e r) ?cid (map (updateUsers (e_now e)) (rm_trunks s)) found"
    using checkTrunk_selects [OF ne] by blast
  with assms(4) have sel: "selects (remote_user e r) ?cid ts (Some i)"
    by simp
  have i: "i < length ts" using checkTrunk_Inr [OF assms(4)] by auto
  have s': "rm_trunks s' = ts[i := ?t]"
    using assms(5) by (rule onClientRxSwitch_cases) (use assms(2,3,4) in auto)
  have ok: "trunk_ok t" if "t \<in> set ts" for t
    using trunks_ok_check [OF reach_inv [OF assms(1)] assms(4) that] .
  then have "trunk_ok ?t"
    unfolding taken_trunk_def using i by (intro trunk_ok_push) simp
  moreover have "?new \<in># mset (t_users ?t)"
    by (simp add: taken_trunk_def Trunk_push_def)
  moreover have "\<not> isExpired (e_now e + 20) ?new"
    by (simp add: DEFAULT_EXPIRE_def)
  ultimately show ?thesis
    using i ok selects_first [OF sel] set_update_subset_insert [of ts i ?t]
    by (auto simp: trunk_kept_def s' taken_trunk_def Trunk_push_def set_pq_push)
qed

text \<open>C23. After a grant, every request for the same camera within the next 20 seconds, by whatever user, is given the same
  trunk, whatever handlers run in between; the one exception is a switch request for another camera that
  displaces the trunk's users, which needs every trunk in use and a requester below the trunk's greatest user.\<close>

theorem granted_trunk_reused:
  assumes "rm_reach s" and "a_to r = rm_matrixId s" and "rm_cameras s (swi_cameraid (a_content r)) \<noteq> None"
    and "checkTrunk (e_now e) (remote_user e r) (switch_camera r) (rm_trunks s) = Inr (Some i, ts)"
    and "onClientRxSwitch e r s = Inr (s', calls)" and "switch_camera r \<noteq> NullID"
    and "calm_run (switch_camera r) i (e_now e + 20) s' s''" and "now \<le> e_now e + 20"
  shows "\<exists>ts'. checkTrunk now u (switch_camera r) (rm_trunks s'') = Inr (Some i, ts') \<and> t_outport (ts' ! i) = t_outport (ts ! i)"
proof -
  have kept: "trunk_kept (switch_camera r) i (t_outport (ts ! i)) (e_now e + 20) (rm_trunks s'')"
    by (rule calm_run_kept [OF assms(7,6) granted_kept [OF assms(1-6)]])
  show ?thesis
    by (intro exI conjI) (rule trunk_kept_check [OF kept assms(8,6)],
      rule trunk_kept_port [OF trunk_kept_update [OF kept assms(8,6)]])
qed

theorem granted_trunk_reused_witness:
  "\<exists>s' s'' calls ts'. onClientRxSwitch (demo_env 100) demo_remote_switch demo_state = Inr (s', calls) \<and>
     rm_handle (demo_env 110) (ParentDisconnected 8) s' = Inr (s'', []) \<and>
     checkTrunk 120 (MCCUser_default 0) (MCCGlobalID 7 2) (rm_trunks s'') = Inr (Some 0, ts') \<and> t_outport (ts' ! 0) = 6"
proof -
  obtain s' calls where s': "onClientRxSwitch (demo_env 100) demo_remote_switch demo_state = Inr (s', calls)"
    using demo_check [of demo_remote_switch] by (auto simp: onClientRxSwitch_def Let_def MCCKeyboardMessage_new_def)
  obtain s'' where h: "rm_handle (demo_env 110) (ParentDisconnected 8) s' = Inr (s'', [])"
    by simp
  have run: "calm_run (switch_camera demo_remote_switch) 0 (e_now (demo_env 100) + 20) s' s''"
    by (rule calm_step [OF calm_refl h]) (simp_all add: displaces_def)
  have "\<exists>ts'. checkTrunk 120 (MCCUser_default 0) (switch_camera demo_remote_switch) (rm_trunks s'') = Inr (Some 0, ts') \<and>
      t_outport (ts' ! 0) = t_outport ([Trunk_new 5 6] ! 0)"
    by (rule granted_trunk_reused [OF demo_reach _ _ _ s' _ run])
      (use demo_check [of demo_remote_switch] in \<open>simp_all add: NullID_def\<close>)
  with s' h show ?thesis
    by (auto simp: Trunk_new_def)
qed

text \<open>When every trunk carries another camera and its lowest user has neither expired nor is above the requester,
  the request is refused with 404 \<open>Trunk Busy\<close>: a requester that outranks every user of every trunk cannot take
  a trunk over.\<close>

theorem outranking_requester_refused:
  assumes "a_method r = SWITCH" and "rm_trunks s \<noteq> []"
    and "\<forall>t \<in> set (rm_trunks s). t_users t \<noteq> [] \<and> t_cid t \<noteq> switch_camera r \<and> \<not> isExpired (e_now e) (pq_top (t_users t)) \<and>
           top_user t \<le> MCCGlobalID (a_from r) (a_initiator r)"
  shows "onClientRxRequest e fd r s =
    Inr (s, [ClientSendResponse (buildSwitchResponse r 404 ''Trunk Busy'' 0 (e_response e))])"
proof -
  have same: "updateUsers (e_now e) t = t" if "t \<in> set (rm_trunks s)" for t
  proof -
    from that assms(3) have "t_users t \<noteq> []" and "\<not> isExpired (e_now e) (pq_top (t_users t))" by auto
    then have "drop_expired (e_now e) (t_users t) = t_users t"
      by (subst drop_expired.simps) simp
    with \<open>t_users t \<noteq> []\<close> show ?thesis
      by (simp add: updateUsers_def)
  qed
  then have ts: "map (updateUsers (e_now e)) (rm_trunks s) = rm_trunks s"
    by (simp add: map_idI)
  obtain found where chk: "checkTrunk (e_now e) (remote_user e r) (switch_camera r) (rm_trunks s) = Inr (found, rm_trunks s)"
    and "selects (remote_user e r) (switch_camera r) (rm_trunks s) found"
    using checkTrunk_selects [OF assms(2), of "e_now e" "remote_user e r" "switch_camera r"] by (auto simp: ts)
  with assms(3) have "found = None"
    by (auto simp: selects_def split: if_splits)
  moreover have "s\<lparr>rm_trunks := rm_trunks s\<rparr> = s" by (cases s) simp
  ultimately show ?thesis
    using chk assms(1) by (simp add: onClientRxRequest_def onClientRxSwitch_def)
qed

theorem outranking_requester_refused_witness:
  "let s = demo_state\<lparr>rm_trunks := [\<lparr>t_id = 5, t_outport = 6, t_cid = MCCGlobalID 7 1,
             t_users = [MCCUser_new (MCCGlobalID 2 1) eMCCUserType_Keyboard 20 120]\<rparr>]\<rparr>
   in onClientRxRequest (demo_env 100) 8 demo_remote_switch s =
        Inr (s, [ClientSendResponse (buildSwitchResponse demo_remote_switch 404 ''Trunk Busy'' 0 demo_response)])"
  using outranking_requester_refused [of demo_remote_switch
      "demo_state\<lparr>rm_trunks := [\<lparr>t_id = 5, t_outport = 6, t_cid = MCCGlobalID 7 1,
             t_users = [MCCUser_new (MCCGlobalID 2 1) eMCCUserType_Keyboard 20 120]\<rparr>]\<rparr>" "demo_env 100" 8]
  by (simp add: pq_top_def isExpired_def less_eq_MCCGlobalID_def gid_le_def gid_gt_def del: gid_ops)

end
