(* ===== verification/Resource_Routing.thy ===== *)
theory Resource_Routing
  imports Resource_Trunks
begin

text \<open>
  The tree of matrices: what a registration makes reachable, what a matrix reports upwards, how a pending request is
  settled by its response, and the events the code does not survive.
\<close>

section \<open>Registration\<close>

lemma add_children_eq:
  assumes "i + n \<le> MAX_CHILDREN_NUM" and "length c = content_size"
  shows "add_children c i n m = Inr (fold addChild (take n (drop (2 + i) c)) m)"
  using assms
proof (induction n arbitrary: i m)
  case (Suc n)
  then have "drop (2 + i) c = c ! (2 + i) # drop (2 + Suc i) c"
    by (simp add: content_size_def Cons_nth_drop_Suc)
  with Suc show ?case
    by (simp add: children_get_def)
qed simp

lemma fold_addChild:
  "mx_id (fold addChild vs m) = mx_id m" "mx_fd (fold addChild vs m) = mx_fd m"
  "set (mx_children (fold addChild vs m)) = set vs \<union> set (mx_children m)"
  by (induction vs arbitrary: m) (auto simp: addChild_def)

text \<open>The matrices a registration request announces: the sender and the children it lists.\<close>

definition announced :: "MCCAgentRequest \<Rightarrow> int set" where
  "announced r = insert (a_from r) (set (take (nat (reg_children_num (a_content r))) (drop 2 (a_content r))))"

definition register_ok :: "MCCAgentRequest \<Rightarrow> bool" where
  "register_ok r \<longleftrightarrow> a_method r = REGISTER \<and> length (a_content r) = content_size \<and> reg_expire (a_content r) > 0 \<and>
     nat (reg_children_num (a_content r)) \<le> MAX_CHILDREN_NUM"

definition register_entry :: "int \<Rightarrow> MCCAgentRequest \<Rightarrow> MatrixInfo" where
  "register_entry fd r = fold addChild (take (nat (reg_children_num (a_content r))) (drop 2 (a_content r))) (MatrixInfo_new (a_from r) fd)"

lemma register_entry_fields:
  "mx_id (register_entry fd r) = a_from r" "mx_fd (register_entry fd r) = fd"
  "v = mx_id (register_entry fd r) \<or> hasChild v (register_entry fd r) \<longleftrightarrow> v \<in> announced r"
  by (auto simp: register_entry_def fold_addChild MatrixInfo_new_def hasChild_def announced_def)

lemma onRegister_new:
  assumes "register_ok r" and "map_of (rm_children s) (a_from r) = None" and "onRegister e fd r s = Inr (s', calls)"
  shows "s' = s\<lparr>rm_children := smap_insert (a_from r) (register_entry fd r) (rm_children s)\<rparr>"
proof -
  have "add_children (a_content r) 0 (nat (reg_children_num (a_content r))) (MatrixInfo_new (a_from r) fd) = Inr (register_entry fd r)"
    using assms(1) by (simp add: add_children_eq register_ok_def register_entry_def)
  with assms show ?thesis
    by (auto simp: onRegister_def register_ok_def bindr_Inr_iff Let_def split: if_splits)
qed

lemma find_smap_insert:
  assumes "map_of m k = None" and "smap_sorted m"
  shows "find P (smap_insert k v m) = None \<longleftrightarrow> \<not> P (k, v) \<and> find P m = None"
    and "\<not> P (k, v) \<Longrightarrow> find P (smap_insert k v m) = find P m"
proof -
  show "find P (smap_insert k v m) = None \<longleftrightarrow> \<not> P (k, v) \<and> find P m = None"
    using smap.set_insert_new [OF assms(2,1), of v] by (auto simp: find_None_iff_all)
  show "\<not> P (k, v) \<Longrightarrow> find P (smap_insert k v m) = find P m"
    using assms(1) by (induction k v m rule: smap_insert.induct) auto
qed

text \<open>C32. After a matrix that was not registered registers, every matrix it announces can be routed to, and requests
  for the matrices it does not announce are routed exactly as before.\<close>

theorem register_routes:
  assumes "rm_reach s" and "register_ok r" and "map_of (rm_children s) (a_from r) = None"
    and "onRegister e fd r s = Inr (s', calls)"
  shows "(\<forall>v \<in> announced r. matchMatrix v s' \<noteq> None) \<and> (\<forall>v. v \<notin> announced r \<longrightarrow> matchMatrix v s' = matchMatrix v s) \<and>
    map_of (rm_children s') (a_from r) = Some (register_entry fd r)"
proof -
  have sorted: "smap_sorted (rm_children s)"
    using reach_inv [OF assms(1)] by (rule rm_invD)
  note s' = onRegister_new [OF assms(2-4)]
  show ?thesis
    unfolding s' matchMatrix_def
    using find_smap_insert [OF assms(3) sorted, where v = "register_entry fd r"] register_entry_fields(3) [where fd = fd and r = r]
      smap.lookup_insert [OF sorted, of "a_from r" "register_entry fd r"] assms(3)
    by (auto simp: eq_commute)
qed

definition demo_register :: MCCAgentRequest where
  "demo_register = demo_request\<lparr>a_from := 3, a_method := REGISTER, a_content := [60, 2, 4, 5] @ replicate 48 0\<rparr>"

lemma demo_register_facts:
  "register_ok demo_register" "a_from demo_register = 3" "announced demo_register = {3, 4, 5}"
  by (auto simp: demo_register_def register_ok_def announced_def content_size_def MAX_CHILDREN_NUM_def)

lemma demo_registered:
  obtains s' calls where "onRegister (demo_env 100) 9 demo_register demo_state = Inr (s', calls)"
proof -
  have "add_children (a_content demo_register) 0 2 m = Inr (fold addChild [4, 5] m)" for m
    by (simp add: demo_register_def children_get_def MAX_CHILDREN_NUM_def numeral_2_eq_2)
  then have "onRegister (demo_env 100) 9 demo_register demo_state =
      Inr (demo_state\<lparr>rm_children := [(3, fold addChild [4, 5] (MatrixInfo_new 3 9))]\<rparr>, [])"
    by (simp add: onRegister_def demo_register_def message_enums Let_def)
  then show thesis by (rule that)
qed

theorem register_routes_witness:
  "\<exists>s' calls. onRegister (demo_env 100) 9 demo_register demo_state = Inr (s', calls) \<and>
     matchMatrix 4 s' \<noteq> None \<and> matchMatrix 6 s' = None"
proof -
  obtain s' calls where s': "onRegister (demo_env 100) 9 demo_register demo_state = Inr (s', calls)"
    by (rule demo_registered)
  have "matchMatrix 6 demo_state = None"
    by (simp add: matchMatrix_def)
  with register_routes [OF demo_reach demo_register_facts(1) _ s'] s' show ?thesis
    by (auto simp: demo_register_facts)
qed

section \<open>Reporting upwards\<close>

lemma store_children_eq:
  assumes "length c = content_size" and "j \<le> MAX_CHILDREN_NUM"
  shows "store_children vs j c =
    (if j + length vs \<le> MAX_CHILDREN_NUM then Inr (take (2 + j) c @ vs @ drop (2 + j + length vs) c, j + length vs)
     else Inl OutOfBounds)"
  using assms
proof (induction vs arbitrary: j c)
  case (Cons v vs)
  show ?case
  proof (cases "j < MAX_CHILDREN_NUM")
    case True
    then have "take (2 + Suc j) (c[2 + j := v]) = take (2 + j) c @ [v]"
      using Cons.prems by (simp add: content_size_def take_Suc_conv_app_nth)
    with Cons True show ?thesis
      by (simp add: children_set_def)
  next
    case False
    with Cons.prems show ?thesis
      by (simp add: children_set_def)
  qed
qed simp

lemma buildRegister_eq:
  assumes "length (a_content (e_request e)) = content_size"
  shows "buildRegister e s =
    (if length (registered_ids s) \<le> MAX_CHILDREN_NUM
     then Inr ((buildRegRequest (rm_matrixId s) 60 (e_request e))
            \<lparr>a_content := 60 # int (length (registered_ids s)) # registered_ids s @
                drop (2 + length (registered_ids s)) (a_content (e_request e))\<rparr>)
     else Inl OutOfBounds)"
proof -
  obtain x y c where c: "a_content (e_request e) = x # y # c"
    using assms by (auto simp: content_size_def length_Suc_conv)
  show ?thesis
    using assms store_children_eq [of "60 # y # c" 0 "registered_ids s"]
    by (simp add: buildRegister_def buildRegRequest_def c Let_def)
qed

text \<open>The registration a matrix sends upwards names the matrix itself with 60 seconds to live and lists every lower
  matrix with its children, in order; with more than 50 of them the write leaves the \<open>children\<close> array.\<close>

theorem buildRegister_reports_all:
  assumes "length (a_content (e_request e)) = content_size"
  shows "(length (registered_ids s) \<le> 50 \<longrightarrow>
      (\<exists>r. buildRegister e s = Inr r \<and> register_ok r \<and> a_from r = rm_matrixId s \<and> reg_expire (a_content r) = 60 \<and>
        take (nat (reg_children_num (a_content r))) (drop 2 (a_content r)) = registered_ids s)) \<and>
    (length (registered_ids s) > 50 \<longrightarrow> buildRegister e s = Inl OutOfBounds)"
  using buildRegister_eq [OF assms, of s] assms
  by (auto simp: MAX_CHILDREN_NUM_def register_ok_def buildRegRequest_def content_size_def)

theorem buildRegister_reports_all_witness:
  "\<exists>r. buildRegister (demo_env 0) (demo_state\<lparr>rm_children := [(3, \<lparr>mx_id = 3, mx_fd = 9, mx_children = [4, 5]\<rparr>)]\<rparr>) = Inr r \<and>
     take (nat (reg_children_num (a_content r))) (drop 2 (a_content r)) = [3, 4, 5]"
  using buildRegister_reports_all [of "demo_env 0" "demo_state\<lparr>rm_children := [(3, \<lparr>mx_id = 3, mx_fd = 9, mx_children = [4, 5]\<rparr>)]\<rparr>"]
  by (auto simp: demo_request_def registered_ids_def)

text \<open>C21. Routing propagates up the tree: when a matrix that the upper matrix does not know yet reports to it with the
  request \<open>buildRegister\<close> makes, the upper matrix can afterwards route to that matrix and to every matrix below it.\<close>

theorem register_propagates:
  assumes "rm_reach upper" and "length (a_content (e_request e)) = content_size" and "buildRegister e lower = Inr r"
    and "map_of (rm_children upper) (rm_matrixId lower) = None" and "onRegister e' fd r upper = Inr (upper', calls)"
    and "v = rm_matrixId lower \<or> v \<in> set (registered_ids lower)"
  shows "matchMatrix v upper' \<noteq> None"
proof -
  from assms(3) have fits: "length (registered_ids lower) \<le> MAX_CHILDREN_NUM"
    and r: "r = (buildRegRequest (rm_matrixId lower) 60 (e_request e))
            \<lparr>a_content := 60 # int (length (registered_ids lower)) # registered_ids lower @
                drop (2 + length (registered_ids lower)) (a_content (e_request e))\<rparr>"
    using buildRegister_eq [OF assms(2), of lower] by (auto split: if_splits)
  have ok: "register_ok r" and "a_from r = rm_matrixId lower"
    using fits assms(2) by (auto simp: r register_ok_def buildRegRequest_def content_size_def)
  with assms(4) have new: "map_of (rm_children upper) (a_from r) = None" by simp
  have "v \<in> announced r"
    using assms(6) by (auto simp: announced_def r buildRegRequest_def)
  then show ?thesis
    unfolding onRegister_new [OF ok new assms(5)] matchMatrix_def
    using find_smap_insert(1) [OF new rm_invD(4) [OF reach_inv [OF assms(1)]], where v = "register_entry fd r"]
      register_entry_fields(3) [of v fd r] by (auto simp: eq_commute)
qed

theorem register_propagates_witness:
  "\<exists>r upper' calls. buildRegister (demo_env 0) (demo_state\<lparr>rm_matrixId := 3\<rparr>) = Inr r \<and>
     onRegister (demo_env 100) 9 r demo_state = Inr (upper', calls) \<and> matchMatrix 3 upper' \<noteq> None"
proof -
  let ?lower = "demo_state\<lparr>rm_matrixId := 3\<rparr>"
  have len: "length (a_content (e_request (demo_env 0))) = content_size"
    by (simp add: demo_request_def)
  obtain r where r: "buildRegister (demo_env 0) ?lower = Inr r" and "a_method r = REGISTER" and "a_from r = 3"
      and "a_content r ! 0 = 60" and "a_content r ! 1 = 0"
    using buildRegister_eq [OF len, of ?lower] by (auto simp: registered_ids_def buildRegRequest_def)
  then have up: "onRegister (demo_env 100) 9 r demo_state =
      Inr (demo_state\<lparr>rm_children := [(3, MatrixInfo_new 3 9)]\<rparr>, [])"
    by (simp add: onRegister_def Let_def)
  have "matchMatrix 3 (demo_state\<lparr>rm_children := [(3, MatrixInfo_new 3 9)]\<rparr>) \<noteq> None"
    by (rule register_propagates [OF demo_reach len r _ up]) simp_all
  with r up show ?thesis by blast
qed

section \<open>Pending requests\<close>

text \<open>C33. A response settles its request once: whatever the first response with an identifier did, a second response
  with the same identifier changes nothing and causes no call.\<close>

theorem response_settles_once:
  assumes "a_id r' = a_id r"
  shows "onServerRxResponse fd' r' (fst (onServerRxResponse fd r s)) = (fst (onServerRxResponse fd r s), [])"
proof -
  have "rm_contexts (fst (onServerRxResponse fd r s)) (a_id r) = None"
    by (auto simp: onServerRxResponse_def Let_def split: option.splits)
  with assms show ?thesis
    by (simp add: onServerRxResponse_def)
qed

theorem response_settles_once_witness:
  "\<forall>s. onServerRxResponse 9 (demo_response\<lparr>r_statuscode := 404\<rparr>) (fst (onServerRxResponse 8 demo_response s)) =
       (fst (onServerRxResponse 8 demo_response s), [])"
  using response_settles_once [of "demo_response\<lparr>r_statuscode := 404\<rparr>" demo_response 9 8] by simp

text \<open>C22. A keyboard's switch to a camera of a lower matrix is completed by the response: the request goes to the connection
  of the matrix that leads there, and a 2xx response to it switches the port named in the response to the keyboard's
  monitor, records the camera as the last one switched, and removes the pending request.\<close>

theorem remote_switch_completes:
  assumes "processSwitchMessage e msg (Some kb) s = (PENDING, s1, calls)"
    and "a_id r = e_rand e" and "a_to r = rm_matrixId s" and "a_method r = SWITCH"
    and "200 \<le> r_statuscode r" and "r_statuscode r < 300"
  shows "\<exists>matrix. matchMatrix (mid (camera_id msg)) s = Some matrix \<and>
    calls = [ServerSend (mx_fd matrix) (buildSwitchRequest (e_rand e) (MCCGlobalID (rm_matrixId s) (keyboard_id msg)) (camera_id msg) (e_request e))] \<and>
    onServerRxResponse fd r s1 =
      (s\<lparr>rm_contexts := (rm_contexts s)(e_rand e := None), rm_lastCid := camera_id msg\<rparr>,
       [KbMgrSendSwitch 0 (msg\<lparr>msg_type := eKBMsg_SWITCH, camera_id := MCCGlobalID (rm_matrixId s) (swi_outport (a_content r))\<rparr>)])"
  using assms(1)
proof (cases rule: processSwitch_cases)
  case (remote m matrix request)
  have "r_statuscode r sdiv 100 = 2"
    using assms(5,6) by (simp add: signed_divide_int_def sgn_if)
  with remote assms(2-4) show ?thesis
    by (simp add: onServerRxResponse_def ProcessContext_new_def)
qed simp_all

text \<open>The installation with matrix 3 registered below it, and a switch to camera 1 of matrix 3.\<close>

definition demo_tree :: MCCResourceManager where
  "demo_tree = demo_state\<lparr>rm_children := [(3, MatrixInfo_new 3 9)]\<rparr>"

lemma demo_pending:
  "\<exists>s1 calls. processSwitchMessage (demo_env 100) (demo_switch 2 3 1 4) (Some 2) demo_tree = (PENDING, s1, calls)"
  by (simp add: processSwitchMessage_def demo_tree_def bracket_def Monitor_new_def NullID_def matchMatrix_def MatrixInfo_new_def Let_def)

theorem remote_switch_completes_witness:
  "\<exists>s1 calls s2. processSwitchMessage (demo_env 100) (demo_switch 2 3 1 4) (Some 2) demo_tree = (PENDING, s1, calls) \<and>
     onServerRxResponse 9 (demo_response\<lparr>a_id := 99, a_to := 7, a_method := SWITCH, r_statuscode := 200\<rparr>) s1 =
       (s2, [KbMgrSendSwitch 0 ((demo_switch 2 3 1 4)\<lparr>msg_type := eKBMsg_SWITCH, camera_id := MCCGlobalID 7 0\<rparr>)])"
proof -
  obtain s1 calls where p: "processSwitchMessage (demo_env 100) (demo_switch 2 3 1 4) (Some 2) demo_tree = (PENDING, s1, calls)"
    using demo_pending by blast
  have "rm_matrixId demo_tree = 7" and "replicate content_size 0 ! 2 = (0 :: int)"
    by (simp_all add: demo_tree_def content_size_def MAX_CHILDREN_NUM_def)
  with p remote_switch_completes [OF p, of "demo_response\<lparr>a_id := 99, a_to := 7, a_method := SWITCH, r_statuscode := 200\<rparr>" 9]
  show ?thesis
    by (auto simp: demo_response_def)
qed

section \<open>Where the handlers have no result\<close>

text \<open>
  The conditions under which a handler returns: keyboards are not null, no registered matrix is on a connection that
  closes, a registration is in bounds and does not replace children, the report fits, trunks are configured,
  request identifiers are new, the requested camera is not a null entry, no pan-tilt request has to be forwarded, and a
  request or a response that is only logged has a text that fits the buffer of the log.
\<close>

fun rm_defined :: "rm_env \<Rightarrow> rm_event \<Rightarrow> MCCResourceManager \<Rightarrow> bool" where
  "rm_defined e (KeyboardSwitch kb msg) s \<longleftrightarrow> kb \<noteq> None"
| "rm_defined e (KeyboardPtz kb msg) s \<longleftrightarrow> kb \<noteq> None"
| "rm_defined e (ChildDisconnected fd) s \<longleftrightarrow> (\<forall>x \<in> set (rm_children s). mx_fd (snd x) \<noteq> fd)"
| "rm_defined e (ChildRegister fd r) s \<longleftrightarrow> a_method r = REGISTER \<longrightarrow>
     \<not> (rm_level s \<noteq> 0 \<and> rm_clientConnected s) \<and>
     (reg_expire (a_content r) > 0 \<longrightarrow> register_ok r \<and> (\<forall>x. map_of (rm_children s) (a_from r) = Some x \<longrightarrow> mx_children x = []))"
| "rm_defined e (ChildRequest fd r) s \<longleftrightarrow>
     a_method r \<in> {SWITCH, PTZ} \<and> (\<exists>txt. request_text r = Inr txt \<and> length txt < LOGBUF)"
| "rm_defined e (ParentResponse fd r) s \<longleftrightarrow> length (response_text r) < LOGBUF"
| "rm_defined e (ParentConnected fd) s \<longleftrightarrow>
     length (a_content (e_request e)) = content_size \<and> length (registered_ids s) \<le> MAX_CHILDREN_NUM"
| "rm_defined e (ParentRequest fd r) s \<longleftrightarrow>
     (a_method r = SWITCH \<longrightarrow> rm_trunks s \<noteq> [] \<and>
        (a_to r \<noteq> rm_matrixId s \<and> matchMatrix (a_to r) s \<noteq> None \<longrightarrow> rm_contexts s (a_id r) = None)) \<and>
     (a_method r = PTZ \<longrightarrow>
        (if a_to r = rm_matrixId s then rm_cameras s (ptz_cameraid (a_content r)) \<noteq> Some None
         else matchMatrix (a_to r) s = None))"
| "rm_defined e ev s \<longleftrightarrow> True"

lemma checkTrunk_total: "ts \<noteq> [] \<Longrightarrow> \<exists>found. checkTrunk now u cid ts = Inr (found, map (updateUsers now) ts)"
  using checkTrunk_selects by blast

lemma onRegister_defined:
  assumes "rm_defined e (ChildRegister fd r) s"
  shows "\<exists>s' calls. onRegister e fd r s = Inr (s', calls)"
proof -
  have "register_ok r \<Longrightarrow> add_children (a_content r) 0 (nat (reg_children_num (a_content r))) m =
      Inr (fold addChild (take (nat (reg_children_num (a_content r))) (drop 2 (a_content r))) m)" for m
    by (simp add: add_children_eq register_ok_def)
  with assms show ?thesis
    by (auto simp: onRegister_def Let_def clearChildren_def split: option.splits)
qed

lemma onClientRxRequest_defined:
  assumes "rm_defined e (ParentRequest fd r) s"
  shows "\<exists>s' calls. onClientRxRequest e fd r s = Inr (s', calls)"
proof -
  consider "a_method r = SWITCH" | "a_method r = PTZ" | "a_method r \<noteq> SWITCH" "a_method r \<noteq> PTZ" by blast
  then show ?thesis
  proof cases
    case 1
    with assms obtain found where chk: "checkTrunk (e_now e) (remote_user e r) (switch_camera r) (rm_trunks s) =
        Inr (found, map (updateUsers (e_now e)) (rm_trunks s))"
      using checkTrunk_total by fastforce
    have "matchMatrix k (s\<lparr>rm_trunks := x\<rparr>) = matchMatrix k s" for k x
      by (simp add: matchMatrix_def)
    with 1 assms chk show ?thesis
      by (auto simp: onClientRxRequest_def onClientRxSwitch_def Let_def MCCKeyboardMessage_new_def split: option.splits)
  next
    case 2
    with assms show ?thesis
      by (auto simp: onClientRxRequest_def onClientRxPtz_def Let_def MCCKeyboardMessage_new_def message_enums
          split: option.splits prod.splits if_splits)
  qed (simp add: onClientRxRequest_def)
qed

lemma handler_returns:
  assumes "rm_defined e ev s"
  shows "\<exists>s' calls. rm_handle e ev s = Inr (s', calls)"
proof (cases ev)
  case (KeyboardSwitch kb msg)
  with assms show ?thesis
    by (auto simp: onSwitch_def notify_kb_def split: prod.splits)
next
  case (KeyboardPtz kb msg)
  with assms show ?thesis
    by (auto simp: onPtz_def notify_kb_def Let_def split: prod.splits)
next
  case (ChildDisconnected fd)
  with assms have "find (\<lambda>x. mx_fd (snd x) = fd) (rm_children s) = None"
    by (auto simp: find_None_iff_all)
  with ChildDisconnected show ?thesis by (simp add: onDisconnect_def)
next
  case (ChildResponse fd r)
  then show ?thesis by (cases "onServerRxResponse fd r s") simp
next
  case (ParentConnected fd)
  have "registered_ids (s\<lparr>rm_clientConnected := True\<rparr>) = registered_ids s" by (simp add: registered_ids_def)
  with assms ParentConnected show ?thesis by (simp add: onClientConnected_def buildRegister_eq Let_def)
next
  case (ChildRegister fd r)
  with assms onRegister_defined show ?thesis
    by (simp only: rm_handle.simps)
next
  case (ParentRequest fd r)
  with assms onClientRxRequest_defined show ?thesis
    by (simp only: rm_handle.simps)
next
  case (ChildRequest fd r)
  with assms obtain t where "request_output r = Inr t"
    using request_output_Inr by fastforce
  with ChildRequest show ?thesis
    by (simp add: onServerRxRequest_def)
next
  case (ParentResponse fd r)
  with assms response_output_Inr [of r] show ?thesis
    by (simp add: onClientRxResponse_def)
qed auto

text \<open>C34. In every state each handler returns, without a null dereference, an out-of-range access, an invalid iterator, a failed
  assertion or an uninitialised buffer, under the conditions \<open>rm_defined\<close>; and the conditions on the messages that are only
  logged are needed: a request of another method is printed from an uninitialised buffer, and a response whose text is
  longer than the log's buffer overruns it.  The calls a handler makes on the other components are its result; what they do
  with it, printing the messages sent included, is not part of the claim.\<close>

theorem handlers_return:
  assumes "rm_defined e ev s"
  shows "(\<exists>s' calls. rm_handle e ev s = Inr (s', calls)) \<and>
    (\<forall>r. a_method r \<notin> {REGISTER, SWITCH, PTZ} \<longrightarrow> rm_handle e (ChildRequest fd r) s = Inl Unspecified) \<and>
    (\<forall>r. LOGBUF \<le> length (response_text r) \<longrightarrow> rm_handle e (ParentResponse fd r) s = Inl OutOfBounds)"
  by (intro conjI handler_returns [OF assms])
    (auto simp: onServerRxRequest_def request_output_def onClientRxResponse_def response_output_def MCCAgentResponse_print_def
      strcpy_into_def)

theorem handlers_return_witness:
  "(\<exists>s' calls. rm_handle (demo_env 100) (ParentConnected 8) demo_tree = Inr (s', calls)) \<and>
   rm_handle (demo_env 100) (ChildRequest 9 (demo_request\<lparr>a_method := 7\<rparr>)) demo_tree = Inl Unspecified"
  using handlers_return [of "demo_env 100" "ParentConnected 8" demo_tree 9]
  by (simp add: demo_request_def demo_tree_def registered_ids_def MatrixInfo_new_def MAX_CHILDREN_NUM_def message_enums)

text \<open>When the connection of a registered matrix closes, \<open>onDisconnect\<close> advances the iterator of the entry it has
  just erased; it returns only when no registered matrix was on the connection.\<close>

theorem disconnect_invalid_iterator:
  "onDisconnect fd s = (if \<exists>x \<in> set (rm_children s). mx_fd (snd x) = fd then Inl IteratorInvalidated else Inr s)"
proof (cases "find (\<lambda>x. mx_fd (snd x) = fd) (rm_children s)")
  case None
  then have "\<not> (\<exists>x \<in> set (rm_children s). mx_fd (snd x) = fd)"
    by (simp add: find_None_iff_all)
  with None show ?thesis by (simp add: onDisconnect_def)
next
  case (Some x)
  then show ?thesis using find_SomeD by (fastforce simp: onDisconnect_def)
qed

text \<open>A pan-tilt request of the upper matrix for a camera of a registered lower matrix is never forwarded: the handler
  copies a keyboard message through a null pointer.\<close>

theorem ptz_forward_null:
  assumes "a_method r = PTZ" and "a_to r \<noteq> rm_matrixId s" and "matchMatrix (a_to r) s = Some matrix"
  shows "onClientRxRequest e fd r s = Inl NullDeref"
  using assms by (simp add: onClientRxRequest_def onClientRxPtz_def message_enums)

theorem ptz_forward_null_witness:
  "onClientRxRequest (demo_env 100) 8 (demo_request\<lparr>a_method := PTZ, a_to := 3\<rparr>) demo_tree = Inl NullDeref"
  using ptz_forward_null [of "demo_request\<lparr>a_method := PTZ, a_to := 3\<rparr>" demo_tree "MatrixInfo_new 3 9" "demo_env 100" 8]
  by (simp add: demo_tree_def matchMatrix_def MatrixInfo_new_def)

text \<open>A registered matrix that lists children and registers again, as every change below it makes it do, makes
  \<open>clearChildren\<close> advance the iterator of an element it has just erased.\<close>

theorem reregister_invalid_iterator:
  assumes "a_method r = REGISTER" and "reg_expire (a_content r) > 0"
    and "map_of (rm_children s) (a_from r) = Some x" and "mx_children x \<noteq> []"
  shows "onRegister e fd r s = Inl IteratorInvalidated"
  using assms by (simp add: onRegister_def clearChildren_def)

theorem reregister_invalid_iterator_witness:
  "onRegister (demo_env 100) 9 demo_register (demo_state\<lparr>rm_children := [(3, \<lparr>mx_id = 3, mx_fd = 9, mx_children = [4, 5]\<rparr>)]\<rparr>) =
     Inl IteratorInvalidated"
  using reregister_invalid_iterator [of demo_register
      "demo_state\<lparr>rm_children := [(3, \<lparr>mx_id = 3, mx_fd = 9, mx_children = [4, 5]\<rparr>)]\<rparr>" _ "demo_env 100" 9]
  by (simp add: demo_register_def)

end
