(* ===== verification/Keyboard_Codec.thy ===== *)
theory Keyboard_Codec
  imports Keyboard_Message "HOL-Library.Signed_Division"
begin

text \<open>
  The packet formats of the keyboard drivers \<open>mcckeyboardjxj.cpp\<close>, \<open>mcckeyboardjxjen.cpp\<close>,
  \<open>mcckeyboardcz08.cpp\<close> and \<open>mcckeyboardrc.cpp\<close>: decoding of the 8-byte keyboard packet, encoding
  for the matrix, the checksum test, and the text commands of the CZ08, RC and JXJ-EN matrices.
  A packet is a list of \<open>8 word\<close>.  A \<open>char\<close> is signed on the target, so its promotion to \<open>int\<close> is
  \<open>sint\<close>; a promotion that is masked with \<open>0xff\<close> or less is the mask of the byte.
\<close>

unbundle bit_operations_syntax

section \<open>The 8-byte packet\<close>

text \<open>
  \<open>buildMessageFromPacket\<close>: \<open>kid\<close> is the driver's \<open>mId\<close>, \<open>matrixid\<close> is \<open>mMgr->GetMatrixId()\<close>.
  The decoder updates the message it is given.
\<close>

definition JXJ_buildMessageFromPacket :: "int \<Rightarrow> int \<Rightarrow> byte list \<Rightarrow> MCCKeyboardMessage \<Rightarrow> MCCKeyboardMessage" where
  "JXJ_buildMessageFromPacket kid matrixid packet msg0 =
    (let msg = msg0\<lparr>keyboard_id := kid, camera_id := MCCGlobalID matrixid (sint (packet ! 4))\<rparr> in
     if packet ! 2 = 0x11 then
       msg\<lparr>msg_type := eKBMsg_SWITCH, monitor_id := sint (packet ! 5)\<rparr>
     else if packet ! 2 = 0x21 then
       (let msg = msg\<lparr>msg_type := eKBMsg_PTZ\<rparr>;
            msg = (if \<not> (packet ! 3 \<noteq> 0 \<or> packet ! 5 \<noteq> 0 \<or> packet ! 6 \<noteq> 0)
                   then msg\<lparr>ptz_opt_type := ptz_STOP\<rparr> else msg);
            msg = msg\<lparr>ptz_opt_hstep := uint (packet ! 5 AND 0x7f)\<rparr>;
            msg = msg\<lparr>ptz_opt_vstep := uint (packet ! 6 AND 0x7f)\<rparr>;
            msg = (if packet ! 3 = 0x40 then msg\<lparr>ptz_opt_type := ptz_opt_type msg OR ptz_ZOOMIN\<rparr>
                   else if packet ! 3 = 0x80 then msg\<lparr>ptz_opt_type := ptz_opt_type msg OR ptz_ZOOMOUT\<rparr>
                   else msg);
            msg = (if ptz_opt_hstep msg \<noteq> 0 then
                     (if packet ! 5 AND 0x80 = 0 then msg\<lparr>ptz_opt_type := ptz_opt_type msg OR ptz_LEFT\<rparr>
                      else msg\<lparr>ptz_opt_type := ptz_opt_type msg OR ptz_RIGHT\<rparr>)
                   else msg);
            msg = (if ptz_opt_vstep msg \<noteq> 0 then
                     (if packet ! 6 AND 0x80 = 0 then msg\<lparr>ptz_opt_type := ptz_opt_type msg OR ptz_UP\<rparr>
                      else msg\<lparr>ptz_opt_type := ptz_opt_type msg OR ptz_DOWN\<rparr>)
                   else msg)
        in msg)
     else msg\<lparr>msg_type := eKBMsg_UNKNOWN\<rparr>)"

text \<open>
  \<open>buildPacketFromMessage\<close> of JXJ.  It writes into the caller's buffer and leaves the bytes it
  does not mention as they were; the caller's buffer is a static array that keeps the last packet.
\<close>

definition packet_checksum :: "byte list \<Rightarrow> byte" where
  "packet_checksum buf = buf ! 1 + buf ! 2 + buf ! 3 + buf ! 4 + buf ! 5 + buf ! 6"

definition JXJ_buildPacketFromMessage :: "byte list \<Rightarrow> MCCKeyboardMessage \<Rightarrow> byte list" where
  "JXJ_buildPacketFromMessage buf0 msg =
    (let buf = buf0[0 := 0xff, 1 := 0];
         opt = ptz_opt_type msg;
         buf =
           (if msg_type msg = eKBMsg_SWITCH then
              buf[2 := 0x11, 3 := 0, 4 := word_of_int (lid (camera_id msg)),
                  5 := word_of_int (monitor_id msg), 6 := 0x55]
            else if msg_type msg = eKBMsg_PTZ then
              (let buf = buf[2 := 0x21];
                   buf = (if opt AND ptz_ZOOMIN \<noteq> 0 then buf[3 := 0x40] else buf);
                   buf = (if opt AND ptz_ZOOMOUT \<noteq> 0 then buf[3 := 0x80] else buf);
                   buf = buf[4 := word_of_int (lid (camera_id msg))];
                   buf = (if opt AND ptz_LEFT \<noteq> 0 then buf[5 := word_of_int (ptz_opt_hstep msg)] else buf);
                   buf = (if opt AND ptz_RIGHT \<noteq> 0 then buf[5 := 0x80 + word_of_int (ptz_opt_hstep msg)] else buf);
                   buf = (if opt AND ptz_UP \<noteq> 0 then buf[6 := word_of_int (ptz_opt_vstep msg)] else buf);
                   buf = (if opt AND ptz_DOWN \<noteq> 0 then buf[6 := 0x80 + word_of_int (ptz_opt_vstep msg)] else buf);
                   buf = (if opt = ptz_STOP then buf[3 := 0, 5 := 0, 6 := 0] else buf)
               in buf)
            else buf)
     in buf[7 := packet_checksum buf])"

text \<open>\<open>SendSwitch(int, int)\<close>: the packet it writes to the matrix.\<close>

definition JXJ_switch_packet :: "int \<Rightarrow> int \<Rightarrow> byte list" where
  "JXJ_switch_packet local_cid local_mid =
    (let c = word_of_int (0xff AND local_cid); m = word_of_int (0xff AND local_mid)
     in [0xff, 0, 0x11, 0, c, m, 0x55, 0x66 + c + m])"

text \<open>
  \<open>ValidatePacket\<close>: the comparison with \<open>0xff\<close> is of the promoted \<open>char\<close> with the \<open>int\<close> 255.
\<close>

definition JXJ_ValidatePacket :: "byte list \<Rightarrow> int \<Rightarrow> bool" where
  "JXJ_ValidatePacket packet len =
    (if sint (packet ! 0) \<noteq> 255 then False
     else if len \<noteq> 8 then False
     else foldl (\<lambda>sum i. sum + packet ! i) 0 [1..<6] = packet ! 7)"

text \<open>The other three drivers repeat the decoder, the checksum test and \<open>SendSwitch\<close> word for word,
  and the JXJ-EN driver also the encoder.\<close>

definition JXJEn_buildMessageFromPacket :: "int \<Rightarrow> int \<Rightarrow> byte list \<Rightarrow> MCCKeyboardMessage \<Rightarrow> MCCKeyboardMessage" where
  "JXJEn_buildMessageFromPacket = JXJ_buildMessageFromPacket"

definition CZ08_buildMessageFromPacket :: "int \<Rightarrow> int \<Rightarrow> byte list \<Rightarrow> MCCKeyboardMessage \<Rightarrow> MCCKeyboardMessage" where
  "CZ08_buildMessageFromPacket = JXJ_buildMessageFromPacket"

definition RC_buildMessageFromPacket :: "int \<Rightarrow> int \<Rightarrow> byte list \<Rightarrow> MCCKeyboardMessage \<Rightarrow> MCCKeyboardMessage" where
  "RC_buildMessageFromPacket = JXJ_buildMessageFromPacket"

definition JXJEn_buildPacketFromMessage :: "byte list \<Rightarrow> MCCKeyboardMessage \<Rightarrow> byte list" where
  "JXJEn_buildPacketFromMessage = JXJ_buildPacketFromMessage"

definition JXJEn_ValidatePacket :: "byte list \<Rightarrow> int \<Rightarrow> bool" where
  "JXJEn_ValidatePacket = JXJ_ValidatePacket"

definition CZ08_ValidatePacket :: "byte list \<Rightarrow> int \<Rightarrow> bool" where
  "CZ08_ValidatePacket = JXJ_ValidatePacket"

definition RC_ValidatePacket :: "byte list \<Rightarrow> int \<Rightarrow> bool" where
  "RC_ValidatePacket = JXJ_ValidatePacket"

definition CZ08_switch_packet :: "int \<Rightarrow> int \<Rightarrow> byte list" where
  "CZ08_switch_packet = JXJ_switch_packet"

definition RC_switch_packet :: "int \<Rightarrow> int \<Rightarrow> byte list" where
  "RC_switch_packet = JXJ_switch_packet"

section \<open>Text commands\<close>

definition bytes_of :: "string \<Rightarrow> byte list" where
  "bytes_of s = map of_char s"

text \<open>\<open>sprintf(buf + pos, ...)\<close> into a buffer of \<open>cap\<close> bytes: the text and its terminating zero.\<close>

definition sprintf_at :: "nat \<Rightarrow> byte list \<Rightarrow> nat \<Rightarrow> string \<Rightarrow> byte list result" where
  "sprintf_at cap b pos text =
     (if cap < pos + length text + 1 then Inl OutOfBounds
      else Inr (take pos b @ bytes_of text @ [0] @ drop (pos + length text + 1) b))"

text \<open>\<open>%02d\<close>\<close>

definition show_02d :: "int \<Rightarrow> string" where
  "show_02d i = (if 0 \<le> i \<and> i < 10 then ''0'' @ show_int i else show_int i)"

text \<open>
  CZ08: the switch command \<open><swit,monitor,0,camera>\<close>.  The result is the bytes written and the
  value returned; 0 bytes are written and 0 returned for any other message.
\<close>

definition CZ08_command :: "MCCKeyboardMessage \<Rightarrow> string" where
  "CZ08_command msg = ''<swit,'' @ show_int (monitor_id msg) @ '',0,'' @ show_int (lid (camera_id msg)) @ ''>''"

definition CZ08_buildPacketFromMessage :: "nat \<Rightarrow> MCCKeyboardMessage \<Rightarrow> (byte list \<times> nat) result" where
  "CZ08_buildPacketFromMessage cap msg =
    (if msg_type msg = eKBMsg_SWITCH then
       bindr (sprintf_at cap [] 0 (CZ08_command msg)) (\<lambda>buf.
         Inr (buf, length (takeWhile (\<lambda>c. c \<noteq> CHR ''>'') (CZ08_command msg)) + 1))
     else Inr ([], 0))"

text \<open>
  RC: monitors are numbered row by row, six to a row; the loop finds the column (from 1) and the row
  (from 1).  \<open>col\<close> is an \<open>unsigned char\<close>.
\<close>

fun rc_grid :: "nat \<Rightarrow> nat \<Rightarrow> nat \<times> nat" where
  "rc_grid col row = (if col > 6 then rc_grid (col - 6) (row + 1) else (col, row))"

declare rc_grid.simps [simp del]

definition rc_cell_of :: "int \<Rightarrow> nat \<times> nat" where
  "rc_cell_of monitor = rc_grid (nat (monitor mod 256)) 1"

definition rc_cell_byte :: "nat \<times> nat \<Rightarrow> byte" where
  "rc_cell_byte cell = ((push_bit 4 (of_nat (fst cell) AND 0x0f)) AND 0xf0) OR (of_nat (snd cell) AND 0x0f)"

definition rc_header :: "byte \<Rightarrow> byte \<Rightarrow> MCCKeyboardMessage \<Rightarrow> byte list" where
  "rc_header b e msg = [0xd5, b, e, 0x20, if lid (camera_id msg) > 8 then 0 else 2, 0xaa]"

definition rc_command :: "MCCKeyboardMessage \<Rightarrow> int \<Rightarrow> string" where
  "rc_command msg monitor =
    (if lid (camera_id msg) > 8
     then ''PA01SW'' @ show_02d (wrap32 (lid (camera_id msg) - 8)) @ show_02d monitor @ ''NT''
     else ''PV01SW'' @ show_02d (lid (camera_id msg)) @ show_02d monitor @ ''NT'')"

text \<open>The nested loop over the cells of a rectangle: each command is written 12 bytes after the last.\<close>

fun rc_write_cells :: "nat \<Rightarrow> MCCKeyboardMessage \<Rightarrow> (nat \<times> nat) list \<Rightarrow> byte list \<Rightarrow> nat \<Rightarrow> (byte list \<times> nat) result" where
  "rc_write_cells cap msg [] buf p = Inr (buf, p)"
| "rc_write_cells cap msg ((i, j) # ijs) buf p =
     bindr (sprintf_at cap buf p (rc_command msg (wrap32 (left_up_monitor_id msg + int j + 6 * int i))))
       (\<lambda>buf. rc_write_cells cap msg ijs buf (p + 12))"

definition rc_cells :: "nat \<Rightarrow> nat \<Rightarrow> (nat \<times> nat) list" where
  "rc_cells rows cols = concat (map (\<lambda>i. map (\<lambda>j. (i, j)) [0..<cols]) [0..<rows])"

definition RC_buildPacketFromMessage :: "nat \<Rightarrow> MCCKeyboardMessage \<Rightarrow> (byte list \<times> nat) result" where
  "RC_buildPacketFromMessage cap msg =
    (if msg_type msg = eKBMsg_SWITCH then
       (let b = rc_cell_byte (rc_cell_of (monitor_id msg));
            cmd = rc_command msg (monitor_id msg)
        in bindr (sprintf_at cap (rc_header b b msg) 6 cmd) (\<lambda>buf.
             Inr (buf, 6 + length (takeWhile (\<lambda>c. c \<noteq> CHR ''T'') cmd) + 1)))
     else if msg_type msg = eKBMsg_Pin then
       (let (col, row) = rc_cell_of (left_up_monitor_id msg);
            (col1, row1) = rc_cell_of (right_down_monitor_id msg)
        in if row1 < row \<or> col1 < col then Inr ([], 0)
           else rc_write_cells cap msg (rc_cells (row1 - row + 1) (col1 - col + 1))
                  (rc_header (rc_cell_byte (col, row)) (rc_cell_byte (col1, row1)) msg) 6)
     else Inr ([], 0))"

text \<open>JXJ-EN: the window commands of a wall of 3 by 3 screens of 1366 by 768 pixels.\<close>

definition getEdge :: "int \<Rightarrow> int \<Rightarrow> int \<times> int \<times> int \<times> int" where
  "getEdge top_left bottom_right =
    (wrap32 (top_left - 1) smod 3, wrap32 (bottom_right - 1) smod 3,
     wrap32 (top_left - 1) sdiv 3, wrap32 (bottom_right - 1) sdiv 3)"

definition crlf :: string where
  "crlf = [CHR 0x0D, CHR 0x0A]"

definition win_size :: "string \<Rightarrow> int \<Rightarrow> int \<Rightarrow> int \<Rightarrow> string" where
  "win_size cmd inport lu rd =
    (let (left, right, top, bottom) = getEdge lu rd
     in cmd @ '' '' @ show_int inport @ '' '' @ show_int (left * 1366) @ '' '' @ show_int (wrap32 (top * 768)) @ '' '' @
        show_int (right * 1366 + 1366) @ '' '' @ show_int (wrap32 (wrap32 (bottom * 768) + 768)) @ crlf)"

text \<open>\<open>move\<close> (and \<open>create\<close>, which calls it): the text and its length; \<open>None\<close> when nothing is written.\<close>

definition en_move :: "int \<Rightarrow> int \<Rightarrow> int \<Rightarrow> int \<Rightarrow> string option \<times> nat" where
  "en_move type inport lu rd =
    (if type = 0 then (let s = win_size ''VWinSize'' inport lu rd in (Some s, length s))
     else if type = 1 then (let s = win_size ''DWinSize'' inport lu rd in (Some s, length s))
     else (None, 0))"

definition en_create :: "int \<Rightarrow> int \<Rightarrow> int \<Rightarrow> int \<Rightarrow> string option \<times> nat" where
  "en_create = en_move"

definition en_close :: "int \<Rightarrow> int \<Rightarrow> string option \<times> nat" where
  "en_close type inport =
    (if type = 0 then (let s = ''VWinSwitch '' @ show_int inport @ crlf in (Some s, length s))
     else if type = 1 then (let s = ''DWinSwitch '' @ show_int inport @ crlf in (Some s, length s))
     else (None, 0))"

lemmas packet_decoders [codec_defs] =
  JXJEn_buildMessageFromPacket_def CZ08_buildMessageFromPacket_def RC_buildMessageFromPacket_def

section \<open>Bytes\<close>

lemma byte_and_7f: "uint (x AND 0x7f) = uint x mod 128" for x :: byte
proof -
  have "uint (x AND 0x7f) = uint x AND 0x7f"
    by (simp add: unsigned_and_eq)
  also have "\<dots> = take_bit 7 (uint x)"
    by (simp add: take_bit_eq_mask mask_eq_exp_minus_1)
  finally show ?thesis
    by (simp add: take_bit_eq_mod)
qed

lemma byte_and_80: "x AND 0x80 = 0 \<longleftrightarrow> uint x < 128" for x :: byte
proof -
  have "x AND 0x80 = 0 \<longleftrightarrow> \<not> bit x 7"
    using and_exp_eq_0_iff_not_bit [of x 7] by simp
  also have "\<dots> \<longleftrightarrow> even (uint x div 128)"
    using bit_uint_iff [of x 7] by (auto simp: bit_iff_odd [of "uint x"])
  also have "\<dots> \<longleftrightarrow> uint x < 128"
  proof -
    have "0 \<le> uint x" and "uint x < 256"
      using uint_lt2p [of x] by simp_all
    then show ?thesis by presburger
  qed
  finally show ?thesis .
qed

text \<open>The sign-and-magnitude bytes of the pan and tilt speeds.\<close>

definition speed :: "int \<Rightarrow> bool" where
  "speed n \<longleftrightarrow> 0 < n \<and> n < 128"

lemma uint_speed:
  "speed n \<Longrightarrow> uint (word_of_int n :: byte) = n"
  "speed n \<Longrightarrow> uint (0x80 + word_of_int n :: byte) = 128 + n"
  by (simp_all add: speed_def uint_word_of_int uint_word_ariths)

lemma speed_bytes [simp]:
  assumes "speed n"
  shows "uint ((word_of_int n :: byte) AND 0x7f) = n"
    and "uint ((0x80 + word_of_int n :: byte) AND 0x7f) = n"
    and "(word_of_int n :: byte) AND 0x80 = 0"
    and "(0x80 + word_of_int n :: byte) AND 0x80 \<noteq> 0"
    and "n \<noteq> 0"
  using assms by (simp_all only: byte_and_7f byte_and_80 uint_speed) (simp_all add: speed_def)

lemma sint_byte: "- 128 \<le> n \<Longrightarrow> n < 128 \<Longrightarrow> sint (word_of_int n :: byte) = n"
  by (simp add: sint_sbintrunc' signed_take_bit_int_eq_self)

section \<open>Properties of the packet codec\<close>

lemma length_buildPacket [simp]: "length (JXJ_buildPacketFromMessage buf msg) = length buf"
  by (simp add: JXJ_buildPacketFromMessage_def Let_def)

lemma eight_bytes:
  assumes "length b = 8"
  obtains b0 b1 b2 b3 b4 b5 b6 b7 where "b = [b0, b1, b2, b3, b4, b5, b6, b7]"
  using assms by (auto simp: numeral_eq_Suc length_Suc_conv)

lemma buildPacket_switch:
  assumes "length buf = 8" and "msg_type msg = eKBMsg_SWITCH"
  shows "JXJ_buildPacketFromMessage buf msg = JXJ_switch_packet (lid (camera_id msg)) (monitor_id msg)"
proof -
  have m: "(word_of_int (0xff AND n) :: byte) = word_of_int n" for n :: int
  proof -
    have "0xff AND n = take_bit 8 n"
      by (simp add: take_bit_eq_mask mask_eq_exp_minus_1 and.commute)
    then show ?thesis
      by (simp add: word_of_int_eq_iff)
  qed
  from assms(1) show ?thesis
    by (rule eight_bytes)
      (simp add: JXJ_buildPacketFromMessage_def JXJ_switch_packet_def assms(2) m packet_checksum_def Let_def)
qed

lemma buildPacket_ptz:
  assumes "length buf = 8" and "msg_type msg = eKBMsg_PTZ"
  shows "JXJ_buildPacketFromMessage buf msg =
    (let opt = ptz_opt_type msg;
         z = (if opt = 0 then 0 else if opt AND 32 \<noteq> 0 then 0x80 else if opt AND 16 \<noteq> 0 then 0x40 else buf ! 3);
         c = word_of_int (lid (camera_id msg));
         h = (if opt = 0 then 0 else if opt AND 8 \<noteq> 0 then 0x80 + word_of_int (ptz_opt_hstep msg)
              else if opt AND 4 \<noteq> 0 then word_of_int (ptz_opt_hstep msg) else buf ! 5);
         v = (if opt = 0 then 0 else if opt AND 2 \<noteq> 0 then 0x80 + word_of_int (ptz_opt_vstep msg)
              else if opt AND 1 \<noteq> 0 then word_of_int (ptz_opt_vstep msg) else buf ! 6)
     in [0xff, 0, 0x21, z, c, h, v, 0x21 + z + c + h + v])"
  using assms(1)
  by (rule eight_bytes)
    (simp add: JXJ_buildPacketFromMessage_def assms(2) ptz_defs eKBMsg_defs packet_checksum_def Let_def)

lemma sint_byte_range: "- 128 \<le> sint x" "sint x < 128" for x :: byte
  using sint_ge [of x] sint_lt [of x] by simp_all

text \<open>
  The pan, tilt and zoom commands a decoded message can hold: at most one zoom direction, one
  horizontal direction with its speed and one vertical direction with its speed.
\<close>

definition ptz_command :: "MCCKeyboardMessage \<Rightarrow> bool" where
  "ptz_command m \<longleftrightarrow> msg_type m = eKBMsg_PTZ \<and>
     (\<exists>z\<in>{0, ptz_ZOOMIN, ptz_ZOOMOUT}. \<exists>h\<in>{0, ptz_LEFT, ptz_RIGHT}. \<exists>v\<in>{0, ptz_UP, ptz_DOWN}.
        ptz_opt_type m = z + h + v \<and>
        (if h = 0 then ptz_opt_hstep m = 0 else speed (ptz_opt_hstep m)) \<and>
        (if v = 0 then ptz_opt_vstep m = 0 else speed (ptz_opt_vstep m)))"

lemma ptz_decode_encode:
  assumes "ptz_command m" and "length buf = 8" and "buf ! 3 = 0" and "buf ! 5 = 0" and "buf ! 6 = 0"
    and "-128 \<le> lid (camera_id m)" and "lid (camera_id m) < 128" and "ptz_opt_type m0 = 0"
  shows "JXJ_buildMessageFromPacket kid mtx (JXJ_buildPacketFromMessage buf m) m0 =
    m0\<lparr>msg_type := eKBMsg_PTZ, keyboard_id := kid, camera_id := MCCGlobalID mtx (lid (camera_id m)),
       ptz_opt_type := ptz_opt_type m, ptz_opt_hstep := ptz_opt_hstep m, ptz_opt_vstep := ptz_opt_vstep m\<rparr>"
  using assms(1) unfolding ptz_command_def
  by (elim conjE bexE insertE emptyE;
      simp add: buildPacket_ptz assms(2-) sint_byte JXJ_buildMessageFromPacket_def ptz_defs eKBMsg_defs Let_def)

section \<open>Properties of the text commands\<close>

lemma length_bytes_of [simp]: "length (bytes_of s) = length s"
  by (simp add: bytes_of_def)

lemma show_int_no_special: "c \<in> set (show_int i) \<Longrightarrow> is_digit c \<or> c = CHR ''-''"
  by (auto simp: show_int_def nat_digits_all_digits split: if_splits)

lemma digit_not_mark [simp]: "\<not> is_digit CHR ''>''" "\<not> is_digit CHR ''T''" "\<not> is_digit CHR ''-''"
  by (simp_all add: is_digit_def)

lemma show_int_stops:
  "CHR ''>'' \<notin> set (show_int i)" "CHR ''T'' \<notin> set (show_int i)" "CHR ''T'' \<notin> set (show_02d i)"
  using show_int_no_special [of "CHR ''>''" i] show_int_no_special [of "CHR ''T''" i]
  by (auto simp: show_02d_def)

lemma takeWhile_until: "c \<notin> set xs \<Longrightarrow> takeWhile (\<lambda>x. x \<noteq> c) (xs @ c # ys) = xs"
  by (metis (mono_tags, lifting) takeWhile_tail takeWhile_eq_all_conv append_Nil2)

text \<open>\<open>strstr(buf, ">") - buf + 1\<close> is the length of the whole command.\<close>

lemma CZ08_length:
  "length (takeWhile (\<lambda>c. c \<noteq> CHR ''>'') (CZ08_command msg)) + 1 = length (CZ08_command msg)"
proof -
  define pre where "pre = ''<swit,'' @ show_int (monitor_id msg) @ '',0,'' @ show_int (lid (camera_id msg))"
  have "CZ08_command msg = pre @ CHR ''>'' # []"
    by (simp add: CZ08_command_def pre_def)
  moreover have "CHR ''>'' \<notin> set pre"
    by (simp add: pre_def show_int_stops)
  ultimately show ?thesis
    by (simp add: takeWhile_until)
qed

lemma CZ08_build:
  assumes "msg_type msg = eKBMsg_SWITCH"
  shows "CZ08_buildPacketFromMessage cap msg =
    (if length (show_int (monitor_id msg)) + length (show_int (lid (camera_id msg))) + 11 \<le> cap
     then Inr (bytes_of (CZ08_command msg) @ [0], length (CZ08_command msg))
     else Inl OutOfBounds)"
  using CZ08_length [of msg] assms
  by (auto simp: CZ08_buildPacketFromMessage_def sprintf_at_def CZ08_command_def)

lemma rc_grid_eq: "0 < col \<Longrightarrow> rc_grid col row = ((col - 1) mod 6 + 1, row + (col - 1) div 6)"
proof (induction col row rule: rc_grid.induct)
  case (1 col row)
  show ?case
  proof (cases "col > 6")
    case True
    define k where "k = col - 7"
    with True have k: "col = k + 7" by simp
    from "1.IH" [OF True] show ?thesis
      by (subst rc_grid.simps) (simp add: k)
  next
    case False
    with "1.prems" show ?thesis
      by (simp add: rc_grid.simps [of col])
  qed
qed

lemma rc_cell_of_eq:
  "1 \<le> m \<Longrightarrow> m \<le> 255 \<Longrightarrow> rc_cell_of m = (nat (m - 1) mod 6 + 1, nat (m - 1) div 6 + 1)"
  by (simp add: rc_cell_of_def rc_grid_eq nat_diff_distrib)

lemma length_show_02d: "0 \<le> i \<Longrightarrow> i < 100 \<Longrightarrow> length (show_02d i) = 2"
proof -
  assume i: "0 \<le> i" "i < 100"
  show ?thesis
  proof (cases "i < 10")
    case True
    with i show ?thesis
      by (simp add: show_02d_def show_int_def nat_digits.simps)
  next
    case False
    with i have "nat i div 10 < 10" by linarith
    with i False show ?thesis
      by (simp add: show_02d_def show_int_def nat_digits.simps [of "nat i"] nat_digits.simps [of "nat i div 10"])
  qed
qed

text \<open>The camera numbers and monitor numbers that fit the two-digit fields.\<close>

definition rc_fits :: "MCCKeyboardMessage \<Rightarrow> int \<Rightarrow> bool" where
  "rc_fits msg monitor \<longleftrightarrow> 0 \<le> lid (camera_id msg) \<and> lid (camera_id msg) < 100 \<and> 0 \<le> monitor \<and> monitor < 100"

lemma length_rc_command: "rc_fits msg monitor \<Longrightarrow> length (rc_command msg monitor) = 12"
  by (simp add: rc_command_def rc_fits_def length_show_02d is_int32_def)

definition rc_cell_commands :: "MCCKeyboardMessage \<Rightarrow> (nat \<times> nat) list \<Rightarrow> byte list" where
  "rc_cell_commands msg ijs =
     concat (map (\<lambda>(i, j). bytes_of (rc_command msg (left_up_monitor_id msg + int j + 6 * int i))) ijs)"

lemma rc_write_cells_ok:
  assumes "\<And>i j. (i, j) \<in> set ijs \<Longrightarrow> rc_fits msg (left_up_monitor_id msg + int j + 6 * int i)"
    and "length pre + 12 * length ijs + 1 \<le> cap" and "length tail \<le> 1"
  shows "rc_write_cells cap msg ijs (pre @ tail) (length pre) =
    Inr (pre @ rc_cell_commands msg ijs @ (if ijs = [] then tail else [0]), length pre + 12 * length ijs)"
  using assms
proof (induction ijs arbitrary: pre tail)
  case (Cons ij ijs)
  obtain i j where ij: "ij = (i, j)" by fastforce
  define cmd where "cmd = rc_command msg (left_up_monitor_id msg + int j + 6 * int i)"
  from Cons.prems(1) [of i j] have fit: "rc_fits msg (left_up_monitor_id msg + int j + 6 * int i)"
    by (simp add: ij)
  then have len: "length cmd = 12" and wrap: "wrap32 (left_up_monitor_id msg + int j + 6 * int i) = left_up_monitor_id msg + int j + 6 * int i"
    by (auto simp: cmd_def length_rc_command rc_fits_def is_int32_def)
  from Cons.IH [of "pre @ bytes_of cmd" "[0]"] Cons.prems len
  have "rc_write_cells cap msg ijs (pre @ bytes_of cmd @ [0]) (length pre + 12) =
    Inr (pre @ bytes_of cmd @ rc_cell_commands msg ijs @ [0], length pre + 12 * length (ij # ijs))"
    by (auto simp: ij)
  with Cons.prems len wrap show ?case
    by (simp add: ij sprintf_at_def rc_cell_commands_def cmd_def)
qed (simp add: rc_cell_commands_def)

lemma length_rc_cells: "length (rc_cells rows cols) = rows * cols"
  by (simp add: rc_cells_def length_concat comp_def sum_list_triv)

lemma set_rc_cells: "(i, j) \<in> set (rc_cells rows cols) \<longleftrightarrow> i < rows \<and> j < cols"
  by (force simp: rc_cells_def)

text \<open>A pin over a rectangle of the wall: the packet holds the header and one command per screen.\<close>

lemma RC_build_pin:
  assumes type: "msg_type msg = eKBMsg_Pin"
    and lu: "1 \<le> left_up_monitor_id msg" "left_up_monitor_id msg \<le> 84"
    and rd: "1 \<le> right_down_monitor_id msg" "right_down_monitor_id msg \<le> 84"
    and cell: "rc_cell_of (left_up_monitor_id msg) = (col, row)"
              "rc_cell_of (right_down_monitor_id msg) = (col1, row1)"
    and rect: "row \<le> row1" "col \<le> col1"
    and cam: "0 \<le> lid (camera_id msg)" "lid (camera_id msg) < 100"
  shows "RC_buildPacketFromMessage 1024 msg =
    Inr (rc_header (rc_cell_byte (col, row)) (rc_cell_byte (col1, row1)) msg @
           rc_cell_commands msg (rc_cells (row1 - row + 1) (col1 - col + 1)) @ [0],
         6 + 12 * ((row1 - row + 1) * (col1 - col + 1)))"
proof -
  define rows cols where "rows = row1 - row + 1" and "cols = col1 - col + 1"
  have c: "col = nat (left_up_monitor_id msg - 1) mod 6 + 1" "row = nat (left_up_monitor_id msg - 1) div 6 + 1"
    "col1 = nat (right_down_monitor_id msg - 1) mod 6 + 1" "row1 = nat (right_down_monitor_id msg - 1) div 6 + 1"
    using cell lu rd by (simp_all add: rc_cell_of_eq)
  have idx: "left_up_monitor_id msg = int (6 * (row - 1) + col)" "right_down_monitor_id msg = int (6 * (row1 - 1) + col1)"
    using lu rd unfolding c by (simp_all add: mult.commute)
  have "rows \<le> 14" and "cols \<le> 6"
    using lu rd unfolding rows_def cols_def c by auto
  then have "rows * cols \<le> 14 * 6"
    by (rule mult_le_mono)
  then have room: "6 + 12 * (rows * cols) + 1 \<le> 1024" by linarith
  have fit: "rc_fits msg (left_up_monitor_id msg + int j + 6 * int i)" if "(i, j) \<in> set (rc_cells rows cols)" for i j
  proof -
    from that have "i \<le> row1 - row" and "j \<le> col1 - col"
      by (auto simp: set_rc_cells rows_def cols_def)
    moreover have "1 \<le> row"
      by (simp add: c)
    ultimately have "6 * (row - 1) + col + j + 6 * i \<le> 6 * (row1 - 1) + col1"
      using rect by linarith
    with rd cam idx show ?thesis
      by (auto simp: rc_fits_def)
  qed
  have "rc_header b e msg @ [] = rc_header b e msg" and "length (rc_header b e msg) = 6" for b e
    by (simp_all add: rc_header_def)
  with rc_write_cells_ok [of "rc_cells rows cols" msg "rc_header (rc_cell_byte (col, row)) (rc_cell_byte (col1, row1)) msg" 1024 "[]", OF fit] room
  have "rc_write_cells 1024 msg (rc_cells rows cols) (rc_header (rc_cell_byte (col, row)) (rc_cell_byte (col1, row1)) msg) 6 =
    Inr (rc_header (rc_cell_byte (col, row)) (rc_cell_byte (col1, row1)) msg @ rc_cell_commands msg (rc_cells rows cols) @ [0],
         6 + 12 * (rows * cols))"
    by (simp add: length_rc_cells rows_def cols_def flip: length_0_conv)
  with rect show ?thesis
    by (simp add: RC_buildPacketFromMessage_def type cell eKBMsg_defs rows_def cols_def)
qed

text \<open>The screen of a monitor number on the 3 by 3 wall.\<close>

lemma getEdge_screen:
  assumes "1 \<le> k" and "k \<le> 9"
  shows "getEdge k k = ((k - 1) mod 3, (k - 1) mod 3, (k - 1) div 3, (k - 1) div 3)"
  using assms by (cases "k = 1") (auto simp: getEdge_def is_int32_def signed_divide_int_def signed_modulo_int_def sgn_if)

lemma mask_byte: "(word_of_int (0xff AND n) :: byte) = word_of_int n" for n :: int
proof -
  have "0xff AND n = take_bit 8 n"
    by (simp add: take_bit_eq_mask mask_eq_exp_minus_1 and.commute)
  then show ?thesis
    by (simp add: word_of_int_eq_iff)
qed

lemma buildPacket_switch_packet:
  "length buf = 8 \<Longrightarrow> msg_type m = eKBMsg_SWITCH \<Longrightarrow>
   JXJ_buildPacketFromMessage buf m = JXJ_switch_packet (lid (camera_id m)) (monitor_id m)"
  by (simp add: buildPacket_switch JXJ_switch_packet_def mask_byte Let_def)

section \<open>Claims\<close>

text \<open>C38. Decoding is inverse to encoding for switch commands: the packet the driver sends for a switch decodes, whatever
  the buffer held before, to a switch with the same camera and monitor, for numbers that fit a signed byte; the packet is the
  one \<open>SendSwitch(camera, monitor)\<close> sends directly, and its last byte is the sum of the bytes before it.\<close>

theorem switch_packet_roundtrip:
  assumes "length buf = 8" and "msg_type m = eKBMsg_SWITCH"
    and "-128 \<le> lid (camera_id m)" and "lid (camera_id m) < 128" and "-128 \<le> monitor_id m" and "monitor_id m < 128"
  shows "JXJ_buildMessageFromPacket kid mtx (JXJ_buildPacketFromMessage buf m) m0 =
      m0\<lparr>msg_type := eKBMsg_SWITCH, keyboard_id := kid, camera_id := MCCGlobalID mtx (lid (camera_id m)), monitor_id := monitor_id m\<rparr> \<and>
    JXJ_buildPacketFromMessage buf m = JXJ_switch_packet (lid (camera_id m)) (monitor_id m) \<and>
    JXJ_buildPacketFromMessage buf m ! 7 = packet_checksum (JXJ_buildPacketFromMessage buf m)"
  using assms
  by (simp add: buildPacket_switch JXJ_switch_packet_def JXJ_buildMessageFromPacket_def packet_checksum_def mask_byte sint_byte Let_def)

theorem switch_packet_roundtrip_witness:
  "let m = (fst (MCCKeyboardMessage_new 0))\<lparr>msg_type := eKBMsg_SWITCH, camera_id := MCCGlobalID 7 5, monitor_id := 3\<rparr>
   in monitor_id (JXJ_buildMessageFromPacket 1 7 (JXJ_buildPacketFromMessage (replicate 8 0xff) m) m) = 3"
proof -
  let ?m = "(fst (MCCKeyboardMessage_new 0))\<lparr>msg_type := eKBMsg_SWITCH, camera_id := MCCGlobalID 7 5, monitor_id := 3\<rparr>"
  have "JXJ_buildMessageFromPacket 1 7 (JXJ_buildPacketFromMessage (replicate 8 0xff) ?m) ?m =
      ?m\<lparr>msg_type := eKBMsg_SWITCH, keyboard_id := 1, camera_id := MCCGlobalID 7 (lid (camera_id ?m)), monitor_id := monitor_id ?m\<rparr>"
    by (rule switch_packet_roundtrip [THEN conjunct1]) simp_all
  then show ?thesis by (simp add: Let_def)
qed

text \<open>C39. Decoding is inverse to encoding for pan, tilt and zoom commands: written into a buffer whose zoom, pan and tilt bytes
  are clear (as a stop leaves them), every combination of at most one zoom direction, one horizontal and one vertical direction with
  speeds from 1 to 127 decodes to the same operation and speeds.\<close>

theorem ptz_packet_roundtrip:
  assumes "ptz_command m" and "length buf = 8" and "buf ! 3 = 0" and "buf ! 5 = 0" and "buf ! 6 = 0"
    and "-128 \<le> lid (camera_id m)" and "lid (camera_id m) < 128" and "ptz_opt_type m0 = 0"
  shows "JXJ_buildMessageFromPacket kid mtx (JXJ_buildPacketFromMessage buf m) m0 =
    m0\<lparr>msg_type := eKBMsg_PTZ, keyboard_id := kid, camera_id := MCCGlobalID mtx (lid (camera_id m)),
       ptz_opt_type := ptz_opt_type m, ptz_opt_hstep := ptz_opt_hstep m, ptz_opt_vstep := ptz_opt_vstep m\<rparr>"
  using assms by (rule ptz_decode_encode)

theorem ptz_packet_roundtrip_witness:
  "let m = (fst (MCCKeyboardMessage_new 0))\<lparr>msg_type := eKBMsg_PTZ, camera_id := MCCGlobalID 7 5, ptz_opt_type := 20, ptz_opt_hstep := 32\<rparr>
   in ptz_opt_type (JXJ_buildMessageFromPacket 1 7 (JXJ_buildPacketFromMessage (replicate 8 0) m) (fst (MCCKeyboardMessage_new 1))) = 20"
proof -
  let ?m = "(fst (MCCKeyboardMessage_new 0))\<lparr>msg_type := eKBMsg_PTZ, camera_id := MCCGlobalID 7 5, ptz_opt_type := 20, ptz_opt_hstep := 32\<rparr>"
  have "ptz_command ?m"
    by (simp add: ptz_command_def ptz_defs speed_def)
  from ptz_packet_roundtrip [OF this, of "replicate 8 0" "fst (MCCKeyboardMessage_new 1)" 1 7] show ?thesis
    by (simp add: Let_def)
qed

text \<open>The encoder does not clear what a command does not mention: a pan-tilt command without a horizontal direction
  repeats the pan byte of the packet sent before, so that after a pan to the left a pure zoom decodes as a zoom and a pan.\<close>

theorem ptz_packet_stale_pan:
  assumes "length buf = 8" and "msg_type m = eKBMsg_PTZ" and "ptz_opt_type m \<noteq> ptz_STOP"
    and "ptz_opt_type m AND ptz_LEFT = 0" and "ptz_opt_type m AND ptz_RIGHT = 0"
  shows "JXJ_buildPacketFromMessage buf m ! 5 = buf ! 5"
  using assms by (simp add: buildPacket_ptz ptz_defs Let_def)

theorem ptz_packet_stale_pan_witness:
  "let left = (fst (MCCKeyboardMessage_new 0))\<lparr>msg_type := eKBMsg_PTZ, ptz_opt_type := ptz_LEFT, ptz_opt_hstep := 32\<rparr>;
       zoom = (fst (MCCKeyboardMessage_new 1))\<lparr>msg_type := eKBMsg_PTZ, ptz_opt_type := ptz_ZOOMIN\<rparr>;
       buf = JXJ_buildPacketFromMessage (replicate 8 0) left
   in JXJ_buildPacketFromMessage buf zoom ! 5 = 32"
proof -
  let ?left = "(fst (MCCKeyboardMessage_new 0))\<lparr>msg_type := eKBMsg_PTZ, ptz_opt_type := ptz_LEFT, ptz_opt_hstep := 32\<rparr>"
  have "JXJ_buildPacketFromMessage (replicate 8 0) ?left ! 5 = 32"
    by (simp add: buildPacket_ptz ptz_defs Let_def)
  with ptz_packet_stale_pan [of "JXJ_buildPacketFromMessage (replicate 8 0) ?left"
      "(fst (MCCKeyboardMessage_new 1))\<lparr>msg_type := eKBMsg_PTZ, ptz_opt_type := ptz_ZOOMIN\<rparr>"]
  show ?thesis
    by (simp add: ptz_defs Let_def)
qed

text \<open>\<open>ValidatePacket\<close> rejects every packet, whatever its contents and length: a signed \<open>char\<close> never equals 255.\<close>

theorem ValidatePacket_rejects_all: "JXJ_ValidatePacket packet len = False"
  using sint_byte_range(2) [of "packet ! 0"] by (simp add: JXJ_ValidatePacket_def)

text \<open>The CZ08 switch command is exactly the bytes \<open><swit,monitor,0,camera>\<close>, of the length returned, and fits the caller's
  buffer of 20 bytes exactly when the two numbers have at most nine characters together; otherwise \<open>sprintf\<close> writes past the buffer.\<close>

theorem CZ08_packet_bounds:
  assumes "msg_type msg = eKBMsg_SWITCH"
  shows "CZ08_buildPacketFromMessage 20 msg =
    (if length (show_int (monitor_id msg)) + length (show_int (lid (camera_id msg))) \<le> 9
     then Inr (bytes_of (CZ08_command msg) @ [0], length (CZ08_command msg))
     else Inl OutOfBounds)"
  using CZ08_build [OF assms, of 20] by simp

theorem CZ08_packet_bounds_witness:
  "CZ08_buildPacketFromMessage 20 ((fst (MCCKeyboardMessage_new 0))\<lparr>msg_type := eKBMsg_SWITCH, camera_id := MCCGlobalID 7 5, monitor_id := 3\<rparr>) =
     Inr (bytes_of ''<swit,3,0,5>'' @ [0], 12)"
proof -
  have "show_int 3 = ''3''" and "show_int 5 = ''5''"
    by code_simp+
  with CZ08_packet_bounds [of "(fst (MCCKeyboardMessage_new 0))\<lparr>msg_type := eKBMsg_SWITCH, camera_id := MCCGlobalID 7 5, monitor_id := 3\<rparr>"]
  show ?thesis by (simp add: CZ08_command_def)
qed

text \<open>A pin over a rectangle of the RC wall (monitors 1 to 84, six to a row, cameras 0 to 99) is encoded, within the 1024-byte
  buffer, as the header with the two corner cells followed by one 12-byte command per screen, row by row; the value
  returned is the length of header and commands.\<close>

theorem RC_pin_packet:
  assumes "msg_type msg = eKBMsg_Pin"
    and "1 \<le> left_up_monitor_id msg" and "left_up_monitor_id msg \<le> 84"
    and "1 \<le> right_down_monitor_id msg" and "right_down_monitor_id msg \<le> 84"
    and "rc_cell_of (left_up_monitor_id msg) = (col, row)" and "rc_cell_of (right_down_monitor_id msg) = (col1, row1)"
    and "row \<le> row1" and "col \<le> col1" and "0 \<le> lid (camera_id msg)" and "lid (camera_id msg) < 100"
  shows "RC_buildPacketFromMessage 1024 msg =
    Inr (rc_header (rc_cell_byte (col, row)) (rc_cell_byte (col1, row1)) msg @
           rc_cell_commands msg (rc_cells (row1 - row + 1) (col1 - col + 1)) @ [0],
         6 + 12 * ((row1 - row + 1) * (col1 - col + 1)))"
  using assms by (rule RC_build_pin)

theorem RC_pin_packet_witness:
  "\<exists>buf. RC_buildPacketFromMessage 1024 ((fst (MCCKeyboardMessage_new 0))
      \<lparr>msg_type := eKBMsg_Pin, camera_id := MCCGlobalID 7 2, left_up_monitor_id := 2, right_down_monitor_id := 9\<rparr>) = Inr (buf, 54)"
proof -
  let ?m = "(fst (MCCKeyboardMessage_new 0))
      \<lparr>msg_type := eKBMsg_Pin, camera_id := MCCGlobalID 7 2, left_up_monitor_id := 2, right_down_monitor_id := 9\<rparr>"
  have "rc_cell_of 2 = (2, 1)" and "rc_cell_of 9 = (3, 2)"
    by (simp_all add: rc_cell_of_eq)
  with RC_pin_packet [of ?m 2 1 3 2] show ?thesis by simp
qed

text \<open>On the JXJ-EN wall the window of a monitor from 1 to 9 is one cell of the 3 by 3 grid, and the cell determines the monitor:
  two different monitors never share a window.\<close>

theorem getEdge_monitor:
  assumes "1 \<le> k" and "k \<le> 9"
  shows "\<exists>c r. getEdge k k = (c, c, r, r) \<and> 0 \<le> c \<and> c < 3 \<and> 0 \<le> r \<and> r < 3 \<and> k = 3 * r + c + 1"
  using assms by (auto simp: getEdge_screen)

theorem getEdge_monitor_witness: "\<exists>c r. getEdge 6 6 = (c, c, r, r) \<and> 6 = 3 * r + c + 1"
  using getEdge_monitor [of 6] by auto

end
