(* ===== verification/Containers.thy ===== *)
theory Containers
  imports Std_Heap
begin

text \<open>
  The container templates the threads share: \<open>queue.h\<close> (\<open>Queue\<close>), \<open>squeue.h\<close> (\<open>Squeue\<close>),
  \<open>heap.h\<close> (\<open>Heap\<close>), \<open>prioqueue.h\<close> (\<open>PrioQueue\<close>), \<open>atomic.h\<close> (\<open>Atomic\<close>) and the deadline that
  \<open>conditional.h\<close> computes for a timed wait.  Every operation holds the object's lock for its
  whole body, so it is one step on the contents; a call that waits on a condition variable
  is modelled by the sequence of wake-ups it sees.
\<close>

section \<open>Queue\<close>

record 'a Queue =
  q_list :: "'a list"

definition inQueue :: "'a \<Rightarrow> 'a Queue \<Rightarrow> int \<times> 'a Queue" where
  "inQueue ele q = (0, q\<lparr>q_list := q_list q @ [ele]\<rparr>)"

text \<open>\<open>deQueue\<close> returns -1 and leaves \<open>ele\<close> as it was when the queue is empty.\<close>

definition deQueue :: "'a \<Rightarrow> 'a Queue \<Rightarrow> int \<times> 'a \<times> 'a Queue" where
  "deQueue ele q =
     (if length (q_list q) = 0 then (-1, ele, q)
      else (0, hd (q_list q), q\<lparr>q_list := tl (q_list q)\<rparr>))"

definition Queue_Size :: "'a Queue \<Rightarrow> nat" where
  "Queue_Size q = length (q_list q)"

section \<open>Squeue\<close>

record 'a Squeue =
  sq_queue :: "'a list"

definition Squeue_add :: "'a \<Rightarrow> 'a Squeue \<Rightarrow> 'a Squeue" where
  "Squeue_add e q = q\<lparr>sq_queue := sq_queue q @ [e]\<rparr>"

definition Squeue_tryget :: "'a \<Rightarrow> 'a Squeue \<Rightarrow> bool \<times> 'a \<times> 'a Squeue" where
  "Squeue_tryget e q =
     (if sq_queue q = [] then (False, e, q)
      else (True, hd (sq_queue q), q\<lparr>sq_queue := tl (sq_queue q)\<rparr>))"

definition Squeue_size :: "'a Squeue \<Rightarrow> nat" where
  "Squeue_size q = length (sq_queue q)"

text \<open>
  The blocking \<open>get\<close>: each element of \<open>wakes\<close> is the queue as the other threads have left it when
  the wait returns.  \<open>None\<close>: still waiting after the given wake-ups.
\<close>

fun Squeue_get :: "'a Squeue list \<Rightarrow> 'a Squeue \<Rightarrow> ('a \<times> 'a Squeue) option" where
  "Squeue_get wakes q =
     (if sq_queue q = []
      then (case wakes of [] \<Rightarrow> None | q' # ws \<Rightarrow> Squeue_get ws q')
      else Some (hd (sq_queue q), q\<lparr>sq_queue := tl (sq_queue q)\<rparr>))"

declare Squeue_get.simps [simp del]

definition ETIMEDOUT :: int where
  "ETIMEDOUT = 110"

datatype 'a get_outcome = TimedOut | Got 'a | Aborted | Waiting

text \<open>The timed \<open>get\<close>: a wake-up also carries the return code of \<open>pthread_cond_timedwait\<close>.\<close>

fun Squeue_get_timed :: "(int \<times> 'a Squeue) list \<Rightarrow> 'a Squeue \<Rightarrow> 'a get_outcome \<times> 'a Squeue" where
  "Squeue_get_timed wakes q =
     (if sq_queue q = []
      then (case wakes of
              [] \<Rightarrow> (Waiting, q)
            | (rc, q') # ws \<Rightarrow>
                if rc = ETIMEDOUT then (TimedOut, q')
                else if rc < 0 then (Aborted, q')
                else Squeue_get_timed ws q')
      else (Got (hd (sq_queue q)), q\<lparr>sq_queue := tl (sq_queue q)\<rparr>))"

declare Squeue_get_timed.simps [simp del]

text \<open>
  \<open>Conditional::Wait(mutex, timeout)\<close>: the absolute deadline it passes on, from the time of day
  (seconds, microseconds) and the timeout in milliseconds.  The conversions from \<open>double\<close> truncate.
\<close>

definition wait_deadline :: "nat \<Rightarrow> nat \<Rightarrow> nat \<Rightarrow> nat \<times> nat" where
  "wait_deadline tv_sec tv_usec timeout =
     (let sec = tv_sec + timeout div 1000;
          nsec = tv_usec * 1000 + timeout * 1000000
      in (sec + nsec div 1000000000, nsec))"

section \<open>Heap and PrioQueue\<close>

record 'a Heap =
  h_data :: "'a list"

definition Heap_push :: "('a \<Rightarrow> 'a \<Rightarrow> bool) \<Rightarrow> 'a \<Rightarrow> 'a Heap \<Rightarrow> 'a Heap" where
  "Heap_push lt e h = h\<lparr>h_data := push_heap lt (h_data h @ [e])\<rparr>"

definition Heap_top :: "'a \<Rightarrow> 'a Heap \<Rightarrow> bool \<times> 'a" where
  "Heap_top e h = (if h_data h \<noteq> [] then (True, last (h_data h)) else (False, e))"

definition Heap_pop :: "('a \<Rightarrow> 'a \<Rightarrow> bool) \<Rightarrow> 'a \<Rightarrow> 'a Heap \<Rightarrow> bool \<times> 'a \<times> 'a Heap" where
  "Heap_pop lt e h =
     (if h_data h \<noteq> []
      then (let d = pop_heap lt (h_data h) in (True, last d, h\<lparr>h_data := butlast d\<rparr>))
      else (False, e, h))"

record 'a PrioQueue =
  pq_heap :: "'a Heap"

definition PrioQueue_add :: "('a \<Rightarrow> 'a \<Rightarrow> bool) \<Rightarrow> 'a \<Rightarrow> 'a PrioQueue \<Rightarrow> 'a PrioQueue" where
  "PrioQueue_add lt e q = q\<lparr>pq_heap := Heap_push lt e (pq_heap q)\<rparr>"

definition PrioQueue_tryget :: "('a \<Rightarrow> 'a \<Rightarrow> bool) \<Rightarrow> 'a \<Rightarrow> 'a PrioQueue \<Rightarrow> bool \<times> 'a \<times> 'a PrioQueue" where
  "PrioQueue_tryget lt e q = (case Heap_pop lt e (pq_heap q) of (ok, x, h) \<Rightarrow> (ok, x, q\<lparr>pq_heap := h\<rparr>))"

text \<open>The waiting \<open>get\<close>, on the wake-ups it sees; the element is taken out by the argument of an \<open>assert\<close>.\<close>

fun PrioQueue_get :: "('a \<Rightarrow> 'a \<Rightarrow> bool) \<Rightarrow> 'a \<Rightarrow> 'a PrioQueue list \<Rightarrow> 'a PrioQueue \<Rightarrow> ('a \<times> 'a PrioQueue) result option" where
  "PrioQueue_get lt e wakes q =
     (if h_data (pq_heap q) = [] then (case wakes of [] \<Rightarrow> None | q' # ws \<Rightarrow> PrioQueue_get lt e ws q')
      else (case PrioQueue_tryget lt e q of (ok, x, q) \<Rightarrow> Some (if ok then Inr (x, q) else Inl AssertFailed)))"

declare PrioQueue_get.simps [simp del]

definition PrioQueue_size :: "'a PrioQueue \<Rightarrow> nat" where
  "PrioQueue_size q = length (h_data (pq_heap q))"

section \<open>Atomic\<close>

text \<open>The counter template; \<open>T\<close> is any ring, as its users instantiate it with integer types.\<close>

record 'a Atomic =
  a_value :: 'a

definition Atomic_inc :: "'a::ring_1 Atomic \<Rightarrow> 'a \<times> 'a Atomic" where
  "Atomic_inc a = (let v = a_value a + 1 in (v, a\<lparr>a_value := v\<rparr>))"

definition Atomic_inc_by :: "'a::ring_1 \<Rightarrow> 'a Atomic \<Rightarrow> 'a \<times> 'a Atomic" where
  "Atomic_inc_by d a = (let v = a_value a + d in (v, a\<lparr>a_value := v\<rparr>))"

definition Atomic_dec :: "'a::ring_1 Atomic \<Rightarrow> 'a \<times> 'a Atomic" where
  "Atomic_dec a = (let v = a_value a + 1 in (v, a\<lparr>a_value := v\<rparr>))"

definition Atomic_dec_by :: "'a::ring_1 \<Rightarrow> 'a Atomic \<Rightarrow> 'a \<times> 'a Atomic" where
  "Atomic_dec_by d a = (let v = a_value a - d in (v, a\<lparr>a_value := v\<rparr>))"

definition Atomic_pre_incr :: "'a::ring_1 Atomic \<Rightarrow> 'a \<times> 'a Atomic" where
  "Atomic_pre_incr a = (let v = a_value a + 1 in (v, a\<lparr>a_value := v\<rparr>))"

definition Atomic_pre_decr :: "'a::ring_1 Atomic \<Rightarrow> 'a \<times> 'a Atomic" where
  "Atomic_pre_decr a = (let v = a_value a - 1 in (v, a\<lparr>a_value := v\<rparr>))"

definition Atomic_post_incr :: "'a::ring_1 Atomic \<Rightarrow> 'a \<times> 'a Atomic" where
  "Atomic_post_incr a = (let ret = a_value a in (ret, a\<lparr>a_value := ret + 1\<rparr>))"

definition Atomic_post_decr :: "'a::ring_1 Atomic \<Rightarrow> 'a \<times> 'a Atomic" where
  "Atomic_post_decr a = (let ret = a_value a in (ret, a\<lparr>a_value := ret - 1\<rparr>))"

definition Atomic_get :: "'a Atomic \<Rightarrow> 'a" where
  "Atomic_get a = a_value a"

definition Atomic_set :: "'a \<Rightarrow> 'a Atomic \<Rightarrow> 'a \<times> 'a Atomic" where
  "Atomic_set v a = (v, a\<lparr>a_value := v\<rparr>)"

section \<open>The contract of a first-in first-out queue\<close>

text \<open>
  What the producer and consumer threads rely on, for any queue with an operation that adds an
  element and one that takes an element if there is one.
\<close>

locale fifo =
  fixes add :: "'a \<Rightarrow> 'q \<Rightarrow> 'q"
    and take1 :: "'q \<Rightarrow> ('a \<times> 'q) option"
    and content :: "'q \<Rightarrow> 'a list"
  assumes content_add: "content (add x q) = content q @ [x]"
    and take_empty: "content q = [] \<Longrightarrow> take1 q = None"
    and take_cons: "content q = x # xs \<Longrightarrow> \<exists>q'. take1 q = Some (x, q') \<and> content q' = xs"
begin

fun drain :: "nat \<Rightarrow> 'q \<Rightarrow> 'a list \<times> 'q" where
  "drain 0 q = ([], q)"
| "drain (Suc n) q =
     (case take1 q of None \<Rightarrow> ([], q) | Some (x, q') \<Rightarrow> (case drain n q' of (xs, q'') \<Rightarrow> (x # xs, q'')))"

lemma content_adds: "content (fold add xs q) = content q @ xs"
  by (induction xs arbitrary: q) (simp_all add: content_add)

lemma take_iff: "take1 q = None \<longleftrightarrow> content q = []"
  using take_empty take_cons by (cases "content q") force+

lemma drain_content:
  "fst (drain n q) = take n (content q) \<and> content (snd (drain n q)) = drop n (content q)"
proof (induction n arbitrary: q)
  case (Suc n)
  show ?case
  proof (cases "content q")
    case (Cons x xs)
    then obtain q' where "take1 q = Some (x, q')" and "content q' = xs"
      using take_cons by blast
    with Suc.IH [of q'] Cons show ?thesis
      by (auto split: prod.split)
  qed (simp add: take_empty)
qed simp

text \<open>Everything added comes out once, in the order it was added.\<close>

lemma drain_adds:
  "content q = [] \<Longrightarrow> fst (drain (length xs) (fold add xs q)) = xs"
  by (simp add: drain_content content_adds)

end

definition Queue_take :: "'a \<Rightarrow> 'a Queue \<Rightarrow> ('a \<times> 'a Queue) option" where
  "Queue_take ele q = (case deQueue ele q of (rc, x, q') \<Rightarrow> if rc = 0 then Some (x, q') else None)"

definition Squeue_take :: "'a \<Rightarrow> 'a Squeue \<Rightarrow> ('a \<times> 'a Squeue) option" where
  "Squeue_take e q = (case Squeue_tryget e q of (ok, x, q') \<Rightarrow> if ok then Some (x, q') else None)"

interpretation queue_fifo: fifo "\<lambda>x q. snd (inQueue x q)" "Queue_take ele" q_list for ele
  by unfold_locales (auto simp: inQueue_def Queue_take_def deQueue_def)

interpretation squeue_fifo: fifo Squeue_add "Squeue_take e" sq_queue for e
  by unfold_locales (auto simp: Squeue_add_def Squeue_take_def Squeue_tryget_def)

section \<open>Waiting\<close>

lemma Squeue_get_some:
  "Squeue_get wakes q = Some (x, q') \<Longrightarrow>
   \<exists>w \<in> set (q # wakes). sq_queue w = x # sq_queue q'"
proof (induction wakes q rule: Squeue_get.induct)
  case (1 wakes q)
  show ?case
  proof (cases "sq_queue q = []")
    case True
    then obtain w ws where "wakes = w # ws" and "Squeue_get ws w = Some (x, q')"
      using "1.prems" by (auto simp: Squeue_get.simps [of wakes] split: list.splits)
    with "1.IH" [OF True] show ?thesis by fastforce
  next
    case False
    with "1.prems" show ?thesis
      by (auto simp: Squeue_get.simps [of wakes])
  qed
qed

lemma Squeue_get_returns:
  "\<exists>w \<in> set (q # wakes). sq_queue w \<noteq> [] \<Longrightarrow> \<exists>x q'. Squeue_get wakes q = Some (x, q')"
proof (induction wakes arbitrary: q)
  case Nil
  then show ?case by (auto simp: Squeue_get.simps)
next
  case (Cons w ws)
  then show ?case
    by (cases "sq_queue q = []") (auto simp: Squeue_get.simps [of "w # ws"])
qed

text \<open>
  \<open>pthread_cond_timedwait\<close> accepts a deadline whose nanoseconds are below \<open>10\<^sup>9\<close>; otherwise it
  returns \<open>EINVAL\<close> at once.
\<close>

lemma wait_deadline_nsec: "snd (wait_deadline s us t) < 1000000000 \<longleftrightarrow> us * 1000 + t * 1000000 < 1000000000"
  by (simp add: wait_deadline_def Let_def)

section \<open>Heap\<close>

context std_compare
begin

lemma Heap_push_order: "heap_order lt (h_data h) \<Longrightarrow> heap_order lt (h_data (Heap_push lt e h))"
  by (simp add: Heap_push_def push_heap_order)

lemma Heap_pop_spec:
  assumes "heap_order lt (h_data h)" and "Heap_pop lt e h = (True, x, h')"
  shows "mset (h_data h) = add_mset x (mset (h_data h')) \<and> heap_order lt (h_data h') \<and>
         (\<forall>y \<in> set (h_data h). \<not> lt x y)"
proof -
  from assms(2) have ne: "h_data h \<noteq> []" and x: "x = hd (h_data h)"
    and h': "h_data h' = pq_pop lt (h_data h)"
    by (auto simp: Heap_pop_def Let_def pop_heap_last pq_pop_def split: if_splits)
  with pq.top_first [OF assms(1)] pq.invar_pop [OF assms(1)] show ?thesis
    by (simp add: mset_pq_pop pq_top_def)
qed

end

section \<open>Claims\<close>

text \<open>Taking elements one after the other from a queue that threads have added to yields the elements in the order in which they were
  added, each once, and leaves the rest.\<close>

theorem Squeue_first_in_first_out:
  "fst (squeue_fifo.drain e n (fold Squeue_add xs q)) = take n (sq_queue q @ xs) \<and>
   sq_queue (snd (squeue_fifo.drain e n (fold Squeue_add xs q))) = drop n (sq_queue q @ xs)"
  by (simp add: squeue_fifo.drain_content squeue_fifo.content_adds)

text \<open>For every comparison that the standard accepts, popping a heap built by pushes returns an element that no other precedes,
  removes exactly that element, and leaves a heap.\<close>

theorem Heap_pop_greatest:
  assumes "std_compare lt" and "heap_order lt (h_data h)" and "Heap_pop lt e (Heap_push lt y h) = (True, x, h')"
  shows "add_mset y (mset (h_data h)) = add_mset x (mset (h_data h')) \<and> heap_order lt (h_data h') \<and>
    \<not> lt x y \<and> (\<forall>z \<in> set (h_data h). \<not> lt x z)"
proof -
  have m: "mset (h_data (Heap_push lt y h)) = add_mset y (mset (h_data h))"
    by (simp add: Heap_push_def mset_push_heap)
  then have "set (h_data (Heap_push lt y h)) = insert y (set (h_data h))"
    by (metis set_mset_add_mset_insert set_mset_mset)
  with m std_compare.Heap_pop_spec [OF assms(1) std_compare.Heap_push_order [OF assms(1,2)] assms(3)] show ?thesis
    by simp
qed

theorem Heap_pop_greatest_witness:
  "\<exists>h'. Heap_pop (<) 0 (Heap_push (<) (5 :: int) \<lparr>h_data = [3]\<rparr>) = (True, 5, h') \<and> mset (h_data h') = {#3#}"
proof -
  have cmp: "std_compare ((<) :: int \<Rightarrow> int \<Rightarrow> bool)"
    by unfold_locales auto
  have heap: "heap_order (<) (h_data \<lparr>h_data = [3 :: int]\<rparr>)"
    by (auto simp: heap_order_def)
  obtain x h' where pop: "Heap_pop (<) 0 (Heap_push (<) (5 :: int) \<lparr>h_data = [3]\<rparr>) = (True, x, h')"
    by (simp add: Heap_pop_def Heap_push_def push_heap_def hole_up.simps heap_parent_def Let_def)
  from Heap_pop_greatest [OF cmp heap pop] have "add_mset 5 {#3#} = add_mset x (mset (h_data h'))" "\<not> x < 5"
    by simp_all
  then have "x = 5"
    by (auto simp: add_eq_conv_ex)
  with \<open>add_mset 5 {#3#} = add_mset x (mset (h_data h'))\<close> pop show ?thesis by auto
qed

text \<open>A timed wait of one second or more is given a deadline whose nanoseconds are out of range, which
  \<open>pthread_cond_timedwait\<close> refuses at once: \<open>timeout\<close> is counted in the seconds and again, unreduced, in the nanoseconds.\<close>

theorem wait_deadline_out_of_range:
  assumes "1000 \<le> timeout"
  shows "1000000000 \<le> snd (wait_deadline tv_sec tv_usec timeout)"
  using assms wait_deadline_nsec [of tv_sec tv_usec timeout] by simp

theorem wait_deadline_out_of_range_witness: "1000000000 \<le> snd (wait_deadline 10 0 1500)"
  by (rule wait_deadline_out_of_range) simp

end
