(* ===== verification/Serial_Port.thy ===== *)
theory Serial_Port
  imports Prelude
begin

text \<open>
  \<open>serialport.cpp\<close>: the serial port object, its life cycle, the line settings it installs and its
  reads and writes.

  \<^item> The operating system is an argument: \<open>open_env\<close> holds what \<open>open\<close>, the three \<open>ioctl\<close> calls and the
    thread start return, \<open>read_outcome list\<close> what successive \<open>read\<close> calls on the line deliver.  A read
    of \<open>n\<close> bytes takes at most \<open>n\<close> bytes of the next chunk.  With nothing left to deliver a read
    waits: the operation does not return and its value is \<open>None\<close>.
  \<^item> A buffer is a list of bytes; a write outside it is \<open>OutOfBounds\<close>.
  \<^item> Only sections under \<open>m_lock\<close> change the descriptor and the status, and each such section is a single step: all of \<open>Open\<close>,
    the first part of \<open>Close\<close> and the test at the head of the receive thread's loop.  \<open>Close\<close> joins the receive thread
    after it has given the lock back, and the thread reads the descriptor without it; in between, the other goes on.
  \<^item> One thread at a time opens and closes a port.
\<close>

unbundle bit_operations_syntax

section \<open>Line settings\<close>

record termio =
  c_iflag :: "16 word"
  c_oflag :: "16 word"
  c_cflag :: "16 word"
  c_lflag :: "16 word"
  c_cc :: "byte list"

definition CBAUD :: "16 word" where "CBAUD = 0x100f"
definition CSIZE :: "16 word" where "CSIZE = 0x30"
definition CSTOPB :: "16 word" where "CSTOPB = 0x40"
definition PARENB :: "16 word" where "PARENB = 0x100"
definition PARODD :: "16 word" where "PARODD = 0x200"
definition CREAD :: "16 word" where "CREAD = 0x80"
definition CLOCAL :: "16 word" where "CLOCAL = 0x800"

lemmas cflag_defs = CBAUD_def CSIZE_def CSTOPB_def PARENB_def PARODD_def CREAD_def CLOCAL_def

text \<open>The two parallel tables of \<open>_serial_baudrate_to_flag\<close>: speed and its \<open>B\<close> constant.\<close>

definition baud_table :: "(int \<times> 16 word) list" where
  "baud_table =
     [(921600, 0x1007), (460800, 0x1004), (230400, 0x1003), (115200, 0x1002), (57600, 0x1001), (38400, 15),
      (19200, 14), (9600, 13), (4800, 12), (2400, 11), (1800, 10), (1200, 9),
      (600, 8), (300, 7), (150, 5), (110, 3), (75, 2), (50, 1)]"

definition serial_baudrate_to_flag :: "int \<Rightarrow> 16 word" where
  "serial_baudrate_to_flag speed = (case map_of baud_table speed of Some f \<Rightarrow> f | None \<Rightarrow> 13)"

definition databits_flag :: "int \<Rightarrow> 16 word" where
  "databits_flag databits = (if databits = 5 then 0 else if databits = 6 then 0x10 else if databits = 7 then 0x20 else 0x30)"

definition set_parity :: "int \<Rightarrow> 16 word \<Rightarrow> 16 word" where
  "set_parity parity f =
     (if parity = 1 then f OR (PARENB OR PARODD)
      else if parity = 2 then (f OR PARENB) AND NOT PARODD
      else f AND NOT PARENB)"

definition set_stopbits :: "int \<Rightarrow> 16 word \<Rightarrow> 16 word" where
  "set_stopbits stopbits f = (if stopbits = 2 then f OR CSTOPB else f AND NOT CSTOPB)"

text \<open>What \<open>Setup\<close> makes of the current settings; \<open>VTIME\<close> is entry 5, \<open>VMIN\<close> entry 6.\<close>

definition Setup_attr :: "int \<Rightarrow> int \<Rightarrow> int \<Rightarrow> int \<Rightarrow> termio \<Rightarrow> termio" where
  "Setup_attr baud databits stopbits parity t =
    (let iflag = c_iflag t AND NOT (0x40 OR 0x80 OR 0x100 OR 0x20 OR 0x400 OR 0x2 OR 0x10);
         oflag = c_oflag t AND NOT (0x1 OR 0x4 OR 0x8);
         lflag = c_lflag t AND NOT (0x1 OR 0x8 OR 0x2 OR 0x80);
         cflag = c_cflag t AND NOT CBAUD;
         cflag = cflag OR (CLOCAL OR CREAD OR serial_baudrate_to_flag baud);
         cflag = cflag AND NOT CSIZE;
         cflag = cflag OR databits_flag databits;
         cflag = set_parity parity cflag;
         cflag = set_stopbits stopbits cflag
     in t\<lparr>c_iflag := iflag, c_oflag := oflag, c_cflag := cflag, c_lflag := lflag, c_cc := (c_cc t)[6 := 1, 5 := 0]\<rparr>)"

section \<open>The port\<close>

datatype ESerialPortStatus = MCC_SP_ECLOSED | MCC_SP_EOPEN | MCC_SP_ECLOSING

record SerialPort =
  sp_baudrate :: int
  sp_databits :: int
  sp_stopbits :: int
  sp_parity :: int
  sp_file :: string
  sp_fd :: int
  sp_status :: ESerialPortStatus
  sp_rxthread :: bool
  sp_listeners :: "int list"

definition SerialPort_new :: SerialPort where
  "SerialPort_new =
     \<lparr>sp_baudrate = 9600, sp_databits = 8, sp_stopbits = 1, sp_parity = 110, sp_file = ''/dev/ttyS0'',
      sp_fd = -1, sp_status = MCC_SP_ECLOSED, sp_rxthread = False, sp_listeners = []\<rparr>"

record open_env =
  oe_open :: int
  oe_get :: "termio option"
  oe_set :: int
  oe_flush :: int
  oe_thread :: int

datatype sp_call = OsSetAttr int termio | OsClose int

definition SerialPort_Setup :: "open_env \<Rightarrow> int \<Rightarrow> int \<Rightarrow> int \<Rightarrow> int \<Rightarrow> SerialPort \<Rightarrow> int \<times> sp_call list" where
  "SerialPort_Setup env baud databits stopbits parity p =
     (case oe_get env of None \<Rightarrow> (-1, [])
      | Some t \<Rightarrow>
          (let calls = [OsSetAttr (sp_fd p) (Setup_attr baud databits stopbits parity t)] in
           if oe_set env < 0 then (-1, calls)
           else if oe_flush env < 0 then (-1, calls)
           else (0, calls)))"

text \<open>\<open>strcpy(m_file, file)\<close> writes the terminating zero too: a name of 256 characters leaves the array.\<close>

definition SerialPort_Open ::
    "open_env \<Rightarrow> string \<Rightarrow> int \<Rightarrow> int \<Rightarrow> int \<Rightarrow> int \<Rightarrow> SerialPort \<Rightarrow> (int \<times> SerialPort \<times> sp_call list) result" where
  "SerialPort_Open env file baudrate databits stopbits parity p =
    (if sp_status p \<noteq> MCC_SP_ECLOSED then Inr (0, p, [])
     else
       let p = p\<lparr>sp_fd := oe_open env\<rparr> in
       if sp_fd p < 0 then Inr (-1, p\<lparr>sp_fd := -1\<rparr>, [])
       else
         case SerialPort_Setup env baudrate databits stopbits parity p of (rc, calls) \<Rightarrow>
         if rc < 0 then Inr (rc, p\<lparr>sp_fd := -1\<rparr>, calls @ [OsClose (sp_fd p)])
         else if oe_thread env \<noteq> 0 then Inr (oe_thread env, p\<lparr>sp_fd := -1, sp_rxthread := False\<rparr>, calls @ [OsClose (sp_fd p)])
         else if 256 \<le> length file then Inl OutOfBounds
         else Inr (0, p\<lparr>sp_rxthread := True, sp_status := MCC_SP_EOPEN, sp_baudrate := baudrate, sp_databits := databits,
                        sp_stopbits := stopbits, sp_parity := parity, sp_file := file\<rparr>, calls))"

definition SerialPort_Reopen :: "open_env \<Rightarrow> SerialPort \<Rightarrow> (int \<times> SerialPort \<times> sp_call list) result" where
  "SerialPort_Reopen env p = SerialPort_Open env (sp_file p) (sp_baudrate p) (sp_databits p) (sp_stopbits p) (sp_parity p) p"

definition SerialPort_isOpen :: "SerialPort \<Rightarrow> bool" where
  "SerialPort_isOpen p \<longleftrightarrow> sp_status p = MCC_SP_EOPEN"

definition RegisterListener :: "int \<Rightarrow> SerialPort \<Rightarrow> int \<times> SerialPort" where
  "RegisterListener l p = (0, p\<lparr>sp_listeners := sp_listeners p @ [l]\<rparr>)"

text \<open>The head of the receive thread's loop: does it leave?\<close>

definition rx_stop :: "SerialPort \<Rightarrow> bool \<times> SerialPort" where
  "rx_stop p = (if sp_status p = MCC_SP_ECLOSING then (True, p\<lparr>sp_status := MCC_SP_ECLOSED\<rparr>) else (False, p))"

datatype rx_event = on_recv int | on_error int

text \<open>One turn of the receive thread: \<open>rc\<close> is the result of \<open>select\<close>, \<open>isset\<close> whether the line is readable.\<close>

definition SerialPortRxThread_turn :: "int \<Rightarrow> bool \<Rightarrow> SerialPort \<Rightarrow> bool \<times> rx_event list \<times> SerialPort" where
  "SerialPortRxThread_turn rc isset p =
    (case rx_stop p of (stop, p) \<Rightarrow>
     if stop then (True, [], p)
     else if rc = 0 then (False, [], p)
     else if isset then (False, map on_recv (sp_listeners p), p)
     else (False, map on_error (sp_listeners p), p))"

text \<open>The part of \<open>Close\<close> under the lock; \<open>rc\<close> is what \<open>close\<close> returns.  The second result says whether \<open>Close\<close> goes on to
  join the receive thread and to delete its object.\<close>

definition SerialPort_Close_section :: "int \<Rightarrow> SerialPort \<Rightarrow> int \<times> bool \<times> SerialPort \<times> sp_call list" where
  "SerialPort_Close_section rc p =
    (if sp_status p = MCC_SP_ECLOSED \<or> sp_status p = MCC_SP_ECLOSING then (0, False, p, [])
     else if rc \<noteq> 0 then (rc, False, p, [OsClose (sp_fd p)])
     else (0, True, p\<lparr>sp_fd := -1, sp_status := MCC_SP_ECLOSING\<rparr>, [OsClose (sp_fd p)]))"

definition SerialPort_Close_end :: "SerialPort \<Rightarrow> SerialPort" where
  "SerialPort_Close_end p = p\<lparr>sp_rxthread := False\<rparr>"

text \<open>All of \<open>Close\<close>, when the receive thread gets to its test in the meantime.\<close>

definition SerialPort_Close :: "int \<Rightarrow> SerialPort \<Rightarrow> int \<times> SerialPort \<times> sp_call list" where
  "SerialPort_Close rc p =
    (case SerialPort_Close_section rc p of (rc, joins, p, calls) \<Rightarrow>
     (rc, if joins then SerialPort_Close_end (snd (rx_stop p)) else p, calls))"

section \<open>Reading\<close>

datatype read_outcome = Data "byte list" | Fail

fun os_read :: "nat \<Rightarrow> read_outcome list \<Rightarrow> (int \<times> byte list \<times> read_outcome list) option" where
  "os_read n [] = None"
| "os_read n (Fail # ds) = Some (-1, [], ds)"
| "os_read n (Data bs # ds) =
     Some (int (length (take n bs)), take n bs, if length bs \<le> n then ds else Data (drop n bs) # ds)"

text \<open>Bytes written into a buffer from an offset on.\<close>

definition blit :: "int \<Rightarrow> byte list \<Rightarrow> byte list \<Rightarrow> byte list result" where
  "blit off bs buf =
     (if bs = [] then Inr buf
      else if off < 0 \<or> int (length buf) < off + int (length bs) then Inl OutOfBounds
      else Inr (take (nat off) buf @ bs @ drop (nat off + length bs) buf))"

definition SerialPort_Read ::
    "byte list \<Rightarrow> int \<Rightarrow> int \<Rightarrow> SerialPort \<Rightarrow> read_outcome list \<Rightarrow> (int \<times> byte list \<times> read_outcome list) result option" where
  "SerialPort_Read buf off len p dev =
     (if sp_status p \<noteq> MCC_SP_EOPEN then Some (Inr (-1, buf, dev))
      else case os_read (nat len) dev of
        None \<Rightarrow> None
      | Some (n, bs, dev) \<Rightarrow> Some (bindr (blit off bs buf) (\<lambda>buf. Inr (n, buf, dev))))"

partial_function (option) Readn_loop ::
    "byte list \<Rightarrow> int \<Rightarrow> int \<Rightarrow> int \<Rightarrow> int \<Rightarrow> SerialPort \<Rightarrow> read_outcome list \<Rightarrow>
     (int \<times> byte list \<times> read_outcome list) result option" where
  "Readn_loop buf off ntotal n_read left p dev =
     (if left > 0 then
        (case SerialPort_Read buf (off + n_read) left p dev of
           None \<Rightarrow> None
         | Some (Inl e) \<Rightarrow> Some (Inl e)
         | Some (Inr (n, buf, dev)) \<Rightarrow> Readn_loop buf off ntotal (n_read + n) (ntotal - (n_read + n)) p dev)
      else Some (Inr (ntotal, buf, dev)))"

declare Readn_loop.simps [code]

definition SerialPort_Readn ::
    "byte list \<Rightarrow> int \<Rightarrow> int \<Rightarrow> SerialPort \<Rightarrow> read_outcome list \<Rightarrow> (int \<times> byte list \<times> read_outcome list) result option" where
  "SerialPort_Readn buf off len p dev =
     (if sp_status p \<noteq> MCC_SP_EOPEN then Some (Inr (-1, buf, dev)) else Readn_loop buf off len 0 len p dev)"

text \<open>\<open>Write\<close>: the bytes that go to the line, none when the port is not open; \<open>rc\<close> is what \<open>write\<close> returns.\<close>

definition SerialPort_Write :: "int \<Rightarrow> byte list \<Rightarrow> SerialPort \<Rightarrow> int \<times> byte list" where
  "SerialPort_Write rc bs p = (if sp_status p \<noteq> MCC_SP_EOPEN then (-1, []) else (rc, bs))"

section \<open>Reading in pieces\<close>

text \<open>A line that works: every chunk has bytes.  \<open>line\<close> are the bytes it still delivers.\<close>

fun line :: "read_outcome list \<Rightarrow> byte list" where
  "line [] = []"
| "line (Data bs # ds) = bs @ line ds"
| "line (Fail # ds) = line ds"

definition line_ok :: "read_outcome list \<Rightarrow> bool" where
  "line_ok dev \<longleftrightarrow> (\<forall>d \<in> set dev. \<exists>bs. d = Data bs \<and> bs \<noteq> [])"

lemma os_read_ok:
  assumes "line_ok dev" and "0 < n" and "line dev \<noteq> []"
  shows "\<exists>k dev'. os_read n dev = Some (int k, take k (line dev), dev') \<and> 0 < k \<and> k \<le> n \<and> k \<le> length (line dev) \<and>
    line_ok dev' \<and> line dev' = drop k (line dev)"
proof (cases dev)
  case (Cons d ds)
  then obtain bs where d: "d = Data bs" and bs: "bs \<noteq> []" and ds: "line_ok ds"
    using assms(1) by (auto simp: line_ok_def)
  let ?k = "min n (length bs)"
  have "os_read n dev = Some (int ?k, take ?k (line dev), if length bs \<le> n then ds else Data (drop n bs) # ds)"
    using Cons d by (simp add: min.commute) (metis min.commute take_all_iff le_cases min_def)
  moreover have "line (if length bs \<le> n then ds else Data (drop n bs) # ds) = drop ?k (line dev)"
    using Cons d by (simp add: min_def)
  moreover have "line_ok (if length bs \<le> n then ds else Data (drop n bs) # ds)"
    using ds by (auto simp: line_ok_def)
  moreover have "0 < ?k" and "?k \<le> n" and "?k \<le> length (line dev)"
    using assms(2) bs Cons d by auto
  ultimately show ?thesis
    by blast
qed (use assms in simp)

lemma blit_ok:
  "length pre = nat off \<Longrightarrow> 0 \<le> off \<Longrightarrow> length mid = length bs \<Longrightarrow> blit off bs (pre @ mid @ post) = Inr (pre @ bs @ post)"
  by (auto simp: blit_def)

lemma Readn_loop_ok:
  assumes "sp_status p = MCC_SP_EOPEN" and "line_ok dev" and "length mid \<le> length (line dev)"
    and "off + n_read = int (length pre)" and "ntotal = n_read + int (length mid)"
  shows "\<exists>dev'. Readn_loop (pre @ mid @ post) off ntotal n_read (int (length mid)) p dev =
      Some (Inr (ntotal, pre @ take (length mid) (line dev) @ post, dev')) \<and>
    line_ok dev' \<and> line dev' = drop (length mid) (line dev)"
  using assms
proof (induction "length mid" arbitrary: pre mid n_read dev rule: less_induct)
  case less
  show ?case
  proof (cases "mid = []")
    case True
    with less.prems show ?thesis
      by (subst Readn_loop.simps) auto
  next
    case False
    then have "0 < length mid" and "line dev \<noteq> []"
      using less.prems(3) by auto
    from os_read_ok [OF less.prems(2) this] obtain k dev1 where
      r: "os_read (length mid) dev = Some (int k, take k (line dev), dev1)"
      and k: "0 < k" "k \<le> length mid" "k \<le> length (line dev)" and ok: "line_ok dev1" and l: "line dev1 = drop k (line dev)"
      by blast
    let ?pre = "pre @ take k (line dev)" and ?mid = "drop k mid"
    have "blit (off + n_read) (take k (line dev)) (pre @ take k mid @ (?mid @ post)) = Inr (pre @ take k (line dev) @ ?mid @ post)"
      using k less.prems(4) by (intro blit_ok) auto
    then have "blit (off + n_read) (take k (line dev)) (pre @ mid @ post) = Inr (?pre @ ?mid @ post)"
      by (metis append.assoc append_take_drop_id)
    then have read: "SerialPort_Read (pre @ mid @ post) (off + n_read) (int (length mid)) p dev =
        Some (Inr (int k, ?pre @ ?mid @ post, dev1))"
      using less.prems(1) r by (simp add: SerialPort_Read_def)
    have "\<exists>dev'. Readn_loop (?pre @ ?mid @ post) off ntotal (n_read + int k) (int (length ?mid)) p dev1 =
        Some (Inr (ntotal, ?pre @ take (length ?mid) (line dev1) @ post, dev')) \<and>
      line_ok dev' \<and> line dev' = drop (length ?mid) (line dev1)"
      using less.prems k ok l False by (intro less.hyps) auto
    moreover have "take k (line dev) @ take (length mid - k) (drop k (line dev)) @ post = take (length mid) (line dev) @ post"
      using k by (metis append.assoc le_add_diff_inverse take_add)
    ultimately show ?thesis
      using False read k l less.prems(5)
      by (subst Readn_loop.simps) (simp add: of_nat_diff algebra_simps)
  qed
qed

lemma splice_id: "take a buf @ take n (drop a buf) @ drop (a + n) buf = buf"
  by (metis add.commute append_take_drop_id drop_drop)

lemma Readn_ok:
  assumes "sp_status p = MCC_SP_EOPEN" and "line_ok dev" and "n \<le> length (line dev)" and "off + n \<le> length buf"
  shows "\<exists>dev'. SerialPort_Readn buf (int off) (int n) p dev =
      Some (Inr (int n, take off buf @ take n (line dev) @ drop (off + n) buf, dev')) \<and>
    line_ok dev' \<and> line dev' = drop n (line dev)"
proof -
  have "length (take n (drop off buf)) = n" and "length (take off buf) = off"
    using assms(4) by auto
  then show ?thesis
    using Readn_loop_ok [of p dev "take n (drop off buf)" "int off" 0 "take off buf" "int n" "drop (off + n) buf"] assms
    by (simp add: SerialPort_Readn_def splice_id)
qed

text \<open>\<open>Readn\<close> on a port that is closed while it reads: \<open>Read\<close> returns minus one, and every round makes what is left longer.  It
  goes on until the counters of the source overflow; with unbounded integers it never returns.\<close>

lemma Readn_loop_closed:
  assumes "Readn_loop buf off ntotal n_read left p dev = Some r" and "sp_status p \<noteq> MCC_SP_EOPEN"
  shows "left \<le> 0 \<or> ntotal < n_read + left"
proof -
  let ?P = "\<lambda>(buf :: byte list) (off :: int) ntotal n_read left p (dev :: read_outcome list) (r :: (int \<times> byte list \<times> read_outcome list) result).
    sp_status p \<noteq> MCC_SP_EOPEN \<longrightarrow> left \<le> 0 \<or> ntotal < n_read + left"
  have "?P buf off ntotal n_read left p dev r"
  proof (rule Readn_loop.raw_induct [where P = ?P, OF _ assms(1)])
    fix loop buf off ntotal n_read left p dev r
    assume ih: "\<And>buf off ntotal n_read left p dev r. loop buf off ntotal n_read left p dev = Some r \<Longrightarrow> ?P buf off ntotal n_read left p dev r"
      and round: "(if 0 < left then case SerialPort_Read buf (off + n_read) left p dev of None \<Rightarrow> None | Some (Inl e) \<Rightarrow> Some (Inl e)
          | Some (Inr (n, buf, dev)) \<Rightarrow> loop buf off ntotal (n_read + n) (ntotal - (n_read + n)) p dev
        else Some (Inr (ntotal, buf, dev))) = Some r"
    show "?P buf off ntotal n_read left p dev r"
    proof (intro impI)
      assume closed: "sp_status p \<noteq> MCC_SP_EOPEN"
      show "left \<le> 0 \<or> ntotal < n_read + left"
      proof (cases "left > 0")
        case True
        then have "loop buf off ntotal (n_read - 1) (ntotal - (n_read - 1)) p dev = Some r"
          using round closed by (simp add: SerialPort_Read_def)
        from ih [OF this] show ?thesis
          using True closed by linarith
      qed simp
    qed
  qed
  then show ?thesis
    using assms(2) by simp
qed

theorem Readn_closed_never_returns:
  assumes "sp_status p \<noteq> MCC_SP_EOPEN" and "0 < left" and "n_read + left = ntotal"
  shows "Readn_loop buf off ntotal n_read left p dev = None"
  using Readn_loop_closed [of buf off ntotal n_read left p dev] assms
  by (cases "Readn_loop buf off ntotal n_read left p dev") auto

section \<open>The life cycle\<close>

text \<open>
  The thread that opens and closes the port is between two calls, or waits in \<open>Join\<close>.  The receive thread is at its test, about
  to put the descriptor into the set, inside \<open>select\<close>, about to look for the descriptor in the set, or calls the listeners.
  \<open>FD_SET\<close> and \<open>FD_ISSET\<close> with the descriptor -1 shift by a negative number: what follows is undefined.
\<close>

datatype owner_place = NoCall | InJoin

datatype rx_place = RxNone | RxTest | RxSet | RxSelect | RxIsset | RxListen "rx_event list" | RxUndefined | RxEnded

record port_system =
  ps_port :: SerialPort
  ps_owner :: owner_place
  ps_rx :: rx_place

definition port_start :: port_system where
  "port_start = \<lparr>ps_port = SerialPort_new, ps_owner = NoCall, ps_rx = RxNone\<rparr>"

definition after_open :: "SerialPort \<Rightarrow> port_system \<Rightarrow> port_system" where
  "after_open p s = s\<lparr>ps_port := p, ps_rx := if sp_status p = sp_status (ps_port s) then ps_rx s else RxTest\<rparr>"

inductive sp_step :: "port_system \<Rightarrow> port_system \<Rightarrow> bool" where
  open_port: "ps_owner s = NoCall \<Longrightarrow> SerialPort_Open env file b d st q (ps_port s) = Inr (rc, p, calls) \<Longrightarrow> sp_step s (after_open p s)"
| reopen_port: "ps_owner s = NoCall \<Longrightarrow> SerialPort_Reopen env (ps_port s) = Inr (rc, p, calls) \<Longrightarrow> sp_step s (after_open p s)"
| listen_port: "ps_owner s = NoCall \<Longrightarrow> RegisterListener l (ps_port s) = (rc, p) \<Longrightarrow> sp_step s (s\<lparr>ps_port := p\<rparr>)"
| close_port: "ps_owner s = NoCall \<Longrightarrow> SerialPort_Close_section c (ps_port s) = (rc, joins, p, calls) \<Longrightarrow>
    sp_step s (s\<lparr>ps_port := p, ps_owner := if joins then InJoin else NoCall\<rparr>)"
| join_returns: "ps_owner s = InJoin \<Longrightarrow> ps_rx s = RxEnded \<Longrightarrow>
    sp_step s \<lparr>ps_port = SerialPort_Close_end (ps_port s), ps_owner = NoCall, ps_rx = RxNone\<rparr>"
| rx_test: "ps_rx s = RxTest \<Longrightarrow> rx_stop (ps_port s) = (stop, p) \<Longrightarrow> sp_step s (s\<lparr>ps_port := p, ps_rx := if stop then RxEnded else RxSet\<rparr>)"
| rx_set: "ps_rx s = RxSet \<Longrightarrow> sp_step s (s\<lparr>ps_rx := if sp_fd (ps_port s) < 0 then RxUndefined else RxSelect\<rparr>)"
| rx_select: "ps_rx s = RxSelect \<Longrightarrow> sp_step s (s\<lparr>ps_rx := if (rc :: int) = 0 then RxTest else RxIsset\<rparr>)"
| rx_isset: "ps_rx s = RxIsset \<Longrightarrow>
    sp_step s (s\<lparr>ps_rx := if sp_fd (ps_port s) < 0 then RxUndefined
                          else RxListen (map (if isset then on_recv else on_error) (sp_listeners (ps_port s)))\<rparr>)"
| rx_listen: "ps_rx s = RxListen evs \<Longrightarrow> sp_step s (s\<lparr>ps_rx := RxTest\<rparr>)"

inductive_cases sp_stepE: "sp_step s s'"

inductive sp_reach :: "port_system \<Rightarrow> bool" where
  sp_start: "sp_reach port_start"
| sp_next: "sp_reach s \<Longrightarrow> sp_step s s' \<Longrightarrow> sp_reach s'"

text \<open>Run alone, the thread's places make up \<open>SerialPortRxThread_turn\<close>, and the places of both make up \<open>SerialPort_Close\<close>.\<close>

lemma turn_steps:
  assumes "SerialPortRxThread_turn rc isset p = (stop, evs, p')" and "0 \<le> sp_fd p"
  shows "sp_step\<^sup>*\<^sup>* \<lparr>ps_port = p, ps_owner = w, ps_rx = RxTest\<rparr> \<lparr>ps_port = p', ps_owner = w, ps_rx = if stop then RxEnded else RxTest\<rparr>"
proof -
  let ?s = "\<lambda>q r. \<lparr>ps_port = q, ps_owner = w, ps_rx = r\<rparr>"
  have test: "sp_step (?s p RxTest) (?s (snd (rx_stop p)) (if fst (rx_stop p) then RxEnded else RxSet))"
    using sp_step.rx_test [of "?s p RxTest" "fst (rx_stop p)" "snd (rx_stop p)"] by simp
  show ?thesis
  proof (cases "fst (rx_stop p)")
    case True
    then show ?thesis
      using assms(1) test by (auto simp: SerialPortRxThread_turn_def split_beta)
  next
    case False
    then have stay: "snd (rx_stop p) = p"
      by (auto simp: rx_stop_def split: if_splits)
    have s1: "sp_step (?s p RxTest) (?s p RxSet)" and s2: "sp_step (?s p RxSet) (?s p RxSelect)"
      using test False stay sp_step.rx_set [of "?s p RxSet"] assms(2) by auto
    have s3: "sp_step (?s p RxSelect) (?s p (if rc = 0 then RxTest else RxIsset))"
      using sp_step.rx_select [of "?s p RxSelect" rc] by simp
    have s4: "sp_step (?s p RxIsset) (?s p (RxListen (map (if isset then on_recv else on_error) (sp_listeners p))))"
      using sp_step.rx_isset [of "?s p RxIsset" isset] assms(2) by simp
    have s5: "sp_step (?s p (RxListen es)) (?s p RxTest)" for es
      using sp_step.rx_listen [of "?s p (RxListen es)" es] by simp
    have "p' = p" and "\<not> stop"
      using assms(1) False stay by (auto simp: SerialPortRxThread_turn_def split_beta split: if_splits)
    moreover have "sp_step\<^sup>*\<^sup>* (?s p RxTest) (?s p RxTest)"
      using s1 s2 s3 s4 s5 by blast
    ultimately show ?thesis
      by simp
  qed
qed

lemma Close_steps:
  assumes "sp_status p = MCC_SP_EOPEN" and "SerialPort_Close 0 p = (rc, p', calls)"
  shows "sp_step\<^sup>*\<^sup>* \<lparr>ps_port = p, ps_owner = NoCall, ps_rx = RxTest\<rparr> \<lparr>ps_port = p', ps_owner = NoCall, ps_rx = RxNone\<rparr>"
proof -
  let ?q = "p\<lparr>sp_fd := -1, sp_status := MCC_SP_ECLOSING\<rparr>"
  let ?a = "\<lparr>ps_port = p, ps_owner = NoCall, ps_rx = RxTest\<rparr>" and ?b = "\<lparr>ps_port = ?q, ps_owner = InJoin, ps_rx = RxTest\<rparr>"
  let ?c = "\<lparr>ps_port = ?q\<lparr>sp_status := MCC_SP_ECLOSED\<rparr>, ps_owner = InJoin, ps_rx = RxEnded\<rparr>"
  have "sp_step ?a ?b"
    using sp_step.close_port [of ?a 0 0 True ?q "[OsClose (sp_fd p)]"] assms(1) by (simp add: SerialPort_Close_section_def)
  moreover have "sp_step ?b ?c"
    using sp_step.rx_test [of ?b True "?q\<lparr>sp_status := MCC_SP_ECLOSED\<rparr>"] by (simp add: rx_stop_def)
  moreover have "sp_step ?c \<lparr>ps_port = p', ps_owner = NoCall, ps_rx = RxNone\<rparr>"
    using sp_step.join_returns [of ?c] assms by (auto simp: SerialPort_Close_def SerialPort_Close_section_def rx_stop_def)
  ultimately show ?thesis
    by (meson converse_rtranclp_into_rtranclp rtranclp.rtrancl_refl)
qed









section \<open>Claims\<close>

text \<open>C27. However the line delivers its bytes, \<open>Readn\<close> returns once it has the number asked for, has put exactly the next
  bytes of the line, in order, at the place it was given, has changed nothing else of the buffer, and leaves the rest of the
  line to the next read.\<close>

theorem Readn_reassembles:
  assumes "sp_status p = MCC_SP_EOPEN" and "line_ok dev" and "n \<le> length (line dev)" and "off + n \<le> length buf"
  shows "\<exists>dev'. SerialPort_Readn buf (int off) (int n) p dev =
      Some (Inr (int n, take off buf @ take n (line dev) @ drop (off + n) buf, dev')) \<and>
    line_ok dev' \<and> line dev' = drop n (line dev)"
  by (rule Readn_ok [OF assms])

theorem Readn_reassembles_witness:
  "\<exists>dev'. SerialPort_Readn [9, 9, 9, 9] 1 3 (SerialPort_new\<lparr>sp_status := MCC_SP_EOPEN\<rparr>) [Data [1], Data [2, 3, 4]] =
     Some (Inr (3, [9, 1, 2, 3], dev')) \<and> line dev' = [4]"
  using Readn_reassembles [of "SerialPort_new\<lparr>sp_status := MCC_SP_EOPEN\<rparr>" "[Data [1], Data [2, 3, 4]]" 3 1 "[9, 9, 9, 9]"]
  by (simp add: line_ok_def numeral_3_eq_3) auto

text \<open>A failed read is counted as minus one byte: after one failure \<open>Readn\<close> writes one byte in front of the place
  it was given and takes one byte more from the line than it was asked for, and still returns the number asked for.\<close>

theorem Readn_failure_shifts:
  assumes "sp_status p = MCC_SP_EOPEN" and "line_ok dev" and "0 < n" and "Suc n \<le> length (line dev)"
    and "0 < off" and "off + n \<le> length buf"
  shows "\<exists>dev'. SerialPort_Readn buf (int off) (int n) p (Fail # dev) =
      Some (Inr (int n, take (off - 1) buf @ take (Suc n) (line dev) @ drop (off + n) buf, dev')) \<and>
    line dev' = drop (Suc n) (line dev)"
proof -
  let ?mid = "take (Suc n) (drop (off - 1) buf)"
  have len: "length ?mid = Suc n" "length (take (off - 1) buf) = off - 1"
    using assms by auto
  have buf: "take (off - 1) buf @ ?mid @ drop (off + n) buf = buf"
    using splice_id [of "off - 1" buf "Suc n"] assms(5) by simp
  have "SerialPort_Read buf (int off + 0) (int n) p (Fail # dev) = Some (Inr (-1, buf, dev))"
    using assms(1) by (simp add: SerialPort_Read_def blit_def)
  then have "SerialPort_Readn buf (int off) (int n) p (Fail # dev) = Readn_loop buf (int off) (int n) (-1) (int (Suc n)) p dev"
    using assms(1,3) by (simp add: SerialPort_Readn_def Readn_loop.simps [of _ _ _ 0] add.commute)
  then show ?thesis
    using Readn_loop_ok [of p dev ?mid "int off" "-1" "take (off - 1) buf" "int n" "drop (off + n) buf"] assms len buf
    by (auto simp: of_nat_diff)
qed

theorem Readn_failure_shifts_witness:
  "\<exists>dev'. SerialPort_Readn [255, 9, 9] 1 2 (SerialPort_new\<lparr>sp_status := MCC_SP_EOPEN\<rparr>) [Fail, Data [1, 2, 3]] =
     Some (Inr (2, [1, 2, 3], dev')) \<and> line dev' = []"
  using Readn_failure_shifts [of "SerialPort_new\<lparr>sp_status := MCC_SP_EOPEN\<rparr>" "[Data [1, 2, 3]]" 2 1 "[255, 9, 9]"]
  by (auto simp: line_ok_def numeral_3_eq_3 numeral_2_eq_2)


text \<open>The port is opened, the receive thread has passed its test, and \<open>Close\<close> waits for it.\<close>

definition demo_open_env :: open_env where
  "demo_open_env = \<lparr>oe_open = 4, oe_get = Some \<lparr>c_iflag = 0, c_oflag = 0, c_cflag = 0, c_lflag = 0, c_cc = []\<rparr>, oe_set = 0, oe_flush = 0, oe_thread = 0\<rparr>"

definition demo_closing :: "rx_place \<Rightarrow> port_system" where
  "demo_closing r =
     \<lparr>ps_port = SerialPort_new\<lparr>sp_status := MCC_SP_ECLOSING, sp_rxthread := True, sp_file := ''p''\<rparr>, ps_owner = InJoin, ps_rx = r\<rparr>"

lemma demo_closing_reached: "sp_reach (demo_closing RxTest)" "sp_reach (demo_closing RxSet)" "sp_reach (demo_closing RxSelect)"
proof -
  let ?p = "SerialPort_new\<lparr>sp_fd := 4, sp_status := MCC_SP_EOPEN, sp_rxthread := True, sp_file := ''p''\<rparr>"
  let ?s = "\<lambda>r. \<lparr>ps_port = ?p, ps_owner = NoCall, ps_rx = r\<rparr>"
  have "\<exists>calls. SerialPort_Open demo_open_env ''p'' 9600 8 1 110 SerialPort_new = Inr (0, ?p, calls)"
    by (simp add: SerialPort_Open_def SerialPort_Setup_def SerialPort_new_def demo_open_env_def Let_def)
  then have test: "sp_reach (?s RxTest)"
    using sp_next [OF sp_start sp_step.open_port] by (fastforce simp: port_start_def after_open_def SerialPort_new_def)
  have set: "sp_reach (?s RxSet)"
    using sp_next [OF test sp_step.rx_test [of "?s RxTest" False ?p]] by (simp add: rx_stop_def)
  have sel: "sp_reach (?s RxSelect)"
    using sp_next [OF set sp_step.rx_set [of "?s RxSet"]] by simp
  have "sp_step (?s r) (demo_closing r)" for r
    using sp_step.close_port [of "?s r" 0 0 True "?p\<lparr>sp_fd := -1, sp_status := MCC_SP_ECLOSING\<rparr>" "[OsClose 4]"]
    by (simp add: SerialPort_Close_section_def demo_closing_def SerialPort_new_def)
  then show "sp_reach (demo_closing RxTest)" "sp_reach (demo_closing RxSet)" "sp_reach (demo_closing RxSelect)"
    using sp_next test set sel by blast+
qed


text \<open>The other case is reached too: closed between its test and \<open>FD_SET\<close>, the receive thread puts -1 into the set, and \<open>Join\<close> waits
  for a thread whose behaviour is undefined.\<close>

theorem closed_before_select:
  "\<exists>s. sp_reach s \<and> ps_owner s = InJoin \<and> ps_rx s = RxUndefined"
  using sp_next [OF demo_closing_reached(2) sp_step.rx_set] by (force simp: demo_closing_def SerialPort_new_def)

text \<open>The line is set up as asked for speed, data bits and stop bits, whatever the settings were before; but the parity
  argument is the letter of the configuration (\<open>'n'\<close>, \<open>'o'\<close>, \<open>'e'\<close>), which is none of the codes 1 and 2 that \<open>Setup\<close> tests for, so
  that parity is always off.\<close>

theorem Setup_line_settings:
  assumes "q \<in> {110, 111, 101}"
  shows "c_cflag (Setup_attr b d s q t) AND CBAUD = serial_baudrate_to_flag b AND CBAUD \<and>
    c_cflag (Setup_attr b d s q t) AND CSIZE = databits_flag d \<and>
    (c_cflag (Setup_attr b d s q t) AND CSTOPB \<noteq> 0 \<longleftrightarrow> s = 2) \<and>
    c_cflag (Setup_attr b d s q t) AND PARENB = 0"
proof -
  have c: "c_cflag (Setup_attr b d s q t) =
      set_stopbits s (((((c_cflag t AND NOT CBAUD) OR (CLOCAL OR CREAD OR serial_baudrate_to_flag b)) AND NOT CSIZE) OR
        databits_flag d) AND NOT PARENB)"
    using assms by (auto simp: Setup_attr_def set_parity_def Let_def)
  show ?thesis
    unfolding c by (auto simp: set_stopbits_def databits_flag_def cflag_defs bit.conj_disj_distrib bit.conj_disj_distrib2 and.assoc)
qed

theorem Setup_line_settings_witness:
  "c_cflag (Setup_attr 9600 7 2 111 \<lparr>c_iflag = 0, c_oflag = 0, c_cflag = 0xffff, c_lflag = 0, c_cc = []\<rparr>) AND CSIZE = 0x20 \<and>
   c_cflag (Setup_attr 9600 7 2 111 \<lparr>c_iflag = 0, c_oflag = 0, c_cflag = 0xffff, c_lflag = 0, c_cc = []\<rparr>) AND PARENB = 0"
  using Setup_line_settings [of 111 9600 7 2 "\<lparr>c_iflag = 0, c_oflag = 0, c_cflag = 0xffff, c_lflag = 0, c_cc = []\<rparr>"]
  by (simp add: databits_flag_def)

end
