(* ===== verification/Util_String.thy ===== *)
theory Util_String
  imports Prelude
begin

text \<open>
  \<open>util.cpp\<close>: \<open>StringUtil::split\<close> and \<open>StringUtil::atoi\<close>, which the keyboards use to read their
  serial setup.  \<open>str_find\<close> is \<open>std::string::find\<close>: the first position from \<open>pos\<close> on at which the
  pattern occurs, \<open>None\<close> for \<open>npos\<close>.  The loop of \<open>split\<close> does not move on an empty pattern, so it is
  a partial function: not returning is \<open>None\<close>.
\<close>

section \<open>split\<close>

definition str_find :: "string \<Rightarrow> string \<Rightarrow> nat \<Rightarrow> nat option" where
  "str_find s pat pos =
     find (\<lambda>i. take (length pat) (drop i s) = pat) [pos ..< Suc (length s)]"

partial_function (option) split_loop :: "string \<Rightarrow> string \<Rightarrow> nat \<Rightarrow> string list \<Rightarrow> string list option" where
  "split_loop srcStr splitStr oldPos destVec =
     (case str_find srcStr splitStr oldPos of
        Some newPos \<Rightarrow>
          split_loop srcStr splitStr (newPos + length splitStr)
            (destVec @ [take (newPos - oldPos) (drop oldPos srcStr)])
      | None \<Rightarrow>
          if oldPos \<le> length srcStr then Some (destVec @ [drop oldPos srcStr]) else Some destVec)"

declare split_loop.simps [code]

text \<open>\<open>split\<close> returns 0 and appends to the vector it is given.\<close>

definition StringUtil_split :: "string \<Rightarrow> string \<Rightarrow> string list \<Rightarrow> (int \<times> string list) option" where
  "StringUtil_split srcStr splitStr destVec =
     (if length srcStr = 0 then Some (0, destVec)
      else map_option (Pair 0) (split_loop srcStr splitStr 0 destVec))"

section \<open>atoi\<close>

fun atoi_loop :: "int \<Rightarrow> string \<Rightarrow> int" where
  "atoi_loop res [] = res"
| "atoi_loop res (c # cs) =
     (if \<not> is_digit c then 0 else atoi_loop (wrap32 (wrap32 (res * 10) + digit_val c)) cs)"

definition StringUtil_atoi :: "string \<Rightarrow> int" where
  "StringUtil_atoi str = atoi_loop 0 str"

section \<open>The fields of a text\<close>

fun fields :: "char \<Rightarrow> string \<Rightarrow> string list" where
  "fields c [] = [[]]"
| "fields c (x # xs) =
     (if x = c then [] # fields c xs else (x # hd (fields c xs)) # tl (fields c xs))"

fun join_fields :: "char \<Rightarrow> string list \<Rightarrow> string" where
  "join_fields c [] = []"
| "join_fields c [f] = f"
| "join_fields c (f # g # fs) = f @ c # join_fields c (g # fs)"

lemma fields_nonempty [simp]: "fields c s \<noteq> []"
  by (cases s) auto

lemma join_cons: "fs \<noteq> [] \<Longrightarrow> join_fields c (f # fs) = f @ c # join_fields c fs"
  by (cases fs) auto

lemma join_fields_fields: "join_fields c (fields c s) = s"
proof (induction s)
  case (Cons x xs)
  obtain f fs where f: "fields c xs = f # fs"
    by (cases "fields c xs") auto
  with Cons show ?case
    by (cases fs) auto
qed simp

lemma fields_clean: "f \<in> set (fields c s) \<Longrightarrow> c \<notin> set f"
proof (induction s arbitrary: f)
  case (Cons x xs)
  obtain g gs where "fields c xs = g # gs"
    by (cases "fields c xs") auto
  with Cons show ?case
    by (auto split: if_splits)
qed simp

lemma fields_append: "c \<notin> set f \<Longrightarrow> fields c (f @ c # rest) = f # fields c rest"
  by (induction f) auto

lemma fields_single: "c \<notin> set f \<Longrightarrow> fields c f = [f]"
  by (induction f) auto

text \<open>Splitting is inverse to joining fields that do not contain the separator.\<close>

lemma fields_join: "fs \<noteq> [] \<Longrightarrow> \<forall>f \<in> set fs. c \<notin> set f \<Longrightarrow> fields c (join_fields c fs) = fs"
  by (induction c fs rule: join_fields.induct) (auto simp: fields_append fields_single)

section \<open>The loop computes the fields\<close>

lemma find_upt:
  "a \<le> k \<Longrightarrow> k < b \<Longrightarrow> P k \<Longrightarrow> (\<And>i. a \<le> i \<Longrightarrow> i < k \<Longrightarrow> \<not> P i) \<Longrightarrow> find P [a ..< b] = Some k"
proof (induction "k - a" arbitrary: a)
  case (Suc n)
  then have "find P [Suc a ..< b] = Some k"
    by (intro Suc.hyps) auto
  moreover have "a < k" and "\<not> P a"
    using Suc.hyps Suc.prems by auto
  ultimately show ?case
    using Suc.prems by (simp add: upt_conv_Cons)
qed (simp add: upt_conv_Cons)

lemma take_one_drop: "take (Suc 0) (drop i s) = [c] \<longleftrightarrow> i < length s \<and> s ! i = c"
  by (cases "i < length s") (auto simp: Cons_nth_drop_Suc [symmetric])

lemma str_find_next:
  assumes "c \<notin> set f" and "old = length pre"
  shows "str_find (pre @ f @ c # rest) [c] old = Some (old + length f)"
proof -
  let ?s = "pre @ f @ c # rest"
  have "\<not> take (length [c]) (drop i ?s) = [c]" if "old \<le> i" "i < old + length f" for i
  proof -
    have "i - old < length f" and "?s ! i = f ! (i - old)"
      using that assms by (auto simp: nth_append)
    then have "?s ! i \<noteq> c"
      using assms(1) by (metis nth_mem)
    then show ?thesis
      using take_one_drop [of i ?s c] by (simp del: drop_append take_append)
  qed
  moreover have "take (length [c]) (drop (old + length f) ?s) = [c]"
    using assms by simp
  ultimately show ?thesis
    unfolding str_find_def using assms by (intro find_upt) auto
qed

lemma str_find_last:
  assumes "c \<notin> set f" and "old = length pre"
  shows "str_find (pre @ f) [c] old = None"
proof -
  have "take 1 (drop i (pre @ f)) \<noteq> [c]" if "old \<le> i" for i
  proof
    assume "take 1 (drop i (pre @ f)) = [c]"
    then have "c \<in> set (drop i (pre @ f))"
      by (metis in_set_takeD list.set_intros(1))
    with that assms show False
      by (auto dest: in_set_dropD)
  qed
  then show ?thesis
    by (auto simp: str_find_def find_None_iff_all)
qed

lemma split_loop_fields:
  "old = length pre \<Longrightarrow> split_loop (pre @ s) [c] old acc = Some (acc @ fields c s)"
proof (induction "length s" arbitrary: s pre old acc rule: less_induct)
  case less
  show ?case
  proof (cases "c \<in> set s")
    case False
    then show ?thesis
      using less.prems by (subst split_loop.simps) (simp add: str_find_last fields_single)
  next
    case True
    then obtain f rest where s: "s = f @ c # rest" and f: "c \<notin> set f"
      by (metis split_list_first)
    have "split_loop ((pre @ f @ [c]) @ rest) [c] (old + length f + 1) (acc @ [f]) = Some ((acc @ [f]) @ fields c rest)"
      using s less.prems by (intro less.hyps) auto
    then show ?thesis
      using s f less.prems by (subst split_loop.simps) (simp add: str_find_next fields_append)
  qed
qed

lemma split_fields:
  "StringUtil_split s [c] dest = Some (0, if s = [] then dest else dest @ fields c s)"
  using split_loop_fields [of 0 "[]" s c dest] by (simp add: StringUtil_split_def)

lemma atoi_loop_scan:
  "(\<And>c. c \<in> set s \<Longrightarrow> is_digit c) \<Longrightarrow> atoi_loop n s = fst (scan_digits n s)"
  by (induction s arbitrary: n) auto

lemma atoi_nat_digits: "int n < 2 ^ 31 \<Longrightarrow> StringUtil_atoi (nat_digits n) = int n"
  by (simp add: StringUtil_atoi_def atoi_loop_scan nat_digits_all_digits scan_nat_digits)

text \<open>An empty pattern never ends the loop.\<close>

lemma str_find_empty: "old \<le> length s \<Longrightarrow> str_find s [] old = Some old"
  unfolding str_find_def by (rule find_upt) auto

lemma split_loop_empty_diverges:
  assumes "split_loop s pat old acc = Some r"
  shows "pat = [] \<longrightarrow> \<not> old \<le> length s"
proof (rule split_loop.raw_induct [OF _ assms])
  fix loop s pat old acc r
  assume IH: "\<And>s pat old acc r. loop s pat old acc = Some r \<Longrightarrow> pat = [] \<longrightarrow> \<not> old \<le> length s"
    and body: "(case str_find s pat old of
        None \<Rightarrow> if old \<le> length s then Some (acc @ [drop old s]) else Some acc
      | Some newPos \<Rightarrow> loop s pat (newPos + length pat) (acc @ [take (newPos - old) (drop old s)])) = Some r"
  show "pat = [] \<longrightarrow> \<not> old \<le> length s"
  proof (intro impI notI)
    assume "pat = []" and "old \<le> length s"
    with body have "loop s [] old (acc @ [[]]) = Some r"
      by (simp add: str_find_empty)
    with IH \<open>old \<le> length s\<close> show False
      by blast
  qed
qed

lemma split_loop_empty: "old \<le> length s \<Longrightarrow> split_loop s [] old acc = None"
  using split_loop_empty_diverges [of s "[]" old acc] by (cases "split_loop s [] old acc") auto

section \<open>Claims\<close>

text \<open>With a one-character separator \<open>split\<close> returns, and the pieces it appends are the fields of the text: none
  contains the separator, and joined by it they give the text back.  With an empty separator it never returns.\<close>

theorem split_yields_fields:
  assumes "s \<noteq> []"
  shows "(\<exists>fs. StringUtil_split s [c] dest = Some (0, dest @ fs) \<and> join_fields c fs = s \<and> (\<forall>f \<in> set fs. c \<notin> set f)) \<and>
    StringUtil_split s [] dest = None"
proof
  show "\<exists>fs. StringUtil_split s [c] dest = Some (0, dest @ fs) \<and> join_fields c fs = s \<and> (\<forall>f \<in> set fs. c \<notin> set f)"
    using assms by (intro exI [of _ "fields c s"]) (auto simp: split_fields join_fields_fields dest: fields_clean)
  show "StringUtil_split s [] dest = None"
    using assms by (simp add: StringUtil_split_def split_loop_empty)
qed

theorem split_yields_fields_witness:
  "StringUtil_split ''9600,8,1,n'' '','' [] = Some (0, [''9600'', ''8'', ''1'', ''n'']) \<and>
   StringUtil_split ''9600,8,1,n'' [] [] = None"
proof
  show "StringUtil_split ''9600,8,1,n'' '','' [] = Some (0, [''9600'', ''8'', ''1'', ''n''])"
    by (simp add: split_fields)
  show "StringUtil_split ''9600,8,1,n'' [] [] = None"
    using split_yields_fields [of "''9600,8,1,n''" "CHR '',''" "[]"] by simp
qed

end
