(* ===== verification/Thread_If.thy ===== *)
theory Thread_If
  imports Prelude
begin

text \<open>
  \<open>threadif.cpp\<close>: the thread object that the managers, the agents and the query threads derive from.
  \<open>th_alive\<close> records whether the POSIX thread runs; \<open>rc\<close> arguments are the results of the
  \<open>pthread\<close> calls.  \<open>Stop\<close> waits until \<open>thread()\<close>, which polls \<open>isStop\<close>, has returned.
\<close>

datatype thread_state = CREATED | INITIALIZED | RUNNING | STOPED

record ThreadIf =
  th_mbStop :: bool
  th_state :: thread_state
  th_alive :: bool

definition ThreadIf_new :: ThreadIf where
  "ThreadIf_new = \<lparr>th_mbStop = False, th_state = CREATED, th_alive = False\<rparr>"

text \<open>The end of \<open>thread_shell\<close>: \<open>thread()\<close> has returned.\<close>

definition thread_shell_exit :: "ThreadIf \<Rightarrow> ThreadIf" where
  "thread_shell_exit t = t\<lparr>th_state := STOPED, th_alive := False\<rparr>"

definition ThreadIf_Start :: "int \<Rightarrow> ThreadIf \<Rightarrow> int \<times> ThreadIf" where
  "ThreadIf_Start rc t =
     (if th_state t = RUNNING then (1, t)
      else if rc \<noteq> 0 then (rc, t)
      else (0, t\<lparr>th_state := RUNNING, th_alive := True\<rparr>))"

definition ThreadIf_Join :: "int \<Rightarrow> ThreadIf \<Rightarrow> int \<times> ThreadIf" where
  "ThreadIf_Join rc t = (rc, if rc = 0 then t\<lparr>th_mbStop := False\<rparr> else t)"

definition ThreadIf_Stop :: "int \<Rightarrow> ThreadIf \<Rightarrow> ThreadIf" where
  "ThreadIf_Stop rc t =
     (if th_state t \<noteq> RUNNING then t
      else snd (ThreadIf_Join rc (thread_shell_exit (t\<lparr>th_mbStop := True\<rparr>))))"

definition ThreadIf_ShutdownNonblock :: "ThreadIf \<Rightarrow> ThreadIf" where
  "ThreadIf_ShutdownNonblock t = (if th_state t \<noteq> RUNNING then t else t\<lparr>th_alive := False\<rparr>)"

definition ThreadIf_Shutdown :: "ThreadIf \<Rightarrow> int \<times> ThreadIf" where
  "ThreadIf_Shutdown t =
     (if th_state t \<noteq> RUNNING then (0, t) else (0, t\<lparr>th_alive := False, th_state := STOPED\<rparr>))"

section \<open>The life cycle\<close>

definition thread_ok :: "ThreadIf \<Rightarrow> bool" where
  "thread_ok t \<longleftrightarrow> (th_state t = RUNNING \<longleftrightarrow> th_alive t)"

lemma thread_ok_steps:
  "thread_ok ThreadIf_new"
  "thread_ok t \<Longrightarrow> thread_ok (snd (ThreadIf_Start rc t))"
  "thread_ok t \<Longrightarrow> thread_ok (ThreadIf_Stop rc t)"
  "thread_ok t \<Longrightarrow> thread_ok (snd (ThreadIf_Shutdown t))"
  by (auto simp: thread_ok_def ThreadIf_new_def ThreadIf_Start_def ThreadIf_Stop_def ThreadIf_Join_def
      ThreadIf_Shutdown_def thread_shell_exit_def)

text \<open>A stopped thread can be started again, and then does not stop at once.\<close>

lemma restart:
  assumes "th_state t = RUNNING"
  shows "\<exists>t'. ThreadIf_Start 0 (ThreadIf_Stop 0 t) = (0, t') \<and> th_alive t' \<and> \<not> th_mbStop t'"
  using assms by (simp add: ThreadIf_Start_def ThreadIf_Stop_def ThreadIf_Join_def thread_shell_exit_def)

text \<open>A thread that was stopped with \<open>Stop\<close> or \<open>Shutdown\<close> can be started again; one that was cancelled with
  \<open>ShutdownNonblock\<close> cannot: its state stays \<open>RUNNING\<close>, so \<open>Start\<close> returns 1 and starts nothing.\<close>

theorem restart_after_stop:
  assumes "th_state t = RUNNING" and "\<not> th_mbStop t"
  shows "(\<exists>t'. ThreadIf_Start 0 (ThreadIf_Stop 0 t) = (0, t') \<and> th_alive t' \<and> \<not> th_mbStop t') \<and>
    (\<exists>t'. ThreadIf_Start 0 (snd (ThreadIf_Shutdown t)) = (0, t') \<and> th_alive t' \<and> \<not> th_mbStop t') \<and>
    (\<exists>t'. ThreadIf_Start 0 (ThreadIf_ShutdownNonblock t) = (1, t') \<and> \<not> th_alive t')"
  using assms restart [OF assms(1)] by (simp add: ThreadIf_Start_def ThreadIf_Shutdown_def ThreadIf_ShutdownNonblock_def)

theorem restart_after_stop_witness:
  "\<exists>t'. ThreadIf_Start 0 (ThreadIf_ShutdownNonblock \<lparr>th_mbStop = False, th_state = RUNNING, th_alive = True\<rparr>) = (1, t') \<and> \<not> th_alive t'"
  using restart_after_stop [of "\<lparr>th_mbStop = False, th_state = RUNNING, th_alive = True\<rparr>"] by simp

end
