(* ===== verification/Client_Packet.thy ===== *)
theory Client_Packet
  imports Keyboard_Message
begin

text \<open>
  \<open>testclient/mccclient.h\<close> and \<open>testclient/mccclient.cpp\<close>: the packet that the clients and the server
  exchange, its bytes in memory (nine 32-bit little-endian integers, no padding), and the client
  library that fills and sends it, with its receiving thread.  A field that the code leaves uninitialised keeps the value of the
  packet \<open>junk\<close>, the memory the structure is placed on; \<open>rc\<close> is what \<open>send\<close> returns.
\<close>

section \<open>The packet\<close>

record client_packet =
  cp_type :: int
  cp_matrix_id :: int
  cp_bind_kb :: int
  cp_cid :: int
  cp_mid :: int
  cp_ptz_type :: int
  cp_ptz_start :: int
  cp_lumid :: int
  cp_rdmid :: int

definition packet_fields :: "client_packet \<Rightarrow> int list" where
  "packet_fields p =
     [cp_type p, cp_matrix_id p, cp_bind_kb p, cp_cid p, cp_mid p, cp_ptz_type p, cp_ptz_start p, cp_lumid p, cp_rdmid p]"

text \<open>\<open>sizeof(client_packet)\<close>, and the bytes of an \<open>int\<close> and of the structure.\<close>

definition packet_size :: nat where
  "packet_size = 36"

definition int_bytes :: "int \<Rightarrow> byte list" where
  "int_bytes x = map (\<lambda>i. word_of_int (x div 256 ^ i)) [0, 1, 2, 3]"

definition bytes_int :: "byte list \<Rightarrow> int" where
  "bytes_int bs = wrap32 (uint (bs ! 0) + 256 * uint (bs ! 1) + 65536 * uint (bs ! 2) + 16777216 * uint (bs ! 3))"

definition packet_bytes :: "client_packet \<Rightarrow> byte list" where
  "packet_bytes p = concat (map int_bytes (packet_fields p))"

definition bytes_packet :: "byte list \<Rightarrow> client_packet" where
  "bytes_packet bs =
    (let f = (\<lambda>i. bytes_int (take 4 (drop (4 * i) bs))) in
     \<lparr>cp_type = f 0, cp_matrix_id = f 1, cp_bind_kb = f 2, cp_cid = f 3, cp_mid = f 4, cp_ptz_type = f 5,
      cp_ptz_start = f 6, cp_lumid = f 7, cp_rdmid = f 8\<rparr>)"

definition packet_ok :: "client_packet \<Rightarrow> bool" where
  "packet_ok p \<longleftrightarrow> list_all is_int32 (packet_fields p)"

lemma length_int_bytes [simp]: "length (int_bytes x) = 4"
  by (simp add: int_bytes_def)

lemma length_packet_bytes [simp]: "length (packet_bytes p) = packet_size"
  by (simp add: packet_bytes_def packet_fields_def packet_size_def)

lemma horner:
  "(y::int) = 256 * p + a \<Longrightarrow> p = 256 * q + b \<Longrightarrow> q = 256 * r + c \<Longrightarrow> a + 256 * b + 65536 * c + 16777216 * r = y"
  by simp

lemma byte_sum: "(x::int) mod 256 + 256 * (x div 256 mod 256) + 65536 * (x div 65536 mod 256) + 16777216 * (x div 16777216 mod 256) = x mod 4294967296"
proof -
  have step: "y mod (256 * m) = 256 * (y div 256 mod m) + y mod 256" if "0 < m" for y m :: int
    using that by (rule zmod_zmult2_eq [OF less_imp_le])
  show ?thesis
  proof (rule horner)
    show "x mod 4294967296 = 256 * (x div 256 mod 16777216) + x mod 256"
      using step [of 16777216 x] by simp
    show "x div 256 mod 16777216 = 256 * (x div 65536 mod 65536) + x div 256 mod 256"
      using step [of 65536 "x div 256"] by (simp add: zdiv_zmult2_eq [symmetric])
    show "x div 65536 mod 65536 = 256 * (x div 16777216 mod 256) + x div 65536 mod 256"
      using step [of 256 "x div 65536"] by (simp add: zdiv_zmult2_eq [symmetric])
  qed
qed

lemma bytes_int_bytes: "is_int32 x \<Longrightarrow> bytes_int (int_bytes x) = x"
proof -
  assume x: "is_int32 x"
  have "bytes_int (int_bytes x) = wrap32 (x mod 4294967296)"
    by (simp add: bytes_int_def int_bytes_def uint_word_of_int byte_sum)
  also have "\<dots> = x"
  proof -
    have "(x mod 4294967296 + 2147483648) mod 4294967296 = (x + 2147483648) mod 4294967296"
      by (rule mod_add_left_eq)
    then show ?thesis
      using x wrap32_id [OF x] by (simp add: wrap32_def)
  qed
  finally show "bytes_int (int_bytes x) = x" .
qed

lemma bytes_packet_bytes: "packet_ok p \<Longrightarrow> bytes_packet (packet_bytes p @ rest) = p"
  by (cases p) (simp add: packet_ok_def bytes_packet_def packet_bytes_def packet_fields_def bytes_int_bytes)

section \<open>The client library\<close>

record MCCClient =
  mc_connected :: bool
  mc_bindedId :: int
  mc_fd :: int
  mc_listener :: "nat option"

text \<open>A listener is a number that stands for its address; \<open>None\<close> is the null pointer.\<close>

definition MCCClient_new :: MCCClient where
  "MCCClient_new = \<lparr>mc_connected = False, mc_bindedId = 0, mc_fd = -1, mc_listener = None\<rparr>"

text \<open>\<open>Connect\<close>: the results of \<open>socket\<close>, \<open>connect\<close> and \<open>pthread_create\<close>.\<close>

definition MCCClient_Connect :: "int \<Rightarrow> int \<Rightarrow> int \<Rightarrow> int \<Rightarrow> MCCClient \<Rightarrow> bool \<times> MCCClient" where
  "MCCClient_Connect sock conn thread binded_keyboard_id c =
    (let c = c\<lparr>mc_fd := sock\<rparr> in
     if mc_fd c < 0 then (False, c)
     else if conn < 0 then (False, c\<lparr>mc_fd := -1\<rparr>)
     else
       let c = c\<lparr>mc_connected := True, mc_bindedId := binded_keyboard_id\<rparr> in
       if thread < 0 then (False, c) else (True, c))"

definition MCCClient_disConnect :: "MCCClient \<Rightarrow> MCCClient" where
  "MCCClient_disConnect c = (if mc_connected c then c\<lparr>mc_fd := -1\<rparr> else c)"

text \<open>The tail of the three requests: the packet sent, if any, and the result.\<close>

definition client_send :: "int \<Rightarrow> client_packet \<Rightarrow> MCCClient \<Rightarrow> int \<times> byte list \<times> MCCClient" where
  "client_send rc packet c =
     (if rc \<le> 0 then (-1, [], MCCClient_disConnect c) else (0, packet_bytes packet, c))"

definition MCCClient_Switch :: "client_packet \<Rightarrow> int \<Rightarrow> int \<Rightarrow> int \<Rightarrow> int \<Rightarrow> MCCClient \<Rightarrow> int \<times> byte list \<times> MCCClient" where
  "MCCClient_Switch junk rc matrix camera monitor c =
    (if \<not> mc_connected c then (-1, [], c)
     else client_send rc
       (junk\<lparr>cp_type := 1, cp_matrix_id := matrix, cp_bind_kb := mc_bindedId c, cp_cid := camera, cp_mid := monitor,
             cp_ptz_type := 0, cp_ptz_start := 0\<rparr>) c)"

definition MCCClient_Pin :: "client_packet \<Rightarrow> int \<Rightarrow> int \<Rightarrow> int \<Rightarrow> int \<Rightarrow> int \<Rightarrow> MCCClient \<Rightarrow> int \<times> byte list \<times> MCCClient" where
  "MCCClient_Pin junk rc matrix camera left_up right_down c =
    (if \<not> mc_connected c then (-1, [], c)
     else client_send rc
       (junk\<lparr>cp_type := 3, cp_matrix_id := matrix, cp_bind_kb := mc_bindedId c, cp_cid := camera, cp_lumid := left_up,
             cp_rdmid := right_down, cp_ptz_type := 0, cp_ptz_start := 0\<rparr>) c)"

definition MCCClient_Ptz :: "client_packet \<Rightarrow> int \<Rightarrow> int \<Rightarrow> int \<Rightarrow> int \<Rightarrow> bool \<Rightarrow> MCCClient \<Rightarrow> int \<times> byte list \<times> MCCClient" where
  "MCCClient_Ptz junk rc ptype matrix camera bstart c =
    (if \<not> mc_connected c then (-1, [], c)
     else client_send rc
       (junk\<lparr>cp_type := 2, cp_matrix_id := matrix, cp_bind_kb := mc_bindedId c, cp_cid := camera, cp_mid := 0,
             cp_ptz_type := ptype, cp_ptz_start := (if bstart then 1 else 0)\<rparr>) c)"

definition MCCClient_setListener :: "nat option \<Rightarrow> MCCClient \<Rightarrow> MCCClient" where
  "MCCClient_setListener l c = c\<lparr>mc_listener := l\<rparr>"

section \<open>The receiving thread\<close>

text \<open>
  One round of \<open>rx_thread\<close> on the result of \<open>select\<close>: whether the thread goes on, the listener it calls \<open>onSwitch\<close> of, and the
  client.  What \<open>recv\<close> returns is not looked at.  \<open>FD_SET\<close> is undefined for a
  descriptor outside of the set, below 0 or not below 1024.
\<close>

definition FD_SETSIZE :: int where "FD_SETSIZE = 1024"

definition rx_round :: "int \<Rightarrow> MCCClient \<Rightarrow> (bool \<times> nat list \<times> MCCClient) result" where
  "rx_round rc c =
    (if mc_fd c < 0 \<or> FD_SETSIZE \<le> mc_fd c then Inl OutOfBounds
     else if rc = 0 then Inr (True, [], c)
     else if rc = -1 then Inr (False, [], MCCClient_disConnect c)
     else Inr (True, (case mc_listener c of None \<Rightarrow> [] | Some l \<Rightarrow> [l]), c))"

text \<open>The rounds, with the calls that the application makes between them; the first component is whether the thread still runs.\<close>

datatype client_rx_event = Select int | AppDisConnect | AppSend int client_packet | AppSetListener "nat option"

fun rx_thread :: "client_rx_event list \<Rightarrow> MCCClient \<Rightarrow> (bool \<times> nat list \<times> MCCClient) result" where
  "rx_thread [] c = Inr (True, [], c)"
| "rx_thread (Select rc # es) c =
     (if \<not> mc_connected c then Inr (False, [], c)
      else bindr (rx_round rc c) (\<lambda>(go, calls, c).
        if go then bindr (rx_thread es c) (\<lambda>(go, calls', c). Inr (go, calls @ calls', c)) else Inr (False, calls, c)))"
| "rx_thread (AppDisConnect # es) c = rx_thread es (MCCClient_disConnect c)"
| "rx_thread (AppSend rc p # es) c = rx_thread es (snd (snd (client_send rc p c)))"
| "rx_thread (AppSetListener l # es) c = rx_thread es (MCCClient_setListener l c)"

lemma MCCClient_disConnect_connected [simp]: "mc_connected (MCCClient_disConnect c) = mc_connected c"
  by (simp add: MCCClient_disConnect_def)

lemma client_send_connected [simp]: "mc_connected (snd (snd (client_send rc p c))) = mc_connected c"
  by (simp add: client_send_def)

lemma setListener_connected [simp]: "mc_connected (MCCClient_setListener l c) = mc_connected c"
  by (simp add: MCCClient_setListener_def)

text \<open>Nothing ends a connection for \<open>isConnected\<close>: the thread returns only after an error of \<open>select\<close>.\<close>

theorem rx_thread_stays:
  assumes "mc_connected c" and "rx_thread es c = Inr (go, calls, c')"
  shows "mc_connected c' \<and> (go \<longleftrightarrow> Select (-1) \<notin> set es)"
  using assms
  by (induction es c arbitrary: calls rule: rx_thread.induct)
     (auto simp: rx_round_def bindr_def split: if_splits sum.splits)

text \<open>
  While the application leaves the connection alone, every round in which the descriptor is readable calls \<open>onSwitch\<close> of the
  listener.  A connection that the server has closed is readable for ever, so the calls never stop.
\<close>

theorem rx_thread_notifies:
  assumes "mc_connected c" and "0 \<le> mc_fd c" and "mc_fd c < FD_SETSIZE" and "mc_listener c = Some l" and "-1 \<notin> set rcs"
  shows "rx_thread (map Select rcs @ es) c =
    bindr (rx_thread es c) (\<lambda>(go, calls, c). Inr (go, replicate (length (filter (\<lambda>rc. rc \<noteq> 0) rcs)) l @ calls, c))"
  using assms(5)
proof (induction rcs)
  case Nil
  show ?case by (auto simp: bindr_def split: sum.split)
next
  case (Cons rc rcs)
  then show ?case
    using assms(1-4) by (auto simp: rx_round_def bindr_def split: sum.split)
qed

text \<open>After a disconnect by the application, the thread's next round puts the descriptor \<open>-1\<close> into the set.\<close>

theorem disconnect_breaks_thread:
  assumes "mc_connected c" and "0 \<le> mc_fd c" and "mc_fd c < FD_SETSIZE" and "mc_listener c = Some l" and "-1 \<notin> set rcs"
  shows "rx_thread (map Select rcs @ AppDisConnect # Select rc # es) c = Inl OutOfBounds"
  using assms(1) by (simp add: rx_thread_notifies [OF assms] rx_round_def MCCClient_disConnect_def bindr_def)

theorem disconnect_breaks_thread_witness:
  "rx_thread (map Select [0, 1, 0] @ AppDisConnect # Select 0 # [])
     \<lparr>mc_connected = True, mc_bindedId = 1, mc_fd = 5, mc_listener = Some 7\<rparr> = Inl OutOfBounds"
  by (rule disconnect_breaks_thread [where l = 7]) (simp_all add: FD_SETSIZE_def)

end
