(* ===== verification/Keyboard_Driver.thy ===== *)
theory Keyboard_Driver
  imports Keyboard_Codec Containers Serial_Port Util_String Thread_If Client_Packet
begin

text \<open>
  The keyboard objects: \<open>mcckeyboard.cpp\<close> (the base class) and the drivers \<open>mcckeyboardjxj.cpp\<close>,
  \<open>mcckeyboardjxjen.cpp\<close>, \<open>mcckeyboardcz08.cpp\<close>, \<open>mcckeyboardrc.cpp\<close>, \<open>mcckeyboardgeneric.cpp\<close> and
  \<open>mcckeyboardvirtual.cpp\<close>, with the state of the keyboard manager that they share.

  \<^item> One record holds the members of the base class and of all drivers, \<open>kb_class\<close> the dynamic class; a
    virtual call is a case distinction on it.
  \<^item> \<open>MCCKeyboardManager\<close> is the manager's state together with the static variables of the driver files: the
    packet buffer, counter and message of \<open>OnRxMatrixPacket\<close>, the last packet of \<open>Update\<close>, and the
    message counter.
  \<^item> What an operation writes to its lines and sockets is the list of \<open>kb_out\<close> it returns.
  \<^item> A value \<open>None\<close> of an operation that reads a line means that it does not return: it waits for
    bytes or loops.
\<close>

unbundle bit_operations_syntax

section \<open>State\<close>

datatype kb_class = KbVirtual | KbJXJ | KbJXJEn | KbCZ08 | KbRC | KbGeneric

datatype sp_ptr = NullPtr | PtrTo SerialPort | Freed

definition deref :: "sp_ptr \<Rightarrow> SerialPort result" where
  "deref p = (case p of PtrTo s \<Rightarrow> Inr s | _ \<Rightarrow> Inl NullDeref)"

datatype kb_out =
    ToKeyboard "byte list"
  | ToMatrix "byte list"
  | ToMatrix2 "byte list"
  | SockSend int client_packet
  | SockClose int

record MCCKeyboard =
  kb_class :: kb_class
  kb_id :: int
  kb_locked :: bool
  kb_loaded :: bool
  kb_keyboard :: sp_ptr
  kb_matrix :: sp_ptr
  kb_matrix2 :: sp_ptr
  kb_fifo :: "MCCKeyboardMessage Queue"
  kb_last :: MCCKeyboardMessage
  kb_query :: "ThreadIf option"
  kb_listenFd :: int
  kb_conns :: "int list"

record matrix_static =
  ms_buf :: "byte list"
  ms_rcv_cnt :: int
  ms_msg :: MCCKeyboardMessage

record MCCKeyboardManager =
  km_keyboards :: "MCCKeyboard option list"
  km_max :: int
  km_fifo :: "MCCKeyboardMessage Squeue"
  km_handler :: "bool option"
  km_matrixId :: int
  km_factories :: "string \<rightharpoonup> kb_class option"
  km_jxj :: matrix_static
  km_jxjen :: matrix_static
  km_lastPacket :: client_packet
  km_counter :: int

text \<open>The constructors: \<open>junk\<close> is the value of members they do not initialise.\<close>

definition MCCKeyboard_new :: "kb_class \<Rightarrow> int \<Rightarrow> MCCKeyboardManager \<Rightarrow> MCCKeyboard \<times> MCCKeyboardManager" where
  "MCCKeyboard_new c junk st =
    (case MCCKeyboardMessage_new (km_counter st) of (msg, n) \<Rightarrow>
     (\<lparr>kb_class = c, kb_id = junk, kb_locked = False, kb_loaded = False, kb_keyboard = NullPtr, kb_matrix = NullPtr,
       kb_matrix2 = NullPtr, kb_fifo = \<lparr>q_list = []\<rparr>, kb_last = msg, kb_query = None, kb_listenFd = -1, kb_conns = []\<rparr>,
      if c = KbJXJ \<or> c = KbJXJEn then st\<lparr>km_counter := n\<rparr> else st))"

definition matrix_static_new :: "MCCKeyboardMessage \<Rightarrow> matrix_static" where
  "matrix_static_new msg = \<lparr>ms_buf = [0xff, 0x00, 0x11, 0x00, 0x01, 0x01, 0x55, 0x68], ms_rcv_cnt = 0, ms_msg = msg\<rparr>"

definition port_write :: "(byte list \<Rightarrow> kb_out) \<Rightarrow> sp_ptr \<Rightarrow> byte list \<Rightarrow> kb_out list result" where
  "port_write c ptr bs = bindr (deref ptr) (\<lambda>p. Inr (case SerialPort_Write (int (length bs)) bs p of (rc, w) \<Rightarrow> if w = [] then [] else [c w]))"

text \<open>\<open>MCCKeyboardManager::Post\<close>.\<close>

definition KbMgr_Post :: "MCCKeyboardMessage \<Rightarrow> MCCKeyboardManager \<Rightarrow> int \<times> MCCKeyboardManager" where
  "KbMgr_Post msg st = (0, st\<lparr>km_fifo := Squeue_add msg (km_fifo st)\<rparr>)"

section \<open>Loading and unloading\<close>

record load_env =
  le_keyboard :: open_env
  le_matrix :: open_env
  le_matrix2 :: open_env
  le_close :: int
  le_thread :: int
  le_socket :: int
  le_bind :: int
  le_listen :: int

text \<open>
  \<open>MCCKeyboard::Load\<close> with six arguments.  \<open>this\<close> is the object's address, as a listener.  \<open>new\<close> does not
  return null, \<open>Init\<close> and \<open>RegisterListener\<close> return 0, so their error branches are not reached.
\<close>

definition MCCKeyboard_Load ::
    "load_env \<Rightarrow> int \<Rightarrow> string \<Rightarrow> string \<Rightarrow> int \<Rightarrow> int \<Rightarrow> int \<Rightarrow> int \<Rightarrow> MCCKeyboard \<Rightarrow> (int \<times> MCCKeyboard) result" where
  "MCCKeyboard_Load env this keyboard matrix baudrate databits stopbits parity kb =
    (if kb_loaded kb then Inr (0, kb)
     else
       bindr (SerialPort_Open (le_keyboard env) keyboard baudrate databits stopbits parity (snd (RegisterListener this SerialPort_new)))
         (\<lambda>(rc, k, _).
          let kb = kb\<lparr>kb_keyboard := PtrTo k\<rparr> in
          if rc \<noteq> 0 then Inr (rc, kb)
          else
            bindr (SerialPort_Open (le_matrix env) matrix baudrate databits stopbits parity (snd (RegisterListener this SerialPort_new)))
              (\<lambda>(rc, m, _).
               let kb = kb\<lparr>kb_matrix := PtrTo m\<rparr> in
               if rc \<noteq> 0 then Inr (rc, kb\<lparr>kb_keyboard := Freed\<rparr>)
               else Inr (0, kb\<lparr>kb_loaded := True\<rparr>))))"

definition MCCKeyboard_Unload :: "int \<Rightarrow> MCCKeyboard \<Rightarrow> (int \<times> MCCKeyboard) result" where
  "MCCKeyboard_Unload close_rc kb =
    (if \<not> kb_loaded kb then Inr (0, kb)
     else
       bindr (deref (kb_matrix kb)) (\<lambda>m.
       bindr (deref (kb_keyboard kb)) (\<lambda>k.
         let rc1 = fst (SerialPort_Close close_rc m); rc2 = fst (SerialPort_Close close_rc k)
         in Inr (rc1 OR rc2, kb\<lparr>kb_matrix := Freed, kb_keyboard := Freed, kb_loaded := False\<rparr>))))"

definition start_query :: "int \<Rightarrow> MCCKeyboard \<Rightarrow> int \<times> MCCKeyboard" where
  "start_query rc kb = (case ThreadIf_Start rc ThreadIf_new of (r, t) \<Rightarrow> (r, kb\<lparr>kb_query := Some t\<rparr>))"

definition JXJ_Load ::
    "load_env \<Rightarrow> int \<Rightarrow> string \<Rightarrow> string \<Rightarrow> int \<Rightarrow> int \<Rightarrow> int \<Rightarrow> int \<Rightarrow> MCCKeyboard \<Rightarrow> (int \<times> MCCKeyboard) result" where
  "JXJ_Load env this keyboard matrix baudrate databits stopbits parity kb =
     bindr (MCCKeyboard_Load env this keyboard matrix baudrate databits stopbits parity kb) (\<lambda>(rc, kb).
       if rc \<noteq> 0 then Inr (rc, kb) else Inr (start_query (le_thread env) kb))"

definition CZ08_Load ::
    "load_env \<Rightarrow> int \<Rightarrow> string \<Rightarrow> string \<Rightarrow> int \<Rightarrow> int \<Rightarrow> int \<Rightarrow> int \<Rightarrow> MCCKeyboard \<Rightarrow> (int \<times> MCCKeyboard) result" where
  "CZ08_Load env this keyboard matrix baudrate databits stopbits parity kb =
     bindr (MCCKeyboard_Load env this keyboard matrix baudrate databits stopbits parity kb) (\<lambda>(rc, kb).
       if rc \<noteq> 0 then Inr (rc, kb) else Inr (start_query (le_thread env) kb))"

definition JXJEn_Load ::
    "load_env \<Rightarrow> int \<Rightarrow> string \<Rightarrow> string \<Rightarrow> int \<Rightarrow> int \<Rightarrow> int \<Rightarrow> int \<Rightarrow> MCCKeyboard \<Rightarrow> (int \<times> MCCKeyboard) result" where
  "JXJEn_Load env this keyboard matrix baudrate databits stopbits parity kb =
     bindr (MCCKeyboard_Load env this keyboard matrix baudrate databits stopbits parity kb) (\<lambda>(rc, kb).
       if rc \<noteq> 0 then Inr (rc, kb)
       else
         bindr (SerialPort_Open (le_matrix2 env) ''/dev/ttyUSB7'' 115200 8 1 110 SerialPort_new) (\<lambda>(rc, m, _).
           Inr (rc, snd (start_query (le_thread env) (kb\<lparr>kb_matrix2 := PtrTo m\<rparr>)))))"

definition RC_Load ::
    "load_env \<Rightarrow> int \<Rightarrow> string \<Rightarrow> string \<Rightarrow> int \<Rightarrow> int \<Rightarrow> int \<Rightarrow> int \<Rightarrow> MCCKeyboard \<Rightarrow> (int \<times> MCCKeyboard) result" where
  "RC_Load env this keyboard matrix baudrate databits stopbits parity kb =
     bindr (MCCKeyboard_Load env this keyboard matrix baudrate databits stopbits parity kb) (\<lambda>(rc, kb).
       if rc \<noteq> 0 then Inr (rc, kb)
       else
         let kb = snd (start_query (le_thread env) kb) in
         bindr (SerialPort_Open (le_matrix2 env) ''/dev/ttyUSB8'' baudrate databits stopbits parity
                  (snd (RegisterListener this SerialPort_new))) (\<lambda>(rc, m, _).
           Inr (rc, kb\<lparr>kb_matrix2 := PtrTo m\<rparr>)))"

definition Generic_Load ::
    "load_env \<Rightarrow> int \<Rightarrow> string \<Rightarrow> string \<Rightarrow> int \<Rightarrow> int \<Rightarrow> int \<Rightarrow> int \<Rightarrow> MCCKeyboard \<Rightarrow> (int \<times> MCCKeyboard) result" where
  "Generic_Load = MCCKeyboard_Load"

text \<open>The virtual keyboard ignores its arguments and listens on port 10000.\<close>

definition Virtual_Load :: "load_env \<Rightarrow> MCCKeyboard \<Rightarrow> int \<times> MCCKeyboard" where
  "Virtual_Load env kb =
    (let kb = kb\<lparr>kb_listenFd := le_socket env\<rparr> in
     if kb_listenFd kb < 0 then (-1, kb)
     else if le_bind env \<noteq> 0 then (-1, kb\<lparr>kb_listenFd := -1\<rparr>)
     else if le_listen env \<noteq> 0 then (-1, kb\<lparr>kb_listenFd := -1\<rparr>)
     else start_query (le_thread env) kb)"

text \<open>The virtual call \<open>Load\<close> with six arguments; \<open>kb_query\<close> is the query thread, or the object's own thread for the virtual keyboard.\<close>

definition kb_Load ::
    "load_env \<Rightarrow> int \<Rightarrow> string \<Rightarrow> string \<Rightarrow> int \<Rightarrow> int \<Rightarrow> int \<Rightarrow> int \<Rightarrow> MCCKeyboard \<Rightarrow> (int \<times> MCCKeyboard) result" where
  "kb_Load env this keyboard matrix b d s q kb =
    (case kb_class kb of
       KbVirtual \<Rightarrow> Inr (Virtual_Load env kb)
     | KbJXJ \<Rightarrow> JXJ_Load env this keyboard matrix b d s q kb
     | KbJXJEn \<Rightarrow> JXJEn_Load env this keyboard matrix b d s q kb
     | KbCZ08 \<Rightarrow> CZ08_Load env this keyboard matrix b d s q kb
     | KbRC \<Rightarrow> RC_Load env this keyboard matrix b d s q kb
     | KbGeneric \<Rightarrow> Generic_Load env this keyboard matrix b d s q kb)"

text \<open>\<open>*(config[3].c_str())\<close>: the first character, or the terminating zero.\<close>

definition first_char :: "string \<Rightarrow> int" where
  "first_char s = (case s of [] \<Rightarrow> 0 | c # _ \<Rightarrow> of_char c)"

definition MCCKeyboard_Load_setup ::
    "load_env \<Rightarrow> int \<Rightarrow> string \<Rightarrow> string \<Rightarrow> string \<Rightarrow> MCCKeyboard \<Rightarrow> (int \<times> MCCKeyboard) result option" where
  "MCCKeyboard_Load_setup env this keyboard matrix setup kb =
    (case StringUtil_split setup '','' [] of
       None \<Rightarrow> None
     | Some (_, config) \<Rightarrow>
         Some (if length config \<noteq> 4 then Inr (-1, kb)
               else kb_Load env this keyboard matrix (StringUtil_atoi (config ! 0)) (StringUtil_atoi (config ! 1))
                      (StringUtil_atoi (config ! 2)) (first_char (config ! 3)) kb))"

text \<open>The virtual call \<open>Unload\<close>: the serial drivers stop their query thread after the base class has freed the ports.\<close>

definition stop_query :: "MCCKeyboard \<Rightarrow> MCCKeyboard" where
  "stop_query kb = kb\<lparr>kb_query := map_option (ThreadIf_Stop 0) (kb_query kb)\<rparr>"

definition JXJ_Unload :: "int \<Rightarrow> MCCKeyboard \<Rightarrow> (int \<times> MCCKeyboard) result" where
  "JXJ_Unload close_rc kb = bindr (MCCKeyboard_Unload close_rc kb) (\<lambda>(_, kb). Inr (0, stop_query kb))"

definition Virtual_Unload :: "MCCKeyboard \<Rightarrow> int \<times> MCCKeyboard" where
  "Virtual_Unload kb = (0, stop_query kb)"

definition kb_Unload :: "int \<Rightarrow> MCCKeyboard \<Rightarrow> (int \<times> MCCKeyboard) result" where
  "kb_Unload close_rc kb =
    (case kb_class kb of
       KbVirtual \<Rightarrow> Inr (Virtual_Unload kb)
     | KbGeneric \<Rightarrow> MCCKeyboard_Unload close_rc kb
     | _ \<Rightarrow> JXJ_Unload close_rc kb)"

text \<open>One turn of a query thread: the poll byte to the keyboard, for JXJ-EN also a query to the second matrix line.\<close>

definition query_turn :: "MCCKeyboard \<Rightarrow> kb_out list result" where
  "query_turn kb =
     bindr (port_write ToKeyboard (kb_keyboard kb) [0x50]) (\<lambda>w1.
       if kb_class kb = KbJXJEn
       then bindr (port_write ToMatrix2 (kb_matrix2 kb) (bytes_of (''NewReadCh 1'' @ crlf))) (\<lambda>w2. Inr (w1 @ w2))
       else Inr w1)"

section \<open>Receiving\<close>

text \<open>\<open>do sp->Read(buf, 1); while((0xff & buf[0]) != 0xff);\<close>\<close>

partial_function (option) sync_loop ::
    "byte list \<Rightarrow> SerialPort \<Rightarrow> read_outcome list \<Rightarrow> (byte list \<times> read_outcome list) result option" where
  "sync_loop buf p dev =
    (case SerialPort_Read buf 0 1 p dev of
       None \<Rightarrow> None
     | Some (Inl e) \<Rightarrow> Some (Inl e)
     | Some (Inr (_, buf, dev)) \<Rightarrow> if buf ! 0 \<noteq> 0xff then sync_loop buf p dev else Some (Inr (buf, dev)))"

declare sync_loop.simps [code]

text \<open>The head of the four \<open>OnRxKeyboardPacket\<close>: the packet, on a local buffer of 1024 bytes whose contents are \<open>junk\<close>.\<close>

definition read_packet :: "byte list \<Rightarrow> SerialPort \<Rightarrow> read_outcome list \<Rightarrow> (byte list \<times> read_outcome list) result option" where
  "read_packet junk p dev =
    (case sync_loop junk p dev of
       None \<Rightarrow> None
     | Some (Inl e) \<Rightarrow> Some (Inl e)
     | Some (Inr (buf, dev)) \<Rightarrow>
         (case SerialPort_Readn buf 1 7 p dev of
            None \<Rightarrow> None
          | Some (Inl e) \<Rightarrow> Some (Inl e)
          | Some (Inr (_, buf, dev)) \<Rightarrow> Some (Inr (buf, dev))))"

definition confirm_packet :: "byte list" where
  "confirm_packet = [0xf2, 0x00, 0x01, 0x00, 0x40, 0x00, 0x00, 0x41, 0xff]"

text \<open>What the receive handlers return: the keyboard, the manager, what they wrote, the rest of the line.\<close>

type_synonym rx_result = "(MCCKeyboard \<times> MCCKeyboardManager \<times> kb_out list \<times> read_outcome list) result option"

definition JXJ_OnRxKeyboardPacket :: "byte list \<Rightarrow> read_outcome list \<Rightarrow> SerialPort \<Rightarrow> MCCKeyboard \<Rightarrow> MCCKeyboardManager \<Rightarrow> rx_result" where
  "JXJ_OnRxKeyboardPacket junk dev sp kb st =
    (case read_packet junk sp dev of
       None \<Rightarrow> None
     | Some (Inl e) \<Rightarrow> Some (Inl e)
     | Some (Inr (buf, dev)) \<Rightarrow>
         Some (bindr (if buf ! 2 = 0x41 then port_write ToKeyboard (PtrTo sp) confirm_packet else Inr []) (\<lambda>outs.
           case MCCKeyboardMessage_new (km_counter st) of (msg0, n) \<Rightarrow>
           let st = st\<lparr>km_counter := n\<rparr>;
               msg = JXJ_buildMessageFromPacket (kb_id kb) (km_matrixId st) buf msg0
           in if msg_eq msg (kb_last kb) then Inr (kb, st, outs, dev)
              else Inr (kb\<lparr>kb_last := msg\<rparr>, snd (KbMgr_Post msg st), outs, dev))))"

definition JXJEn_OnRxKeyboardPacket :: "byte list \<Rightarrow> read_outcome list \<Rightarrow> SerialPort \<Rightarrow> MCCKeyboard \<Rightarrow> MCCKeyboardManager \<Rightarrow> rx_result" where
  "JXJEn_OnRxKeyboardPacket junk dev sp kb st =
    (case read_packet junk sp dev of
       None \<Rightarrow> None
     | Some (Inl e) \<Rightarrow> Some (Inl e)
     | Some (Inr (buf, dev)) \<Rightarrow>
         Some (bindr (if buf ! 2 = 0x41 then port_write ToKeyboard (PtrTo sp) confirm_packet else Inr []) (\<lambda>outs.
           case MCCKeyboardMessage_new (km_counter st) of (msg0, n) \<Rightarrow>
           let st = st\<lparr>km_counter := n\<rparr>;
               msg = JXJEn_buildMessageFromPacket (kb_id kb) (km_matrixId st) buf msg0
           in if msg_eq msg (kb_last kb) then Inr (kb, st, outs, dev)
              else Inr (kb\<lparr>kb_last := msg\<rparr>, snd (KbMgr_Post msg st), outs, dev))))"

text \<open>CZ08 and RC post every packet unless the keyboard is locked.\<close>

definition CZ08_OnRxKeyboardPacket :: "byte list \<Rightarrow> read_outcome list \<Rightarrow> SerialPort \<Rightarrow> MCCKeyboard \<Rightarrow> MCCKeyboardManager \<Rightarrow> rx_result" where
  "CZ08_OnRxKeyboardPacket junk dev sp kb st =
    (case read_packet junk sp dev of
       None \<Rightarrow> None
     | Some (Inl e) \<Rightarrow> Some (Inl e)
     | Some (Inr (buf, dev)) \<Rightarrow>
         Some (bindr (if buf ! 2 = 0x41 then port_write ToKeyboard (PtrTo sp) confirm_packet else Inr []) (\<lambda>outs.
           case MCCKeyboardMessage_new (km_counter st) of (msg0, n) \<Rightarrow>
           let st = st\<lparr>km_counter := n\<rparr>;
               msg = CZ08_buildMessageFromPacket (kb_id kb) (km_matrixId st) buf msg0
           in Inr (kb, if \<not> kb_locked kb then snd (KbMgr_Post msg st) else st, outs, dev))))"

definition RC_OnRxKeyboardPacket :: "byte list \<Rightarrow> read_outcome list \<Rightarrow> SerialPort \<Rightarrow> MCCKeyboard \<Rightarrow> MCCKeyboardManager \<Rightarrow> rx_result" where
  "RC_OnRxKeyboardPacket junk dev sp kb st =
    (case read_packet junk sp dev of
       None \<Rightarrow> None
     | Some (Inl e) \<Rightarrow> Some (Inl e)
     | Some (Inr (buf, dev)) \<Rightarrow>
         Some (bindr (if buf ! 2 = 0x41 then port_write ToKeyboard (PtrTo sp) confirm_packet else Inr []) (\<lambda>outs.
           case MCCKeyboardMessage_new (km_counter st) of (msg0, n) \<Rightarrow>
           let st = st\<lparr>km_counter := n\<rparr>;
               msg = RC_buildMessageFromPacket (kb_id kb) (km_matrixId st) buf msg0
           in Inr (kb, if \<not> kb_locked kb then snd (KbMgr_Post msg st) else st, outs, dev))))"

text \<open>
  \<open>OnRxMatrixPacket\<close> of JXJ and JXJ-EN, on the static variables of the file; \<open>wrc\<close> is what \<open>write\<close>
  returns for the registration.
\<close>

definition reg_packet :: "byte list" where
  "reg_packet = [0xff, 0x00, 0x41, 0x11, 0x55, 0x00, 0x00, 0xa7]"

definition matrix_poll ::
    "(byte list \<Rightarrow> MCCKeyboardMessage \<Rightarrow> byte list) \<Rightarrow> int \<Rightarrow> byte \<Rightarrow> SerialPort \<Rightarrow> MCCKeyboard \<Rightarrow> matrix_static \<Rightarrow>
     (MCCKeyboard \<times> matrix_static \<times> kb_out list) result" where
  "matrix_poll build wrc queries sp kb ms =
    (if ms_rcv_cnt ms = 0 then
       (if uint queries \<noteq> 0x50 + kb_id kb then Inr (kb, ms, [])
        else if fst (SerialPort_Write wrc reg_packet sp) \<noteq> 8 then Inl AssertFailed
        else bindr (port_write ToMatrix (PtrTo sp) reg_packet) (\<lambda>outs. Inr (kb, ms\<lparr>ms_rcv_cnt := ms_rcv_cnt ms + 1\<rparr>, outs)))
     else if uint queries = 0x50 + kb_id kb then
       (case deQueue (ms_msg ms) (kb_fifo kb) of (rc, msg, q) \<Rightarrow>
        let ms = ms\<lparr>ms_msg := msg\<rparr>;
            ms = (if rc = 0 then ms\<lparr>ms_buf := build (ms_buf ms) msg\<rparr> else ms)
        in bindr (port_write ToMatrix (PtrTo sp) (ms_buf ms)) (\<lambda>outs. Inr (kb\<lparr>kb_fifo := q\<rparr>, ms, outs)))
     else Inr (kb, ms, []))"

definition JXJ_OnRxMatrixPacket :: "int \<Rightarrow> read_outcome list \<Rightarrow> SerialPort \<Rightarrow> MCCKeyboard \<Rightarrow> MCCKeyboardManager \<Rightarrow> rx_result" where
  "JXJ_OnRxMatrixPacket wrc dev sp kb st =
    (case SerialPort_Read [0] 0 1 sp dev of
       None \<Rightarrow> None
     | Some (Inl e) \<Rightarrow> Some (Inl e)
     | Some (Inr (len, buf, dev)) \<Rightarrow>
         Some (if len \<noteq> 1 then Inl AssertFailed
               else bindr (matrix_poll JXJ_buildPacketFromMessage wrc (buf ! 0) sp kb (km_jxj st)) (\<lambda>(kb, ms, outs).
                 Inr (kb, st\<lparr>km_jxj := ms\<rparr>, outs, dev))))"

definition JXJEn_OnRxMatrixPacket :: "int \<Rightarrow> read_outcome list \<Rightarrow> SerialPort \<Rightarrow> MCCKeyboard \<Rightarrow> MCCKeyboardManager \<Rightarrow> rx_result" where
  "JXJEn_OnRxMatrixPacket wrc dev sp kb st =
    (case SerialPort_Read [0] 0 1 sp dev of
       None \<Rightarrow> None
     | Some (Inl e) \<Rightarrow> Some (Inl e)
     | Some (Inr (len, buf, dev)) \<Rightarrow>
         Some (if len \<noteq> 1 then Inl AssertFailed
               else bindr (matrix_poll JXJEn_buildPacketFromMessage wrc (buf ! 0) sp kb (km_jxjen st)) (\<lambda>(kb, ms, outs).
                 Inr (kb, st\<lparr>km_jxjen := ms\<rparr>, outs, dev))))"

text \<open>CZ08 and RC: five bytes are read into a single \<open>char\<close>.\<close>

definition CZ08_OnRxMatrixPacket :: "read_outcome list \<Rightarrow> SerialPort \<Rightarrow> MCCKeyboard \<Rightarrow> MCCKeyboardManager \<Rightarrow> rx_result" where
  "CZ08_OnRxMatrixPacket dev sp kb st =
    (case SerialPort_Read [0] 0 5 sp dev of
       None \<Rightarrow> None
     | Some (Inl e) \<Rightarrow> Some (Inl e)
     | Some (Inr (_, _, dev)) \<Rightarrow> Some (Inr (kb, st, [], dev)))"

definition RC_OnRxMatrixPacket :: "read_outcome list \<Rightarrow> SerialPort \<Rightarrow> MCCKeyboard \<Rightarrow> MCCKeyboardManager \<Rightarrow> rx_result" where
  "RC_OnRxMatrixPacket = CZ08_OnRxMatrixPacket"

text \<open>Generic: \<open>GetKeyValue\<close> knows no key, so the packet is read and dropped; \<open>cmd_length\<close> and
  \<open>cmd_start_byte\<close> are members no code assigns, arguments here.\<close>

partial_function (option) generic_sync ::
    "byte \<Rightarrow> int \<Rightarrow> byte list \<Rightarrow> SerialPort \<Rightarrow> read_outcome list \<Rightarrow> (int \<times> byte list \<times> read_outcome list) result option" where
  "generic_sync start nread buf sp dev =
    (case SerialPort_Read buf 0 1 sp dev of
       None \<Rightarrow> None
     | Some (Inl e) \<Rightarrow> Some (Inl e)
     | Some (Inr (_, buf, dev)) \<Rightarrow>
         if buf ! 0 \<noteq> start \<and> nread - 1 \<noteq> 0 then generic_sync start (nread - 1) buf sp dev
         else Some (Inr (nread - 1, buf, dev)))"

declare generic_sync.simps [code]

definition Generic_OnRxKeyboardPacket :: "int \<Rightarrow> byte \<Rightarrow> byte list \<Rightarrow> read_outcome list \<Rightarrow> SerialPort \<Rightarrow> MCCKeyboard \<Rightarrow> MCCKeyboardManager \<Rightarrow> rx_result" where
  "Generic_OnRxKeyboardPacket cmd_length start junk dev sp kb st =
    (case generic_sync start cmd_length junk sp dev of
       None \<Rightarrow> None
     | Some (Inl e) \<Rightarrow> Some (Inl e)
     | Some (Inr (nread, buf, dev)) \<Rightarrow>
         if nread = 0 then Some (Inr (kb, st, [], dev))
         else (case SerialPort_Readn buf 1 (cmd_length - 1) sp dev of
             None \<Rightarrow> None
           | Some (Inl e) \<Rightarrow> Some (Inl e)
           | Some (Inr (_, _, dev)) \<Rightarrow> Some (Inr (kb, st, [], dev))))"

definition Generic_OnRxMatrixPacket :: "byte list \<Rightarrow> read_outcome list \<Rightarrow> SerialPort \<Rightarrow> MCCKeyboard \<Rightarrow> MCCKeyboardManager \<Rightarrow> rx_result" where
  "Generic_OnRxMatrixPacket junk dev sp kb st =
    (case SerialPort_Read junk 0 256 sp dev of
       None \<Rightarrow> None
     | Some (Inl e) \<Rightarrow> Some (Inl e)
     | Some (Inr (len, buf, dev)) \<Rightarrow>
         Some (bindr (port_write ToKeyboard (kb_keyboard kb) (take (nat len) buf)) (\<lambda>outs. Inr (kb, st, outs, dev))))"

section \<open>Sending\<close>

text \<open>
  \<open>MCCKeyboardVirtual::Update\<close>.  \<open>snd_rc\<close> gives for each socket what \<open>send\<close> returns and whether the error is
  \<open>ECONNRESET\<close>; \<open>junk\<close> is the uninitialised packet.  Erasing from the vector invalidates the iterator
  that the loop goes on with.
\<close>

definition update_packet :: "client_packet \<Rightarrow> int \<Rightarrow> MCCKeyboardMessage \<Rightarrow> client_packet" where
  "update_packet junk matrix msg =
     junk\<lparr>cp_type := msg_type msg, cp_matrix_id := matrix, cp_bind_kb := keyboard_id msg, cp_cid := lid (camera_id msg),
          cp_mid := monitor_id msg, cp_ptz_type := ptz_opt_type msg, cp_ptz_start := (if ptz_opt_type msg = 0 then 0 else 1)\<rparr>"

definition same_ptz :: "client_packet \<Rightarrow> client_packet \<Rightarrow> bool" where
  "same_ptz prev p \<longleftrightarrow>
     cp_type prev = 2 \<and> cp_type p = 2 \<and> cp_ptz_type prev = cp_ptz_type p \<and> cp_ptz_start prev = cp_ptz_start p"

fun send_all :: "(int \<Rightarrow> int \<times> bool) \<Rightarrow> client_packet \<Rightarrow> int list \<Rightarrow> kb_out list result" where
  "send_all snd_rc packet [] = Inr []"
| "send_all snd_rc packet (fd # fds) =
     (case snd_rc fd of (len, reset) \<Rightarrow>
      if (len < 0 \<and> reset) \<or> len = 0 then Inl IteratorInvalidated
      else bindr (send_all snd_rc packet fds) (\<lambda>outs. Inr ((if len > 0 then [SockSend fd packet] else []) @ outs)))"

definition Virtual_Update ::
    "client_packet \<Rightarrow> (int \<Rightarrow> int \<times> bool) \<Rightarrow> MCCKeyboardMessage \<Rightarrow> MCCKeyboard \<Rightarrow> MCCKeyboardManager \<Rightarrow>
     (MCCKeyboardManager \<times> kb_out list) result" where
  "Virtual_Update junk snd_rc msg kb st =
    (let packet = update_packet junk 0 msg in
     if same_ptz (km_lastPacket st) packet then Inr (st, [])
     else bindr (send_all snd_rc packet (kb_conns kb)) (\<lambda>outs. Inr (st\<lparr>km_lastPacket := packet\<rparr>, outs)))"

text \<open>\<open>dynamic_cast<MCCKeyboardVirtual *>(mMgr->getKeyboard(1))\<close> and its \<open>Update\<close>.\<close>

definition update_virtual ::
    "client_packet \<Rightarrow> (int \<Rightarrow> int \<times> bool) \<Rightarrow> MCCKeyboardMessage \<Rightarrow> MCCKeyboardManager \<Rightarrow> (MCCKeyboardManager \<times> kb_out list) result" where
  "update_virtual junk snd_rc msg st =
    (case km_keyboards st ! 1 of
       Some kb \<Rightarrow> if kb_class kb = KbVirtual then Virtual_Update junk snd_rc msg kb st else Inr (st, [])
     | None \<Rightarrow> Inr (st, []))"

definition JXJ_SendSwitch ::
    "client_packet \<Rightarrow> (int \<Rightarrow> int \<times> bool) \<Rightarrow> MCCKeyboardMessage \<Rightarrow> MCCKeyboard \<Rightarrow> MCCKeyboardManager \<Rightarrow>
     (MCCKeyboard \<times> MCCKeyboardManager \<times> kb_out list) result" where
  "JXJ_SendSwitch junk snd_rc msg kb st =
     bindr (update_virtual junk snd_rc msg st) (\<lambda>(st, outs). Inr (kb\<lparr>kb_fifo := snd (inQueue msg (kb_fifo kb))\<rparr>, st, outs))"

definition JXJ_SendPtz ::
    "client_packet \<Rightarrow> (int \<Rightarrow> int \<times> bool) \<Rightarrow> MCCKeyboardMessage \<Rightarrow> MCCKeyboard \<Rightarrow> MCCKeyboardManager \<Rightarrow>
     (MCCKeyboard \<times> MCCKeyboardManager \<times> kb_out list) result" where
  "JXJ_SendPtz junk snd_rc msg kb st =
     bindr (update_virtual junk snd_rc msg st) (\<lambda>(st, outs). Inr (kb\<lparr>kb_fifo := snd (inQueue msg (kb_fifo kb))\<rparr>, st, outs))"

text \<open>The bytes that \<open>create\<close> left in the buffer, as many as it returned.\<close>

definition command_bytes :: "string option \<times> nat \<Rightarrow> byte list" where
  "command_bytes cmd = (case fst cmd of Some s \<Rightarrow> bytes_of (take (snd cmd) s) | None \<Rightarrow> [])"

text \<open>JXJ-EN changes the caller's message, so the message is returned too; \<open>en_create\<close> gives the bytes of the command.\<close>

definition JXJEn_SendSwitch :: "MCCKeyboardMessage \<Rightarrow> MCCKeyboard \<Rightarrow> (MCCKeyboardMessage \<times> MCCKeyboard \<times> kb_out list) result" where
  "JXJEn_SendSwitch msg kb =
    (let msg = (if left_up_monitor_id msg = 0 \<and> right_down_monitor_id msg = 0
                then msg\<lparr>left_up_monitor_id := monitor_id msg, right_down_monitor_id := monitor_id msg\<rparr> else msg);
         lu = left_up_monitor_id msg; rd = right_down_monitor_id msg;
         (msg, cmd, kb) =
           (if lid (camera_id msg) \<le> 4 then
              (let msg = msg\<lparr>msg_type := eKBMsg_SWITCH\<rparr>
               in (msg, if lu > 4 then en_create 0 3 lu rd else en_create 0 (wrap32 (lu - 1)) lu rd,
                   kb\<lparr>kb_fifo := snd (inQueue msg (kb_fifo kb))\<rparr>))
            else (msg, en_create 1 (wrap32 (lid (camera_id msg) - 5)) lu rd, kb))
     in bindr (port_write ToMatrix2 (kb_matrix2 kb) (command_bytes cmd)) (\<lambda>outs. Inr (msg, kb, outs)))"

definition JXJEn_SendPtz :: "MCCKeyboardMessage \<Rightarrow> MCCKeyboard \<Rightarrow> MCCKeyboard" where
  "JXJEn_SendPtz msg kb = kb\<lparr>kb_fifo := snd (inQueue msg (kb_fifo kb))\<rparr>"

definition CZ08_SendSwitch ::
    "client_packet \<Rightarrow> (int \<Rightarrow> int \<times> bool) \<Rightarrow> MCCKeyboardMessage \<Rightarrow> MCCKeyboard \<Rightarrow> MCCKeyboardManager \<Rightarrow>
     (MCCKeyboardManager \<times> kb_out list) result" where
  "CZ08_SendSwitch junk snd_rc msg kb st =
     bindr (update_virtual junk snd_rc msg st) (\<lambda>(st, outs1).
     bindr (CZ08_buildPacketFromMessage 20 msg) (\<lambda>(buf, len).
       if len > 0 then bindr (port_write ToMatrix (kb_matrix kb) (take len buf)) (\<lambda>outs2. Inr (st, outs1 @ outs2))
       else Inr (st, outs1)))"

definition CZ08_SendPtz ::
    "client_packet \<Rightarrow> (int \<Rightarrow> int \<times> bool) \<Rightarrow> MCCKeyboardMessage \<Rightarrow> MCCKeyboardManager \<Rightarrow> (MCCKeyboardManager \<times> kb_out list) result" where
  "CZ08_SendPtz = update_virtual"

definition RC_SendPtz ::
    "client_packet \<Rightarrow> (int \<Rightarrow> int \<times> bool) \<Rightarrow> MCCKeyboardMessage \<Rightarrow> MCCKeyboardManager \<Rightarrow> (MCCKeyboardManager \<times> kb_out list) result" where
  "RC_SendPtz = update_virtual"

text \<open>RC: one byte at a time to both matrix lines, the header of 6 bytes, then commands of 12; beyond the text
  the buffer of 1024 bytes holds \<open>fill\<close>.\<close>

fun write_both :: "byte list \<Rightarrow> MCCKeyboard \<Rightarrow> kb_out list result" where
  "write_both [] kb = Inr []"
| "write_both (b # bs) kb =
     bindr (port_write ToMatrix (kb_matrix kb) [b]) (\<lambda>w1.
     bindr (port_write ToMatrix2 (kb_matrix2 kb) [b]) (\<lambda>w2.
     bindr (write_both bs kb) (\<lambda>w3. Inr (w1 @ w2 @ w3))))"

function write_commands :: "byte list \<Rightarrow> int \<Rightarrow> MCCKeyboard \<Rightarrow> kb_out list result" where
  "write_commands p len kb =
     (if len > 0 then
        (if length p < 12 then Inl OutOfBounds
         else bindr (write_both (take 12 p) kb) (\<lambda>w1.
              bindr (write_commands (drop 12 p) (len - 12) kb) (\<lambda>w2. Inr (w1 @ w2))))
      else Inr [])"
  by pat_completeness auto
termination
  by (relation "measure (\<lambda>(p, len, kb). nat len)") auto

declare write_commands.simps [simp del]

definition RC_SendSwitch ::
    "byte list \<Rightarrow> client_packet \<Rightarrow> (int \<Rightarrow> int \<times> bool) \<Rightarrow> MCCKeyboardMessage \<Rightarrow> MCCKeyboard \<Rightarrow> MCCKeyboardManager \<Rightarrow>
     (MCCKeyboardManager \<times> kb_out list) result" where
  "RC_SendSwitch fill junk snd_rc msg kb st =
     bindr (update_virtual junk snd_rc msg st) (\<lambda>(st, outs1).
     bindr (RC_buildPacketFromMessage 1024 msg) (\<lambda>(text, len).
       let buf = text @ drop (length text) fill in
       if len > 0 then
         bindr (write_both (take 6 buf) kb) (\<lambda>outs2.
         bindr (write_commands (drop 6 buf) (int len - 6) kb) (\<lambda>outs3. Inr (st, outs1 @ outs2 @ outs3)))
       else Inr (st, outs1)))"

text \<open>\<open>SendSwitch(int, int)\<close> of JXJ, CZ08 and RC.\<close>

definition SendSwitch_direct :: "int \<Rightarrow> int \<Rightarrow> MCCKeyboard \<Rightarrow> kb_out list result" where
  "SendSwitch_direct local_cid local_mid kb = port_write ToMatrix (kb_matrix kb) (JXJ_switch_packet local_cid local_mid)"

end
