(* ===== verification/Keyboard_Manager.thy ===== *)
theory Keyboard_Manager
  imports Keyboard_Driver
begin

text \<open>
  \<open>mcckeyboardmanager.cpp\<close>: the factories, loading and unloading of keyboards, the message queue, the
  dispatch of its thread to the message handler, and the virtual calls by which the resource manager
  sends to a keyboard; the receive side of \<open>mcckeyboardvirtual.cpp\<close>, whose clients post to the manager.

  The array \<open>m_keyboards\<close> has four entries; an index outside it is \<open>OutOfBounds\<close>.  What the thread does
  with a message is the event it hands to the handler: the keyboard, by its index, and the message.
\<close>

unbundle bit_operations_syntax

section \<open>Factories and loading\<close>

definition MCC_MAX_KEYBOARD_NUMBER :: int where
  "MCC_MAX_KEYBOARD_NUMBER = 4"

definition RegisterFactory :: "string \<Rightarrow> kb_class \<Rightarrow> MCCKeyboardManager \<Rightarrow> MCCKeyboardManager" where
  "RegisterFactory name factory st = st\<lparr>km_factories := (km_factories st)(name \<mapsto> Some factory)\<rparr>"

text \<open>\<open>m_factory_map[name]\<close> enters a null factory for a name it does not know.\<close>

definition GetFactory :: "string \<Rightarrow> MCCKeyboardManager \<Rightarrow> kb_class option \<times> MCCKeyboardManager" where
  "GetFactory name st =
    (case km_factories st name of
       Some f \<Rightarrow> (f, st)
     | None \<Rightarrow> (None, st\<lparr>km_factories := (km_factories st)(name \<mapsto> None)\<rparr>))"

text \<open>The \<open>REGISTER_KEYBOARD\<close> lines of the driver files, run before \<open>main\<close>.\<close>

definition registered_factories :: "string \<rightharpoonup> kb_class option" where
  "registered_factories = map_of
     [(''cz08'', Some KbCZ08), (''generic'', Some KbGeneric), (''jxj'', Some KbJXJ), (''jxj_en'', Some KbJXJEn),
      (''rc'', Some KbRC), (''virtual'', Some KbVirtual)]"

text \<open>The constructor, on the static state of the driver files.  \<open>m_handler\<close> and \<open>mMatrixId\<close> are not initialised.\<close>

definition MCCKeyboardManager_new :: "int \<Rightarrow> int \<Rightarrow> int \<Rightarrow> client_packet \<Rightarrow> MCCKeyboardManager" where
  "MCCKeyboardManager_new max_kb_number junk counter zero =
    (let (m1, n1) = MCCKeyboardMessage_new counter; (m2, n2) = MCCKeyboardMessage_new n1 in
     \<lparr>km_keyboards = replicate 4 None,
      km_max = (if max_kb_number > MCC_MAX_KEYBOARD_NUMBER then MCC_MAX_KEYBOARD_NUMBER else max_kb_number),
      km_fifo = \<lparr>sq_queue = []\<rparr>, km_handler = None, km_matrixId = junk, km_factories = registered_factories,
      km_jxj = matrix_static_new m1, km_jxjen = matrix_static_new m2, km_lastPacket = zero, km_counter = n2\<rparr>)"

definition SetMatrixId :: "int \<Rightarrow> MCCKeyboardManager \<Rightarrow> MCCKeyboardManager" where
  "SetMatrixId m st = st\<lparr>km_matrixId := m\<rparr>"

definition SetResourceManager :: "bool \<Rightarrow> MCCKeyboardManager \<Rightarrow> MCCKeyboardManager" where
  "SetResourceManager nonnull st = st\<lparr>km_handler := Some nonnull\<rparr>"

definition KbMgr_Create :: "string \<Rightarrow> int \<Rightarrow> MCCKeyboardManager \<Rightarrow> (MCCKeyboard \<times> MCCKeyboardManager) result" where
  "KbMgr_Create name junk st =
    (case GetFactory name st of (f, st) \<Rightarrow>
     case f of None \<Rightarrow> Inl NullDeref | Some c \<Rightarrow> Inr (MCCKeyboard_new c junk st))"

definition kb_at :: "int \<Rightarrow> MCCKeyboardManager \<Rightarrow> MCCKeyboard option result" where
  "kb_at i st = (if i < 0 \<or> 4 \<le> i then Inl OutOfBounds else Inr (km_keyboards st ! nat i))"

definition getKeyboard :: "int \<Rightarrow> MCCKeyboardManager \<Rightarrow> MCCKeyboard option result" where
  "getKeyboard kid st = kb_at kid st"

definition set_keyboard :: "int \<Rightarrow> MCCKeyboard option \<Rightarrow> MCCKeyboardManager \<Rightarrow> MCCKeyboardManager" where
  "set_keyboard i kb st = st\<lparr>km_keyboards := (km_keyboards st)[nat i := kb]\<rparr>"

text \<open>The common shape of the two \<open>LoadKeyboard\<close>; \<open>load\<close> is the call of \<open>Load\<close> they make.\<close>

definition load_keyboard ::
    "(MCCKeyboard \<Rightarrow> (int \<times> MCCKeyboard) result option) \<Rightarrow> string \<Rightarrow> int \<Rightarrow> int \<Rightarrow> MCCKeyboardManager \<Rightarrow>
     (int \<times> MCCKeyboardManager) result option" where
  "load_keyboard load name junk local_id st =
    (if local_id > km_max st - 1 \<or> local_id < 0 then Some (Inr (-1, st))
     else if km_keyboards st ! nat local_id \<noteq> None then Some (Inr (-1, st))
     else
       case KbMgr_Create name junk st of
         Inl e \<Rightarrow> Some (Inl e)
       | Inr (kb, st) \<Rightarrow>
           (case load kb of
              None \<Rightarrow> None
            | Some (Inl e) \<Rightarrow> Some (Inl e)
            | Some (Inr (rc, kb)) \<Rightarrow>
                if rc < 0 then Some (Inr (-1, st))
                else Some (Inr (0, set_keyboard local_id (Some (kb\<lparr>kb_id := local_id\<rparr>)) st))))"

definition LoadKeyboard ::
    "load_env \<Rightarrow> int \<Rightarrow> string \<Rightarrow> string \<Rightarrow> string \<Rightarrow> int \<Rightarrow> int \<Rightarrow> int \<Rightarrow> int \<Rightarrow> int \<Rightarrow> MCCKeyboardManager \<Rightarrow>
     (int \<times> MCCKeyboardManager) result option" where
  "LoadKeyboard env junk name keyboard matrix baudrate databits stopbits parity local_id st =
     load_keyboard (\<lambda>kb. Some (kb_Load env local_id keyboard matrix baudrate databits stopbits parity kb)) name junk local_id st"

definition LoadKeyboard_setup ::
    "load_env \<Rightarrow> int \<Rightarrow> string \<Rightarrow> string \<Rightarrow> string \<Rightarrow> string \<Rightarrow> int \<Rightarrow> MCCKeyboardManager \<Rightarrow> (int \<times> MCCKeyboardManager) result option" where
  "LoadKeyboard_setup env junk name keyboard matrix setup local_id st =
     load_keyboard (MCCKeyboard_Load_setup env local_id keyboard matrix setup) name junk local_id st"

definition UnloadKeyboard :: "int \<Rightarrow> int \<Rightarrow> MCCKeyboardManager \<Rightarrow> (int \<times> MCCKeyboardManager) result" where
  "UnloadKeyboard close_rc kid st =
     bindr (kb_at kid st) (\<lambda>p.
       case p of None \<Rightarrow> Inr (-1, st)
       | Some kb \<Rightarrow> bindr (kb_Unload close_rc kb) (\<lambda>_. Inr (0, set_keyboard kid None st)))"

text \<open>The destructor: \<open>for(int i=0;i<m_max_keyboards;i++) UnloadKeyboard(i);\<close>\<close>

fun unload_all :: "int \<Rightarrow> int list \<Rightarrow> MCCKeyboardManager \<Rightarrow> MCCKeyboardManager result" where
  "unload_all close_rc [] st = Inr st"
| "unload_all close_rc (i # is) st = bindr (UnloadKeyboard close_rc i st) (\<lambda>(_, st). unload_all close_rc is st)"

definition MCCKeyboardManager_destroy :: "int \<Rightarrow> MCCKeyboardManager \<Rightarrow> MCCKeyboardManager result" where
  "MCCKeyboardManager_destroy close_rc st = unload_all close_rc [0 .. km_max st - 1] st"

section \<open>Dispatch\<close>

datatype km_event = HandleSwitch "int option" MCCKeyboardMessage | HandlePtz "int option" MCCKeyboardMessage

text \<open>The body of the thread's loop, on the message that \<open>mFifo.get\<close> returned.\<close>

definition dispatch :: "MCCKeyboardMessage \<Rightarrow> MCCKeyboardManager \<Rightarrow> km_event list result" where
  "dispatch msg st =
    (case km_handler st of
       None \<Rightarrow> Inl Unspecified
     | Some False \<Rightarrow> Inr []
     | Some True \<Rightarrow>
         if msg_type msg = eKBMsg_SWITCH \<or> msg_type msg = eKBMsg_Pin then
           bindr (getKeyboard (keyboard_id msg) st) (\<lambda>kb. Inr [HandleSwitch (map_option (\<lambda>_. keyboard_id msg) kb) msg])
         else if msg_type msg = eKBMsg_PTZ then
           bindr (getKeyboard (keyboard_id msg) st) (\<lambda>kb. Inr [HandlePtz (map_option (\<lambda>_. keyboard_id msg) kb) msg])
         else Inr [])"

text \<open>One turn of the thread: \<open>None\<close> while the queue stays empty.\<close>

definition KbMgr_thread_turn ::
    "MCCKeyboardMessage Squeue list \<Rightarrow> MCCKeyboardManager \<Rightarrow> (km_event list \<times> MCCKeyboardManager) result option" where
  "KbMgr_thread_turn wakes st =
    (case Squeue_get wakes (km_fifo st) of
       None \<Rightarrow> None
     | Some (msg, q) \<Rightarrow> let st = st\<lparr>km_fifo := q\<rparr> in Some (bindr (dispatch msg st) (\<lambda>evs. Inr (evs, st))))"

section \<open>Sending through a keyboard\<close>

record send_env =
  se_junk :: client_packet
  se_send :: "int \<Rightarrow> int \<times> bool"
  se_fill :: "byte list"

text \<open>The virtual calls \<open>SendSwitch(msg)\<close> and \<open>SendPtz(msg)\<close>; the base class does nothing.  The message is returned
  because JXJ-EN changes it.\<close>

definition kb_SendSwitch ::
    "send_env \<Rightarrow> MCCKeyboardMessage \<Rightarrow> MCCKeyboard \<Rightarrow> MCCKeyboardManager \<Rightarrow>
     (MCCKeyboardMessage \<times> MCCKeyboard \<times> MCCKeyboardManager \<times> kb_out list) result" where
  "kb_SendSwitch e msg kb st =
    (case kb_class kb of
       KbJXJ \<Rightarrow> bindr (JXJ_SendSwitch (se_junk e) (se_send e) msg kb st) (\<lambda>(kb, st, outs). Inr (msg, kb, st, outs))
     | KbJXJEn \<Rightarrow> bindr (JXJEn_SendSwitch msg kb) (\<lambda>(msg, kb, outs). Inr (msg, kb, st, outs))
     | KbCZ08 \<Rightarrow> bindr (CZ08_SendSwitch (se_junk e) (se_send e) msg kb st) (\<lambda>(st, outs). Inr (msg, kb, st, outs))
     | KbRC \<Rightarrow> bindr (RC_SendSwitch (se_fill e) (se_junk e) (se_send e) msg kb st) (\<lambda>(st, outs). Inr (msg, kb, st, outs))
     | _ \<Rightarrow> Inr (msg, kb, st, []))"

definition kb_SendPtz ::
    "send_env \<Rightarrow> MCCKeyboardMessage \<Rightarrow> MCCKeyboard \<Rightarrow> MCCKeyboardManager \<Rightarrow>
     (MCCKeyboard \<times> MCCKeyboardManager \<times> kb_out list) result" where
  "kb_SendPtz e msg kb st =
    (case kb_class kb of
       KbJXJ \<Rightarrow> JXJ_SendPtz (se_junk e) (se_send e) msg kb st
     | KbJXJEn \<Rightarrow> Inr (JXJEn_SendPtz msg kb, st, [])
     | KbCZ08 \<Rightarrow> bindr (CZ08_SendPtz (se_junk e) (se_send e) msg st) (\<lambda>(st, outs). Inr (kb, st, outs))
     | KbRC \<Rightarrow> bindr (RC_SendPtz (se_junk e) (se_send e) msg st) (\<lambda>(st, outs). Inr (kb, st, outs))
     | _ \<Rightarrow> Inr (kb, st, []))"

definition KbMgr_SendSwitch ::
    "send_env \<Rightarrow> int \<Rightarrow> MCCKeyboardMessage \<Rightarrow> MCCKeyboardManager \<Rightarrow> (MCCKeyboardMessage \<times> MCCKeyboardManager \<times> kb_out list) result" where
  "KbMgr_SendSwitch e kid msg st =
     bindr (kb_at kid st) (\<lambda>p.
       case p of None \<Rightarrow> Inr (msg, st, [])
       | Some kb \<Rightarrow> bindr (kb_SendSwitch e msg kb st) (\<lambda>(msg, kb, st, outs). Inr (msg, set_keyboard kid (Some kb) st, outs)))"

definition KbMgr_SendPtz ::
    "send_env \<Rightarrow> int \<Rightarrow> MCCKeyboardMessage \<Rightarrow> MCCKeyboardManager \<Rightarrow> (MCCKeyboardManager \<times> kb_out list) result" where
  "KbMgr_SendPtz e kid msg st =
     bindr (kb_at kid st) (\<lambda>p.
       case p of None \<Rightarrow> Inr (st, [])
       | Some kb \<Rightarrow> bindr (kb_SendPtz e msg kb st) (\<lambda>(kb, st, outs). Inr (set_keyboard kid (Some kb) st, outs)))"

section \<open>Receiving through a keyboard\<close>

record rx_env =
  rx_junk :: "byte list"
  rx_wrc :: int
  rx_cmd_length :: int
  rx_start :: byte

text \<open>\<open>MCCKeyboard::on_recv\<close>: which of the two lines is readable, and the virtual handlers.\<close>

definition kb_OnRxKeyboardPacket :: "rx_env \<Rightarrow> read_outcome list \<Rightarrow> SerialPort \<Rightarrow> MCCKeyboard \<Rightarrow> MCCKeyboardManager \<Rightarrow> rx_result" where
  "kb_OnRxKeyboardPacket e dev sp kb st =
    (case kb_class kb of
       KbJXJ \<Rightarrow> JXJ_OnRxKeyboardPacket (rx_junk e) dev sp kb st
     | KbJXJEn \<Rightarrow> JXJEn_OnRxKeyboardPacket (rx_junk e) dev sp kb st
     | KbCZ08 \<Rightarrow> CZ08_OnRxKeyboardPacket (rx_junk e) dev sp kb st
     | KbRC \<Rightarrow> RC_OnRxKeyboardPacket (rx_junk e) dev sp kb st
     | KbGeneric \<Rightarrow> Generic_OnRxKeyboardPacket (rx_cmd_length e) (rx_start e) (rx_junk e) dev sp kb st
     | KbVirtual \<Rightarrow> Some (Inr (kb, st, [], dev)))"

definition kb_OnRxMatrixPacket :: "rx_env \<Rightarrow> read_outcome list \<Rightarrow> SerialPort \<Rightarrow> MCCKeyboard \<Rightarrow> MCCKeyboardManager \<Rightarrow> rx_result" where
  "kb_OnRxMatrixPacket e dev sp kb st =
    (case kb_class kb of
       KbJXJ \<Rightarrow> JXJ_OnRxMatrixPacket (rx_wrc e) dev sp kb st
     | KbJXJEn \<Rightarrow> JXJEn_OnRxMatrixPacket (rx_wrc e) dev sp kb st
     | KbCZ08 \<Rightarrow> CZ08_OnRxMatrixPacket dev sp kb st
     | KbRC \<Rightarrow> RC_OnRxMatrixPacket dev sp kb st
     | KbGeneric \<Rightarrow> Generic_OnRxMatrixPacket (rx_junk e) dev sp kb st
     | KbVirtual \<Rightarrow> Some (Inr (kb, st, [], dev)))"

definition MCCKeyboard_on_recv :: "rx_env \<Rightarrow> bool \<Rightarrow> read_outcome list \<Rightarrow> MCCKeyboard \<Rightarrow> MCCKeyboardManager \<Rightarrow> rx_result" where
  "MCCKeyboard_on_recv e from_keyboard dev kb st =
    (if from_keyboard then
       (case kb_keyboard kb of PtrTo sp \<Rightarrow> kb_OnRxKeyboardPacket e dev sp kb st | _ \<Rightarrow> Some (Inl NullDeref))
     else
       (case kb_matrix kb of PtrTo sp \<Rightarrow> kb_OnRxMatrixPacket e dev sp kb st | _ \<Rightarrow> Some (Inl NullDeref)))"

section \<open>The clients of the virtual keyboard\<close>

text \<open>The messages that a client's packet becomes; the client manager builds the same.\<close>

definition client_switch_message :: "client_packet \<Rightarrow> MCCKeyboardMessage \<Rightarrow> MCCKeyboardMessage" where
  "client_switch_message p msg =
     msg\<lparr>msg_type := cp_type p, keyboard_id := cp_bind_kb p, camera_id := MCCGlobalID (cp_matrix_id p) (cp_cid p), monitor_id := cp_mid p\<rparr>"

definition client_ptz_message :: "client_packet \<Rightarrow> MCCKeyboardMessage \<Rightarrow> MCCKeyboardMessage" where
  "client_ptz_message p msg =
    (let msg = client_switch_message p msg; msg = msg\<lparr>ptz_opt_type := cp_ptz_type p\<rparr>;
         msg = msg\<lparr>ptz_opt_vstep := (if ptz_opt_type msg AND 0x03 \<noteq> 0 then 20 else 0)\<rparr>
     in msg\<lparr>ptz_opt_hstep := (if ptz_opt_type msg AND 0x0c \<noteq> 0 then 20 else 0)\<rparr>)"

definition buildFdSet :: "int list \<Rightarrow> (int \<times> int set) result" where
  "buildFdSet conns =
    (if \<exists>fd \<in> set conns. fd < 0 \<or> FD_SETSIZE \<le> fd then Inl OutOfBounds
     else Inr (foldl max (-1) conns, set conns))"

text \<open>\<open>recv\<close> into an uninitialised packet: the result and the bytes it wrote.\<close>

definition received_packet :: "client_packet \<Rightarrow> byte list \<Rightarrow> client_packet" where
  "received_packet junk bs = bytes_packet (take packet_size bs @ drop (length bs) (packet_bytes junk))"

record poll_env =
  pe_select :: int
  pe_ready :: "int \<Rightarrow> bool"
  pe_recv :: "int \<Rightarrow> int \<times> byte list"
  pe_junk :: client_packet

text \<open>The loop of \<open>PollClientFd\<close> over the connections; \<open>pre\<close> are the ones behind the iterator.\<close>

fun poll_loop ::
    "poll_env \<Rightarrow> int \<Rightarrow> MCCKeyboardMessage \<Rightarrow> int list \<Rightarrow> int list \<Rightarrow> MCCKeyboardManager \<Rightarrow> kb_out list \<Rightarrow>
     (int \<times> int list \<times> MCCKeyboardManager \<times> kb_out list) result" where
  "poll_loop e handled msg pre [] st outs = Inr (handled, pre, st, outs)"
| "poll_loop e handled msg pre (fd # fds) st outs =
     (if pe_ready e fd then
        (case pe_recv e fd of (rc, bs) \<Rightarrow>
         if rc = 0 then Inr (0, pre @ fds, st, outs @ [SockClose fd])
         else
           let packet = received_packet (pe_junk e) bs in
           if cp_type packet = -1 then Inl IteratorInvalidated
           else
             let (msg, st) =
               (if cp_type packet = 1 then
                  (let m = client_switch_message packet msg in (m, snd (KbMgr_Post m st)))
                else if cp_type packet = 2 then
                  (let m = client_ptz_message packet msg in (m, snd (KbMgr_Post m st)))
                else (msg, st))
             in poll_loop e (handled + 1) msg (pre @ [fd]) fds st (outs @ [SockSend fd packet]))
      else poll_loop e handled msg (pre @ [fd]) fds st outs)"

definition PollClientFd :: "poll_env \<Rightarrow> MCCKeyboard \<Rightarrow> MCCKeyboardManager \<Rightarrow> (int \<times> MCCKeyboard \<times> MCCKeyboardManager \<times> kb_out list) result" where
  "PollClientFd e kb st =
     bindr (buildFdSet (kb_conns kb)) (\<lambda>(maxfd, _).
       if maxfd \<le> 0 then Inr (0, kb, st, [])
       else if pe_select e = 0 then Inr (0, kb, st, [])
       else
         case MCCKeyboardMessage_new (km_counter st) of (msg, n) \<Rightarrow>
         bindr (poll_loop e 0 msg [] (kb_conns kb) (st\<lparr>km_counter := n\<rparr>) []) (\<lambda>(handled, conns, st, outs).
           Inr (handled, kb\<lparr>kb_conns := conns\<rparr>, st, outs)))"

text \<open>One turn of the virtual keyboard's thread: \<open>connfd\<close> is what \<open>accept\<close> returns, \<open>again\<close> whether the error is \<open>EAGAIN\<close>; any
  other error is thrown and ends the program.\<close>

definition Virtual_thread_turn ::
    "poll_env \<Rightarrow> int \<Rightarrow> bool \<Rightarrow> MCCKeyboard \<Rightarrow> MCCKeyboardManager \<Rightarrow> (MCCKeyboard \<times> MCCKeyboardManager \<times> kb_out list) result" where
  "Virtual_thread_turn e connfd again kb st =
    (let kb = kb\<lparr>kb_fifo := snd (snd (deQueue (kb_last kb) (kb_fifo kb)))\<rparr> in
     if connfd = -1 \<and> \<not> again then Inl Uncaught
     else
       let kb = (if connfd = -1 then kb else kb\<lparr>kb_conns := kb_conns kb @ [connfd]\<rparr>) in
       bindr (PollClientFd e kb st) (\<lambda>(_, kb, st, outs). Inr (kb, st, outs)))"

end
