(* ===== verification/Client_Manager.thy ===== *)
theory Client_Manager
  imports Keyboard_Manager
begin

text \<open>
  \<open>mccclientmanager.cpp\<close>: the server for the operators' clients.  \<open>onReadable\<close> cuts what one \<open>recv\<close>
  delivered into packets of 36 bytes and posts a message for each to the keyboard manager; \<open>Notify\<close> tells every
  client what was switched.  The set of connections is the ordered list of its elements; the static
  \<open>last_packet\<close> of \<open>Notify\<close> is part of the state.
\<close>

record MCCClientManager =
  cm_conns :: "int list"
  cm_last :: client_packet

definition ClientMgr_onNewConnection :: "int \<Rightarrow> MCCClientManager \<Rightarrow> MCCClientManager" where
  "ClientMgr_onNewConnection fd cm = (if fd \<in> set (cm_conns cm) then cm else cm\<lparr>cm_conns := insort fd (cm_conns cm)\<rparr>)"

definition ClientMgr_onDisconnect :: "int \<Rightarrow> MCCClientManager \<Rightarrow> MCCClientManager" where
  "ClientMgr_onDisconnect fd cm = (if fd \<in> set (cm_conns cm) then cm\<lparr>cm_conns := remove1 fd (cm_conns cm)\<rparr> else cm)"

definition client_pin_message :: "client_packet \<Rightarrow> MCCKeyboardMessage \<Rightarrow> MCCKeyboardMessage" where
  "client_pin_message p msg =
     msg\<lparr>msg_type := cp_type p, keyboard_id := cp_bind_kb p, camera_id := MCCGlobalID (cp_matrix_id p) (cp_cid p),
         monitor_id := cp_lumid p, left_up_monitor_id := cp_lumid p, right_down_monitor_id := cp_rdmid p\<rparr>"

text \<open>The body of the loop of \<open>onReadable\<close>: one packet, one new message.\<close>

definition onClientPacket :: "client_packet \<Rightarrow> MCCKeyboardManager \<Rightarrow> MCCKeyboardManager" where
  "onClientPacket packet st =
    (case MCCKeyboardMessage_new (km_counter st) of (msg, n) \<Rightarrow>
     let st = st\<lparr>km_counter := n\<rparr> in
     if cp_type packet = 1 then snd (KbMgr_Post (client_switch_message packet msg) st)
     else if cp_type packet = 2 then snd (KbMgr_Post (client_ptz_message packet msg) st)
     else if cp_type packet = 3 then snd (KbMgr_Post (client_pin_message packet msg) st)
     else st)"

function ClientMgr_onReadable :: "byte list \<Rightarrow> MCCKeyboardManager \<Rightarrow> MCCKeyboardManager" where
  "ClientMgr_onReadable data st =
     (if packet_size \<le> length data
      then ClientMgr_onReadable (drop packet_size data) (onClientPacket (bytes_packet data) st)
      else st)"
  by pat_completeness auto
termination
  by (relation "measure (\<lambda>(data, st). length data)") (auto simp: packet_size_def)

declare ClientMgr_onReadable.simps [simp del]

definition ClientMgr_Notify ::
    "client_packet \<Rightarrow> (int \<Rightarrow> int \<times> bool) \<Rightarrow> MCCKeyboardMessage \<Rightarrow> MCCClientManager \<Rightarrow> (MCCClientManager \<times> kb_out list) result" where
  "ClientMgr_Notify junk snd_rc msg cm =
    (let packet = update_packet junk (mid (camera_id msg)) msg in
     if same_ptz (cm_last cm) packet then Inr (cm, [])
     else bindr (send_all snd_rc packet (cm_conns cm)) (\<lambda>outs. Inr (cm\<lparr>cm_last := packet\<rparr>, outs)))"

section \<open>What arrives\<close>

text \<open>The message a packet becomes, numbered \<open>n\<close>; \<open>None\<close> for a type the server ignores.\<close>

definition message_of :: "int \<Rightarrow> client_packet \<Rightarrow> MCCKeyboardMessage option" where
  "message_of n p =
    (let msg = fst (MCCKeyboardMessage_new n) in
     if cp_type p = 1 then Some (client_switch_message p msg)
     else if cp_type p = 2 then Some (client_ptz_message p msg)
     else if cp_type p = 3 then Some (client_pin_message p msg)
     else None)"

fun messages_of :: "int \<Rightarrow> client_packet list \<Rightarrow> MCCKeyboardMessage list" where
  "messages_of n [] = []"
| "messages_of n (p # ps) = (case message_of n p of Some m \<Rightarrow> [m] | None \<Rightarrow> []) @ messages_of (wrap32 (n + 1)) ps"

lemma onClientPacket_eq:
  "onClientPacket p st =
     st\<lparr>km_counter := wrap32 (km_counter st + 1),
        km_fifo := \<lparr>sq_queue = sq_queue (km_fifo st) @ (case message_of (km_counter st) p of Some m \<Rightarrow> [m] | None \<Rightarrow> [])\<rparr>\<rparr>"
  by (cases st, cases "km_fifo st")
     (auto simp: onClientPacket_def message_of_def KbMgr_Post_def Squeue_add_def MCCKeyboardMessage_new_def Let_def)

lemma onReadable_short: "length data < packet_size \<Longrightarrow> ClientMgr_onReadable data st = st"
  by (simp add: ClientMgr_onReadable.simps [of data])

lemma onReadable_packet:
  "packet_ok p \<Longrightarrow> ClientMgr_onReadable (packet_bytes p @ rest) st = ClientMgr_onReadable rest (onClientPacket p st)"
  by (subst ClientMgr_onReadable.simps) (simp add: bytes_packet_bytes)

lemma onReadable_packets:
  assumes "list_all packet_ok ps" and "length rest < packet_size"
  shows "ClientMgr_onReadable (concat (map packet_bytes ps) @ rest) st =
    foldl (\<lambda>st p. onClientPacket p st) st ps"
  using assms by (induction ps arbitrary: st) (auto simp: onReadable_packet onReadable_short)

lemma foldl_onClientPacket:
  "km_fifo (foldl (\<lambda>st p. onClientPacket p st) st ps) =
     \<lparr>sq_queue = sq_queue (km_fifo st) @ messages_of (km_counter st) ps\<rparr>"
  by (induction ps arbitrary: st) (auto simp: onClientPacket_eq)

text \<open>The packet that each request of the client library sends.\<close>

lemma switch_request_packet:
  assumes "MCCClient_Switch junk rc matrix camera monitor c = (0, bs, c')"
  shows "\<exists>p. bs = packet_bytes p \<and>
    (packet_ok junk \<and> list_all is_int32 [matrix, camera, monitor, mc_bindedId c] \<longrightarrow> packet_ok p) \<and>
    message_of n p = Some ((fst (MCCKeyboardMessage_new n))\<lparr>msg_type := eKBMsg_SWITCH, keyboard_id := mc_bindedId c,
      camera_id := MCCGlobalID matrix camera, monitor_id := monitor\<rparr>)"
proof -
  let ?p = "junk\<lparr>cp_type := 1, cp_matrix_id := matrix, cp_bind_kb := mc_bindedId c, cp_cid := camera, cp_mid := monitor,
             cp_ptz_type := 0, cp_ptz_start := 0\<rparr>"
  have "bs = packet_bytes ?p"
    using assms by (auto simp: MCCClient_Switch_def client_send_def split: if_splits)
  then show ?thesis
    by (intro exI [of _ ?p])
       (simp add: packet_ok_def packet_fields_def message_of_def client_switch_message_def eKBMsg_SWITCH_def is_int32_def Let_def)
qed

section \<open>Claims\<close>

text \<open>C28. A stream of requests that arrives whole is posted whole: every packet that the server knows becomes one message, in
  the order sent and numbered in sequence, behind what the queue held before; a switch request of the client library becomes the
  switch message of its camera and monitor for the keyboard the client is bound to.\<close>

theorem client_requests_posted:
  assumes "list_all packet_ok ps"
    and "MCCClient_Switch junk rc matrix camera monitor c = (0, bs, c')" and "packet_ok junk"
    and "list_all is_int32 [matrix, camera, monitor, mc_bindedId c]"
  shows "km_fifo (ClientMgr_onReadable (concat (map packet_bytes ps)) st) =
      \<lparr>sq_queue = sq_queue (km_fifo st) @ messages_of (km_counter st) ps\<rparr> \<and>
    km_fifo (ClientMgr_onReadable bs st) =
      \<lparr>sq_queue = sq_queue (km_fifo st) @ [(fst (MCCKeyboardMessage_new (km_counter st)))\<lparr>msg_type := eKBMsg_SWITCH,
        keyboard_id := mc_bindedId c, camera_id := MCCGlobalID matrix camera, monitor_id := monitor\<rparr>]\<rparr>"
proof -
  obtain p where p: "bs = packet_bytes p" "packet_ok p"
    and m: "message_of (km_counter st) p = Some ((fst (MCCKeyboardMessage_new (km_counter st)))\<lparr>msg_type := eKBMsg_SWITCH,
      keyboard_id := mc_bindedId c, camera_id := MCCGlobalID matrix camera, monitor_id := monitor\<rparr>)"
    using switch_request_packet [OF assms(2)] assms(3,4) by blast
  show ?thesis
    using onReadable_packets [OF assms(1), of "[]" st] onReadable_packets [of "[p]" "[]" st] foldl_onClientPacket [of st "[p]"] p m
    by (simp add: foldl_onClientPacket packet_size_def)
qed

definition demo_packet :: client_packet where
  "demo_packet = \<lparr>cp_type = 1, cp_matrix_id = 1, cp_bind_kb = 2, cp_cid = 5, cp_mid = 3, cp_ptz_type = 0, cp_ptz_start = 0, cp_lumid = 0, cp_rdmid = 0\<rparr>"

definition demo_manager :: MCCKeyboardManager where
  "demo_manager = SetResourceManager True (MCCKeyboardManager_new 4 1 0 demo_packet)"

definition demo_client :: MCCClient where
  "demo_client = \<lparr>mc_connected = True, mc_bindedId = 2, mc_fd = 5, mc_listener = None\<rparr>"

lemma demo_packet_ok [simp]: "packet_ok demo_packet"
  by (simp add: demo_packet_def packet_ok_def packet_fields_def is_int32_def)

theorem client_requests_posted_witness:
  "\<exists>bs c'. MCCClient_Switch demo_packet 36 1 5 3 demo_client = (0, bs, c') \<and>
    map keyboard_id (sq_queue (km_fifo (ClientMgr_onReadable bs demo_manager))) = [2]"
proof -
  obtain bs c' where r: "MCCClient_Switch demo_packet 36 1 5 3 demo_client = (0, bs, c')"
    by (simp add: MCCClient_Switch_def client_send_def demo_client_def)
  show ?thesis
    using client_requests_posted [of "[]", OF _ r, of demo_manager] r
    by (simp add: is_int32_def demo_client_def demo_manager_def MCCKeyboardManager_new_def SetResourceManager_def split_beta)
qed

text \<open>A packet that arrives in two pieces is lost: \<open>onReadable\<close> drops what is left of a piece below 36 bytes, so that neither
  piece posts anything.\<close>

theorem split_packet_lost:
  assumes "packet_bytes p = a @ b" and "a \<noteq> []" and "b \<noteq> []"
  shows "ClientMgr_onReadable b (ClientMgr_onReadable a st) = st"
proof -
  have "length a + length b = packet_size"
    using assms(1) length_packet_bytes [of p] by simp
  then have "length a < packet_size" and "length b < packet_size"
    using assms(2,3) by (auto simp flip: length_greater_0_conv)
  then show ?thesis
    by (simp add: onReadable_short)
qed

theorem split_packet_lost_witness:
  "ClientMgr_onReadable (drop 4 (packet_bytes demo_packet)) (ClientMgr_onReadable (take 4 (packet_bytes demo_packet)) demo_manager) = demo_manager"
proof (rule split_packet_lost)
  show "packet_bytes demo_packet = take 4 (packet_bytes demo_packet) @ drop 4 (packet_bytes demo_packet)"
    by simp
  show "take 4 (packet_bytes demo_packet) \<noteq> []" and "drop 4 (packet_bytes demo_packet) \<noteq> []"
    using length_packet_bytes [of demo_packet] by (auto simp: packet_size_def simp del: length_packet_bytes)
qed

text \<open>The keyboard number of a client's packet is not checked: a switch request for a keyboard outside 0 to 3 makes the
  manager's thread index its array of keyboards outside its bounds; one within the bounds is handed to the message handler.\<close>

theorem client_keyboard_unchecked:
  assumes "packet_ok p" and "cp_type p = 1" and "km_handler st = Some True" and "sq_queue (km_fifo st) = []"
  shows "KbMgr_thread_turn [] (ClientMgr_onReadable (packet_bytes p) st) = Some (Inl OutOfBounds) \<longleftrightarrow>
      cp_bind_kb p < 0 \<or> 4 \<le> cp_bind_kb p"
    (is "?turn = _ \<longleftrightarrow> ?bad")
proof -
  let ?msg = "client_switch_message p (fst (MCCKeyboardMessage_new (km_counter st)))"
  have "ClientMgr_onReadable (packet_bytes p) st = onClientPacket p st"
    using onReadable_packets [of "[p]" "[]" st] assms(1) by (simp add: packet_size_def)
  moreover have "km_fifo (onClientPacket p st) = \<lparr>sq_queue = [?msg]\<rparr>" and "km_handler (onClientPacket p st) = Some True"
    using assms by (simp_all add: onClientPacket_eq message_of_def Let_def)
  moreover have "msg_type ?msg = eKBMsg_SWITCH" and "keyboard_id ?msg = cp_bind_kb p"
    using assms(2) by (simp_all add: client_switch_message_def eKBMsg_SWITCH_def)
  ultimately show ?thesis
    by (simp add: KbMgr_thread_turn_def Squeue_get.simps [of "[]"] dispatch_def getKeyboard_def kb_at_def Let_def)
qed

theorem client_keyboard_unchecked_witness:
  "KbMgr_thread_turn [] (ClientMgr_onReadable (packet_bytes (demo_packet\<lparr>cp_bind_kb := 9\<rparr>)) demo_manager) = Some (Inl OutOfBounds)"
  using client_keyboard_unchecked [of "demo_packet\<lparr>cp_bind_kb := 9\<rparr>" demo_manager]
  by (simp add: demo_packet_def packet_ok_def packet_fields_def is_int32_def demo_manager_def MCCKeyboardManager_new_def
      SetResourceManager_def split_beta)

section \<open>What the clients are told\<close>

text \<open>What happens at the server: clients come and go, and the resource manager has a message for them.\<close>

datatype client_event = Joins int | Leaves int | Tells MCCKeyboardMessage

fun cm_run ::
    "client_packet \<Rightarrow> (int \<Rightarrow> int \<times> bool) \<Rightarrow> client_event list \<Rightarrow> MCCClientManager \<Rightarrow> (MCCClientManager \<times> kb_out list) result" where
  "cm_run junk snd_rc [] cm = Inr (cm, [])"
| "cm_run junk snd_rc (Joins fd # es) cm = cm_run junk snd_rc es (ClientMgr_onNewConnection fd cm)"
| "cm_run junk snd_rc (Leaves fd # es) cm = cm_run junk snd_rc es (ClientMgr_onDisconnect fd cm)"
| "cm_run junk snd_rc (Tells m # es) cm =
     bindr (ClientMgr_Notify junk snd_rc m cm) (\<lambda>(cm, outs). bindr (cm_run junk snd_rc es cm) (\<lambda>(cm, outs'). Inr (cm, outs @ outs')))"

text \<open>The promise, on the set of clients and the message they were told last.  Message type 2 is pan-tilt; the last two numbers of the
  packet are never set.\<close>

definition client_notice :: "client_packet \<Rightarrow> MCCKeyboardMessage \<Rightarrow> client_packet" where
  "client_notice junk m =
     \<lparr>cp_type = msg_type m, cp_matrix_id = mid (camera_id m), cp_bind_kb = keyboard_id m, cp_cid = lid (camera_id m),
      cp_mid = monitor_id m, cp_ptz_type = ptz_opt_type m, cp_ptz_start = of_bool (ptz_opt_type m \<noteq> 0),
      cp_lumid = cp_lumid junk, cp_rdmid = cp_rdmid junk\<rparr>"

definition repeats_ptz :: "MCCKeyboardMessage option \<Rightarrow> MCCKeyboardMessage \<Rightarrow> bool" where
  "repeats_ptz prev m \<longleftrightarrow> (\<exists>l. prev = Some l \<and> msg_type l = 2 \<and> msg_type m = 2 \<and> ptz_opt_type l = ptz_opt_type m)"

fun clients_told :: "int set \<Rightarrow> MCCKeyboardMessage option \<Rightarrow> client_event list \<Rightarrow> int set \<times> MCCKeyboardMessage option \<times> (int list \<times> MCCKeyboardMessage) list" where
  "clients_told fds prev [] = (fds, prev, [])"
| "clients_told fds prev (Joins fd # es) = clients_told (insert fd fds) prev es"
| "clients_told fds prev (Leaves fd # es) = clients_told (fds - {fd}) prev es"
| "clients_told fds prev (Tells m # es) =
     (if repeats_ptz prev m then clients_told fds prev es
      else case clients_told fds (Some m) es of (fds', prev', ns) \<Rightarrow> (fds', prev', (sorted_list_of_set fds, m) # ns))"

definition conn_broken :: "int \<times> bool \<Rightarrow> bool" where
  "conn_broken rc \<longleftrightarrow> fst rc = 0 \<or> (fst rc < 0 \<and> snd rc)"

definition cm_matches :: "int set \<Rightarrow> MCCKeyboardMessage option \<Rightarrow> MCCClientManager \<Rightarrow> bool" where
  "cm_matches fds prev cm \<longleftrightarrow> finite fds \<and> cm_conns cm = sorted_list_of_set fds \<and>
     (case prev of None \<Rightarrow> cp_type (cm_last cm) \<noteq> 2
      | Some l \<Rightarrow> cp_type (cm_last cm) = msg_type l \<and> cp_ptz_type (cm_last cm) = ptz_opt_type l \<and>
          cp_ptz_start (cm_last cm) = of_bool (ptz_opt_type l \<noteq> 0))"

lemma notice_packet: "update_packet junk (mid (camera_id m)) m = client_notice junk m"
  by (simp add: update_packet_def client_notice_def)

lemma send_all_eq:
  "send_all snd_rc packet fds =
    (if \<exists>fd \<in> set fds. conn_broken (snd_rc fd) then Inl IteratorInvalidated
     else Inr (map (\<lambda>fd. SockSend fd packet) (filter (\<lambda>fd. 0 < fst (snd_rc fd)) fds)))"
  by (induction fds) (auto simp: split_beta conn_broken_def)

lemma same_ptz_repeats: "cm_matches fds prev cm \<Longrightarrow> same_ptz (cm_last cm) (client_notice junk m) \<longleftrightarrow> repeats_ptz prev m"
  by (auto simp: cm_matches_def same_ptz_def client_notice_def repeats_ptz_def split: option.splits)

lemma Notify_eq:
  assumes "cm_matches fds prev cm"
  shows "ClientMgr_Notify junk snd_rc m cm =
    (if repeats_ptz prev m then Inr (cm, [])
     else if \<exists>fd \<in> fds. conn_broken (snd_rc fd) then Inl IteratorInvalidated
     else Inr (cm\<lparr>cm_last := client_notice junk m\<rparr>,
       map (\<lambda>fd. SockSend fd (client_notice junk m)) (filter (\<lambda>fd. 0 < fst (snd_rc fd)) (sorted_list_of_set fds))))"
proof -
  have "cm_conns cm = sorted_list_of_set fds" and "set (sorted_list_of_set fds) = fds"
    using assms by (simp_all add: cm_matches_def)
  then show ?thesis
    by (auto simp: ClientMgr_Notify_def notice_packet same_ptz_repeats [OF assms] send_all_eq Let_def)
qed

lemma cm_matches_notice: "cm_matches fds prev cm \<Longrightarrow> cm_matches fds (Some m) (cm\<lparr>cm_last := client_notice junk m\<rparr>)"
  by (simp add: cm_matches_def client_notice_def)

lemma cm_matches_joins: "cm_matches fds prev cm \<Longrightarrow> cm_matches (insert fd fds) prev (ClientMgr_onNewConnection fd cm)"
  by (cases "fd \<in> fds"; cases prev) (simp_all add: cm_matches_def ClientMgr_onNewConnection_def insert_absorb)

lemma cm_matches_leaves: "cm_matches fds prev cm \<Longrightarrow> cm_matches (fds - {fd}) prev (ClientMgr_onDisconnect fd cm)"
  by (cases "fd \<in> fds"; cases prev) (simp_all add: cm_matches_def ClientMgr_onDisconnect_def sorted_list_of_set_remove)

definition packets_sent :: "client_packet \<Rightarrow> (int \<Rightarrow> int \<times> bool) \<Rightarrow> (int list \<times> MCCKeyboardMessage) list \<Rightarrow> kb_out list" where
  "packets_sent junk snd_rc ns = concat (map (\<lambda>(fds, m). map (\<lambda>fd. SockSend fd (client_notice junk m)) (filter (\<lambda>fd. 0 < fst (snd_rc fd)) fds)) ns)"

lemma run_tells:
  assumes "cm_matches fds prev cm" and "\<forall>fd. fd \<in> fds \<or> Joins fd \<in> set es \<longrightarrow> \<not> conn_broken (snd_rc fd)"
    and "clients_told fds prev es = (fds', prev', ns)"
  shows "\<exists>cm'. cm_run junk snd_rc es cm = Inr (cm', packets_sent junk snd_rc ns) \<and> cm_matches fds' prev' cm'"
  using assms
proof (induction es arbitrary: fds prev cm ns)
  case Nil
  then show ?case
    by (simp add: packets_sent_def)
next
  case (Cons e es)
  show ?case
  proof (cases e)
    case (Joins fd)
    then show ?thesis
      using Cons.prems Cons.IH [OF cm_matches_joins [OF Cons.prems(1)], of fd ns] by auto
  next
    case (Leaves fd)
    then show ?thesis
      using Cons.prems Cons.IH [OF cm_matches_leaves [OF Cons.prems(1)], of fd ns] by auto
  next
    case (Tells m)
    show ?thesis
    proof (cases "repeats_ptz prev m")
      case True
      then show ?thesis
        using Cons.prems Cons.IH [OF Cons.prems(1), of ns] Tells Notify_eq [OF Cons.prems(1), of junk snd_rc m] by auto
    next
      case False
      then obtain ns' where ns: "clients_told fds (Some m) es = (fds', prev', ns')" "ns = (sorted_list_of_set fds, m) # ns'"
        using Cons.prems(3) Tells by (auto split: prod.splits)
      obtain cm' where "cm_run junk snd_rc es (cm\<lparr>cm_last := client_notice junk m\<rparr>) = Inr (cm', packets_sent junk snd_rc ns')" "cm_matches fds' prev' cm'"
        using Cons.IH [OF cm_matches_notice [OF Cons.prems(1)] _ ns(1)] Cons.prems(2) by fastforce
      moreover have "\<not> (\<exists>fd \<in> fds. conn_broken (snd_rc fd))"
        using Cons.prems(2) by blast
      ultimately show ?thesis
        using False ns(2) Tells Notify_eq [OF Cons.prems(1), of junk snd_rc m] by (simp add: packets_sent_def)
    qed
  qed
qed

text \<open>C36. However clients come and go, every message the resource manager has for them goes to each client that is connected then,
  in the order of their descriptors, as a packet with the message's type, camera, matrix, monitor, keyboard and operation, except
  a pan-tilt message of the same operation as the one told last, which goes to nobody whatever its camera, monitor or keyboard.  A
  client whose \<open>send\<close> fails without a reset is passed over.  A connection that turns out to be reset or closed while a message
  is packets_sent that is no repetition makes the loop go on with an erased iterator.\<close>

theorem notify_clients:
  assumes "cm_conns cm = []" and "cp_type (cm_last cm) \<noteq> 2" and "\<forall>fd. Joins fd \<in> set es \<longrightarrow> \<not> conn_broken (snd_rc fd)"
    and "clients_told {} None es = (fds, prev, ns)"
  shows "\<exists>cm'. cm_run junk snd_rc es cm =
      Inr (cm', concat (map (\<lambda>(to, m). map (\<lambda>fd. SockSend fd (client_notice junk m)) (filter (\<lambda>fd. 0 < fst (snd_rc fd)) to)) ns)) \<and>
    (\<forall>junk' rc m. ClientMgr_Notify junk' rc m cm' = Inl IteratorInvalidated \<longleftrightarrow>
       \<not> (\<exists>l. prev = Some l \<and> msg_type l = 2 \<and> msg_type m = 2 \<and> ptz_opt_type l = ptz_opt_type m) \<and>
       (\<exists>fd \<in> fds. fst (rc fd) = 0 \<or> fst (rc fd) < 0 \<and> snd (rc fd)))"
proof -
  have "cm_matches {} None cm"
    using assms(1,2) by (simp add: cm_matches_def)
  from run_tells [OF this _ assms(4)] assms(3) obtain cm' where
    run: "cm_run junk snd_rc es cm = Inr (cm', packets_sent junk snd_rc ns)" and m: "cm_matches fds prev cm'"
    by blast
  show ?thesis
    using run Notify_eq [OF m] by (auto simp: packets_sent_def repeats_ptz_def conn_broken_def)
qed

text \<open>Two clients, the one with the greater descriptor first, and a pan-tilt operation that is repeated for another camera.\<close>

definition demo_ptz :: "int \<Rightarrow> MCCKeyboardMessage" where
  "demo_ptz camera = (fst (MCCKeyboardMessage_new 0))\<lparr>msg_type := 2, ptz_opt_type := 8, camera_id := MCCGlobalID 1 camera\<rparr>"

theorem notify_clients_witness:
  "\<exists>cm'. cm_run demo_packet (\<lambda>_. (36, False)) [Joins 7, Joins 5, Tells (demo_ptz 3), Tells (demo_ptz 4), Leaves 7]
      \<lparr>cm_conns = [], cm_last = demo_packet\<rparr> =
    Inr (cm', [SockSend 5 (client_notice demo_packet (demo_ptz 3)), SockSend 7 (client_notice demo_packet (demo_ptz 3))])"
proof -
  have "clients_told {} None [Joins 7, Joins 5, Tells (demo_ptz 3), Tells (demo_ptz 4), Leaves 7] =
      ({5}, Some (demo_ptz 3), [([5, 7], demo_ptz 3)])"
    by (auto simp: repeats_ptz_def demo_ptz_def)
  from notify_clients [OF _ _ _ this, of "\<lparr>cm_conns = [], cm_last = demo_packet\<rparr>" "\<lambda>_. (36, False)" demo_packet] show ?thesis
    by (auto simp: conn_broken_def demo_packet_def)
qed

end
