(* ===== verification/Keyboard_Props.thy ===== *)
theory Keyboard_Props
  imports Keyboard_Manager Client_Manager
begin

text \<open>
  What the keyboard drivers and their manager guarantee: the framing of packets on a noisy line, the
  suppression of repeated packets, the delivery of queued commands to a matrix that polls, and the
  invariant of the manager's table of keyboards.
\<close>

section \<open>Framing\<close>

lemma Read_one_ok:
  assumes "sp_status p = MCC_SP_EOPEN" and "line_ok dev" and "line dev = b # bs" and "buf \<noteq> []"
  shows "\<exists>dev'. SerialPort_Read buf 0 1 p dev = Some (Inr (1, b # tl buf, dev')) \<and> line_ok dev' \<and> line dev' = bs"
proof -
  from os_read_ok [OF assms(2), of 1] assms(3) obtain dev' where
    r: "os_read 1 dev = Some (1, [b], dev')" and d: "line_ok dev'" "line dev' = bs"
    by (auto simp: le_Suc_eq)
  have "blit 0 [b] buf = Inr (b # tl buf)"
    using assms(4) by (cases buf) (auto simp: blit_def)
  then show ?thesis
    using assms(1) r d by (auto simp: SerialPort_Read_def)
qed

lemma sync_loop_ok:
  assumes "sp_status p = MCC_SP_EOPEN" and "line_ok dev" and "line dev = noise @ 0xff # rest" and "0xff \<notin> set noise" and "buf \<noteq> []"
  shows "\<exists>dev'. sync_loop buf p dev = Some (Inr (0xff # tl buf, dev')) \<and> line_ok dev' \<and> line dev' = rest"
  using assms
proof (induction noise arbitrary: buf dev)
  case Nil
  from Read_one_ok [OF Nil(1,2) _ Nil(5)] Nil(3) obtain dev' where
    "SerialPort_Read buf 0 1 p dev = Some (Inr (1, 0xff # tl buf, dev'))" "line_ok dev'" "line dev' = rest"
    by auto
  then show ?case
    by (subst sync_loop.simps) simp
next
  case (Cons b noise)
  from Read_one_ok [OF Cons.prems(1,2) _ Cons.prems(5)] Cons.prems(3) obtain dev1 where
    r: "SerialPort_Read buf 0 1 p dev = Some (Inr (1, b # tl buf, dev1))" and d: "line_ok dev1" "line dev1 = noise @ 0xff # rest"
    by auto
  from Cons.IH [OF Cons.prems(1) d _ , of "b # tl buf"] Cons.prems(4) obtain dev' where
    "sync_loop (b # tl buf) p dev1 = Some (Inr (0xff # tl buf, dev'))" "line_ok dev'" "line dev' = rest"
    by auto
  then show ?case
    using r Cons.prems(4) by (subst sync_loop.simps) auto
qed

lemma read_packet_ok:
  assumes "sp_status p = MCC_SP_EOPEN" and "line_ok dev" and "line dev = noise @ 0xff # body @ rest" and "0xff \<notin> set noise"
    and "length body = 7" and "length junk = 1024"
  shows "\<exists>dev'. read_packet junk p dev = Some (Inr (0xff # body @ drop 8 junk, dev')) \<and> line_ok dev' \<and> line dev' = rest"
proof -
  have "junk \<noteq> []"
    using assms(6) by auto
  from sync_loop_ok [OF assms(1-4) this] obtain dev1 where
    s: "sync_loop junk p dev = Some (Inr (0xff # tl junk, dev1))" and d: "line_ok dev1" "line dev1 = body @ rest"
    by blast
  have "\<exists>dev'. SerialPort_Readn (0xff # tl junk) (int 1) (int 7) p dev1 =
      Some (Inr (int 7, take 1 (0xff # tl junk) @ take 7 (line dev1) @ drop (1 + 7) (0xff # tl junk), dev')) \<and>
    line_ok dev' \<and> line dev' = drop 7 (line dev1)"
    using d assms by (intro Readn_ok) auto
  moreover have "drop 8 (0xff # tl junk) = drop 8 junk"
    using \<open>junk \<noteq> []\<close> by (cases junk) simp_all
  ultimately obtain dev' where
    "SerialPort_Readn (0xff # tl junk) 1 7 p dev1 = Some (Inr (7, 0xff # body @ drop 8 junk, dev'))" "line_ok dev'" "line dev' = rest"
    using d assms(5) by auto
  then show ?thesis
    using s by (simp add: read_packet_def)
qed

text \<open>The decoder looks at the first eight bytes only.\<close>

lemma buildMessage_prefix:
  "length p = 8 \<Longrightarrow> JXJ_buildMessageFromPacket kid mtx (p @ rest) msg = JXJ_buildMessageFromPacket kid mtx p msg"
proof -
  assume "length p = 8"
  then have "(p @ rest) ! 2 = p ! 2" "(p @ rest) ! 3 = p ! 3" "(p @ rest) ! 4 = p ! 4" "(p @ rest) ! 5 = p ! 5" "(p @ rest) ! 6 = p ! 6"
    by (simp_all add: nth_append)
  then show ?thesis
    by (simp only: JXJ_buildMessageFromPacket_def)
qed

lemma port_write_open: "sp_status sp = MCC_SP_EOPEN \<Longrightarrow> bs \<noteq> [] \<Longrightarrow> port_write c (PtrTo sp) bs = Inr [c bs]"
  by (simp add: port_write_def deref_def SerialPort_Write_def)

lemma JXJ_rx_packet:
  assumes "sp_status sp = MCC_SP_EOPEN" and "line_ok dev" and "line dev = noise @ 0xff # body @ rest" and "0xff \<notin> set noise"
    and "length body = 7" and "length junk = 1024"
    and "msg = JXJ_buildMessageFromPacket (kb_id kb) (km_matrixId st) (0xff # body) (fst (MCCKeyboardMessage_new (km_counter st)))"
  shows "\<exists>dev'. JXJ_OnRxKeyboardPacket junk dev sp kb st =
      Some (Inr (if msg_eq msg (kb_last kb)
        then (kb, st\<lparr>km_counter := wrap32 (km_counter st + 1)\<rparr>, if body ! 1 = 0x41 then [ToKeyboard confirm_packet] else [], dev')
        else (kb\<lparr>kb_last := msg\<rparr>, snd (KbMgr_Post msg (st\<lparr>km_counter := wrap32 (km_counter st + 1)\<rparr>)),
              if body ! 1 = 0x41 then [ToKeyboard confirm_packet] else [], dev'))) \<and>
    line dev' = rest \<and> line_ok dev'"
proof -
  obtain dev' where r: "read_packet junk sp dev = Some (Inr (0xff # body @ drop 8 junk, dev'))" "line_ok dev'" "line dev' = rest"
    using read_packet_ok [OF assms(1-6)] by blast
  have m: "JXJ_buildMessageFromPacket kid mtx (0xff # body @ drop 8 junk) m0 = JXJ_buildMessageFromPacket kid mtx (0xff # body) m0" for kid mtx m0
    using buildMessage_prefix [of "0xff # body" kid mtx "drop 8 junk" m0] assms(5) by simp
  have reg: "(0xff # body @ drop 8 junk) ! 2 = body ! 1"
    using assms(5) by (simp add: nth_append numeral_2_eq_2)
  have conf: "(if body ! 1 = 0x41 then port_write ToKeyboard (PtrTo sp) confirm_packet else Inr []) =
      Inr (if body ! 1 = 0x41 then [ToKeyboard confirm_packet] else [])"
    using assms(1) by (simp add: port_write_open confirm_packet_def)
  have new: "MCCKeyboardMessage_new (km_counter st) = (fst (MCCKeyboardMessage_new (km_counter st)), wrap32 (km_counter st + 1))"
    by (simp add: MCCKeyboardMessage_new_def)
  have "JXJ_OnRxKeyboardPacket junk dev sp kb st =
      Some (Inr (if msg_eq msg (kb_last kb)
        then (kb, st\<lparr>km_counter := wrap32 (km_counter st + 1)\<rparr>, if body ! 1 = 0x41 then [ToKeyboard confirm_packet] else [], dev')
        else (kb\<lparr>kb_last := msg\<rparr>, snd (KbMgr_Post msg (st\<lparr>km_counter := wrap32 (km_counter st + 1)\<rparr>)),
              if body ! 1 = 0x41 then [ToKeyboard confirm_packet] else [], dev')))"
    unfolding JXJ_OnRxKeyboardPacket_def r(1) option.case sum.case prod.case reg conf bindr_simps Let_def m
    by (subst new) (simp add: assms(7))
  then show ?thesis
    using r(2,3) by blast
qed

text \<open>C18. On a line that first carries noise, in whatever pieces the bytes arrive, the driver finds the next packet, posts the
  message it decodes to unless it equals the message posted last, answers a registration, and leaves the line at
  the byte after the packet.\<close>

theorem JXJ_keyboard_framing:
  assumes "sp_status sp = MCC_SP_EOPEN" and "line_ok dev" and "line dev = noise @ 0xff # body @ rest" and "0xff \<notin> set noise"
    and "length body = 7" and "length junk = 1024"
    and "msg = JXJ_buildMessageFromPacket (kb_id kb) (km_matrixId st) (0xff # body) (fst (MCCKeyboardMessage_new (km_counter st)))"
  shows "\<exists>dev' kb' st'. JXJ_OnRxKeyboardPacket junk dev sp kb st =
      Some (Inr (kb', st', if body ! 1 = 0x41 then [ToKeyboard confirm_packet] else [], dev')) \<and>
    line dev' = rest \<and> line_ok dev' \<and>
    (if msg_eq msg (kb_last kb) then kb' = kb \<and> km_fifo st' = km_fifo st
     else kb' = kb\<lparr>kb_last := msg\<rparr> \<and> km_fifo st' = Squeue_add msg (km_fifo st))"
  using JXJ_rx_packet [OF assms]
  by (cases "msg_eq msg (kb_last kb)") (fastforce simp: KbMgr_Post_def)+

definition demo_port :: SerialPort where
  "demo_port = SerialPort_new\<lparr>sp_status := MCC_SP_EOPEN, sp_fd := 4, sp_rxthread := True\<rparr>"

definition demo_keyboard :: MCCKeyboard where
  "demo_keyboard = (fst (MCCKeyboard_new KbJXJ 0 demo_manager))\<lparr>kb_loaded := True, kb_keyboard := PtrTo demo_port, kb_matrix := PtrTo demo_port\<rparr>"

lemma demo_port_open [simp]: "sp_status demo_port = MCC_SP_EOPEN"
  by (simp add: demo_port_def)

theorem JXJ_keyboard_framing_witness:
  "\<exists>dev' kb' st'. JXJ_OnRxKeyboardPacket (replicate 1024 0) [Data [1], Data [0xff, 0, 0x11, 0], Data [5, 3, 0x55, 0x6e, 9]] demo_port demo_keyboard demo_manager =
      Some (Inr (kb', st', [], dev')) \<and> line dev' = [9]"
proof -
  let ?dev = "[Data [1], Data [0xff, 0, 0x11, 0], Data [5, 3, 0x55, 0x6e, 9]]"
  have "line_ok ?dev" and "line ?dev = [1] @ 0xff # [0, 0x11, 0, 5, 3, 0x55, 0x6e] @ [9]" and "(0xff :: byte) \<notin> set [1]"
    and "length [0 :: byte, 0x11, 0, 5, 3, 0x55, 0x6e] = 7"
    by (simp_all add: line_ok_def)
  from JXJ_keyboard_framing [OF demo_port_open this, of "replicate 1024 0" _ demo_keyboard demo_manager, OF length_replicate refl]
  show ?thesis
    by auto
qed

section \<open>Delivery to a polling matrix\<close>

text \<open>Polls of the matrix, one byte each.\<close>

definition poll_of :: "int \<Rightarrow> byte" where
  "poll_of k = word_of_int (0x50 + k)"

fun polls :: "nat \<Rightarrow> SerialPort \<Rightarrow> MCCKeyboard \<Rightarrow> MCCKeyboardManager \<Rightarrow> (MCCKeyboard \<times> MCCKeyboardManager \<times> kb_out list) result option" where
  "polls 0 sp kb st = Some (Inr (kb, st, []))"
| "polls (Suc n) sp kb st =
    (case JXJ_OnRxMatrixPacket 8 [Data [poll_of (kb_id kb)]] sp kb st of
       None \<Rightarrow> None
     | Some (Inl e) \<Rightarrow> Some (Inl e)
     | Some (Inr (kb, st, outs, _)) \<Rightarrow>
         (case polls n sp kb st of
            None \<Rightarrow> None
          | Some (Inl e) \<Rightarrow> Some (Inl e)
          | Some (Inr (kb, st, outs')) \<Rightarrow> Some (Inr (kb, st, outs @ outs'))))"

definition poll_ready :: "SerialPort \<Rightarrow> MCCKeyboard \<Rightarrow> MCCKeyboardManager \<Rightarrow> bool" where
  "poll_ready sp kb st \<longleftrightarrow> sp_status sp = MCC_SP_EOPEN \<and> 0 \<le> kb_id kb \<and> kb_id kb < 4 \<and> ms_rcv_cnt (km_jxj st) \<noteq> 0 \<and>
     length (ms_buf (km_jxj st)) = 8"

lemma poll_byte: "0 \<le> k \<Longrightarrow> k < 4 \<Longrightarrow> uint (poll_of k) = 0x50 + k"
  unfolding poll_of_def uint_word_of_int by simp

lemma poll_switch:
  assumes "poll_ready sp kb st" and "q_list (kb_fifo kb) = m # ms" and "msg_type m = eKBMsg_SWITCH"
  shows "\<exists>kb' st' dev'. JXJ_OnRxMatrixPacket 8 [Data [poll_of (kb_id kb)]] sp kb st =
      Some (Inr (kb', st', [ToMatrix (JXJ_switch_packet (lid (camera_id m)) (monitor_id m))], dev')) \<and>
    poll_ready sp kb' st' \<and> q_list (kb_fifo kb') = ms \<and> st'\<lparr>km_jxj := km_jxj st\<rparr> = st \<and> kb' = kb\<lparr>kb_fifo := kb_fifo kb'\<rparr>"
proof -
  have "JXJ_switch_packet (lid (camera_id m)) (monitor_id m) \<noteq> []"
    by (simp add: JXJ_switch_packet_def Let_def)
  moreover have "length (JXJ_switch_packet (lid (camera_id m)) (monitor_id m)) = 8"
    by (simp add: JXJ_switch_packet_def Let_def)
  ultimately show ?thesis
    using assms
    by (auto simp: JXJ_OnRxMatrixPacket_def SerialPort_Read_def blit_def matrix_poll_def deQueue_def poll_ready_def poll_byte
        port_write_open buildPacket_switch_packet Let_def)
qed

lemma polls_deliver:
  "poll_ready sp kb st \<Longrightarrow> q_list (kb_fifo kb) = ms @ rest \<Longrightarrow> \<forall>m \<in> set ms. msg_type m = eKBMsg_SWITCH \<Longrightarrow>
   \<exists>kb' st'. polls (length ms) sp kb st =
     Some (Inr (kb', st', map (\<lambda>m. ToMatrix (JXJ_switch_packet (lid (camera_id m)) (monitor_id m))) ms)) \<and> q_list (kb_fifo kb') = rest"
proof (induction ms arbitrary: kb st)
  case (Cons m ms)
  from poll_switch [OF Cons.prems(1), of m "ms @ rest"] Cons.prems obtain kb1 st1 dev1 where
    p: "JXJ_OnRxMatrixPacket 8 [Data [poll_of (kb_id kb)]] sp kb st =
      Some (Inr (kb1, st1, [ToMatrix (JXJ_switch_packet (lid (camera_id m)) (monitor_id m))], dev1))"
    and r: "poll_ready sp kb1 st1" "q_list (kb_fifo kb1) = ms @ rest"
    by auto
  from Cons.IH [OF r] Cons.prems(3) show ?case
    by (auto simp: p)
qed simp

text \<open>C19. Queued switch commands reach the matrix: once the driver is registered, each poll of the matrix is answered with the
  oldest queued command, so that as many polls as there are commands deliver all of them, in the order queued.\<close>

theorem JXJ_polls_deliver:
  assumes "poll_ready sp kb st" and "q_list (kb_fifo kb) = ms @ rest" and "\<forall>m \<in> set ms. msg_type m = eKBMsg_SWITCH"
  shows "\<exists>kb' st'. polls (length ms) sp kb st =
     Some (Inr (kb', st', map (\<lambda>m. ToMatrix (JXJ_switch_packet (lid (camera_id m)) (monitor_id m))) ms)) \<and> q_list (kb_fifo kb') = rest"
  using assms by (rule polls_deliver)

theorem JXJ_polls_deliver_witness:
  "\<exists>kb' st'. polls 1 demo_port
     (demo_keyboard\<lparr>kb_id := 0, kb_fifo := \<lparr>q_list = [(fst (MCCKeyboardMessage_new 0))\<lparr>msg_type := eKBMsg_SWITCH, camera_id := MCCGlobalID 1 5, monitor_id := 3\<rparr>]\<rparr>\<rparr>)
     (demo_manager\<lparr>km_jxj := \<lparr>ms_buf = replicate 8 0, ms_rcv_cnt = 1, ms_msg = fst (MCCKeyboardMessage_new 0)\<rparr>\<rparr>) =
     Some (Inr (kb', st', [ToMatrix (JXJ_switch_packet 5 3)])) \<and> q_list (kb_fifo kb') = []"
  using JXJ_polls_deliver [of demo_port
     "demo_keyboard\<lparr>kb_id := 0, kb_fifo := \<lparr>q_list = [(fst (MCCKeyboardMessage_new 0))\<lparr>msg_type := eKBMsg_SWITCH, camera_id := MCCGlobalID 1 5, monitor_id := 3\<rparr>]\<rparr>\<rparr>"
     "demo_manager\<lparr>km_jxj := \<lparr>ms_buf = replicate 8 0, ms_rcv_cnt = 1, ms_msg = fst (MCCKeyboardMessage_new 0)\<rparr>\<rparr>"
     "[(fst (MCCKeyboardMessage_new 0))\<lparr>msg_type := eKBMsg_SWITCH, camera_id := MCCGlobalID 1 5, monitor_id := 3\<rparr>]" "[]"]
  by (simp add: poll_ready_def del: polls.simps)

text \<open>The CZ08 and RC drivers read up to five bytes of the matrix line into a single character: whenever the line holds more
  than one byte, the read writes past the variable.\<close>

theorem matrix_read_overflow:
  assumes "sp_status sp = MCC_SP_EOPEN" and "1 < length bs"
  shows "CZ08_OnRxMatrixPacket (Data bs # dev) sp kb st = Some (Inl OutOfBounds) \<and>
    RC_OnRxMatrixPacket (Data bs # dev) sp kb st = Some (Inl OutOfBounds)"
proof -
  have "take 5 bs \<noteq> []" and "1 < length (take 5 bs)"
    using assms(2) by auto
  then have "blit 0 (take 5 bs) [0] = Inl OutOfBounds"
    by (simp add: blit_def)
  then show ?thesis
    using assms(1) by (simp add: RC_OnRxMatrixPacket_def CZ08_OnRxMatrixPacket_def SerialPort_Read_def)
qed

theorem matrix_read_overflow_witness:
  "CZ08_OnRxMatrixPacket [Data [1, 2]] demo_port demo_keyboard demo_manager = Some (Inl OutOfBounds)"
  using matrix_read_overflow [of demo_port "[1, 2]" "[]" demo_keyboard demo_manager] by simp

section \<open>The table of keyboards\<close>

text \<open>Each loaded keyboard carries the number of its entry, and the entries beyond the configured number are empty.\<close>

definition km_ok :: "MCCKeyboardManager \<Rightarrow> bool" where
  "km_ok st \<longleftrightarrow> length (km_keyboards st) = 4 \<and> km_max st \<le> 4 \<and>
     (\<forall>i < 4. \<forall>kb. km_keyboards st ! i = Some kb \<longrightarrow> kb_id kb = int i \<and> int i < km_max st)"

definition same_table :: "MCCKeyboardManager \<Rightarrow> MCCKeyboardManager \<Rightarrow> bool" where
  "same_table st st' \<longleftrightarrow> km_keyboards st' = km_keyboards st \<and> km_max st' = km_max st \<and>
     km_matrixId st' = km_matrixId st \<and> km_handler st' = km_handler st"

lemma same_table_refl [simp]: "same_table st st"
  by (simp add: same_table_def)

lemma same_table_trans: "same_table a b \<Longrightarrow> same_table b c \<Longrightarrow> same_table a c"
  by (simp add: same_table_def)

lemma same_table_ok: "same_table st st' \<Longrightarrow> km_ok st' = km_ok st"
  by (simp add: same_table_def km_ok_def)

lemma nth_update_Some: "xs[k := v] ! i = Some x \<Longrightarrow> i = k \<and> v = Some x \<or> xs ! i = Some x"
  by (cases "i = k"; cases "k < length xs") (auto simp: list_update_beyond)

lemma km_ok_update:
  assumes "km_ok st" and "\<And>kb. v = Some kb \<Longrightarrow> kb_id kb = int k \<and> int k < km_max st"
  shows "km_ok (st\<lparr>km_keyboards := (km_keyboards st)[k := v]\<rparr>)"
  using assms nth_update_Some [of "km_keyboards st" k v] unfolding km_ok_def by simp blast

lemma km_ok_set_keyboard:
  assumes "km_ok st" and "km_keyboards st ! nat i = Some kb" and "0 \<le> i" and "i < 4" and "same_table st st'"
    and "kb_id kb' = kb_id kb"
  shows "km_ok (set_keyboard i (Some kb') st')"
proof -
  have "kb_id kb = int (nat i) \<and> int (nat i) < km_max st"
    using assms(1-4) unfolding km_ok_def by (metis nat_less_iff of_nat_numeral)
  then show ?thesis
    using assms km_ok_update [of st' "Some kb'" "nat i"] same_table_ok [OF assms(5)]
    by (simp add: set_keyboard_def same_table_def)
qed

lemma km_ok_clear: "km_ok st \<Longrightarrow> km_ok (set_keyboard i None st)"
  unfolding set_keyboard_def by (rule km_ok_update) auto

lemma update_virtual_table: "update_virtual junk snd_rc msg st = Inr (st', outs) \<Longrightarrow> same_table st st'"
  by (auto simp: update_virtual_def Virtual_Update_def same_table_def bindr_Inr_iff Let_def split: option.splits if_splits)

lemmas send_defs = JXJ_SendSwitch_def JXJ_SendPtz_def JXJEn_SendSwitch_def JXJEn_SendPtz_def CZ08_SendSwitch_def CZ08_SendPtz_def
  RC_SendSwitch_def RC_SendPtz_def

lemma kb_SendSwitch_table:
  "kb_SendSwitch e msg kb st = Inr (msg', kb', st', outs) \<Longrightarrow> same_table st st' \<and> kb_id kb' = kb_id kb"
  by (cases "kb_class kb")
     (auto simp: kb_SendSwitch_def send_defs bindr_Inr_iff Let_def dest: update_virtual_table split: prod.splits if_splits)

lemma kb_SendPtz_table:
  "kb_SendPtz e msg kb st = Inr (kb', st', outs) \<Longrightarrow> same_table st st' \<and> kb_id kb' = kb_id kb"
  by (cases "kb_class kb") (auto simp: kb_SendPtz_def send_defs bindr_Inr_iff dest: update_virtual_table)

lemma JXJ_rx_table:
  "JXJ_OnRxKeyboardPacket junk dev sp kb st = Some (Inr (kb', st', outs, dev')) \<Longrightarrow> same_table st st' \<and> kb_id kb' = kb_id kb"
  unfolding JXJ_OnRxKeyboardPacket_def
  by (cases "read_packet junk sp dev" rule: option.exhaust)
     (auto simp: KbMgr_Post_def same_table_def MCCKeyboardMessage_new_def bindr_Inr_iff Let_def split: sum.splits if_split_asm)

lemma CZ08_rx_table:
  "CZ08_OnRxKeyboardPacket junk dev sp kb st = Some (Inr (kb', st', outs, dev')) \<Longrightarrow> same_table st st' \<and> kb_id kb' = kb_id kb"
  unfolding CZ08_OnRxKeyboardPacket_def
  by (cases "read_packet junk sp dev" rule: option.exhaust)
     (auto simp: KbMgr_Post_def same_table_def MCCKeyboardMessage_new_def bindr_Inr_iff Let_def split: sum.splits if_split_asm)

text \<open>The handlers of JXJ-EN and of RC are copies of those of JXJ and of CZ08.\<close>

lemma handler_copies:
  "JXJEn_OnRxKeyboardPacket = JXJ_OnRxKeyboardPacket"
  "RC_OnRxKeyboardPacket = CZ08_OnRxKeyboardPacket"
  by (intro ext; simp only: JXJEn_OnRxKeyboardPacket_def JXJ_OnRxKeyboardPacket_def RC_OnRxKeyboardPacket_def
      CZ08_OnRxKeyboardPacket_def packet_decoders)+

lemma Generic_rx_table:
  "Generic_OnRxKeyboardPacket l start junk dev sp kb st = Some (Inr (kb', st', outs, dev')) \<Longrightarrow> same_table st st' \<and> kb_id kb' = kb_id kb"
  by (auto simp: Generic_OnRxKeyboardPacket_def split: option.splits sum.splits prod.splits if_splits)

lemma rx_keyboard_table:
  "kb_OnRxKeyboardPacket e dev sp kb st = Some (Inr (kb', st', outs, dev')) \<Longrightarrow> same_table st st' \<and> kb_id kb' = kb_id kb"
  by (cases "kb_class kb")
     (auto simp: kb_OnRxKeyboardPacket_def handler_copies dest: JXJ_rx_table CZ08_rx_table Generic_rx_table)

lemma matrix_poll_id: "matrix_poll build wrc b sp kb ms = Inr (kb', ms', outs) \<Longrightarrow> kb_id kb' = kb_id kb"
  by (auto simp: matrix_poll_def bindr_Inr_iff Let_def split: prod.splits if_splits)

lemma rx_matrix_table:
  "kb_OnRxMatrixPacket e dev sp kb st = Some (Inr (kb', st', outs, dev')) \<Longrightarrow> same_table st st' \<and> kb_id kb' = kb_id kb"
  by (cases "kb_class kb")
     (auto simp: kb_OnRxMatrixPacket_def JXJ_OnRxMatrixPacket_def JXJEn_OnRxMatrixPacket_def CZ08_OnRxMatrixPacket_def
        RC_OnRxMatrixPacket_def Generic_OnRxMatrixPacket_def same_table_def bindr_Inr_iff
        dest: matrix_poll_id split: option.splits sum.splits prod.splits if_splits)

lemma on_recv_table:
  "MCCKeyboard_on_recv e b dev kb st = Some (Inr (kb', st', outs, dev')) \<Longrightarrow> same_table st st' \<and> kb_id kb' = kb_id kb"
  by (auto simp: MCCKeyboard_on_recv_def dest: rx_keyboard_table rx_matrix_table split: sp_ptr.splits if_splits)

lemma poll_loop_table: "poll_loop e h msg pre fds st outs = Inr (h', conns, st', outs') \<Longrightarrow> same_table st st'"
proof (induction fds arbitrary: h msg pre st outs)
  case (Cons fd fds)
  have "same_table (snd (KbMgr_Post m st)) st' \<Longrightarrow> same_table st st'" for m
    by (simp add: KbMgr_Post_def same_table_def)
  then show ?case
    using Cons.prems by (auto simp: Let_def dest!: Cons.IH split: if_splits prod.splits)
qed auto

lemma PollClientFd_table: "PollClientFd e kb st = Inr (h, kb', st', outs) \<Longrightarrow> same_table st st' \<and> kb_id kb' = kb_id kb"
proof -
  have "same_table (st\<lparr>km_counter := n\<rparr>) st' \<Longrightarrow> same_table st st'" for n
    by (simp add: same_table_def)
  moreover assume "PollClientFd e kb st = Inr (h, kb', st', outs)"
  ultimately show ?thesis
    by (auto simp: PollClientFd_def MCCKeyboardMessage_new_def bindr_Inr_iff dest!: poll_loop_table split: if_splits)
qed

lemma Virtual_turn_table: "Virtual_thread_turn e fd again kb st = Inr (kb', st', outs) \<Longrightarrow> same_table st st' \<and> kb_id kb' = kb_id kb"
  by (auto simp: Virtual_thread_turn_def bindr_Inr_iff Let_def dest!: PollClientFd_table split: if_splits)

lemma onReadable_table: "same_table st (ClientMgr_onReadable bs st)"
proof (induction bs st rule: ClientMgr_onReadable.induct)
  case (1 bs st)
  have "same_table st (onClientPacket (bytes_packet bs) st)"
    by (simp add: onClientPacket_eq same_table_def)
  with 1 show ?case
    by (subst ClientMgr_onReadable.simps) (auto intro: same_table_trans)
qed

lemma KbMgr_Create_table: "KbMgr_Create name junk st = Inr (kb, st1) \<Longrightarrow> same_table st st1"
  by (auto simp: KbMgr_Create_def GetFactory_def MCCKeyboard_new_def MCCKeyboardMessage_new_def same_table_def
      split: option.splits if_splits)

lemma load_keyboard_cases:
  assumes "load_keyboard load name junk k st = Some (Inr (rc, st'))"
  obtains "st' = st"
  | kb st1 where "KbMgr_Create name junk st = Inr (kb, st1)" and "st' = st1"
  | kb st1 kb' where "KbMgr_Create name junk st = Inr (kb, st1)" and "0 \<le> k" and "k < km_max st"
      and "st' = set_keyboard k (Some (kb'\<lparr>kb_id := k\<rparr>)) st1"
  using assms by (auto simp: load_keyboard_def split: if_splits sum.splits option.splits)

lemma load_keyboard_ok:
  assumes "load_keyboard load name junk k st = Some (Inr (rc, st'))" and "km_ok st"
  shows "km_ok st'"
  using assms(1)
proof (cases rule: load_keyboard_cases)
  case (2 kb st1)
  then show ?thesis
    using assms(2) same_table_ok [OF KbMgr_Create_table] by blast
next
  case (3 kb st1 kb')
  then have t: "same_table st st1"
    by (auto intro: KbMgr_Create_table)
  with assms(2) have "km_ok st1"
    by (simp add: same_table_ok)
  then show ?thesis
    unfolding 3(4) set_keyboard_def using 3(2,3) t by (intro km_ok_update) (auto simp: same_table_def)
qed (use assms(2) in simp)

inductive km_step :: "MCCKeyboardManager \<Rightarrow> MCCKeyboardManager \<Rightarrow> bool" where
  load: "LoadKeyboard env junk name kbd mtx b d s q k st = Some (Inr (rc, st')) \<Longrightarrow> km_step st st'"
| load_setup: "LoadKeyboard_setup env junk name kbd mtx setup k st = Some (Inr (rc, st')) \<Longrightarrow> km_step st st'"
| unload: "UnloadKeyboard c k st = Inr (rc, st') \<Longrightarrow> km_step st st'"
| send_switch: "KbMgr_SendSwitch e k msg st = Inr (msg', st', outs) \<Longrightarrow> km_step st st'"
| send_ptz: "KbMgr_SendPtz e k msg st = Inr (st', outs) \<Longrightarrow> km_step st st'"
| receive: "0 \<le> k \<Longrightarrow> k < 4 \<Longrightarrow> km_keyboards st ! nat k = Some kb \<Longrightarrow>
    MCCKeyboard_on_recv re b dev kb st = Some (Inr (kb', st', outs, dev')) \<Longrightarrow> km_step st (set_keyboard k (Some kb') st')"
| virtual_turn: "0 \<le> k \<Longrightarrow> k < 4 \<Longrightarrow> km_keyboards st ! nat k = Some kb \<Longrightarrow>
    Virtual_thread_turn pe fd again kb st = Inr (kb', st', outs) \<Longrightarrow> km_step st (set_keyboard k (Some kb') st')"
| client: "km_step st (ClientMgr_onReadable bs st)"
| turn: "KbMgr_thread_turn wakes st = Some (Inr (evs, st')) \<Longrightarrow> km_step st st'"
| set_matrix: "km_step st (SetMatrixId m st)"
| set_handler: "km_step st (SetResourceManager h st)"

inductive km_reach :: "MCCKeyboardManager \<Rightarrow> bool" where
  km_start: "km_reach (MCCKeyboardManager_new mx junk n zero)"
| km_next: "km_reach st \<Longrightarrow> km_step st st' \<Longrightarrow> km_reach st'"

lemma km_ok_send_switch: "km_ok st \<Longrightarrow> KbMgr_SendSwitch e k msg st = Inr (msg', st', outs) \<Longrightarrow> km_ok st'"
  by (auto simp: KbMgr_SendSwitch_def kb_at_def bindr_Inr_iff dest!: kb_SendSwitch_table intro: km_ok_set_keyboard
      split: if_splits option.splits)

lemma km_ok_send_ptz: "km_ok st \<Longrightarrow> KbMgr_SendPtz e k msg st = Inr (st', outs) \<Longrightarrow> km_ok st'"
  by (auto simp: KbMgr_SendPtz_def kb_at_def bindr_Inr_iff dest!: kb_SendPtz_table intro: km_ok_set_keyboard
      split: if_splits option.splits)

lemma km_ok_unload: "km_ok st \<Longrightarrow> UnloadKeyboard c k st = Inr (rc, st') \<Longrightarrow> km_ok st'"
  by (auto simp: UnloadKeyboard_def kb_at_def bindr_Inr_iff intro: km_ok_clear split: if_splits option.splits)

lemma km_ok_turn: "km_ok st \<Longrightarrow> KbMgr_thread_turn wakes st = Some (Inr (evs, st')) \<Longrightarrow> km_ok st'"
  by (auto simp: KbMgr_thread_turn_def bindr_Inr_iff km_ok_def Let_def split: option.splits)

lemma km_ok_step: "km_step st st' \<Longrightarrow> km_ok st \<Longrightarrow> km_ok st'"
proof (induction rule: km_step.induct)
  case (receive k st kb re b dev kb' st' outs dev')
  then show ?case
    using on_recv_table by (blast intro: km_ok_set_keyboard)
next
  case (virtual_turn k st kb pe fd again kb' st' outs)
  then show ?case
    using Virtual_turn_table by (blast intro: km_ok_set_keyboard)
next
  case (client st bs)
  then show ?case
    by (simp add: same_table_ok [OF onReadable_table])
qed (auto simp: LoadKeyboard_def LoadKeyboard_setup_def SetMatrixId_def SetResourceManager_def km_ok_def
     dest: load_keyboard_ok [unfolded km_ok_def] km_ok_send_switch [unfolded km_ok_def, rotated] km_ok_send_ptz [unfolded km_ok_def, rotated]
       km_ok_unload [unfolded km_ok_def, rotated] km_ok_turn [unfolded km_ok_def, rotated])

lemma km_ok_new: "km_ok (MCCKeyboardManager_new mx junk n zero)"
  by (auto simp: km_ok_def MCCKeyboardManager_new_def MCC_MAX_KEYBOARD_NUMBER_def MCCKeyboardMessage_new_def nth_Cons eval_nat_numeral split: nat.splits)

text \<open>In every state that loading, unloading, sending, receiving and the threads lead to, the table has four entries, each
  loaded keyboard carries the number of its entry, and no entry from the configured number on is used.\<close>

theorem keyboard_table_invariant: "km_reach st \<Longrightarrow> km_ok st"
proof (induction rule: km_reach.induct)
  case (km_start mx junk n zero)
  then show ?case by (rule km_ok_new)
qed (rule km_ok_step)

theorem keyboard_table_invariant_witness: "km_ok (MCCKeyboardManager_new 9 0 0 demo_packet)"
  by (rule keyboard_table_invariant [OF km_start])

section \<open>Loading a keyboard\<close>

definition opens :: "open_env \<Rightarrow> bool" where
  "opens e \<longleftrightarrow> 0 \<le> oe_open e \<and> oe_get e \<noteq> None \<and> 0 \<le> oe_set e \<and> 0 \<le> oe_flush e \<and> oe_thread e = 0"

lemma Open_opens:
  assumes "opens e" and "length file < 256" and "sp_status p = MCC_SP_ECLOSED"
  shows "\<exists>calls. SerialPort_Open e file b d s q p = Inr (0, p\<lparr>sp_fd := oe_open e, sp_rxthread := True, sp_status := MCC_SP_EOPEN,
    sp_baudrate := b, sp_databits := d, sp_stopbits := s, sp_parity := q, sp_file := file\<rparr>, calls)"
  using assms by (auto simp: opens_def SerialPort_Open_def SerialPort_Setup_def Let_def)

definition setup_text :: "nat \<Rightarrow> nat \<Rightarrow> nat \<Rightarrow> char \<Rightarrow> string" where
  "setup_text b d s q = join_fields CHR '','' [nat_digits b, nat_digits d, nat_digits s, [q]]"

lemma split_setup:
  assumes "q \<noteq> CHR '',''"
  shows "StringUtil_split (setup_text b d s q) '','' [] = Some (0, [nat_digits b, nat_digits d, nat_digits s, [q]])"
proof -
  have "CHR '','' \<notin> set (nat_digits n)" for n
    using nat_digits_all_digits [of "CHR '',''" n] by (auto simp: is_digit_def)
  then have "Util_String.fields CHR '','' (setup_text b d s q) = [nat_digits b, nat_digits d, nat_digits s, [q]]"
    unfolding setup_text_def using assms by (intro fields_join) auto
  moreover have "setup_text b d s q \<noteq> []"
    by (simp add: setup_text_def)
  ultimately show ?thesis
    by (simp add: split_fields)
qed

lemma load_jxj:
  assumes "0 \<le> k" and "k < km_max st" and "km_keyboards st ! nat k = None" and "km_factories st ''jxj'' = Some (Some KbJXJ)"
    and "opens (le_keyboard env)" and "opens (le_matrix env)" and "le_thread env = 0"
    and "length keyboard < 256" and "length matrix < 256"
    and "int b < 2 ^ 31" and "int d < 2 ^ 31" and "int s < 2 ^ 31" and "q \<noteq> CHR '',''"
  shows "\<exists>kb kp mp. LoadKeyboard_setup env junk ''jxj'' keyboard matrix (setup_text b d s q) k st =
      Some (Inr (0, set_keyboard k (Some kb) (st\<lparr>km_counter := wrap32 (km_counter st + 1)\<rparr>))) \<and>
    kb_class kb = KbJXJ \<and> kb_id kb = k \<and> kb_loaded kb \<and> map_option th_state (kb_query kb) = Some RUNNING \<and> q_list (kb_fifo kb) = [] \<and>
    kb_keyboard kb = PtrTo kp \<and> kb_matrix kb = PtrTo mp \<and> sp_file kp = keyboard \<and> sp_file mp = matrix \<and>
    (\<forall>p \<in> {kp, mp}. SerialPort_isOpen p \<and> sp_baudrate p = int b \<and> sp_databits p = int d \<and> sp_stopbits p = int s \<and> sp_parity p = of_char q) \<and>
    LoadKeyboard env junk ''jxj'' keyboard matrix (int b) (int d) (int s) (of_char q) k st =
      Some (Inr (0, set_keyboard k (Some kb) (st\<lparr>km_counter := wrap32 (km_counter st + 1)\<rparr>)))"
proof -
  let ?fresh = "fst (MCCKeyboard_new KbJXJ junk st)"
  let ?port = "\<lambda>e file. (snd (RegisterListener k SerialPort_new))\<lparr>sp_fd := oe_open e, sp_rxthread := True, sp_status := MCC_SP_EOPEN,
    sp_baudrate := int b, sp_databits := int d, sp_stopbits := int s, sp_parity := of_char q, sp_file := file\<rparr>"
  let ?kp = "?port (le_keyboard env) keyboard" and ?mp = "?port (le_matrix env) matrix"
  let ?kb = "?fresh\<lparr>kb_keyboard := PtrTo ?kp, kb_matrix := PtrTo ?mp, kb_loaded := True, kb_query := Some (snd (ThreadIf_Start 0 ThreadIf_new))\<rparr>"
  have closed: "sp_status (snd (RegisterListener k SerialPort_new)) = MCC_SP_ECLOSED"
    by (simp add: RegisterListener_def SerialPort_new_def)
  obtain c1 where o1: "SerialPort_Open (le_keyboard env) keyboard (int b) (int d) (int s) (of_char q) (snd (RegisterListener k SerialPort_new)) = Inr (0, ?kp, c1)"
    using Open_opens [OF assms(5,8) closed] by blast
  obtain c2 where o2: "SerialPort_Open (le_matrix env) matrix (int b) (int d) (int s) (of_char q) (snd (RegisterListener k SerialPort_new)) = Inr (0, ?mp, c2)"
    using Open_opens [OF assms(6,9) closed] by blast
  have "kb_Load env k keyboard matrix (int b) (int d) (int s) (of_char q) ?fresh = Inr (0, ?kb)"
    by (simp add: kb_Load_def JXJ_Load_def MCCKeyboard_Load_def o1 o2 MCCKeyboard_new_def MCCKeyboardMessage_new_def assms(7)
        start_query_def ThreadIf_Start_def ThreadIf_new_def)
  note kb_load = this
  then have load: "MCCKeyboard_Load_setup env k keyboard matrix (setup_text b d s q) ?fresh = Some (Inr (0, ?kb))"
    using assms(10-12) by (simp add: MCCKeyboard_Load_setup_def split_setup [OF assms(13)] atoi_nat_digits first_char_def)
  have "KbMgr_Create ''jxj'' junk st = Inr (?fresh, st\<lparr>km_counter := wrap32 (km_counter st + 1)\<rparr>)"
    by (simp add: KbMgr_Create_def GetFactory_def assms(4) MCCKeyboard_new_def MCCKeyboardMessage_new_def)
  then have "LoadKeyboard_setup env junk ''jxj'' keyboard matrix (setup_text b d s q) k st =
      Some (Inr (0, set_keyboard k (Some (?kb\<lparr>kb_id := k\<rparr>)) (st\<lparr>km_counter := wrap32 (km_counter st + 1)\<rparr>)))"
    and "LoadKeyboard env junk ''jxj'' keyboard matrix (int b) (int d) (int s) (of_char q) k st =
      Some (Inr (0, set_keyboard k (Some (?kb\<lparr>kb_id := k\<rparr>)) (st\<lparr>km_counter := wrap32 (km_counter st + 1)\<rparr>)))"
    using assms(1-3) load kb_load by (simp_all add: LoadKeyboard_setup_def LoadKeyboard_def load_keyboard_def)
  then show ?thesis
    by (intro exI [of _ "?kb\<lparr>kb_id := k\<rparr>"] exI [of _ ?kp] exI [of _ ?mp])
      (simp add: MCCKeyboard_new_def MCCKeyboardMessage_new_def ThreadIf_Start_def ThreadIf_new_def SerialPort_isOpen_def)
qed

text \<open>C30. Loading a JXJ keyboard into a free entry returns 0 and enters a loaded keyboard with that number, its two lines open on
  the two device files with the settings given, its query thread running; the other entries stay.  The form with a setup text
  \<open>speed,databits,stopbits,parity\<close> and the form with four numbers do the same.  Both return -1 and change nothing for a used
  entry and for every number that is negative or not below the size of the table, and both dereference a null factory for a name
  that is not registered.\<close>

theorem keyboard_loaded_as_configured:
  assumes "0 \<le> k" and "k < km_max st" and "km_keyboards st ! nat k = None" and "length (km_keyboards st) = 4" and "km_max st \<le> 4"
    and "km_factories st ''jxj'' = Some (Some KbJXJ)" and "km_factories st bad = None"
    and "opens (le_keyboard env)" and "opens (le_matrix env)" and "le_thread env = 0"
    and "length keyboard < 256" and "length matrix < 256"
    and "int b < 2 ^ 31" and "int d < 2 ^ 31" and "int s < 2 ^ 31" and "q \<noteq> CHR '',''"
  shows "(\<exists>st' kb kp mp. LoadKeyboard_setup env junk ''jxj'' keyboard matrix (setup_text b d s q) k st = Some (Inr (0, st')) \<and>
      LoadKeyboard env junk ''jxj'' keyboard matrix (int b) (int d) (int s) (of_char q) k st = Some (Inr (0, st')) \<and>
      getKeyboard k st' = Inr (Some kb) \<and> (\<forall>j. j \<noteq> k \<longrightarrow> getKeyboard j st' = getKeyboard j st) \<and>
      kb_id kb = k \<and> kb_loaded kb \<and> map_option th_state (kb_query kb) = Some RUNNING \<and>
      kb_keyboard kb = PtrTo kp \<and> kb_matrix kb = PtrTo mp \<and> sp_file kp = keyboard \<and> sp_file mp = matrix \<and>
      (\<forall>p \<in> {kp, mp}. SerialPort_isOpen p \<and> sp_baudrate p = int b \<and> sp_databits p = int d \<and> sp_stopbits p = int s \<and> sp_parity p = of_char q) \<and>
      (\<forall>name cfg. LoadKeyboard_setup env junk name keyboard matrix cfg k st' = Some (Inr (-1, st'))) \<and>
      (\<forall>name b d s q. LoadKeyboard env junk name keyboard matrix b d s q k st' = Some (Inr (-1, st')))) \<and>
    (\<forall>cfg. LoadKeyboard_setup env junk bad keyboard matrix cfg k st = Some (Inl NullDeref)) \<and>
    (\<forall>b d s q. LoadKeyboard env junk bad keyboard matrix b d s q k st = Some (Inl NullDeref)) \<and>
    (\<forall>j name cfg. j < 0 \<or> km_max st \<le> j \<longrightarrow> LoadKeyboard_setup env junk name keyboard matrix cfg j st = Some (Inr (-1, st))) \<and>
    (\<forall>j name b d s q. j < 0 \<or> km_max st \<le> j \<longrightarrow> LoadKeyboard env junk name keyboard matrix b d s q j st = Some (Inr (-1, st)))"
proof -
  obtain kb kp mp where load: "LoadKeyboard_setup env junk ''jxj'' keyboard matrix (setup_text b d s q) k st =
      Some (Inr (0, set_keyboard k (Some kb) (st\<lparr>km_counter := wrap32 (km_counter st + 1)\<rparr>)))" (is "_ = Some (Inr (0, ?st))")
    and kb: "kb_id kb = k" "kb_loaded kb" "map_option th_state (kb_query kb) = Some RUNNING" "kb_keyboard kb = PtrTo kp" "kb_matrix kb = PtrTo mp"
      "sp_file kp = keyboard" "sp_file mp = matrix"
      "\<forall>p \<in> {kp, mp}. SerialPort_isOpen p \<and> sp_baudrate p = int b \<and> sp_databits p = int d \<and> sp_stopbits p = int s \<and> sp_parity p = of_char q"
    and load7: "LoadKeyboard env junk ''jxj'' keyboard matrix (int b) (int d) (int s) (of_char q) k st =
      Some (Inr (0, set_keyboard k (Some kb) (st\<lparr>km_counter := wrap32 (km_counter st + 1)\<rparr>)))"
    using load_jxj [OF assms(1-3,6,8-16)] by blast
  have k: "nat k < 4"
    using assms(1,2,5) by simp
  have "getKeyboard k ?st = Inr (Some kb)" and "\<forall>name cfg. LoadKeyboard_setup env junk name keyboard matrix cfg k ?st = Some (Inr (-1, ?st))"
    and "\<forall>name b d s q. LoadKeyboard env junk name keyboard matrix b d s q k ?st = Some (Inr (-1, ?st))"
    using assms(1,2,4,5) k by (simp_all add: getKeyboard_def kb_at_def LoadKeyboard_setup_def LoadKeyboard_def load_keyboard_def set_keyboard_def)
  moreover have "getKeyboard j ?st = getKeyboard j st" if "j \<noteq> k" for j
  proof (cases "j < 0 \<or> 4 \<le> j")
    case False
    with that assms(1) have "nat k \<noteq> nat j"
      by auto
    then show ?thesis
      by (simp add: getKeyboard_def kb_at_def set_keyboard_def)
  qed (auto simp: getKeyboard_def kb_at_def)
  moreover have "\<forall>cfg. LoadKeyboard_setup env junk bad keyboard matrix cfg k st = Some (Inl NullDeref)"
    and "\<forall>b d s q. LoadKeyboard env junk bad keyboard matrix b d s q k st = Some (Inl NullDeref)"
    using assms(1-3,7) by (simp_all add: LoadKeyboard_setup_def LoadKeyboard_def load_keyboard_def KbMgr_Create_def GetFactory_def)
  moreover have "\<forall>j name cfg. j < 0 \<or> km_max st \<le> j \<longrightarrow> LoadKeyboard_setup env junk name keyboard matrix cfg j st = Some (Inr (-1, st))"
    and "\<forall>j name b d s q. j < 0 \<or> km_max st \<le> j \<longrightarrow> LoadKeyboard env junk name keyboard matrix b d s q j st = Some (Inr (-1, st))"
    by (auto simp: LoadKeyboard_setup_def LoadKeyboard_def load_keyboard_def)
  ultimately show ?thesis
    using load load7 kb by blast
qed

definition demo_open :: open_env where
  "demo_open = \<lparr>oe_open = 7, oe_get = Some \<lparr>c_iflag = 0, c_oflag = 0, c_cflag = 0, c_lflag = 0, c_cc = []\<rparr>, oe_set = 0, oe_flush = 0, oe_thread = 0\<rparr>"

definition demo_load :: load_env where
  "demo_load = \<lparr>le_keyboard = demo_open, le_matrix = demo_open, le_matrix2 = demo_open, le_close = 0, le_thread = 0, le_socket = 0, le_bind = 0, le_listen = 0\<rparr>"

theorem keyboard_loaded_as_configured_witness:
  "(\<exists>st' kb kp. LoadKeyboard_setup demo_load 0 ''jxj'' ''/dev/ttyUSB0'' ''/dev/ttyUSB1'' (setup_text 9600 8 1 CHR ''n'') 0 demo_manager =
       Some (Inr (0, st')) \<and> getKeyboard 0 st' = Inr (Some kb) \<and> kb_keyboard kb = PtrTo kp \<and> sp_baudrate kp = 9600) \<and>
   LoadKeyboard_setup demo_load 0 ''jxj'' ''/dev/ttyUSB0'' ''/dev/ttyUSB1'' [] (-1) demo_manager = Some (Inr (-1, demo_manager))"
proof -
  have "opens demo_open"
    by (simp add: opens_def demo_open_def)
  moreover have "km_max demo_manager = 4" "length (km_keyboards demo_manager) = 4" "km_keyboards demo_manager ! 0 = None"
      "km_factories demo_manager ''jxj'' = Some (Some KbJXJ)" "km_factories demo_manager ''rc2'' = None"
    by (simp_all add: demo_manager_def SetResourceManager_def MCCKeyboardManager_new_def MCC_MAX_KEYBOARD_NUMBER_def
        registered_factories_def split_beta)
  ultimately show ?thesis
    using keyboard_loaded_as_configured [of 0 demo_manager "''rc2''" demo_load "''/dev/ttyUSB0''" "''/dev/ttyUSB1''" 9600 8 1 "CHR ''n''" 0]
    by (fastforce simp: demo_load_def)
qed

end
