(* ===== verification/Async_Tcp.thy ===== *)
theory Async_Tcp
  imports Thread_If
begin

text \<open>
  \<open>asynctcpserver.cpp\<close> and \<open>asynctcpclient.cpp\<close>: the event loops below the agents and the client manager.  An
  event is what \<open>epoll_wait\<close>, \<open>select\<close>, \<open>accept\<close>, \<open>connect\<close> and \<open>recv\<close> return; a turn of a loop yields the calls on the
  handler in order.  \<open>mHandler\<close> is set by every user of the classes.
\<close>

section \<open>Server\<close>

datatype server_state = SrvCreated | SrvInitialized | SrvStarted | SrvStoped | SrvDeinitialized

record AsyncTCPServer =
  srv_state :: server_state
  srv_listenFd :: int
  srv_epollFd :: int
  srv_addr :: "(string option \<times> int) option"
  srv_thread :: ThreadIf

definition AsyncTCPServer_new :: "int \<Rightarrow> AsyncTCPServer" where
  "AsyncTCPServer_new junk = \<lparr>srv_state = SrvCreated, srv_listenFd = -1, srv_epollFd = junk, srv_addr = None, srv_thread = ThreadIf_new\<rparr>"

text \<open>\<open>Start\<close>, on the results of \<open>epoll_create\<close>, \<open>socket\<close>, \<open>bind\<close>, \<open>listen\<close> and the thread creation.  \<open>srv_addr\<close> is what the
  listening socket is bound to: the address, none for any, and the port, which is an \<open>unsigned short\<close>.\<close>

definition AsyncTCPServer_Start :: "string option \<Rightarrow> int \<Rightarrow> int \<Rightarrow> int \<Rightarrow> int \<Rightarrow> int \<Rightarrow> int \<Rightarrow> AsyncTCPServer \<Rightarrow> (int \<times> AsyncTCPServer) result" where
  "AsyncTCPServer_Start bind_ip port epoll sock bnd lst thr s =
    (let s = s\<lparr>srv_epollFd := epoll\<rparr> in
     if srv_epollFd s = 0 then Inl AssertFailed
     else
       let s = s\<lparr>srv_listenFd := sock\<rparr> in
       if srv_listenFd s < 0 then Inr (-1, s)
       else if bnd \<noteq> 0 then Inr (-1, s\<lparr>srv_listenFd := -1\<rparr>)
       else if lst \<noteq> 0 then Inr (-1, s\<lparr>srv_listenFd := -1\<rparr>)
       else
         let s = s\<lparr>srv_addr := Some (bind_ip, port mod 2 ^ 16)\<rparr> in
         case ThreadIf_Start thr (srv_thread s) of (rc, t) \<Rightarrow>
         if rc \<noteq> 0 then Inr (rc, s\<lparr>srv_thread := t\<rparr>)
         else Inr (0, s\<lparr>srv_thread := t, srv_state := SrvStarted\<rparr>))"

definition AsyncTCPServer_Stop :: "AsyncTCPServer \<Rightarrow> AsyncTCPServer" where
  "AsyncTCPServer_Stop s =
     (if srv_state s = SrvStoped then s else s\<lparr>srv_thread := snd (ThreadIf_Shutdown (srv_thread s))\<rparr>)"

text \<open>An event of \<open>epoll_wait\<close>: the socket, \<open>EPOLLIN\<close>, \<open>EPOLLHUP\<close>, what \<open>accept\<close> or \<open>recv\<close> returns, and the bytes received.\<close>

record srv_event =
  se_sock :: int
  se_in :: bool
  se_hup :: bool
  se_rc :: int
  se_bytes :: string

datatype tcp_call =
    NewConnection int
  | Disconnect int
  | Except int int
  | Readable int string
  | ReadableFailed int
  | Connected int
  | Disconnected int

definition server_event :: "srv_event \<Rightarrow> AsyncTCPServer \<Rightarrow> tcp_call list result" where
  "server_event e s =
    (if se_sock e = srv_listenFd s then (if se_rc e \<ge> 0 then Inr [NewConnection (se_rc e)] else Inl AssertFailed)
     else if se_in e then
       (if se_sock e < 0 then Inr []
        else if se_rc e = 0 then Inr [Disconnect (se_sock e)]
        else if se_rc e < 0 then Inr [Except (se_sock e) (se_rc e)]
        else Inr [Readable (se_sock e) (take (nat (se_rc e)) (se_bytes e))])
     else if se_hup e then Inr [Disconnect (se_sock e)]
     else Inr [])"

fun server_turn :: "srv_event list \<Rightarrow> AsyncTCPServer \<Rightarrow> tcp_call list result" where
  "server_turn [] s = Inr []"
| "server_turn (e # es) s = bindr (server_event e s) (\<lambda>c1. bindr (server_turn es s) (\<lambda>c2. Inr (c1 @ c2)))"

text \<open>\<open>Send\<close>: the bytes that go out and the result, of which \<open>rc\<close> is what \<open>send\<close> returns.\<close>

definition AsyncTCPServer_Send :: "int \<Rightarrow> int \<Rightarrow> string \<Rightarrow> AsyncTCPServer \<Rightarrow> int \<times> (int \<times> string) list" where
  "AsyncTCPServer_Send rc fd buf s = (if srv_state s \<noteq> SrvStarted then (-1, []) else (rc, [(fd, buf)]))"

section \<open>Client\<close>

datatype client_state = CliCreated | CliStarted | CliConnected | CliDisconnected

record AsyncTCPClient =
  cli_state :: client_state
  cli_fd :: int
  cli_ip :: string
  cli_port :: int
  cli_thread :: ThreadIf

definition AsyncTCPClient_Start :: "int \<Rightarrow> string \<Rightarrow> int \<Rightarrow> AsyncTCPClient \<Rightarrow> (int \<times> AsyncTCPClient) result" where
  "AsyncTCPClient_Start thr ip port c =
    (if cli_state c = CliStarted then Inr (1, c)
     else if 256 \<le> length ip then Inl OutOfBounds
     else Inr (0, c\<lparr>cli_ip := ip, cli_port := port, cli_thread := snd (ThreadIf_Start thr (cli_thread c)), cli_state := CliStarted\<rparr>))"

definition AsyncTCPClient_Stop :: "AsyncTCPClient \<Rightarrow> AsyncTCPClient" where
  "AsyncTCPClient_Stop c =
     (if cli_state c \<noteq> CliStarted then c
      else c\<lparr>cli_thread := snd (ThreadIf_Shutdown (cli_thread c)), cli_state := CliDisconnected\<rparr>)"

text \<open>The head of the outer loop: \<open>socket\<close> and \<open>connect\<close>; the first component tells that \<open>thread()\<close> returns.\<close>

definition client_connect :: "int \<Rightarrow> int \<Rightarrow> AsyncTCPClient \<Rightarrow> bool \<times> tcp_call list \<times> AsyncTCPClient" where
  "client_connect sock rc c =
    (let c = c\<lparr>cli_fd := sock\<rparr> in
     if cli_fd c < 0 then (True, [], c)
     else if rc < 0 then (False, [Except (-1) rc], c\<lparr>cli_fd := -1\<rparr>)
     else (False, [Connected (cli_fd c)], c\<lparr>cli_state := CliConnected\<rparr>))"

text \<open>
  One turn of the inner loop: the results of \<open>select\<close>, \<open>FD_ISSET\<close> and \<open>recv\<close>, and the bytes received.  A failed \<open>recv\<close> is
  handed to the handler too, with a length of -1 as an unsigned number.
\<close>

definition client_turn :: "int \<Rightarrow> bool \<Rightarrow> int \<Rightarrow> string \<Rightarrow> AsyncTCPClient \<Rightarrow> tcp_call list \<times> AsyncTCPClient" where
  "client_turn sel isset len bytes c =
    (if sel = 0 then ([], c)
     else if sel < 0 then ([Disconnected (cli_fd c)], c\<lparr>cli_state := CliDisconnected\<rparr>)
     else if isset then
       (if len = 0 then ([Disconnected (cli_fd c)], c\<lparr>cli_state := CliDisconnected, cli_fd := -1\<rparr>)
        else if len < 0 then ([Except (cli_fd c) len, ReadableFailed (cli_fd c)], c)
        else ([Readable (cli_fd c) (take (nat len) bytes)], c))
     else ([], c))"

definition AsyncTCPClient_Send :: "int \<Rightarrow> string \<Rightarrow> AsyncTCPClient \<Rightarrow> int \<times> (int \<times> string) list" where
  "AsyncTCPClient_Send rc buf c = (if cli_state c \<noteq> CliConnected then (-1, []) else (rc, [(cli_fd c, buf)]))"

text \<open>A client that is connected cannot be stopped: \<open>Stop\<close> acts in the state between \<open>Start\<close> and the connection only, so that
  the thread of a connected client keeps running and the client keeps sending.\<close>

theorem connected_client_not_stopped:
  assumes "cli_state c = CliConnected"
  shows "AsyncTCPClient_Stop c = c \<and> AsyncTCPClient_Send rc buf (AsyncTCPClient_Stop c) = (rc, [(cli_fd c, buf)])"
  using assms by (simp add: AsyncTCPClient_Stop_def AsyncTCPClient_Send_def)

end
