(* ===== verification/Agent_Xml.thy ===== *)
theory Agent_Xml
  imports Agent_Message
begin

text \<open>
  The round trip of the agent messages through their XML text.  \<open>xml_document\<close> is the textual form
  of an element tree in the layout the printers use; \<open>request_tree\<close> and \<open>response_tree\<close> are the
  trees of the messages.  What the parsers rely on in TinyXML is \<open>reads_documents\<close>: the root element
  of a well-formed text is the tree it was written from, and the text of an integer is read as that
  integer.  \<open>ref_xml\<close> is a small reader that has these properties.
\<close>

section \<open>Documents\<close>

definition xml_char :: "char \<Rightarrow> bool" where
  "xml_char c \<longleftrightarrow> 32 \<le> (of_char c :: nat) \<and> (of_char c :: nat) < 127 \<and> c \<notin> set (quote @ ''<>&'')"

definition name_char :: "char \<Rightarrow> bool" where
  "name_char c \<longleftrightarrow> is_digit c \<or> (65 \<le> (of_char c :: nat) \<and> (of_char c :: nat) \<le> 90) \<or>
     (97 \<le> (of_char c :: nat) \<and> (of_char c :: nat) \<le> 122) \<or> c = CHR ''_''"

definition plain_name :: "string \<Rightarrow> bool" where
  "plain_name n \<longleftrightarrow> list_all name_char n \<and> n \<noteq> [] \<and> \<not> is_digit (hd n)"

fun xml_plain :: "xml \<Rightarrow> bool" where
  "xml_plain (Element n as cs) \<longleftrightarrow>
     plain_name n \<and> distinct (map fst as) \<and> list_all (\<lambda>(k, v). plain_name k \<and> list_all xml_char v) as \<and>
     list_all xml_plain cs"
| "xml_plain (XText t) \<longleftrightarrow> False"

fun xml_text :: "xml \<Rightarrow> string" where
  "xml_text (Element n as cs) =
     ''<'' @ n @ concat (map (\<lambda>(k, v). attr_text k v) as) @
     (if as \<noteq> [] \<and> cs = [] then ''/>'' @ eol
      else ''>'' @ eol @ concat (map xml_text cs) @ ''</'' @ n @ ''>'' @ eol)"
| "xml_text (XText t) = t"

definition xml_document :: "xml \<Rightarrow> string" where
  "xml_document e = xml_prolog @ xml_text e"

text \<open>What the agents rely on in the XML library: a well-formed document, whose elements and attributes have names that
  start with a letter or an underscore and whose elements have no attribute twice, is read as the tree it was written from; the text of an
  integer is read as that integer; and whatever the text of an attribute, the library leaves an integer in the
  integer it is given.\<close>

definition reads_documents :: "TiXml \<Rightarrow> bool" where
  "reads_documents X \<longleftrightarrow>
     (\<forall>e. xml_plain e \<longrightarrow> xml_root X (xml_document e) = Some e) \<and>
     (\<forall>n i. \<bar>n\<bar> < 2 ^ 31 \<longrightarrow> xml_int X (Some (show_int n)) i = n) \<and>
     (\<forall>v i. is_int32 i \<longrightarrow> is_int32 (xml_int X v i))"

section \<open>The trees of the messages\<close>

definition message_attrs :: "('a) MCCAgentMessage_scheme \<Rightarrow> (string \<times> string) list" where
  "message_attrs m =
     [(''type'', show_int (a_type m)), (''method'', show_int (a_method m)), (''seq'', show_int (a_id m)),
      (''from'', show_int (a_from m)), (''to'', show_int (a_to m)), (''initiator'', show_int (a_initiator m))]"

definition id_element :: "string \<Rightarrow> int \<Rightarrow> xml" where
  "id_element n i = Element n [(''id'', show_int i)] []"

definition children_list :: "Content \<Rightarrow> int list" where
  "children_list c = take (nat (reg_children_num c)) (drop 2 c)"

definition request_tree :: "MCCAgentRequest \<Rightarrow> xml" where
  "request_tree m = Element ''XML_MESSAGE'' (message_attrs m)
    (let c = a_content m in
     if a_method m = REGISTER then
       [Element ''Expire'' [(''time'', show_int (reg_expire c))] [],
        Element ''ChildMatrix'' [] (map (id_element ''Item'') (children_list c))]
     else if a_method m = SWITCH then
       [id_element ''User'' (swi_userid c), id_element ''Camera'' (swi_cameraid c)]
     else
       [id_element ''User'' (ptz_userid c), id_element ''Camera'' (ptz_cameraid c),
        Element ''Operation'' [(''direction'', show_int (ptz_direction c)), (''angle'', show_int (ptz_angle c))] []])"

definition response_tree :: "MCCAgentResponse \<Rightarrow> xml" where
  "response_tree m = Element ''XML_MESSAGE'' (message_attrs m)
    (Element ''Status'' [(''code'', show_int (r_statuscode m)), (''reason'', r_reason m)] [] #
     (if a_method m = SWITCH then [Element ''Connection'' [(''outport'', show_int (swi_outport (a_content m)))] []] else []))"

text \<open>A request the code can print: a known method and a children count that the array holds.\<close>

definition printable_request :: "MCCAgentRequest \<Rightarrow> bool" where
  "printable_request m \<longleftrightarrow> a_method m \<in> {REGISTER, SWITCH, PTZ} \<and> length (a_content m) = content_size \<and>
     (a_method m = REGISTER \<longrightarrow> 0 \<le> reg_children_num (a_content m) \<and> reg_children_num (a_content m) \<le> int MAX_CHILDREN_NUM)"

lemma print_children_eq:
  assumes "i + n \<le> MAX_CHILDREN_NUM" and "length c = content_size"
  shows "print_children c i n = Inr (concat (map (\<lambda>v. xml_text (id_element ''Item'' v)) (take n (drop (2 + i) c))))"
  using assms
proof (induction n arbitrary: i)
  case (Suc n)
  then have "drop (2 + i) c = c ! (2 + i) # drop (2 + Suc i) c"
    by (simp add: content_size_def Cons_nth_drop_Suc)
  with Suc show ?case
    by (simp add: children_get_def id_element_def)
qed simp

lemma request_text_document:
  assumes "printable_request m"
  shows "request_text m = Inr (xml_document (request_tree m))"
proof -
  have "print_children (a_content m) 0 (nat (reg_children_num (a_content m))) =
      Inr (concat (map (\<lambda>v. xml_text (id_element ''Item'' v)) (children_list (a_content m))))"
    if "a_method m = REGISTER"
    using print_children_eq [of 0 "nat (reg_children_num (a_content m))" "a_content m"] that assms
    by (simp add: printable_request_def children_list_def nat_le_iff)
  with assms show ?thesis
    by (auto simp: request_text_def printable_request_def Let_def message_enums message_head_def message_tail_def
        xml_document_def request_tree_def message_attrs_def id_element_def comp_def)
qed

lemma response_text_document: "response_text m = xml_document (response_tree m)"
  by (auto simp: response_text_def message_head_def message_tail_def xml_document_def response_tree_def message_attrs_def)

lemma name_char_digit: "is_digit c \<Longrightarrow> name_char c"
  by (simp add: name_char_def)

lemma show_int_xml: "list_all xml_char (show_int i)"
proof -
  have "xml_char c" if "is_digit c" for c
    using that by (auto simp: xml_char_def is_digit_def quote_def)
  moreover have "xml_char (CHR ''-'')"
    by (simp add: xml_char_def quote_def)
  ultimately show ?thesis
    by (auto simp: show_int_def list_all_iff dest: nat_digits_all_digits)
qed

lemma request_tree_plain: "xml_plain (request_tree m)"
  by (auto simp: request_tree_def message_attrs_def id_element_def show_int_xml plain_name_def name_char_def is_digit_def Let_def
      list_all_iff [of xml_plain])

lemma response_tree_plain: "list_all xml_char (r_reason m) \<Longrightarrow> xml_plain (response_tree m)"
  by (simp add: response_tree_def message_attrs_def show_int_xml plain_name_def name_char_def is_digit_def)

section \<open>Reading the trees back\<close>

definition wire_int :: "int \<Rightarrow> bool" where
  "wire_int i \<longleftrightarrow> \<bar>i\<bar> < 2 ^ 31"

definition wire_header :: "('a) MCCAgentMessage_scheme \<Rightarrow> bool" where
  "wire_header m \<longleftrightarrow> list_all wire_int [a_type m, a_method m, a_id m, a_from m, a_to m, a_initiator m]"

lemma Attribute_show:
  "reads_documents X \<Longrightarrow> map_of (xml_attrs e) n = Some (show_int i) \<Longrightarrow> wire_int i \<Longrightarrow>
   Attribute X e n j = (Some (show_int i), i)"
  by (simp add: Attribute_def reads_documents_def wire_int_def)

lemma parse_header_attrs:
  assumes "reads_documents X" and "wire_header m" and "a_type m = want"
  shows "parse_header X (Element ''XML_MESSAGE'' (message_attrs m) cs) want m0 =
    (0, m0\<lparr>a_type := a_type m, a_method := a_method m, a_id := a_id m, a_from := a_from m, a_to := a_to m,
           a_initiator := a_initiator m\<rparr>)"
proof -
  let ?e = "Element ''XML_MESSAGE'' (message_attrs m) cs"
  have "Attribute X ?e ''type'' i = (Some (show_int (a_type m)), a_type m)"
    "Attribute X ?e ''method'' i = (Some (show_int (a_method m)), a_method m)"
    "Attribute X ?e ''seq'' i = (Some (show_int (a_id m)), a_id m)"
    "Attribute X ?e ''from'' i = (Some (show_int (a_from m)), a_from m)"
    "Attribute X ?e ''to'' i = (Some (show_int (a_to m)), a_to m)"
    "Attribute X ?e ''initiator'' i = (Some (show_int (a_initiator m)), a_initiator m)" for i
    using assms(2) by (auto intro!: Attribute_show [OF assms(1)] simp: message_attrs_def wire_header_def)
  with assms(3) show ?thesis
    by (simp add: parse_header_def)
qed

lemma Attribute_id_element [simp]:
  "reads_documents X \<Longrightarrow> wire_int i \<Longrightarrow> Attribute X (id_element n i) ''id'' j = (Some (show_int i), i)"
  by (simp add: Attribute_show id_element_def)

lemma parse_items_ids:
  assumes "reads_documents X" and "list_all wire_int vs" and "length vs + i \<le> MAX_CHILDREN_NUM"
    and "length c = content_size"
  shows "parse_items X (map (id_element ''Item'') vs) i k c =
    Inr (take (2 + i) c @ vs @ drop (2 + i + length vs) c, i + length vs)"
  using assms
proof (induction vs arbitrary: i k c)
  case (Cons v vs)
  then have "parse_items X (map (id_element ''Item'') vs) (Suc i) v (c[2 + i := v]) =
      Inr (take (2 + Suc i) (c[2 + i := v]) @ vs @ drop (2 + Suc i + length vs) (c[2 + i := v]), Suc i + length vs)"
    by simp
  moreover have "take (2 + Suc i) (c[2 + i := v]) = take (2 + i) c @ [v]"
    using Cons.prems by (simp add: content_size_def take_Suc_conv_app_nth)
  ultimately show ?case
    using Cons.prems by (simp add: children_set_def)
qed simp

lemma item_chain_items: "item_chain (Element n as (map (id_element ''Item'') vs)) = map (id_element ''Item'') vs"
proof -
  have "xml_value (id_element ''Item'' v) = ''Item''" "to_element (id_element ''Item'' v) = Some (id_element ''Item'' v)" for v
    by (simp_all add: id_element_def)
  then show ?thesis
    by (cases vs) (simp_all add: item_chain_def filter_map comp_def)
qed

text \<open>The cells of the content that a request of each method transports.\<close>

definition request_cells :: "MCCAgentRequest \<Rightarrow> int list" where
  "request_cells m =
    (if a_method m = REGISTER then reg_expire (a_content m) # reg_children_num (a_content m) # children_list (a_content m)
     else take (if a_method m = SWITCH then 2 else 4) (a_content m))"

definition same_header :: "('a) MCCAgentMessage_scheme \<Rightarrow> ('b) MCCAgentMessage_scheme \<Rightarrow> bool" where
  "same_header a b \<longleftrightarrow> a_type a = a_type b \<and> a_method a = a_method b \<and> a_id a = a_id b \<and> a_from a = a_from b \<and>
     a_to a = a_to b \<and> a_initiator a = a_initiator b"

lemma take_2_4:
  "2 \<le> length xs \<Longrightarrow> take 2 xs = [xs ! 0, xs ! 1]"
  "4 \<le> length xs \<Longrightarrow> take 4 xs = [xs ! 0, xs ! 1, xs ! 2, xs ! 3]"
  by (auto simp: numeral_eq_Suc Suc_le_length_iff)

lemma parse_request_tree:
  assumes X: "reads_documents X" and p: "printable_request m" and t: "a_type m = REQUEST" and h: "wire_header m"
    and cells: "list_all wire_int (request_cells m)" and m0: "length (a_content m0) = content_size"
  shows "\<exists>m'. MCCAgentRequest_Parse X junk (xml_document (request_tree m)) m0 = Inr (0, m') \<and>
    same_header m' m \<and> request_cells m' = request_cells m \<and> length (a_content m') = content_size"
proof -
  have root: "xml_root X (xml_document (request_tree m)) = Some (request_tree m)"
    using X request_tree_plain by (simp add: reads_documents_def)
  let ?h = "m0\<lparr>a_type := a_type m, a_method := a_method m, a_id := a_id m, a_from := a_from m, a_to := a_to m,
           a_initiator := a_initiator m\<rparr>"
  have head: "parse_header X (request_tree m) REQUEST m0 = (0, ?h)"
    unfolding request_tree_def by (rule parse_header_attrs [OF X h t])
  from p have len: "length (a_content m) = content_size" by (simp add: printable_request_def)
  consider "a_method m = REGISTER" | "a_method m = SWITCH" | "a_method m = PTZ"
    using p by (auto simp: printable_request_def)
  then show ?thesis
  proof cases
    case 1
    let ?c = "a_content m" and ?vs = "children_list (a_content m)"
    let ?c1 = "(a_content m0)[0 := reg_expire ?c]"
    from p 1 have n: "0 \<le> reg_children_num ?c" "nat (reg_children_num ?c) \<le> MAX_CHILDREN_NUM"
      by (auto simp: printable_request_def nat_le_iff)
    then have lvs: "length ?vs = nat (reg_children_num ?c)"
      using len by (simp add: children_list_def content_size_def)
    have "parse_items X (map (id_element ''Item'') ?vs) 0 junk ?c1 = Inr (take 2 ?c1 @ ?vs @ drop (2 + length ?vs) ?c1, length ?vs)"
      using parse_items_ids [OF X, of ?vs 0 ?c1 junk] cells 1 n lvs m0 by (simp add: request_cells_def)
    moreover have "Attribute X (Element ''Expire'' [(''time'', show_int (reg_expire ?c))] []) ''time'' junk =
        (Some (show_int (reg_expire ?c)), reg_expire ?c)"
      by (rule Attribute_show [OF X]) (use cells 1 in \<open>auto simp: request_cells_def\<close>)
    moreover have "child_element (request_tree m) ''Expire'' = Some (Element ''Expire'' [(''time'', show_int (reg_expire ?c))] [])"
      and "FirstChild (request_tree m) ''ChildMatrix'' = Some (Element ''ChildMatrix'' [] (map (id_element ''Item'') ?vs))"
      using 1 by (simp_all add: child_element_def FirstChild_def request_tree_def Let_def)
    ultimately have "MCCAgentRequest_Parse X junk (xml_document (request_tree m)) m0 =
        Inr (0, ?h\<lparr>a_content := (take 2 ?c1 @ ?vs @ drop (2 + length ?vs) ?c1)[1 := int (length ?vs)]\<rparr>)"
      using root head 1
      by (simp add: MCCAgentRequest_Parse_def parse_register_def item_chain_items)
    moreover have "children_list ((take 2 ?c1 @ ?vs @ drop (2 + length ?vs) ?c1)[1 := int (length ?vs)]) = ?vs"
      using m0 by (simp add: children_list_def [of "_ # _"] content_size_def take_2_4)
    ultimately show ?thesis
      using 1 m0 lvs n
      by (simp add: same_header_def request_cells_def content_size_def take_2_4)
  next
    case 2
    then have "child_element (request_tree m) ''User'' = Some (id_element ''User'' (swi_userid (a_content m)))"
      and "child_element (request_tree m) ''Camera'' = Some (id_element ''Camera'' (swi_cameraid (a_content m)))"
      by (simp_all add: child_element_def FirstChild_def request_tree_def id_element_def message_enums Let_def)
    with root head X cells len m0 2 show ?thesis
      by (simp add: MCCAgentRequest_Parse_def parse_switch_def message_enums same_header_def request_cells_def
          content_size_def take_2_4)
  next
    case 3
    then have "child_element (request_tree m) ''User'' = Some (id_element ''User'' (ptz_userid (a_content m)))"
      and "child_element (request_tree m) ''Camera'' = Some (id_element ''Camera'' (ptz_cameraid (a_content m)))"
      and "child_element (request_tree m) ''Operation'' = Some (Element ''Operation''
        [(''direction'', show_int (ptz_direction (a_content m))), (''angle'', show_int (ptz_angle (a_content m)))] [])"
      by (simp_all add: child_element_def FirstChild_def request_tree_def id_element_def message_enums Let_def)
    with root head X cells len m0 3 show ?thesis
      by (simp add: MCCAgentRequest_Parse_def parse_ptz_def parse_switch_def message_enums same_header_def
          request_cells_def content_size_def take_2_4 Attribute_show MAX_CHILDREN_NUM_def)
  qed
qed

text \<open>The text of a request is that of its header and its cells.\<close>

lemma take_cells:
  "take n xs = take n ys \<Longrightarrow> i < n \<Longrightarrow> xs ! i = ys ! i"
  by (metis nth_take)

lemma request_tree_cong:
  assumes "same_header m' m" and "request_cells m' = request_cells m"
  shows "request_tree m' = request_tree m"
proof -
  have h: "message_attrs m' = message_attrs m" "a_method m' = a_method m"
    using assms(1) by (simp_all add: same_header_def message_attrs_def)
  have c: "take n (a_content m') = take n (a_content m)"
    if "a_method m \<noteq> REGISTER" and "n = (if a_method m = SWITCH then 2 else 4)" for n
    using assms(2) that h(2) by (simp add: request_cells_def split: if_splits)
  have r: "reg_expire (a_content m') = reg_expire (a_content m)" "children_list (a_content m') = children_list (a_content m)"
    if "a_method m = REGISTER"
    using assms(2) that h(2) by (simp_all add: request_cells_def)
  have "a_content m' ! i = a_content m ! i" if "a_method m \<noteq> REGISTER" and "i < (if a_method m = SWITCH then 2 else 4)" for i
    by (rule take_cells [OF c that(2)]) (use that in simp_all)
  with h r show ?thesis
    by (simp add: request_tree_def Let_def)
qed

lemma request_text_cong:
  assumes "printable_request m" and "same_header m' m" and "request_cells m' = request_cells m"
    and "length (a_content m') = content_size"
  shows "request_text m' = request_text m"
proof -
  have "printable_request m'"
    using assms by (auto simp: printable_request_def same_header_def request_cells_def)
  then show ?thesis
    using assms by (simp add: request_text_document request_tree_cong)
qed

text \<open>
  A response of method \<open>SWITCH\<close> is read back, except that the initiator becomes what the library
  makes of the reason text; a response of another method is rejected.
\<close>

lemma parse_response_tree:
  assumes X: "reads_documents X" and t: "a_type m = RESPONSE" and h: "wire_header m"
    and r: "wire_int (r_statuscode m)" "list_all xml_char (r_reason m)" "wire_int (swi_outport (a_content m))"
    and m0: "length (a_content m0) = content_size"
  shows "\<exists>m'. MCCAgentResponse_Parse X junk (xml_document (response_tree m)) m0 =
      Inr (if a_method m = SWITCH then 0 else 1, m') \<and>
    same_header (m'\<lparr>a_initiator := a_initiator m\<rparr>) m \<and> r_statuscode m' = r_statuscode m \<and> r_reason m' = r_reason m \<and>
    a_initiator m' = xml_int X (Some (r_reason m)) (a_initiator m) \<and>
    (a_method m = SWITCH \<longrightarrow> swi_outport (a_content m') = swi_outport (a_content m))"
proof -
  have root: "xml_root X (xml_document (response_tree m)) = Some (response_tree m)"
    using X response_tree_plain [OF r(2)] by (simp add: reads_documents_def)
  let ?h = "m0\<lparr>a_type := a_type m, a_method := a_method m, a_id := a_id m, a_from := a_from m, a_to := a_to m,
           a_initiator := a_initiator m\<rparr>"
  let ?s = "Element ''Status'' [(''code'', show_int (r_statuscode m)), (''reason'', r_reason m)] []"
  let ?k = "Element ''Connection'' [(''outport'', show_int (swi_outport (a_content m)))] []"
  have head: "parse_header X (response_tree m) RESPONSE m0 = (0, ?h)"
    unfolding response_tree_def by (rule parse_header_attrs [OF X h t])
  have kids: "child_element (response_tree m) ''Status'' = Some ?s"
      "a_method m = SWITCH \<Longrightarrow> child_element (response_tree m) ''Connection'' = Some ?k"
    by (simp_all add: child_element_def FirstChild_def response_tree_def)
  have code: "Attribute X ?s ''code'' i = (Some (show_int (r_statuscode m)), r_statuscode m)"
    and port: "Attribute X ?k ''outport'' i = (Some (show_int (swi_outport (a_content m))), swi_outport (a_content m))"
    and reason: "Attribute X ?s ''reason'' i = (Some (r_reason m), xml_int X (Some (r_reason m)) i)" for i
    using r by (auto intro!: Attribute_show [OF X]) (simp add: Attribute_def Let_def)
  from m0 have "2 < length (a_content m0)"
    by (simp add: content_size_def MAX_CHILDREN_NUM_def)
  with root head kids code port reason show ?thesis
    by (cases "a_method m = SWITCH") (simp_all add: MCCAgentResponse_Parse_def same_header_def)
qed

section \<open>A reader with these properties\<close>

fun drop_prefix :: "string \<Rightarrow> string \<Rightarrow> string option" where
  "drop_prefix [] s = Some s"
| "drop_prefix (c # cs) s = (case s of [] \<Rightarrow> None | d # ds \<Rightarrow> if c = d then drop_prefix cs ds else None)"

fun ref_attrs :: "nat \<Rightarrow> string \<Rightarrow> (string \<times> string) list \<times> string" where
  "ref_attrs 0 s = ([], s)"
| "ref_attrs (Suc f) s =
    (case drop_prefix '' '' s of None \<Rightarrow> ([], s)
     | Some s1 \<Rightarrow>
         (let k = takeWhile name_char s1; s2 = drop 2 (dropWhile name_char s1);
              v = takeWhile xml_char s2; s3 = drop 1 (dropWhile xml_char s2)
          in case ref_attrs f s3 of (as, s4) \<Rightarrow> ((k, v) # as, s4)))"

fun ref_elem :: "nat \<Rightarrow> string \<Rightarrow> (xml \<times> string) option"
  and ref_elems :: "nat \<Rightarrow> string \<Rightarrow> (xml list \<times> string) option" where
  "ref_elem 0 s = None"
| "ref_elem (Suc f) s =
    (let s1 = drop 1 s; n = takeWhile name_char s1;
         (as, s2) = ref_attrs (length s) (dropWhile name_char s1)
     in case drop_prefix (''/>'' @ eol) s2 of
          Some s3 \<Rightarrow> Some (Element n as [], s3)
        | None \<Rightarrow>
            (case drop_prefix (''>'' @ eol) s2 of None \<Rightarrow> None
             | Some s3 \<Rightarrow>
                 (case ref_elems f s3 of None \<Rightarrow> None
                  | Some (cs, s4) \<Rightarrow> Some (Element n as cs, drop 3 (drop (length n) (drop 2 s4))))))"
| "ref_elems 0 s = None"
| "ref_elems (Suc f) s =
    (case drop_prefix ''</'' s of Some _ \<Rightarrow> Some ([], s)
     | None \<Rightarrow>
         (case ref_elem f s of None \<Rightarrow> None
          | Some (e, s1) \<Rightarrow> (case ref_elems f s1 of None \<Rightarrow> None | Some (es, s2) \<Rightarrow> Some (e # es, s2))))"

definition ref_int :: "string \<Rightarrow> int" where
  "ref_int s = wrap32 (if take 1 s = ''-'' then - fst (scan_digits 0 (drop 1 s)) else fst (scan_digits 0 s))"

definition ref_xml :: TiXml where
  "ref_xml = \<lparr>xml_root = (\<lambda>s. case drop_prefix xml_prolog s of None \<Rightarrow> None
                             | Some t \<Rightarrow> map_option fst (ref_elem (length t) t)),
              xml_int = (\<lambda>v i. case v of None \<Rightarrow> i | Some s \<Rightarrow> ref_int s)\<rparr>"

lemma drop_prefix_append [simp]: "drop_prefix p (p @ s) = Some s"
  by (induction p) simp_all

lemma ref_int_show: "\<bar>n\<bar> < 2 ^ 31 \<Longrightarrow> ref_int (show_int n) = n"
proof -
  assume n: "\<bar>n\<bar> < 2 ^ 31"
  obtain d ds where d: "nat_digits (nat n) = d # ds"
    by (cases "nat_digits (nat n)") auto
  then have "is_digit d"
    using nat_digits_all_digits [of d "nat n"] by simp
  then have "d \<noteq> CHR ''-''"
    by (auto simp: is_digit_def)
  with n d show ?thesis
    using scan_nat_digits [of "nat n"] scan_nat_digits [of "nat (- n)"]
    by (auto simp: ref_int_def show_int_def is_int32_def)
qed

lemma ref_int_int32: "is_int32 (ref_int s)"
  by (simp add: ref_int_def)

lemma not_name_char [simp]:
  "\<not> name_char CHR ''=''" "\<not> name_char CHR ''/''" "\<not> name_char CHR ''>''" "\<not> name_char CHR '' ''"
  "\<not> xml_char CHR 0x22"
  by (simp_all add: name_char_def is_digit_def xml_char_def quote_def)

lemma span_name:
  "list_all P n \<Longrightarrow> \<not> P c \<Longrightarrow> takeWhile P (n @ c # s) = n \<and> dropWhile P (n @ c # s) = c # s"
  by (simp add: list_all_iff)

lemma ref_attrs_text:
  assumes "list_all (\<lambda>(k, v). plain_name k \<and> list_all xml_char v) as" and "length as \<le> f"
    and "drop_prefix '' '' rest = None"
  shows "ref_attrs f (concat (map (\<lambda>(k, v). attr_text k v) as) @ rest) = (as, rest)"
  using assms
proof (induction as arbitrary: f)
  case Nil
  then show ?case by (cases f) simp_all
next
  case (Cons kv as)
  obtain k v f' where kv: "kv = (k, v)" and f: "f = Suc f'"
    using Cons.prems(2) by (cases kv; cases f) auto
  with Cons show ?case
    by (simp add: attr_text_def quote_def span_name Let_def plain_name_def)
qed

lemma xml_text_head:
  assumes "xml_plain e"
  shows "drop_prefix ''</'' (xml_text e @ s) = None" and "1 \<le> length (xml_text e)"
proof -
  obtain n as cs where e: "e = Element n as cs"
    using assms by (cases e) auto
  with assms obtain c n' where "n = c # n'" and "name_char c"
    by (cases n) (auto simp: plain_name_def)
  with e show "drop_prefix ''</'' (xml_text e @ s) = None" and "1 \<le> length (xml_text e)"
    by auto
qed

lemma ref_elems_text:
  assumes "\<And>e f s. e \<in> set cs \<Longrightarrow> length (xml_text e) \<le> f \<Longrightarrow> ref_elem f (xml_text e @ s) = Some (e, s)"
    and "list_all xml_plain cs" and "length (concat (map xml_text cs)) < f"
  shows "ref_elems f (concat (map xml_text cs) @ ''</'' @ s) = Some (cs, ''</'' @ s)"
  using assms
proof (induction cs arbitrary: f)
  case Nil
  then show ?case by (cases f) simp_all
next
  case (Cons e cs)
  then obtain f' where f: "f = Suc f'" by (cases f) auto
  from Cons.prems(2) have "xml_plain e" by simp
  with Cons.prems(3) f have "length (xml_text e) \<le> f'" and "length (concat (map xml_text cs)) < f'"
    using xml_text_head(2) [of e] by auto
  with Cons f have "ref_elem f' (xml_text e @ t) = Some (e, t)"
    and "ref_elems f' (concat (map xml_text cs) @ ''</'' @ s) = Some (cs, ''</'' @ s)" for t
    by simp_all
  with f xml_text_head(1) [OF \<open>xml_plain e\<close>] show ?case
    by (simp del: drop_prefix.simps)
qed

lemma ref_elem_text:
  "xml_plain e \<Longrightarrow> length (xml_text e) \<le> f \<Longrightarrow> ref_elem f (xml_text e @ s) = Some (e, s)"
proof (induction e arbitrary: f s)
  case (Element n as cs)
  then obtain f' where f: "f = Suc f'" by (cases f) auto
  define attrs where "attrs = concat (map (\<lambda>(k, v). attr_text k v) as)"
  have short: "length as \<le> length attrs"
    unfolding attrs_def by (induction as) (auto simp: attr_text_def)
  have attr: "length attrs \<le> k \<Longrightarrow> ref_attrs k (attrs @ CHR ''/'' # t) = (as, CHR ''/'' # t)"
    and attr': "length attrs \<le> k \<Longrightarrow> ref_attrs k (attrs @ CHR ''>'' # t) = (as, CHR ''>'' # t)" for k t
    using Element.prems(1) order.trans [OF short] unfolding attrs_def by (intro ref_attrs_text; simp)+
  have name: "takeWhile name_char (n @ attrs @ c # t) = n" "dropWhile name_char (n @ attrs @ c # t) = attrs @ c # t"
    if "\<not> name_char c" for c t
    using Element.prems(1) that by (cases as; auto simp: attrs_def attr_text_def list_all_iff plain_name_def)+
  show ?case
  proof (cases "as \<noteq> [] \<and> cs = []")
    case True
    then show ?thesis
      by (simp add: f attrs_def [symmetric] eol_def attr name del: ref_attrs.simps)
  next
    case False
    then have txt_eq: "xml_text (Element n as cs) =
        ''<'' @ n @ attrs @ CHR ''>'' # eol @ concat (map xml_text cs) @ ''</'' @ n @ ''>'' @ eol"
      by (auto simp: attrs_def)
    have "ref_elems f' (concat (map xml_text cs) @ ''</'' @ n @ ''>'' @ eol @ s) = Some (cs, ''</'' @ n @ ''>'' @ eol @ s)"
    proof (rule ref_elems_text)
      show "length (concat (map xml_text cs)) < f'"
        using Element.prems(2) f by (simp add: txt_eq eol_def del: xml_text.simps)
      show "list_all xml_plain cs"
        using Element.prems(1) by simp
      then show "\<And>e f s. e \<in> set cs \<Longrightarrow> length (xml_text e) \<le> f \<Longrightarrow> ref_elem f (xml_text e @ s) = Some (e, s)"
        using Element.IH by (simp add: list_all_iff)
    qed
    then show ?thesis
      by (simp add: f txt_eq eol_def attr' name del: ref_attrs.simps xml_text.simps drop_drop)
  qed
qed simp

lemma ref_xml_reads: "reads_documents ref_xml"
  using ref_elem_text [of _ _ "[]"] ref_int_int32
  by (simp add: reads_documents_def ref_xml_def xml_document_def ref_int_show split: option.split)

section \<open>Claims\<close>

text \<open>C25. A request that one agent prints is read back by the agent it is sent to: with a library that reads the documents,
  \<open>Parse\<close> of the printed text succeeds and yields the same header and the same contents for the method,
  whatever the receiving object held before.\<close>

theorem request_roundtrip:
  assumes "reads_documents X" and "printable_request m" and "a_type m = REQUEST" and "wire_header m"
    and "list_all wire_int (request_cells m)" and "length (a_content m0) = content_size"
  shows "\<exists>txt m'. request_text m = Inr txt \<and> MCCAgentRequest_Parse X junk txt m0 = Inr (0, m') \<and>
    same_header m' m \<and> request_cells m' = request_cells m"
  using parse_request_tree [OF assms, of junk] request_text_document [OF assms(2)] by blast

theorem request_roundtrip_witness:
  "\<exists>txt m'. request_text (buildSwitchRequest 99 (MCCGlobalID 7 1) (MCCGlobalID 3 2)
        \<lparr>a_initiator = 0, a_from = 0, a_to = 0, a_type = 0, a_method = 0, a_id = 0, a_content = replicate content_size 0, a_valid = True\<rparr>) = Inr txt \<and>
     MCCAgentRequest_Parse ref_xml 0 txt
        \<lparr>a_initiator = 5, a_from = 5, a_to = 5, a_type = 5, a_method = 5, a_id = 5, a_content = replicate content_size 5, a_valid = False\<rparr> =
       Inr (0, m') \<and> a_from m' = 7 \<and> a_to m' = 3 \<and> swi_cameraid (a_content m') = 2"
proof -
  let ?m = "buildSwitchRequest 99 (MCCGlobalID 7 1) (MCCGlobalID 3 2)
      \<lparr>a_initiator = 0, a_from = 0, a_to = 0, a_type = 0, a_method = 0, a_id = 0, a_content = replicate content_size 0, a_valid = True\<rparr>"
  let ?old = "\<lparr>a_initiator = 5, a_from = 5, a_to = 5, a_type = 5, a_method = 5, a_id = 5, a_content = replicate content_size 5, a_valid = False\<rparr> :: MCCAgentRequest"
  have cells: "request_cells ?m = [1, 2]"
    by (simp add: request_cells_def buildSwitchRequest_def message_enums content_size_def MAX_CHILDREN_NUM_def take_2_4)
  have pre: "printable_request ?m" "wire_header ?m"
    by (simp_all add: printable_request_def buildSwitchRequest_def message_enums content_size_def wire_header_def wire_int_def)
  have ty: "a_type ?m = REQUEST" and ints: "list_all wire_int (request_cells ?m)" and len: "length (a_content ?old) = content_size"
    unfolding cells by (simp_all add: buildSwitchRequest_def wire_int_def)
  obtain doc m' where r: "request_text ?m = Inr doc" "MCCAgentRequest_Parse ref_xml 0 doc ?old = Inr (0, m')"
      "same_header m' ?m" "request_cells m' = request_cells ?m"
    using request_roundtrip [OF ref_xml_reads pre(1) ty pre(2) ints len, of 0] by blast
  moreover from r(3) have "a_from m' = 7" "a_to m' = 3" "a_method m' = SWITCH"
    by (simp_all add: same_header_def buildSwitchRequest_def)
  moreover from r(4) cells this have "take 2 (a_content m') = [1, 2]"
    by (simp add: request_cells_def message_enums)
  then have "a_content m' ! 1 = 2"
    by (metis nth_Cons_0 nth_Cons_Suc nth_take One_nat_def lessI numeral_2_eq_2)
  ultimately show ?thesis by blast
qed

text \<open>C26. A switch response that one agent prints is read back by the agent it is sent to, with its status, reason and port, but with
  the initiator replaced by what the library makes of the reason text as a number; a response of any other method, a pan-tilt
  response included, is read as invalid.\<close>

theorem response_roundtrip:
  assumes "reads_documents X" and "a_type m = RESPONSE" and "wire_header m"
    and "wire_int (r_statuscode m)" and "list_all xml_char (r_reason m)" and "wire_int (swi_outport (a_content m))"
    and "length (a_content m0) = content_size"
  shows "\<exists>m'. MCCAgentResponse_new X junk (response_text m) m0 = Inr m' \<and> (a_valid m' \<longleftrightarrow> a_method m = SWITCH) \<and>
    a_id m' = a_id m \<and> a_from m' = a_from m \<and> a_to m' = a_to m \<and> a_method m' = a_method m \<and>
    r_statuscode m' = r_statuscode m \<and> r_reason m' = r_reason m \<and> a_initiator m' = xml_int X (Some (r_reason m)) (a_initiator m) \<and>
    (a_method m = SWITCH \<longrightarrow> swi_outport (a_content m') = swi_outport (a_content m))"
  using parse_response_tree [OF assms, of junk]
  by (fastforce simp: MCCAgentResponse_new_def response_text_document same_header_def)

theorem response_roundtrip_witness:
  "\<exists>m'. MCCAgentResponse_new ref_xml 0 (response_text
        \<lparr>a_initiator = 1, a_from = 3, a_to = 7, a_type = RESPONSE, a_method = PTZ, a_id = 99, a_content = replicate content_size 0,
         a_valid = True, r_statuscode = 200, r_reason = ''Ok''\<rparr>)
        \<lparr>a_initiator = 0, a_from = 0, a_to = 0, a_type = 0, a_method = 0, a_id = 0, a_content = replicate content_size 0,
         a_valid = True, r_statuscode = 0, r_reason = []\<rparr> = Inr m' \<and> \<not> a_valid m'"
  using response_roundtrip [OF ref_xml_reads, of
      "\<lparr>a_initiator = 1, a_from = 3, a_to = 7, a_type = RESPONSE, a_method = PTZ, a_id = 99, a_content = replicate content_size 0,
         a_valid = True, r_statuscode = 200, r_reason = ''Ok''\<rparr>"
      "\<lparr>a_initiator = 0, a_from = 0, a_to = 0, a_type = 0, a_method = 0, a_id = 0, a_content = replicate content_size 0,
         a_valid = True, r_statuscode = 0, r_reason = []\<rparr>" 0]
  by (auto simp: message_enums wire_header_def wire_int_def xml_char_def quote_def content_size_def MAX_CHILDREN_NUM_def)

end
