(* ===== verification/Agent_Io.thy ===== *)
theory Agent_Io
  imports Async_Tcp Agent_Xml Resource_Manager
begin

text \<open>
  \<open>mccagentserver.cpp\<close> and \<open>mccagentclient.cpp\<close>: the two ends of the connection between a matrix and the matrix
  above it.  \<open>Send\<close> prints a message into a buffer of 1024 bytes and hands the text to the socket; \<open>onReadable\<close>
  reads what one \<open>recv\<close> delivered as one message and calls the handler.  The call is the value \<open>agent_event\<close>.
  The receive buffer has 2048 bytes; the code writes a zero behind the bytes received.
\<close>

section \<open>Sending\<close>

definition OBUF :: nat where
  "OBUF = 1024"

text \<open>The result is 0: the length is unsigned, so the test for a failed \<open>send\<close> never holds.  The message sent is logged.\<close>

definition AgentServer_SendRequest :: "int \<Rightarrow> int \<Rightarrow> MCCAgentRequest \<Rightarrow> AsyncTCPServer \<Rightarrow> (int \<times> (int \<times> string) list) result" where
  "AgentServer_SendRequest rc fd request s =
     bindr (MCCAgentRequest_print OBUF request) (\<lambda>obuf.
       bindr (request_output request) (\<lambda>logged. Inr (0, snd (AsyncTCPServer_Send rc fd obuf s))))"

definition AgentServer_SendResponse :: "int \<Rightarrow> int \<Rightarrow> MCCAgentResponse \<Rightarrow> AsyncTCPServer \<Rightarrow> (int \<times> (int \<times> string) list) result" where
  "AgentServer_SendResponse rc fd response s =
     bindr (MCCAgentResponse_print OBUF response) (\<lambda>obuf.
       bindr (response_output response) (\<lambda>logged. Inr (0, snd (AsyncTCPServer_Send rc fd obuf s))))"

definition AgentClient_SendRequest :: "int \<Rightarrow> MCCAgentRequest \<Rightarrow> AsyncTCPClient \<Rightarrow> (int \<times> (int \<times> string) list) result" where
  "AgentClient_SendRequest rc request c =
     bindr (MCCAgentRequest_print OBUF request) (\<lambda>obuf.
       bindr (request_output request) (\<lambda>logged. Inr (0, snd (AsyncTCPClient_Send rc obuf c))))"

definition AgentClient_SendResponse :: "int \<Rightarrow> MCCAgentResponse \<Rightarrow> AsyncTCPClient \<Rightarrow> (int \<times> (int \<times> string) list) result" where
  "AgentClient_SendResponse rc response c =
     bindr (MCCAgentResponse_print OBUF response) (\<lambda>obuf.
       bindr (response_output response) (\<lambda>logged. Inr (0, snd (AsyncTCPClient_Send rc obuf c))))"

section \<open>Receiving\<close>

datatype agent_event =
    ServerRxResponse int MCCAgentResponse
  | ServerRegister int MCCAgentRequest
  | ServerRxRequest int MCCAgentRequest
  | ClientRxRequest int MCCAgentRequest
  | ClientRxResponse int MCCAgentResponse

definition MSGBUF :: nat where
  "MSGBUF = 2048"

text \<open>\<open>junk\<close>, \<open>req\<close> and \<open>resp\<close> are the uninitialised contents of the local objects; the reason of a new response is empty.
  The message is logged before its handler is called; for a request the server logs the response, which it could not parse.\<close>

definition AgentServer_onReadable ::
    "TiXml \<Rightarrow> int \<Rightarrow> MCCAgentRequest \<Rightarrow> MCCAgentResponse \<Rightarrow> int \<Rightarrow> string \<Rightarrow> agent_event list result" where
  "AgentServer_onReadable X junk req resp fd data =
    (if data = [] then Inl AssertFailed
     else if hd data = CHR 0x00 then Inr []
     else if MSGBUF \<le> length data then Inl OutOfBounds
     else
       let msgbuf = c_string data in
       bindr (MCCAgentResponse_new X junk msgbuf (resp\<lparr>r_reason := []\<rparr>)) (\<lambda>response.
         if a_valid response then bindr (response_output response) (\<lambda>logged. Inr [ServerRxResponse fd response])
         else bindr (MCCAgentRequest_new X junk msgbuf req) (\<lambda>request.
           bindr (response_output response) (\<lambda>logged.
             Inr [if a_method request = REGISTER then ServerRegister fd request else ServerRxRequest fd request]))))"

definition AgentClient_onReadable ::
    "TiXml \<Rightarrow> int \<Rightarrow> MCCAgentRequest \<Rightarrow> MCCAgentResponse \<Rightarrow> int \<Rightarrow> string \<Rightarrow> agent_event list result" where
  "AgentClient_onReadable X junk req resp fd data =
    (if data = [] then Inl AssertFailed
     else if hd data = CHR 0x00 then Inr []
     else if MSGBUF \<le> length data then Inl OutOfBounds
     else
       let msgbuf = c_string data in
       bindr (MCCAgentRequest_new X junk msgbuf req) (\<lambda>request.
         if a_valid request then bindr (request_output request) (\<lambda>logged. Inr [ClientRxRequest fd request])
         else bindr (MCCAgentResponse_new X junk msgbuf (resp\<lparr>r_reason := []\<rparr>)) (\<lambda>response.
           bindr (response_output response) (\<lambda>logged. Inr [ClientRxResponse fd response]))))"

text \<open>After a failed \<open>recv\<close> the client's handler is called with a length of -1: unless the buffer starts with a zero, the handler
  writes in front of the buffer.\<close>

definition AgentClient_onReadableFailed :: "char \<Rightarrow> agent_event list result" where
  "AgentClient_onReadableFailed msgbuf0 = (if msgbuf0 = CHR 0x00 then Inr [] else Inl OutOfBounds)"

text \<open>The handler of both agents is the resource manager.\<close>

definition handle_agent_event :: "rm_env \<Rightarrow> agent_event \<Rightarrow> MCCResourceManager \<Rightarrow> (MCCResourceManager \<times> rm_call list) result" where
  "handle_agent_event e ev s =
    (case ev of
       ServerRxResponse fd r \<Rightarrow> Inr (onServerRxResponse fd r s)
     | ServerRegister fd r \<Rightarrow> onRegister e fd r s
     | ServerRxRequest fd r \<Rightarrow> bindr (onServerRxRequest fd r s) (\<lambda>s. Inr (s, []))
     | ClientRxRequest fd r \<Rightarrow> onClientRxRequest e fd r s
     | ClientRxResponse fd r \<Rightarrow> bindr (onClientRxResponse fd r s) (\<lambda>s. Inr (s, [])))"

section \<open>The texts fit\<close>

lemma length_show_int32: "is_int32 i \<Longrightarrow> length (show_int i) \<le> 11"
proof -
  assume "is_int32 i"
  then have "nat \<bar>i\<bar> < 10 ^ Suc 9"
    by (auto simp: is_int32_def)
  then have "length (nat_digits (nat \<bar>i\<bar>)) \<le> 10"
    using length_nat_digits [of "nat \<bar>i\<bar>" 9] by linarith
  then show ?thesis
    by (auto simp: show_int_def abs_if split: if_splits)
qed

lemma wire_int32: "wire_int i \<Longrightarrow> is_int32 i"
  by (auto simp: wire_int_def is_int32_def)

lemma length_show_int: "wire_int i \<Longrightarrow> length (show_int i) \<le> 11"
  by (rule length_show_int32 [OF wire_int32])

lemma length_show_int_two: "10 \<le> i \<Longrightarrow> 2 \<le> length (show_int i)"
proof -
  assume "10 \<le> i"
  moreover have "1 \<le> length (nat_digits (nat i div 10))"
    using nat_digits_nonempty [of "nat i div 10"] by (cases "nat_digits (nat i div 10)") auto
  ultimately show ?thesis
    by (simp add: show_int_def nat_digits.simps [of "nat i"])
qed

lemma length_show_int_one: "1 \<le> length (show_int i)"
  by (simp add: show_int_def Suc_le_eq)

lemma length_attr_text: "length (attr_text n v) = length n + length v + 4"
  by (simp add: attr_text_def quote_def)

lemmas text_lengths = message_head_def message_tail_def length_attr_text xml_prolog_def quote_def eol_def

lemma length_message_head32:
  "list_all is_int32 [a_type m, a_method m, a_id m, a_from m, a_to m, a_initiator m] \<Longrightarrow> length (message_head m) \<le> 173"
  using length_show_int32 [of "a_type m"] length_show_int32 [of "a_method m"] length_show_int32 [of "a_id m"]
    length_show_int32 [of "a_from m"] length_show_int32 [of "a_to m"] length_show_int32 [of "a_initiator m"]
  by (simp add: text_lengths)

lemma length_message_head: "wire_header m \<Longrightarrow> length (message_head m) \<le> 173"
  by (rule length_message_head32) (simp add: wire_header_def wire_int32)

lemma response_logged:
  assumes "list_all is_int32 [a_type r, a_method r, a_id r, a_from r, a_to r, a_initiator r]" and "is_int32 (r_statuscode r)"
    and "is_int32 (swi_outport (a_content r))" and "length (r_reason r) \<le> 100"
  shows "response_output r = Inr (response_text r)"
  using length_message_head32 [OF assms(1)] length_show_int32 [OF assms(2)] length_show_int32 [OF assms(3)] assms(4)
  by (intro response_output_Inr)
    (simp add: response_text_def LOGBUF_def length_attr_text message_tail_def eol_def)

lemma message_head_min: "107 \<le> length (message_head m)"
  by (simp add: text_lengths)

lemma length_item: "length (xml_text (id_element ''Item'' v)) = 15 + length (show_int v)"
  by (simp add: id_element_def length_attr_text eol_def)

lemma items_fit: "list_all wire_int vs \<Longrightarrow> length (concat (map (\<lambda>v. xml_text (id_element ''Item'' v)) vs)) \<le> 26 * length vs"
proof (induction vs)
  case (Cons v vs)
  then show ?case
    using length_show_int [of v] by (simp add: length_item)
qed simp

lemma items_long: "\<forall>v \<in> set vs. 10 \<le> v \<Longrightarrow> 17 * length vs \<le> length (concat (map (\<lambda>v. xml_text (id_element ''Item'' v)) vs))"
proof (induction vs)
  case (Cons v vs)
  then show ?case
    using length_show_int_two [of v] by (simp add: length_item)
qed simp

lemma register_items:
  assumes "printable_request m" and "a_method m = REGISTER"
  shows "request_text m = Inr (message_head m @ ''<Expire'' @ attr_text ''time'' (show_int (reg_expire (a_content m))) @ ''/>'' @ eol @
      ''<ChildMatrix>'' @ eol @ concat (map (\<lambda>v. xml_text (id_element ''Item'' v)) (children_list (a_content m))) @
      ''</ChildMatrix>'' @ eol @ message_tail)"
    and "length (children_list (a_content m)) = nat (reg_children_num (a_content m))"
  using assms print_children_eq [of 0 "nat (reg_children_num (a_content m))" "a_content m"]
  by (auto simp: request_text_def Let_def children_list_def printable_request_def nat_le_iff content_size_def MAX_CHILDREN_NUM_def)

lemma printed_fit:
  assumes "printable_request m" and "wire_header m" and "list_all wire_int (request_cells m)"
    and "wire_header r" and "wire_int (r_statuscode r)" and "wire_int (swi_outport (a_content r))" and "length (r_reason r) \<le> 100"
  shows "(a_method m \<noteq> REGISTER \<or> reg_children_num (a_content m) \<le> 20 \<longrightarrow>
        (\<exists>txt. MCCAgentRequest_print OBUF m = Inr txt \<and> request_text m = Inr txt)) \<and>
    (a_method m = REGISTER \<and> reg_children_num (a_content m) = 50 \<and> (\<forall>v \<in> set (children_list (a_content m)). 10 \<le> v) \<longrightarrow>
        MCCAgentRequest_print OBUF m = Inl OutOfBounds) \<and>
    MCCAgentResponse_print OBUF r = Inr (response_text r)"
proof (intro conjI impI)
  have cells: "length (request_cells m) = (if a_method m = SWITCH then 2 else if a_method m = PTZ then 4 else 2 + nat (reg_children_num (a_content m)))"
    using assms(1) register_items(2) [of m]
    by (auto simp: request_cells_def printable_request_def message_enums content_size_def MAX_CHILDREN_NUM_def)
  assume small: "a_method m \<noteq> REGISTER \<or> reg_children_num (a_content m) \<le> 20"
  consider "a_method m = REGISTER" | "a_method m = SWITCH" | "a_method m = PTZ"
    using assms(1) by (auto simp: printable_request_def)
  then show "\<exists>txt. MCCAgentRequest_print OBUF m = Inr txt \<and> request_text m = Inr txt"
  proof cases
    case 1
    have "list_all wire_int (children_list (a_content m))" and "wire_int (reg_expire (a_content m))"
      using assms(3) 1 by (simp_all add: request_cells_def)
    moreover have "length (children_list (a_content m)) \<le> 20"
      using register_items(2) [OF assms(1) 1] small 1 by simp
    ultimately show ?thesis
      using register_items(1) [OF assms(1) 1] length_message_head [OF assms(2)] items_fit [of "children_list (a_content m)"]
        length_show_int [of "reg_expire (a_content m)"]
      by (simp add: MCCAgentRequest_print_def strcpy_into_def OBUF_def length_attr_text message_tail_def eol_def)
  next
    case 2
    have "length (a_content m) = content_size"
      using assms(1) by (simp add: printable_request_def)
    then have "wire_int (swi_userid (a_content m))" and "wire_int (swi_cameraid (a_content m))"
      using assms(3) 2 by (simp_all add: request_cells_def message_enums content_size_def take_2_4)
    then have "length (show_int (swi_userid (a_content m))) \<le> 11" and "length (show_int (swi_cameraid (a_content m))) \<le> 11"
      by (auto dest: length_show_int)
    then show ?thesis
      using 2 length_message_head [OF assms(2)]
      by (simp add: MCCAgentRequest_print_def request_text_def strcpy_into_def OBUF_def length_attr_text message_tail_def eol_def
          message_enums Let_def)
  next
    case 3
    have "length (a_content m) = content_size"
      using assms(1) by (simp add: printable_request_def)
    then have "list_all wire_int [ptz_userid (a_content m), ptz_cameraid (a_content m), ptz_direction (a_content m), ptz_angle (a_content m)]"
      using assms(3) 3 by (simp add: request_cells_def message_enums content_size_def MAX_CHILDREN_NUM_def take_2_4)
    then have "length (show_int (ptz_userid (a_content m))) \<le> 11" and "length (show_int (ptz_cameraid (a_content m))) \<le> 11"
      and "length (show_int (ptz_direction (a_content m))) \<le> 11" and "length (show_int (ptz_angle (a_content m))) \<le> 11"
      by (auto dest: length_show_int)
    then show ?thesis
      using 3 length_message_head [OF assms(2)]
      by (simp add: MCCAgentRequest_print_def request_text_def strcpy_into_def OBUF_def length_attr_text message_tail_def eol_def
          message_enums Let_def)
  qed
next
  assume big: "a_method m = REGISTER \<and> reg_children_num (a_content m) = 50 \<and> (\<forall>v \<in> set (children_list (a_content m)). 10 \<le> v)"
  then show "MCCAgentRequest_print OBUF m = Inl OutOfBounds"
    using register_items [OF assms(1)] message_head_min [of m] items_long [of "children_list (a_content m)"]
      length_show_int_one [of "reg_expire (a_content m)"]
    by (simp add: MCCAgentRequest_print_def strcpy_into_def OBUF_def length_attr_text message_tail_def eol_def)
next
  show "MCCAgentResponse_print OBUF r = Inr (response_text r)"
    using length_message_head [OF assms(4)] length_show_int [OF assms(5)] length_show_int [OF assms(6)] assms(7)
    by (simp add: MCCAgentResponse_print_def response_text_def strcpy_into_def OBUF_def length_attr_text message_tail_def eol_def)
qed

definition demo_agent_request :: MCCAgentRequest where
  "demo_agent_request = \<lparr>a_initiator = 0, a_from = 1, a_to = 0, a_type = REQUEST, a_method = REGISTER, a_id = 0,
     a_content = 60 # 50 # replicate 50 12, a_valid = True\<rparr>"

definition demo_agent_response :: MCCAgentResponse where
  "demo_agent_response = \<lparr>a_initiator = 1, a_from = 3, a_to = 7, a_type = RESPONSE, a_method = SWITCH, a_id = 99,
     a_content = replicate 52 5, a_valid = True, r_statuscode = 200, r_reason = ''Ok''\<rparr>"

section \<open>One agent reads what the other printed\<close>

lemma no_nul_char:
  "name_char c \<Longrightarrow> c \<noteq> CHR 0x00" "xml_char c \<Longrightarrow> c \<noteq> CHR 0x00"
  by (auto simp: name_char_def xml_char_def is_digit_def)

lemma xml_text_no_nul: "xml_plain e \<Longrightarrow> CHR 0x00 \<notin> set (xml_text e)"
proof (induction e rule: xml_text.induct)
  case (1 n as cs)
  have "CHR 0x00 \<notin> set n"
    using 1(2) no_nul_char(1) by (auto simp: list_all_iff plain_name_def)
  moreover have "CHR 0x00 \<notin> set (attr_text k v)" if "(k, v) \<in> set as" for k v
    using 1(2) that no_nul_char by (fastforce simp: list_all_iff attr_text_def quote_def plain_name_def)
  moreover have "CHR 0x00 \<notin> set (xml_text c)" if "c \<in> set cs" for c
    using 1 that by (cases "as \<noteq> [] \<and> cs = []") (auto simp: list_all_iff)
  ultimately show ?case
    by (auto simp: eol_def)
qed simp

lemma document_c_string: "xml_plain e \<Longrightarrow> c_string (xml_document e) = xml_document e"
proof -
  assume "xml_plain e"
  then have "CHR 0x00 \<notin> set (xml_document e)"
    using xml_text_no_nul by (auto simp: xml_document_def xml_prolog_def quote_def eol_def)
  then show ?thesis
    by (auto simp: c_string_def takeWhile_eq_all_conv)
qed

lemma document_start: "xml_document e \<noteq> []" "hd (xml_document e) \<noteq> CHR 0x00"
  by (simp_all add: xml_document_def xml_prolog_def)

lemma strcpy_into_Inr: "strcpy_into cap s = Inr t \<Longrightarrow> t = s \<and> length s < cap"
  by (auto simp: strcpy_into_def split: if_splits)

lemma request_transport:
  assumes X: "reads_documents X" and m: "printable_request m" "a_type m = REQUEST" "wire_header m" "list_all wire_int (request_cells m)"
    and small: "a_method m \<noteq> REGISTER \<or> reg_children_num (a_content m) \<le> 20"
    and loc: "length (a_content req) = content_size" and srv: "srv_state srv = SrvStarted"
  shows "\<exists>txt m'. AgentServer_SendRequest rc fd m srv = Inr (0, [(fd, txt)]) \<and>
    (\<forall>fd'. AgentClient_onReadable X junk req resp fd' txt = Inr [ClientRxRequest fd' m']) \<and>
    same_header m' m \<and> request_cells m' = request_cells m"
proof -
  let ?txt = "xml_document (request_tree m)"
  have doc: "request_text m = Inr ?txt"
    by (rule request_text_document [OF m(1)])
  have print: "MCCAgentRequest_print OBUF m = Inr ?txt"
    using printed_fit [OF m(1,3,4), of demo_agent_response] small doc
    by (auto simp: demo_agent_response_def wire_header_def wire_int_def message_enums)
  then have len: "length ?txt < MSGBUF"
    using doc strcpy_into_Inr [of OBUF ?txt ?txt] by (simp add: MCCAgentRequest_print_def OBUF_def MSGBUF_def)
  obtain m' where m': "MCCAgentRequest_Parse X junk ?txt req = Inr (0, m')" "same_header m' m" "request_cells m' = request_cells m"
      "length (a_content m') = content_size"
    using parse_request_tree [OF X m loc] by blast
  let ?m = "m'\<lparr>a_valid := True\<rparr>"
  have same: "same_header ?m m" "length (a_content ?m) = content_size"
    using m'(2,4) by (simp_all add: same_header_def)
  have cells: "request_cells ?m = request_cells m"
    unfolding m'(3) [symmetric] by (simp add: request_cells_def)
  have "request_text ?m = Inr ?txt"
    using request_text_cong [OF m(1) same(1) cells same(2)] doc by simp
  then have out: "request_output m = Inr ?txt" "request_output ?m = Inr ?txt"
    using m(1) doc same(1) strcpy_into_Inr [of OBUF ?txt ?txt] print
    by (auto intro!: request_output_Inr simp: MCCAgentRequest_print_def printable_request_def same_header_def OBUF_def LOGBUF_def)
  have "AgentClient_onReadable X junk req resp fd' ?txt = Inr [ClientRxRequest fd' ?m]" for fd'
    using len m'(1) out
    by (simp add: AgentClient_onReadable_def document_start document_c_string request_tree_plain MCCAgentRequest_new_def)
  moreover have "AgentServer_SendRequest rc fd m srv = Inr (0, [(fd, ?txt)])"
    using print srv out by (simp add: AgentServer_SendRequest_def AsyncTCPServer_Send_def)
  moreover note same(1) cells
  ultimately show ?thesis
    by blast
qed

lemma response_transport:
  assumes X: "reads_documents X" and r: "a_type r = RESPONSE" "a_method r = SWITCH" "wire_header r" "wire_int (r_statuscode r)"
      "list_all xml_char (r_reason r)" "length (r_reason r) \<le> 100" "wire_int (swi_outport (a_content r))"
    and loc: "length (a_content resp) = content_size" and cli: "cli_state cli = CliConnected"
  shows "\<exists>txt r'. AgentClient_SendResponse rc r cli = Inr (0, [(cli_fd cli, txt)]) \<and>
    (\<forall>fd'. AgentServer_onReadable X junk req resp fd' txt = Inr [ServerRxResponse fd' r']) \<and>
    a_id r' = a_id r \<and> a_to r' = a_to r \<and> a_method r' = SWITCH \<and> r_statuscode r' = r_statuscode r \<and>
    r_reason r' = r_reason r \<and> swi_outport (a_content r') = swi_outport (a_content r)"
proof -
  let ?txt = "xml_document (response_tree r)"
  have print: "MCCAgentResponse_print OBUF r = Inr ?txt"
  proof -
    let ?q = "demo_agent_request\<lparr>a_method := SWITCH\<rparr>"
    have "printable_request ?q" and "wire_header ?q" and "list_all wire_int (request_cells ?q)"
      by (simp_all add: printable_request_def demo_agent_request_def wire_header_def wire_int_def message_enums request_cells_def
          content_size_def MAX_CHILDREN_NUM_def take_2_4)
    from printed_fit [OF this r(3,4,7,6)] show ?thesis
      by (simp add: response_text_document)
  qed
  then have len: "length ?txt < MSGBUF"
    using strcpy_into_Inr [of OBUF ?txt ?txt] by (simp add: MCCAgentResponse_print_def response_text_document OBUF_def MSGBUF_def)
  let ?resp = "resp\<lparr>r_reason := []\<rparr>"
  have "length (a_content ?resp) = content_size"
    using loc by simp
  then obtain r' where p: "MCCAgentResponse_Parse X junk ?txt ?resp = Inr (0, r')"
    and f: "same_header (r'\<lparr>a_initiator := a_initiator r\<rparr>) r" "r_statuscode r' = r_statuscode r" "r_reason r' = r_reason r"
      "swi_outport (a_content r') = swi_outport (a_content r)" "a_initiator r' = xml_int X (Some (r_reason r)) (a_initiator r)"
    using parse_response_tree [OF X r(1,3,4,5,7), of ?resp junk] r(2) by (auto simp del: MCCAgentMessage.update_convs)
  let ?r = "r'\<lparr>a_valid := True\<rparr>"
  have sent: "response_output r = Inr (response_text r)"
    by (rule response_logged) (use r(3,4,6,7) in \<open>simp_all add: wire_header_def wire_int32\<close>)
  have "is_int32 (a_initiator r')"
    using X f(5) r(3) wire_int32 by (simp add: reads_documents_def wire_header_def)
  then have logged: "response_output ?r = Inr (response_text ?r)"
    by (intro response_logged)
      (use f r(3,4,6,7) in \<open>simp_all add: same_header_def wire_header_def wire_int32\<close>)
  have "AgentServer_onReadable X junk req resp fd' ?txt = Inr [ServerRxResponse fd' ?r]" for fd'
    using len p logged by (simp add: AgentServer_onReadable_def document_start document_c_string response_tree_plain [OF r(5)] MCCAgentResponse_new_def)
  moreover have "AgentClient_SendResponse rc r cli = Inr (0, [(cli_fd cli, ?txt)])"
    using print cli sent by (simp add: AgentClient_SendResponse_def AsyncTCPClient_Send_def)
  moreover have "a_id ?r = a_id r" "a_to ?r = a_to r" "a_method ?r = SWITCH"
    using f(1) r(2) by (simp_all add: same_header_def)
  ultimately show ?thesis
    using f by (intro exI [of _ ?txt] exI [of _ ?r]) simp
qed

section \<open>Claims\<close>

text \<open>C40. Every switch or pan-tilt request and every response with a reason of at most 100 characters fits the buffer it is printed
  into, and so does a registration that lists up to 20 matrices; a registration that lists 50 matrices, the most the message
  holds, overruns the buffer as soon as their numbers have two digits.\<close>

theorem printed_messages_fit:
  assumes "printable_request m" and "wire_header m" and "list_all wire_int (request_cells m)"
    and "wire_header r" and "wire_int (r_statuscode r)" and "wire_int (swi_outport (a_content r))" and "length (r_reason r) \<le> 100"
  shows "(a_method m \<noteq> REGISTER \<or> reg_children_num (a_content m) \<le> 20 \<longrightarrow>
        (\<exists>txt. MCCAgentRequest_print OBUF m = Inr txt \<and> request_text m = Inr txt)) \<and>
    (a_method m = REGISTER \<and> reg_children_num (a_content m) = 50 \<and> (\<forall>v \<in> set (children_list (a_content m)). 10 \<le> v) \<longrightarrow>
        MCCAgentRequest_print OBUF m = Inl OutOfBounds) \<and>
    MCCAgentResponse_print OBUF r = Inr (response_text r)"
  by (rule printed_fit [OF assms])

theorem printed_messages_fit_witness:
  "MCCAgentRequest_print OBUF demo_agent_request = Inl OutOfBounds \<and>
   MCCAgentResponse_print OBUF demo_agent_response = Inr (response_text demo_agent_response)"
proof -
  have "printable_request demo_agent_request" and "wire_header demo_agent_request"
    and "list_all wire_int (request_cells demo_agent_request)" and "wire_header demo_agent_response"
    by (simp_all add: printable_request_def demo_agent_request_def demo_agent_response_def wire_header_def wire_int_def message_enums
        request_cells_def children_list_def content_size_def MAX_CHILDREN_NUM_def list_all_iff)
  from printed_messages_fit [OF this] show ?thesis
    by (simp add: demo_agent_request_def demo_agent_response_def wire_int_def children_list_def)
qed

end
