(* ===== verification/Mcc_System.thy ===== *)
theory Mcc_System
  imports Resource_Routing Keyboard_Props Agent_Io
begin

text \<open>
  The components put together as \<open>mccrunner.cpp\<close> connects them: the keyboard manager's thread hands messages to the
  resource manager, whose calls go to the keyboard manager, to the client manager and to the two agents; the agents
  hand what they read to the resource manager.  The static message counter is one variable of the program; the
  two managers' records each hold a copy, and a step passes it on.
\<close>

section \<open>State\<close>

record mcc_system =
  sys_rm :: MCCResourceManager
  sys_km :: MCCKeyboardManager
  sys_cm :: MCCClientManager
  sys_csrv :: AsyncTCPServer
  sys_srv :: AsyncTCPServer
  sys_cli :: AsyncTCPClient

record sys_env =
  sn_rm :: rm_env
  sn_send :: send_env
  sn_rc :: int

datatype sys_out =
    KeyboardLine int kb_out
  | ClientLine kb_out
  | AgentText int string
  | Notified int int string

text \<open>
  One call of the resource manager.  \<open>SendSwitch\<close> takes its message by reference; \<open>sent\<close> is the message of the last
  such call and what the driver made of it, for the \<open>Notify\<close> of the same object that follows.
\<close>

type_synonym call_state = "mcc_system \<times> (MCCKeyboardMessage \<times> MCCKeyboardMessage) option"

definition exec_call :: "sys_env \<Rightarrow> rm_call \<Rightarrow> call_state \<Rightarrow> (call_state \<times> sys_out list) result" where
  "exec_call e c cs =
    (case cs of (s, sent) \<Rightarrow>
     case c of
       KbMgrSendSwitch k msg \<Rightarrow>
         bindr (KbMgr_SendSwitch (sn_send e) k msg (sys_km s)) (\<lambda>(msg', km, outs).
           Inr ((s\<lparr>sys_km := km\<rparr>, Some (msg, msg')), map (KeyboardLine k) outs))
     | KbMgrSendPtz k msg \<Rightarrow>
         bindr (KbMgr_SendPtz (sn_send e) k msg (sys_km s)) (\<lambda>(km, outs).
           Inr ((s\<lparr>sys_km := km\<rparr>, sent), map (KeyboardLine k) outs))
     | ClientMgrNotify msg \<Rightarrow>
         (let m = (case sent of Some (a, b) \<Rightarrow> if a = msg then b else msg | None \<Rightarrow> msg) in
          bindr (ClientMgr_Notify (se_junk (sn_send e)) (se_send (sn_send e)) m (sys_cm s)) (\<lambda>(cm, outs).
            Inr ((s\<lparr>sys_cm := cm\<rparr>, sent), map ClientLine outs)))
     | KbNotify k msg code reason \<Rightarrow> Inr ((s, sent), [Notified k code reason])
     | ServerSend fd r \<Rightarrow>
         bindr (AgentServer_SendRequest (sn_rc e) fd r (sys_srv s)) (\<lambda>(_, outs). Inr ((s, sent), map (\<lambda>(fd, t). AgentText fd t) outs))
     | ClientSendRequest r \<Rightarrow>
         bindr (AgentClient_SendRequest (sn_rc e) r (sys_cli s)) (\<lambda>(_, outs). Inr ((s, sent), map (\<lambda>(fd, t). AgentText fd t) outs))
     | ClientSendResponse r \<Rightarrow>
         bindr (AgentClient_SendResponse (sn_rc e) r (sys_cli s)) (\<lambda>(_, outs). Inr ((s, sent), map (\<lambda>(fd, t). AgentText fd t) outs)))"

fun exec_calls :: "sys_env \<Rightarrow> rm_call list \<Rightarrow> call_state \<Rightarrow> (call_state \<times> sys_out list) result" where
  "exec_calls e [] cs = Inr (cs, [])"
| "exec_calls e (c # calls) cs =
     bindr (exec_call e c cs) (\<lambda>(cs, o1). bindr (exec_calls e calls cs) (\<lambda>(cs, o2). Inr (cs, o1 @ o2)))"

text \<open>A handler of the resource manager, and the calls it makes.\<close>

definition handle ::
    "sys_env \<Rightarrow> (MCCResourceManager \<Rightarrow> (MCCResourceManager \<times> rm_call list) result) \<Rightarrow> mcc_system \<Rightarrow> (mcc_system \<times> sys_out list) result" where
  "handle e h s =
     bindr (h ((sys_rm s)\<lparr>rm_msgCounter := km_counter (sys_km s)\<rparr>)) (\<lambda>(rm, calls).
     bindr (exec_calls e calls (s\<lparr>sys_rm := rm, sys_km := (sys_km s)\<lparr>km_counter := rm_msgCounter rm\<rparr>\<rparr>, None)) (\<lambda>((s, _), outs).
       Inr (s, outs)))"

definition handle_km_event :: "rm_env \<Rightarrow> km_event \<Rightarrow> MCCResourceManager \<Rightarrow> (MCCResourceManager \<times> rm_call list) result" where
  "handle_km_event e ev rm =
    (case ev of HandleSwitch kb msg \<Rightarrow> onSwitch e kb msg rm | HandlePtz kb msg \<Rightarrow> onPtz e kb msg rm)"

fun handle_all :: "sys_env \<Rightarrow> km_event list \<Rightarrow> mcc_system \<Rightarrow> (mcc_system \<times> sys_out list) result" where
  "handle_all e [] s = Inr (s, [])"
| "handle_all e (ev # evs) s =
     bindr (handle e (handle_km_event (sn_rm e) ev) s) (\<lambda>(s, o1). bindr (handle_all e evs s) (\<lambda>(s, o2). Inr (s, o1 @ o2)))"

text \<open>A turn of the keyboard manager's thread, with everything the message causes.\<close>

definition message_turn :: "sys_env \<Rightarrow> MCCKeyboardMessage Squeue list \<Rightarrow> mcc_system \<Rightarrow> (mcc_system \<times> sys_out list) result option" where
  "message_turn e wakes s =
    (case KbMgr_thread_turn wakes (sys_km s) of
       None \<Rightarrow> None
     | Some r \<Rightarrow> Some (bindr r (\<lambda>(evs, km). handle_all e evs (s\<lparr>sys_km := km\<rparr>))))"

text \<open>What an agent makes of the bytes it receives, with everything the message causes.\<close>

definition agent_turn :: "sys_env \<Rightarrow> agent_event list result \<Rightarrow> mcc_system \<Rightarrow> (mcc_system \<times> sys_out list) result" where
  "agent_turn e evs s =
     bindr evs (\<lambda>evs. case evs of [] \<Rightarrow> Inr (s, []) | ev # _ \<Rightarrow> handle e (handle_agent_event (sn_rm e) ev) s)"

section \<open>A switch on the own matrix\<close>

text \<open>A JXJ keyboard as entry 0, its lines open, registered with the matrix, and nothing queued; the clients can be reached.\<close>

definition jxj_installed :: "mcc_system \<Rightarrow> MCCKeyboard \<Rightarrow> SerialPort \<Rightarrow> SerialPort \<Rightarrow> bool" where
  "jxj_installed s kb kp mp \<longleftrightarrow>
     length (km_keyboards (sys_km s)) = 4 \<and> km_keyboards (sys_km s) ! 0 = Some kb \<and> km_keyboards (sys_km s) ! 1 = None \<and>
     kb_class kb = KbJXJ \<and> kb_id kb = 0 \<and> kb_keyboard kb = PtrTo kp \<and> kb_matrix kb = PtrTo mp \<and>
     sp_status kp = MCC_SP_EOPEN \<and> sp_status mp = MCC_SP_EOPEN \<and> q_list (kb_fifo kb) = [] \<and>
     sq_queue (km_fifo (sys_km s)) = [] \<and> km_handler (sys_km s) = Some True \<and> km_matrixId (sys_km s) = rm_matrixId (sys_rm s) \<and>
     ms_rcv_cnt (km_jxj (sys_km s)) \<noteq> 0 \<and> length (ms_buf (km_jxj (sys_km s))) = 8 \<and> cm_conns (sys_cm s) = []"

lemma Notify_no_clients: "cm_conns cm = [] \<Longrightarrow> \<exists>cm'. ClientMgr_Notify junk snd_rc msg cm = Inr (cm', [])"
  by (simp add: ClientMgr_Notify_def Let_def)

lemma JXJ_send:
  assumes "km_keyboards km ! 0 = Some kb" and "km_keyboards km ! 1 = None" and "kb_class kb = KbJXJ"
  shows "KbMgr_SendSwitch e 0 msg km =
    Inr (msg, set_keyboard 0 (Some (kb\<lparr>kb_fifo := \<lparr>q_list = q_list (kb_fifo kb) @ [msg]\<rparr>\<rparr>)) km, [])"
  using assms by (cases "kb_fifo kb")
    (simp add: KbMgr_SendSwitch_def kb_at_def kb_SendSwitch_def JXJ_SendSwitch_def update_virtual_def inQueue_def)

text \<open>Switching on the own matrix, from the message in the queue to the keyboard's queue for the matrix.\<close>

lemma local_switch_turn:
  assumes inst: "length (km_keyboards (sys_km s)) = 4" "km_keyboards (sys_km s) ! 0 = Some kb" "km_keyboards (sys_km s) ! 1 = None"
      "kb_class kb = KbJXJ" "km_handler (sys_km s) = Some True" "cm_conns (sys_cm s) = []"
    and q: "sq_queue (km_fifo (sys_km s)) = [msg]" and m: "msg_type msg = eKBMsg_SWITCH" "keyboard_id msg = 0"
    and acc: "processSwitchMessage (sn_rm e) msg (Some 0) ((sys_rm s)\<lparr>rm_msgCounter := km_counter (sys_km s)\<rparr>) = (ACCEPT, rm', [])"
  shows "\<exists>s'. message_turn e [] s = Some (Inr (s', [])) \<and> sys_rm s' = rm'\<lparr>rm_lastCid := camera_id msg\<rparr> \<and>
    km_jxj (sys_km s') = km_jxj (sys_km s) \<and>
    km_keyboards (sys_km s') ! 0 = Some (kb\<lparr>kb_fifo := \<lparr>q_list = q_list (kb_fifo kb) @ [msg]\<rparr>\<rparr>)"
proof -
  let ?km = "(sys_km s)\<lparr>km_fifo := (km_fifo (sys_km s))\<lparr>sq_queue := []\<rparr>\<rparr>"
  let ?rm = "rm'\<lparr>rm_lastCid := camera_id msg\<rparr>"
  have turn: "KbMgr_thread_turn [] (sys_km s) = Some (Inr ([HandleSwitch (Some 0) msg], ?km))"
    using q m inst by (simp add: KbMgr_thread_turn_def Squeue_get.simps [of "[]"] dispatch_def getKeyboard_def kb_at_def Let_def)
  have rm: "onSwitch (sn_rm e) (Some 0) msg ((sys_rm s)\<lparr>rm_msgCounter := km_counter (sys_km s)\<rparr>) =
      Inr (?rm, [KbMgrSendSwitch 0 msg, ClientMgrNotify msg])"
    using acc by (simp add: onSwitch_def)
  let ?s1 = "s\<lparr>sys_km := ?km\<lparr>km_counter := rm_msgCounter ?rm\<rparr>, sys_rm := ?rm\<rparr>"
  obtain cm' where cm: "ClientMgr_Notify (se_junk (sn_send e)) (se_send (sn_send e)) msg (sys_cm s) = Inr (cm', [])"
    using Notify_no_clients [OF inst(6)] by blast
  have send: "KbMgr_SendSwitch (sn_send e) 0 msg (?km\<lparr>km_counter := rm_msgCounter ?rm\<rparr>) =
      Inr (msg, set_keyboard 0 (Some (kb\<lparr>kb_fifo := \<lparr>q_list = q_list (kb_fifo kb) @ [msg]\<rparr>\<rparr>)) (?km\<lparr>km_counter := rm_msgCounter ?rm\<rparr>), [])"
    using inst by (intro JXJ_send) simp_all
  have "message_turn e [] s = Some (Inr (s\<lparr>sys_rm := ?rm, sys_cm := cm',
      sys_km := set_keyboard 0 (Some (kb\<lparr>kb_fifo := \<lparr>q_list = q_list (kb_fifo kb) @ [msg]\<rparr>\<rparr>)) (?km\<lparr>km_counter := rm_msgCounter ?rm\<rparr>)\<rparr>, []))"
    using rm send cm by (simp add: message_turn_def turn handle_def handle_km_event_def exec_call_def)
  then show ?thesis
    using inst(1) by (simp add: set_keyboard_def)
qed

lemma processSwitch_accepts:
  assumes "rm_monitors rm (monitor_id msg) = Some (Some m)" and "isExpired (e_now e) (mon_user m) \<or> lid (u_id (mon_user m)) \<le> keyboard_id msg"
    and "mid (camera_id msg) = rm_matrixId rm" and "rm_cameras rm (lid (camera_id msg)) = Some (Some cam)"
  shows "processSwitchMessage e msg kb rm =
    (ACCEPT, rm\<lparr>rm_monitors := (rm_monitors rm)(monitor_id msg \<mapsto> Some (Monitor_replace (e_now e) (keyboard_id msg) m))\<rparr>, [])"
  using assms by (auto simp: processSwitchMessage_def bracket_def isCameraExist_def Let_def)

lemma decode_switch:
  assumes "length body = 7" and "body ! 1 = 0x11"
  shows "JXJ_buildMessageFromPacket kid mtx (0xff # body) msg0 =
    msg0\<lparr>keyboard_id := kid, camera_id := MCCGlobalID mtx (sint (body ! 3)), msg_type := eKBMsg_SWITCH, monitor_id := sint (body ! 4)\<rparr>"
proof -
  have "(0xff # body) ! 2 = 0x11" "(0xff # body) ! 4 = body ! 3" "(0xff # body) ! 5 = body ! 4"
    using assms by (simp_all add: nth_Cons')
  then show ?thesis
    by (simp add: JXJ_buildMessageFromPacket_def Let_def)
qed

text \<open>C4. From the keyboard to the matrix: a switch packet on the line of a JXJ keyboard, in whatever pieces and after whatever noise
  it arrives, for a camera of this matrix and a monitor that is free or held by no higher keyboard, hands the monitor to the
  keyboard, and the next poll of the matrix is answered with the packet that switches this camera to this monitor.\<close>

theorem keyboard_switch_reaches_matrix:
  assumes "jxj_installed s kb kp mp"
    and "line_ok dev" and "line dev = noise @ 0xff # body @ rest" and "0xff \<notin> set noise" and "length body = 7" and "length (rx_junk re) = 1024"
    and "body ! 1 = 0x11" and "c = sint (body ! 3)" and "mon = sint (body ! 4)"
    and "\<not> msg_eq (JXJ_buildMessageFromPacket 0 (rm_matrixId (sys_rm s)) (0xff # body) (fst (MCCKeyboardMessage_new (km_counter (sys_km s))))) (kb_last kb)"
    and "rm_monitors (sys_rm s) mon = Some (Some m)" and "isExpired (e_now (sn_rm e)) (mon_user m) \<or> lid (u_id (mon_user m)) \<le> 0"
    and "rm_cameras (sys_rm s) c = Some (Some cam)"
  shows "\<exists>kb1 km1 dev1 s2 kb2 kb3 km3. MCCKeyboard_on_recv re True dev kb (sys_km s) = Some (Inr (kb1, km1, [], dev1)) \<and> line dev1 = rest \<and>
    message_turn e [] (s\<lparr>sys_km := set_keyboard 0 (Some kb1) km1\<rparr>) = Some (Inr (s2, [])) \<and>
    rm_monitors (sys_rm s2) mon = Some (Some (Monitor_replace (e_now (sn_rm e)) 0 m)) \<and>
    getKeyboard 0 (sys_km s2) = Inr (Some kb2) \<and>
    polls 1 mp kb2 (sys_km s2) = Some (Inr (kb3, km3, [ToMatrix (JXJ_switch_packet c mon)]))"
proof -
  note inst = assms(1) [unfolded jxj_installed_def]
  let ?km = "(sys_km s)\<lparr>km_counter := wrap32 (km_counter (sys_km s) + 1)\<rparr>"
  define msg where "msg = JXJ_buildMessageFromPacket 0 (rm_matrixId (sys_rm s)) (0xff # body) (fst (MCCKeyboardMessage_new (km_counter (sys_km s))))"
  have msg: "msg_type msg = eKBMsg_SWITCH" "keyboard_id msg = 0" "camera_id msg = MCCGlobalID (rm_matrixId (sys_rm s)) c" "monitor_id msg = mon"
    by (simp_all add: msg_def decode_switch [OF assms(5,7)] assms(8,9))
  define kb1 where "kb1 = kb\<lparr>kb_last := msg\<rparr>"
  define km1 where "km1 = snd (KbMgr_Post msg ?km)"
  obtain dev1 where "JXJ_OnRxKeyboardPacket (rx_junk re) dev kp kb (sys_km s) = Some (Inr (kb1, km1, [], dev1))" and rest: "line dev1 = rest"
    using JXJ_rx_packet [OF _ assms(2-6) refl, of kp kb "sys_km s"] inst assms(7,10) by (auto simp: msg_def kb1_def km1_def)
  then have rx: "MCCKeyboard_on_recv re True dev kb (sys_km s) = Some (Inr (kb1, km1, [], dev1))"
    using inst by (simp add: MCCKeyboard_on_recv_def kb_OnRxKeyboardPacket_def)
  let ?s1 = "s\<lparr>sys_km := set_keyboard 0 (Some kb1) km1\<rparr>"
  let ?rm = "(sys_rm s)\<lparr>rm_msgCounter := km_counter (sys_km ?s1)\<rparr>"
  have acc: "processSwitchMessage (sn_rm e) msg (Some 0) ?rm =
      (ACCEPT, ?rm\<lparr>rm_monitors := (rm_monitors ?rm)(monitor_id msg \<mapsto> Some (Monitor_replace (e_now (sn_rm e)) (keyboard_id msg) m))\<rparr>, [])"
    using assms(11-13) msg by (intro processSwitch_accepts [where cam = cam]) simp_all
  have "\<exists>s2. message_turn e [] ?s1 = Some (Inr (s2, [])) \<and>
    sys_rm s2 = (?rm\<lparr>rm_monitors := (rm_monitors ?rm)(monitor_id msg \<mapsto> Some (Monitor_replace (e_now (sn_rm e)) (keyboard_id msg) m))\<rparr>)\<lparr>rm_lastCid := camera_id msg\<rparr> \<and>
    km_jxj (sys_km s2) = km_jxj (sys_km ?s1) \<and>
    km_keyboards (sys_km s2) ! 0 = Some (kb1\<lparr>kb_fifo := \<lparr>q_list = q_list (kb_fifo kb1) @ [msg]\<rparr>\<rparr>)"
    using inst acc msg
    by (intro local_switch_turn) (simp_all add: set_keyboard_def km1_def kb1_def KbMgr_Post_def Squeue_add_def)
  then obtain s2 where turn: "message_turn e [] ?s1 = Some (Inr (s2, []))"
    and rm2: "rm_monitors (sys_rm s2) mon = Some (Some (Monitor_replace (e_now (sn_rm e)) 0 m))"
    and jxj: "km_jxj (sys_km s2) = km_jxj (sys_km s)"
    and kb2: "km_keyboards (sys_km s2) ! 0 = Some (kb1\<lparr>kb_fifo := \<lparr>q_list = [msg]\<rparr>\<rparr>)"
    using inst msg by (auto simp: set_keyboard_def km1_def kb1_def KbMgr_Post_def)
  let ?kb = "kb1\<lparr>kb_fifo := \<lparr>q_list = [msg]\<rparr>\<rparr>"
  have "poll_ready mp ?kb (sys_km s2)"
    using inst jxj by (simp add: poll_ready_def kb1_def)
  from polls_deliver [OF this, of "[msg]" "[]"] msg
  obtain kb3 km3 where "polls 1 mp ?kb (sys_km s2) = Some (Inr (kb3, km3, [ToMatrix (JXJ_switch_packet c mon)]))"
    by (auto simp del: polls.simps)
  with rx rest turn rm2 kb2 show ?thesis
    by (fastforce simp: getKeyboard_def kb_at_def simp del: polls.simps)
qed

definition demo_sys_keyboard :: MCCKeyboard where
  "demo_sys_keyboard = demo_keyboard\<lparr>kb_id := 0, kb_matrix := PtrTo demo_port\<rparr>"

definition demo_sys :: "MCCResourceManager \<Rightarrow> mcc_system" where
  "demo_sys rm =
     \<lparr>sys_rm = rm,
      sys_km = demo_manager\<lparr>km_keyboards := [Some demo_sys_keyboard, None, None, None], km_matrixId := rm_matrixId rm,
        km_jxj := \<lparr>ms_buf = replicate 8 0, ms_rcv_cnt = 1, ms_msg = fst (MCCKeyboardMessage_new 0)\<rparr>\<rparr>,
      sys_cm = \<lparr>cm_conns = [], cm_last = demo_packet\<rparr>, sys_csrv = AsyncTCPServer_new 0,
      sys_srv = (AsyncTCPServer_new 0)\<lparr>srv_state := SrvStarted\<rparr>,
      sys_cli = \<lparr>cli_state = CliConnected, cli_fd = 6, cli_ip = [], cli_port = 0, cli_thread = ThreadIf_new\<rparr>\<rparr>"

definition demo_sys_env :: "int \<Rightarrow> sys_env" where
  "demo_sys_env t = \<lparr>sn_rm = demo_env t, sn_send = \<lparr>se_junk = demo_packet, se_send = \<lambda>_. (36, False), se_fill = []\<rparr>, sn_rc = 36\<rparr>"

lemma demo_manager_fields [simp]:
  "km_handler demo_manager = Some True" "sq_queue (km_fifo demo_manager) = []"
  by (simp_all add: demo_manager_def SetResourceManager_def MCCKeyboardManager_new_def MCCKeyboardMessage_new_def)

lemma demo_installed: "jxj_installed (demo_sys rm) demo_sys_keyboard demo_port demo_port"
  by (simp add: jxj_installed_def demo_sys_def demo_sys_keyboard_def demo_keyboard_def MCCKeyboard_new_def MCCKeyboardMessage_new_def)

theorem keyboard_switch_reaches_matrix_witness:
  "\<exists>kb1 km1 dev1 s2 kb2 kb3 km3.
    MCCKeyboard_on_recv \<lparr>rx_junk = replicate 1024 0, rx_wrc = 8, rx_cmd_length = 0, rx_start = 0\<rparr> True
      [Data [0xff, 0, 0x11], Data [0, 2, 4, 0x55, 0x6c]] demo_sys_keyboard (sys_km (demo_sys demo_state)) = Some (Inr (kb1, km1, [], dev1)) \<and>
    message_turn (demo_sys_env 100) [] ((demo_sys demo_state)\<lparr>sys_km := set_keyboard 0 (Some kb1) km1\<rparr>) = Some (Inr (s2, [])) \<and>
    getKeyboard 0 (sys_km s2) = Inr (Some kb2) \<and>
    polls 1 demo_port kb2 (sys_km s2) = Some (Inr (kb3, km3, [ToMatrix (JXJ_switch_packet 2 4)]))"
proof -
  let ?s = "demo_sys demo_state" and ?body = "[0, 0x11, 0, 2, 4, 0x55, 0x6c] :: byte list"
  let ?re = "\<lparr>rx_junk = replicate 1024 0, rx_wrc = 8, rx_cmd_length = 0, rx_start = 0\<rparr>"
  let ?dev = "[Data [0xff, 0, 0x11], Data [0, 2, 4, 0x55, 0x6c]]"
  have line: "line_ok ?dev" "line ?dev = [] @ 0xff # ?body @ []" "0xff \<notin> set []" "length ?body = 7" "length (rx_junk ?re) = 1024" "?body ! 1 = 0x11"
    by (simp_all add: line_ok_def)
  have cm: "2 = sint (?body ! 3)" "4 = sint (?body ! 4)"
    by simp_all
  have new: "\<not> msg_eq (JXJ_buildMessageFromPacket 0 (rm_matrixId (sys_rm ?s)) (0xff # ?body) (fst (MCCKeyboardMessage_new (km_counter (sys_km ?s))))) (kb_last demo_sys_keyboard)"
    by (simp add: decode_switch msg_eq_def demo_sys_keyboard_def demo_keyboard_def MCCKeyboard_new_def MCCKeyboardMessage_new_def eKBMsg_SWITCH_def)
  have rm: "rm_monitors (sys_rm ?s) 4 = Some (Some (Monitor_new 0 4))" "rm_cameras (sys_rm ?s) 2 = Some (Some (Camera_new 0 2))"
      "isExpired (e_now (sn_rm (demo_sys_env 100))) (mon_user (Monitor_new 0 4)) \<or> lid (u_id (mon_user (Monitor_new 0 4))) \<le> 0"
    by (simp_all add: demo_sys_def Monitor_new_def NullID_def)
  show ?thesis
    using keyboard_switch_reaches_matrix [OF demo_installed line(1-6) cm new rm(1,3,2)] by blast
qed

section \<open>A switch to a camera of a lower matrix\<close>

lemma exec_send_switch:
  assumes "km_keyboards (sys_km s) ! 0 = Some kb" and "km_keyboards (sys_km s) ! 1 = None" and "kb_class kb = KbJXJ"
  shows "exec_call e (KbMgrSendSwitch 0 msg) (s, sent) =
    Inr ((s\<lparr>sys_km := set_keyboard 0 (Some (kb\<lparr>kb_fifo := \<lparr>q_list = q_list (kb_fifo kb) @ [msg]\<rparr>\<rparr>)) (sys_km s)\<rparr>, Some (msg, msg)), [])"
  using assms by (simp add: exec_call_def JXJ_send)

lemma exec_notify:
  assumes "cm_conns (sys_cm s) = []"
  shows "\<exists>cm'. exec_call e (ClientMgrNotify msg) (s, sent) = Inr ((s\<lparr>sys_cm := cm'\<rparr>, sent), [])"
proof -
  define m where "m = (case sent of Some (a, b) \<Rightarrow> if a = msg then b else msg | None \<Rightarrow> msg)"
  obtain cm' where "ClientMgr_Notify (se_junk (sn_send e)) (se_send (sn_send e)) m (sys_cm s) = Inr (cm', [])"
    using Notify_no_clients [OF assms] by blast
  then show ?thesis
    by (intro exI [of _ cm']) (simp add: exec_call_def m_def [symmetric])
qed

text \<open>A JXJ keyboard as entry 0; no client is connected.\<close>

definition jxj_first :: "mcc_system \<Rightarrow> MCCKeyboard \<Rightarrow> bool" where
  "jxj_first s kb \<longleftrightarrow> length (km_keyboards (sys_km s)) = 4 \<and> km_keyboards (sys_km s) ! 0 = Some kb \<and>
     km_keyboards (sys_km s) ! 1 = None \<and> kb_class kb = KbJXJ \<and> cm_conns (sys_cm s) = []"

definition queued :: "mcc_system \<Rightarrow> MCCKeyboardMessage list" where
  "queued s = (case km_keyboards (sys_km s) ! 0 of None \<Rightarrow> [] | Some kb \<Rightarrow> q_list (kb_fifo kb))"

lemma jxj_first_update [simp]: "jxj_first (s\<lparr>sys_rm := r\<rparr>) kb = jxj_first s kb"
  by (simp add: jxj_first_def)

lemma remote_request_sent:
  assumes "mid (camera_id msg) \<noteq> rm_matrixId (sys_rm s)" and "matchMatrix (mid (camera_id msg)) (sys_rm s) = Some mx"
    and "rm_monitors (sys_rm s) (monitor_id msg) = Some (Some m)"
    and "isExpired (e_now (sn_rm e)) (mon_user m) \<or> lid (u_id (mon_user m)) \<le> keyboard_id msg"
    and "AgentServer_SendRequest (sn_rc e) (mx_fd mx) (buildSwitchRequest (e_rand (sn_rm e))
      (MCCGlobalID (rm_matrixId (sys_rm s)) (keyboard_id msg)) (camera_id msg) (e_request (sn_rm e))) (sys_srv s) = Inr (0, [(fd, txt)])"
  shows "\<exists>rm'. handle e (handle_km_event (sn_rm e) (HandleSwitch (Some k) msg)) s =
      Inr (s\<lparr>sys_rm := rm', sys_km := (sys_km s)\<lparr>km_counter := km_counter (sys_km s)\<rparr>\<rparr>, [AgentText fd txt]) \<and>
    rm' = (sys_rm s)\<lparr>rm_msgCounter := km_counter (sys_km s),
      rm_contexts := (rm_contexts (sys_rm s))(e_rand (sn_rm e) \<mapsto> ProcessContext_new (e_rand (sn_rm e)) (Some k) msg)\<rparr>"
proof -
  let ?s = "(sys_rm s)\<lparr>rm_msgCounter := km_counter (sys_km s)\<rparr>"
  have match: "matchMatrix k ?s = matchMatrix k (sys_rm s)" for k
    by (simp add: matchMatrix_def)
  have "processSwitchMessage (sn_rm e) msg (Some k) ?s =
      (PENDING, ?s\<lparr>rm_contexts := (rm_contexts ?s)(e_rand (sn_rm e) \<mapsto> ProcessContext_new (e_rand (sn_rm e)) (Some k) msg)\<rparr>,
       [ServerSend (mx_fd mx) (buildSwitchRequest (e_rand (sn_rm e))
          (MCCGlobalID (rm_matrixId (sys_rm s)) (keyboard_id msg)) (camera_id msg) (e_request (sn_rm e)))])"
    using assms(1-4) match by (auto simp: processSwitchMessage_def bracket_def Let_def buildSwitchRequest_def)
  then show ?thesis
    using assms(5) by (simp add: handle_def handle_km_event_def onSwitch_def exec_call_def)
qed

lemma request_granted:
  assumes "jxj_first s kb" and "a_method r = SWITCH" and "a_to r = rm_matrixId (sys_rm s)"
    and "rm_cameras (sys_rm s) (swi_cameraid (a_content r)) \<noteq> None"
    and "checkTrunk (e_now (sn_rm e)) (remote_user (sn_rm e) r) (switch_camera r) (rm_trunks (sys_rm s)) = Inr (Some i, ts)"
    and "AgentClient_SendResponse (sn_rc e) (buildSwitchResponse r 200 ''Ok'' (t_outport (ts ! i)) (e_response (sn_rm e))) (sys_cli s) = Inr (0, [(fd, txt)])"
  shows "\<exists>s'. handle e (handle_agent_event (sn_rm e) (ClientRxRequest k r)) s = Inr (s', [AgentText fd txt]) \<and>
    queued s' = q_list (kb_fifo kb) @ [trunk_message r (t_outport (ts ! i)) (km_counter (sys_km s))]"
proof -
  let ?s = "(sys_rm s)\<lparr>rm_msgCounter := km_counter (sys_km s)\<rparr>"
  let ?msg = "trunk_message r (t_outport (ts ! i)) (km_counter (sys_km s))"
  let ?rm = "?s\<lparr>rm_trunks := ts[i := taken_trunk (sn_rm e) r (ts ! i)], rm_msgCounter := wrap32 (rm_msgCounter ?s + 1)\<rparr>"
  have h: "onClientRxRequest (sn_rm e) k r ?s = Inr (?rm, [KbMgrSendSwitch 0 ?msg, ClientMgrNotify ?msg,
      ClientSendResponse (buildSwitchResponse r 200 ''Ok'' (t_outport (ts ! i)) (e_response (sn_rm e)))])"
    using onClientRx_granted [of r ?s "sn_rm e" i ts k] assms(2-5) by simp
  let ?s1 = "s\<lparr>sys_rm := ?rm, sys_km := (sys_km s)\<lparr>km_counter := rm_msgCounter ?rm\<rparr>\<rparr>"
  let ?kb = "kb\<lparr>kb_fifo := \<lparr>q_list = q_list (kb_fifo kb) @ [?msg]\<rparr>\<rparr>"
  let ?s2 = "?s1\<lparr>sys_km := set_keyboard 0 (Some ?kb) (sys_km ?s1)\<rparr>"
  have send: "exec_call e (KbMgrSendSwitch 0 ?msg) (?s1, None) = Inr ((?s2, Some (?msg, ?msg)), [])"
    using assms(1) by (intro exec_send_switch) (simp_all add: jxj_first_def)
  have "cm_conns (sys_cm ?s2) = []"
    using assms(1) by (simp add: jxj_first_def)
  from exec_notify [OF this] obtain cm' where
    note_: "exec_call e (ClientMgrNotify ?msg) (?s2, Some (?msg, ?msg)) = Inr ((?s2\<lparr>sys_cm := cm'\<rparr>, Some (?msg, ?msg)), [])"
    by blast
  have resp: "exec_call e (ClientSendResponse (buildSwitchResponse r 200 ''Ok'' (t_outport (ts ! i)) (e_response (sn_rm e)))) (?s2\<lparr>sys_cm := cm'\<rparr>, Some (?msg, ?msg)) =
      Inr ((?s2\<lparr>sys_cm := cm'\<rparr>, Some (?msg, ?msg)), [AgentText fd txt])"
    using assms(6) by (simp add: exec_call_def)
  have "handle e (handle_agent_event (sn_rm e) (ClientRxRequest k r)) s = Inr (?s2\<lparr>sys_cm := cm'\<rparr>, [AgentText fd txt])"
    by (simp only: handle_def handle_agent_event_def agent_event.case h exec_calls.simps send note_ resp bindr_simps prod.case append.simps list.map)
  moreover have "queued (?s2\<lparr>sys_cm := cm'\<rparr>) = q_list (kb_fifo kb) @ [?msg]"
    using assms(1) by (simp add: queued_def jxj_first_def set_keyboard_def)
  ultimately show ?thesis
    by blast
qed

lemma response_switches:
  assumes "jxj_first s kb" and "rm_contexts (sys_rm s) (a_id r) = Some (ProcessContext_new (a_id r) (Some k) msg)"
    and "a_to r = rm_matrixId (sys_rm s)" and "a_method r = SWITCH" and "r_statuscode r = 200"
  shows "\<exists>s'. handle e (handle_agent_event (sn_rm e) (ServerRxResponse fd r)) s = Inr (s', []) \<and>
    rm_contexts (sys_rm s') (a_id r) = None \<and>
    queued s' = q_list (kb_fifo kb) @ [msg\<lparr>msg_type := eKBMsg_SWITCH, camera_id := MCCGlobalID (rm_matrixId (sys_rm s)) (swi_outport (a_content r))\<rparr>]"
proof -
  have "exec_call e (KbMgrSendSwitch 0 m) (s1, None) =
      Inr ((s1\<lparr>sys_km := set_keyboard 0 (Some (kb\<lparr>kb_fifo := \<lparr>q_list = q_list (kb_fifo kb) @ [m]\<rparr>\<rparr>)) (sys_km s1)\<rparr>, Some (m, m)), [])"
    if "jxj_first s1 kb" for m s1
    using that by (intro exec_send_switch) (simp_all add: jxj_first_def)
  then show ?thesis
    using assms
    by (simp add: handle_def handle_agent_event_def onServerRxResponse_def ProcessContext_new_def Let_def jxj_first_def queued_def
        set_keyboard_def signed_divide_int_def)
qed

text \<open>C3. A switch across two matrices: the upper matrix sends the request on the connection of the matrix the camera belongs to;
  that matrix, having a trunk, puts the camera's switch to the trunk's port into its keyboard's queue and answers on its
  connection; and the answer puts the switch of that port to the keyboard's monitor into the upper matrix's queue and settles
  the request.  What travels is the text of the messages, printed by one side and parsed by the other.\<close>

theorem remote_switch_end_to_end:
  assumes "reads_documents X"
    and "jxj_first P kbP" and "srv_state (sys_srv P) = SrvStarted"
    and "mid (camera_id msg) \<noteq> rm_matrixId (sys_rm P)" and "matchMatrix (mid (camera_id msg)) (sys_rm P) = Some mx"
    and "rm_monitors (sys_rm P) (monitor_id msg) = Some (Some m)"
    and "isExpired (e_now (sn_rm eP)) (mon_user m) \<or> lid (u_id (mon_user m)) \<le> keyboard_id msg"
    and "jxj_first C kbC" and "cli_state (sys_cli C) = CliConnected" and "rm_matrixId (sys_rm C) = mid (camera_id msg)"
    and "rm_cameras (sys_rm C) (lid (camera_id msg)) \<noteq> None"
    and "checkTrunk (e_now (sn_rm eC)) (MCCUser_new (MCCGlobalID (rm_matrixId (sys_rm P)) (keyboard_id msg)) eMCCUserType_Keyboard DEFAULT_EXPIRE (e_junk (sn_rm eC)))
      (camera_id msg) (rm_trunks (sys_rm C)) = Inr (Some i, ts)"
    and "list_all wire_int [rm_matrixId (sys_rm P), keyboard_id msg, mid (camera_id msg), lid (camera_id msg), e_rand (sn_rm eP), t_outport (ts ! i)]"
    and "length (a_content (e_request (sn_rm eP))) = content_size" and "length (a_content (e_response (sn_rm eC))) = content_size"
    and "length (a_content req) = content_size" and "length (a_content resp) = content_size"
  shows "\<exists>P1 C1 P2 t1 t2 sw. handle eP (handle_km_event (sn_rm eP) (HandleSwitch (Some k) msg)) P = Inr (P1, [AgentText (mx_fd mx) t1]) \<and>
    agent_turn eC (AgentClient_onReadable X junk req resp fdC t1) C = Inr (C1, [AgentText (cli_fd (sys_cli C)) t2]) \<and>
    queued C1 = q_list (kb_fifo kbC) @ [sw] \<and> msg_type sw = eKBMsg_SWITCH \<and> camera_id sw = camera_id msg \<and> monitor_id sw = t_outport (ts ! i) \<and>
    agent_turn eP' (AgentServer_onReadable X junk req resp fdP t2) P1 = Inr (P2, []) \<and>
    queued P2 = q_list (kb_fifo kbP) @ [msg\<lparr>msg_type := eKBMsg_SWITCH, camera_id := MCCGlobalID (rm_matrixId (sys_rm P)) (t_outport (ts ! i))\<rparr>] \<and>
    rm_contexts (sys_rm P2) (e_rand (sn_rm eP)) = None"
proof -
  let ?rid = "e_rand (sn_rm eP)"
  let ?q = "buildSwitchRequest ?rid (MCCGlobalID (rm_matrixId (sys_rm P)) (keyboard_id msg)) (camera_id msg) (e_request (sn_rm eP))"
  have q: "a_type ?q = REQUEST" "a_method ?q = SWITCH" "a_id ?q = ?rid" "a_from ?q = rm_matrixId (sys_rm P)" "a_to ?q = mid (camera_id msg)"
      "a_initiator ?q = keyboard_id msg" "length (a_content ?q) = content_size"
    by (simp_all add: buildSwitchRequest_def assms(14))
  have cells: "request_cells ?q = [keyboard_id msg, lid (camera_id msg)]"
    using assms(14) q(2)
    by (simp add: request_cells_def message_enums take_2_4 buildSwitchRequest_def content_size_def MAX_CHILDREN_NUM_def)
  have "printable_request ?q" "wire_header ?q" "list_all wire_int (request_cells ?q)" "a_method ?q \<noteq> REGISTER \<or> reg_children_num (a_content ?q) \<le> 20"
    using assms(13) q cells by (simp_all add: printable_request_def wire_header_def message_enums wire_int_def)
  from request_transport [OF assms(1) this(1) q(1) this(2-4) assms(16,3), of "sn_rc eP" "mx_fd mx" junk resp]
  obtain t1 r where t1: "AgentServer_SendRequest (sn_rc eP) (mx_fd mx) ?q (sys_srv P) = Inr (0, [(mx_fd mx, t1)])"
    and read1: "AgentClient_onReadable X junk req resp fdC t1 = Inr [ClientRxRequest fdC r]"
    and r: "same_header r ?q" "request_cells r = request_cells ?q"
    by blast
  obtain P1 where turn1: "handle eP (handle_km_event (sn_rm eP) (HandleSwitch (Some k) msg)) P = Inr (P1, [AgentText (mx_fd mx) t1])"
    and P1: "jxj_first P1 kbP" "rm_contexts (sys_rm P1) ?rid = Some (ProcessContext_new ?rid (Some k) msg)" "rm_matrixId (sys_rm P1) = rm_matrixId (sys_rm P)"
    using remote_request_sent [OF assms(4-7) t1, of k] assms(2) by (auto simp: jxj_first_def)
  have r': "a_method r = SWITCH" "a_to r = rm_matrixId (sys_rm C)" "a_from r = rm_matrixId (sys_rm P)" "a_initiator r = keyboard_id msg" "a_id r = ?rid"
    using r(1) q assms(10) by (simp_all add: same_header_def)
  have cam: "a_content r ! 1 = lid (camera_id msg)"
    using r(2) cells r'(1) by (auto simp: request_cells_def message_enums nth_append take_Suc_conv_app_nth dest: arg_cong [of _ _ "\<lambda>x. x ! 1"])
  have cid: "switch_camera r = camera_id msg"
    using cam r'(2) assms(10) by (cases "camera_id msg") simp
  let ?a = "buildSwitchResponse r 200 ''Ok'' (t_outport (ts ! i)) (e_response (sn_rm eC))"
  have a: "a_type ?a = RESPONSE" "a_method ?a = SWITCH" "a_id ?a = ?rid" "a_to ?a = rm_matrixId (sys_rm P)" "r_statuscode ?a = 200" "r_reason ?a = ''Ok''"
      "swi_outport (a_content ?a) = t_outport (ts ! i)"
    using r' assms(15) by (simp_all add: buildSwitchResponse_def content_size_def MAX_CHILDREN_NUM_def)
  have "wire_header ?a" "wire_int (r_statuscode ?a)" "list_all xml_char (r_reason ?a)" "length (r_reason ?a) \<le> 100" "wire_int (swi_outport (a_content ?a))"
    using assms(13) a r' assms(10) by (simp_all add: wire_header_def message_enums wire_int_def buildSwitchResponse_def xml_char_def quote_def)
  from response_transport [OF assms(1) a(1,2) this assms(17,9), of "sn_rc eC" junk req]
  obtain t2 b where t2: "AgentClient_SendResponse (sn_rc eC) ?a (sys_cli C) = Inr (0, [(cli_fd (sys_cli C), t2)])"
    and read2: "AgentServer_onReadable X junk req resp fdP t2 = Inr [ServerRxResponse fdP b]"
    and b: "a_id b = ?rid" "a_to b = rm_matrixId (sys_rm P1)" "a_method b = SWITCH" "r_statuscode b = 200"
      "swi_outport (a_content b) = t_outport (ts ! i)"
    using a P1(3) by auto
  have "checkTrunk (e_now (sn_rm eC)) (remote_user (sn_rm eC) r) (switch_camera r) (rm_trunks (sys_rm C)) = Inr (Some i, ts)"
    using assms(12) cid r'(3,4) by simp
  moreover have "rm_cameras (sys_rm C) (swi_cameraid (a_content r)) \<noteq> None"
    using assms(11) cam by simp
  ultimately obtain C1 where "handle eC (handle_agent_event (sn_rm eC) (ClientRxRequest fdC r)) C = Inr (C1, [AgentText (cli_fd (sys_cli C)) t2])"
    and C1: "queued C1 = q_list (kb_fifo kbC) @ [trunk_message r (t_outport (ts ! i)) (km_counter (sys_km C))]"
    using request_granted [OF assms(8) r'(1,2) _ _ t2] by blast
  then have turn2: "agent_turn eC (AgentClient_onReadable X junk req resp fdC t1) C = Inr (C1, [AgentText (cli_fd (sys_cli C)) t2])"
    by (simp add: agent_turn_def read1)
  obtain P2 where "handle eP' (handle_agent_event (sn_rm eP') (ServerRxResponse fdP b)) P1 = Inr (P2, [])"
    and P2: "rm_contexts (sys_rm P2) ?rid = None"
      "queued P2 = q_list (kb_fifo kbP) @ [msg\<lparr>msg_type := eKBMsg_SWITCH, camera_id := MCCGlobalID (rm_matrixId (sys_rm P)) (t_outport (ts ! i))\<rparr>]"
    using response_switches [OF P1(1), of b k msg eP' fdP] P1(2,3) b by auto
  then have turn3: "agent_turn eP' (AgentServer_onReadable X junk req resp fdP t2) P1 = Inr (P2, [])"
    by (simp add: agent_turn_def read2)
  have "msg_type (trunk_message r o' c) = eKBMsg_SWITCH" "camera_id (trunk_message r o' c) = camera_id msg" "monitor_id (trunk_message r o' c) = o'" for o' c
    using cid by (simp_all add: trunk_message_def)
  with turn1 turn2 C1 turn3 P2 show ?thesis
    by blast
qed
text \<open>The installation with matrix 3 below it, both with a JXJ keyboard; matrix 3 has the trunk from port 5 to port 6.\<close>

lemma demo_first: "jxj_first (demo_sys rm) demo_sys_keyboard"
  by (simp add: jxj_first_def demo_sys_def demo_sys_keyboard_def demo_keyboard_def MCCKeyboard_new_def MCCKeyboardMessage_new_def)

theorem remote_switch_end_to_end_witness:
  "\<exists>P1 C1 P2 t1 t2. handle (demo_sys_env 100) (handle_km_event (demo_env 100) (HandleSwitch (Some 0) (demo_switch 2 3 1 4))) (demo_sys demo_tree) =
      Inr (P1, [AgentText 9 t1]) \<and>
    agent_turn (demo_sys_env 100) (AgentClient_onReadable ref_xml 0 demo_request demo_response 6 t1) (demo_sys (demo_state\<lparr>rm_matrixId := 3\<rparr>)) =
      Inr (C1, [AgentText 6 t2]) \<and>
    agent_turn (demo_sys_env 101) (AgentServer_onReadable ref_xml 0 demo_request demo_response 9 t2) P1 = Inr (P2, []) \<and>
    camera_id (hd (queued P2)) = MCCGlobalID 7 6"
proof -
  let ?P = "demo_sys demo_tree" and ?C = "demo_sys (demo_state\<lparr>rm_matrixId := 3\<rparr>)" and ?msg = "demo_switch 2 3 1 4"
  have tree: "sys_rm (demo_sys r) = r" "rm_matrixId demo_tree = 7" "rm_monitors demo_tree = rm_monitors demo_state" for r
    by (simp_all add: demo_sys_def demo_tree_def)
  have 1: "srv_state (sys_srv ?P) = SrvStarted" "mid (camera_id ?msg) \<noteq> rm_matrixId (sys_rm ?P)"
      "matchMatrix (mid (camera_id ?msg)) (sys_rm ?P) = Some (MatrixInfo_new 3 9)"
      "rm_monitors (sys_rm ?P) (monitor_id ?msg) = Some (Some (Monitor_new 0 4))"
      "isExpired (e_now (sn_rm (demo_sys_env 100))) (mon_user (Monitor_new 0 4)) \<or> lid (u_id (mon_user (Monitor_new 0 4))) \<le> keyboard_id ?msg"
    by (simp_all add: demo_sys_def demo_tree_def matchMatrix_def MatrixInfo_new_def Monitor_new_def NullID_def)
  have 2: "cli_state (sys_cli ?C) = CliConnected" "rm_matrixId (sys_rm ?C) = mid (camera_id ?msg)" "rm_cameras (sys_rm ?C) (lid (camera_id ?msg)) \<noteq> None"
    by (simp_all add: demo_sys_def)
  have 3: "checkTrunk (e_now (sn_rm (demo_sys_env 100))) (MCCUser_new (MCCGlobalID (rm_matrixId (sys_rm ?P)) (keyboard_id ?msg))
        eMCCUserType_Keyboard DEFAULT_EXPIRE (e_junk (sn_rm (demo_sys_env 100)))) (camera_id ?msg) (rm_trunks (sys_rm ?C)) = Inr (Some 0, [Trunk_new 5 6])"
  proof -
    have "updateUsers 100 (Trunk_new 5 6) = Trunk_new 5 6"
      by (simp add: updateUsers_def Trunk_new_def drop_expired.simps Let_def)
    then show ?thesis
      by (simp add: tree demo_sys_env_def checkTrunk_def find_index_def Trunk_new_def Trunk_empty_def NullID_def)
  qed
  have 4: "list_all wire_int [rm_matrixId (sys_rm ?P), keyboard_id ?msg, mid (camera_id ?msg), lid (camera_id ?msg), e_rand (sn_rm (demo_sys_env 100)),
      t_outport ([Trunk_new 5 6] ! 0)]"
    by (simp add: tree demo_sys_env_def wire_int_def Trunk_new_def)
  have 5: "length (a_content (e_request (sn_rm (demo_sys_env 100)))) = content_size" "length (a_content (e_response (sn_rm (demo_sys_env 100)))) = content_size"
      "length (a_content demo_request) = content_size" "length (a_content demo_response) = content_size"
    by (simp_all add: demo_sys_env_def demo_request_def demo_response_def)
  have 6: "mx_fd (MatrixInfo_new 3 9) = 9" "cli_fd (sys_cli ?C) = 6" "sn_rm (demo_sys_env 100) = demo_env 100" "t_outport (Trunk_new 5 6) = 6"
      "q_list (kb_fifo demo_sys_keyboard) = []"
    by (simp_all add: MatrixInfo_new_def demo_sys_def demo_sys_env_def Trunk_new_def demo_sys_keyboard_def demo_keyboard_def MCCKeyboard_new_def MCCKeyboardMessage_new_def)
  show ?thesis
    using remote_switch_end_to_end [OF ref_xml_reads demo_first 1 demo_first 2 3 4 5, of 0 0 6 "demo_sys_env 101" 9] 6 tree
    by (fastforce simp: demo_sys_def)
qed

end
