(* ===== verification/Resource_Init.thy ===== *)
theory Resource_Init
  imports Resource_Manager
begin

text \<open>
  The settings \<open>Cameras\<close>, \<open>Monitors\<close> and \<open>Trunks\<close>: what the text loops of \<open>initResource\<close> read from the texts in the documented form
  (numbers separated by colons, trunks as pairs with a hyphen).
\<close>

fun join_ids :: "nat list \<Rightarrow> string" where
  "join_ids [] = []"
| "join_ids [n] = nat_digits n"
| "join_ids (n # m # ns) = nat_digits n @ CHR '':'' # join_ids (m # ns)"

fun join_trunks :: "(nat \<times> nat) list \<Rightarrow> string" where
  "join_trunks [] = []"
| "join_trunks [(a, b)] = nat_digits a @ CHR ''-'' # nat_digits b"
| "join_trunks ((a, b) # t # ts) = nat_digits a @ CHR ''-'' # nat_digits b @ CHR '':'' # join_trunks (t # ts)"

lemma separators [simp]: "\<not> is_digit CHR '':''" "\<not> is_digit CHR ''-''"
  by (simp_all add: is_digit_def)

lemma parse_ids_join: "ns \<noteq> [] \<Longrightarrow> (\<And>n. n \<in> set ns \<Longrightarrow> n < 2 ^ 31) \<Longrightarrow> parse_ids (join_ids ns) = map int ns"
proof (induction ns rule: join_ids.induct)
  case (2 n)
  then have "scan_digits 0 (nat_digits n) = (int n, [])"
    by (intro scan_nat_digits) simp
  then show ?case by (simp add: parse_ids.simps)
next
  case (3 n m ns)
  then have "scan_digits 0 (nat_digits n @ CHR '':'' # join_ids (m # ns)) = (int n, CHR '':'' # join_ids (m # ns))"
    by (intro scan_digits_roundtrip) simp_all
  with 3 show ?case by (simp add: parse_ids.simps [of "nat_digits n @ _"])
qed simp

lemma parse_trunks_join:
  "ts \<noteq> [] \<Longrightarrow> (\<And>a b. (a, b) \<in> set ts \<Longrightarrow> a < 2 ^ 31 \<and> b < 2 ^ 31) \<Longrightarrow>
   parse_trunks (join_trunks ts) = Inr (map (\<lambda>(a, b). (int a, int b)) ts)"
proof (induction ts rule: join_trunks.induct)
  case (2 a b)
  then have "scan_digits 0 (nat_digits a @ CHR ''-'' # nat_digits b) = (int a, CHR ''-'' # nat_digits b)"
    and "scan_digits 0 (nat_digits b) = (int b, [])"
    by (auto intro!: scan_digits_roundtrip scan_nat_digits)
  then show ?case by (simp add: parse_trunks.simps)
next
  case (3 a b t ts)
  from "3.prems"(2) [of a b] have "a < 2 ^ 31" and "b < 2 ^ 31" by simp_all
  then have "scan_digits 0 (nat_digits a @ CHR ''-'' # nat_digits b @ CHR '':'' # join_trunks (t # ts)) =
      (int a, CHR ''-'' # nat_digits b @ CHR '':'' # join_trunks (t # ts))"
    and "scan_digits 0 (nat_digits b @ CHR '':'' # join_trunks (t # ts)) = (int b, CHR '':'' # join_trunks (t # ts))"
    by (auto intro!: scan_digits_roundtrip)
  moreover have "parse_trunks (join_trunks (t # ts)) = Inr (map (\<lambda>(a, b). (int a, int b)) (t # ts))"
    by (rule "3.IH") (use "3.prems"(2) in auto)
  ultimately show ?case by (simp add: parse_trunks.simps [of "nat_digits a @ _"])
qed simp

lemma fold_map_upd: "fold (\<lambda>i m. m(i \<mapsto> f i)) is m k = (if k \<in> set is then Some (f k) else m k)"
  by (induction "is" arbitrary: m) auto

text \<open>Started with settings in the documented form, the manager has exactly the listed cameras and monitors and the listed
  trunks in order, each trunk idle.\<close>

theorem initResource_reads_settings:
  assumes "cams \<noteq> []" and "mons \<noteq> []" and "ts \<noteq> []"
    and "\<forall>n \<in> set cams \<union> set mons. n < 2 ^ 31" and "\<forall>(a, b) \<in> set ts. a < 2 ^ 31 \<and> b < 2 ^ 31"
  shows "\<exists>s. initResource junk (join_ids cams) (join_ids mons) (join_trunks ts) MCCResourceManager_new = Inr s \<and>
    (\<forall>k. rm_cameras s k = (if k \<in> int ` set cams then Some (Some (Camera_new (junk k) k)) else None)) \<and>
    (\<forall>k. rm_monitors s k = (if k \<in> int ` set mons then Some (Some (Monitor_new (junk k) k)) else None)) \<and>
    rm_trunks s = map (\<lambda>(a, b). Trunk_new (int a) (int b)) ts"
proof -
  have "parse_ids (join_ids cams) = map int cams" and "parse_ids (join_ids mons) = map int mons"
    and "parse_trunks (join_trunks ts) = Inr (map (\<lambda>(a, b). (int a, int b)) ts)"
    using assms by (auto intro!: parse_ids_join parse_trunks_join)
  then show ?thesis
    by (simp add: initResource_def MCCResourceManager_new_def fold_map_upd case_prod_beta' Let_def)
qed

theorem initResource_reads_settings_witness:
  "\<exists>s. initResource (\<lambda>i. 0) (join_ids [1, 12]) (join_ids [4]) (join_trunks [(5, 6)]) MCCResourceManager_new = Inr s \<and>
     rm_cameras s 12 \<noteq> None \<and> rm_cameras s 2 = None \<and> rm_trunks s = [Trunk_new 5 6]"
  using initResource_reads_settings [of "[1, 12]" "[4]" "[(5, 6)]" "\<lambda>i. 0"] by auto

end
