(* ===== verification/Mcc_Runner.thy ===== *)
theory Mcc_Runner
  imports Config_Props Mcc_System Resource_Init
begin

text \<open>
  \<open>configparser.cpp\<close> and \<open>mccrunner.cpp\<close>: from the settings file to the running program.  \<open>run_env\<close> holds what the
  operating system returns.

  \<^item> \<open>run\<close> ignores the results of \<open>MCCResourceManager::init\<close> and \<open>MCCClientManager::Start\<close>; the server objects they leave are part
    of the system.
  \<^item> The program's objects are the record \<open>mcc_system\<close>; when \<open>run\<close> gives up it leaves the objects it has made, and there
    is no system.  The connection to the upper matrix is an object in any case; it is started only when the level is
    not 0.
  \<^item> The daemon process goes on in the child of \<open>fork\<close>; a failing call there ends the program with an exception.
\<close>

section \<open>Settings\<close>

record ConfigParser =
  mFileConfig :: "INI_CONFIG option"

definition ConfigParser_new :: ConfigParser where
  "ConfigParser_new = \<lparr>mFileConfig = None\<rparr>"

definition ConfigParser_Parse :: "string option \<Rightarrow> bool \<Rightarrow> ConfigParser \<Rightarrow> (int \<times> ConfigParser) result" where
  "ConfigParser_Parse file readable cp =
    (if mFileConfig cp \<noteq> None then Inl AssertFailed
     else
       bindr (ini_config_create_from_file file readable False) (\<lambda>config.
         let cp = cp\<lparr>mFileConfig := config\<rparr> in
         Inr (if mFileConfig cp = None then (-1, cp) else (0, cp))))"

definition getConfigString :: "ConfigParser \<Rightarrow> string \<Rightarrow> string \<Rightarrow> string \<Rightarrow> string option" where
  "getConfigString cp sect name default_string =
    (case mFileConfig cp of None \<Rightarrow> None | Some c \<Rightarrow> ini_config_get_string c (Some sect) name (Some default_string))"

definition getConfigInt :: "ConfigParser \<Rightarrow> string \<Rightarrow> string \<Rightarrow> int \<Rightarrow> int result" where
  "getConfigInt cp sect name default_int =
    (case mFileConfig cp of None \<Rightarrow> Inr (-1) | Some c \<Rightarrow> ini_config_get_int c (Some sect) name default_int)"

text \<open>Without a file, the -1 becomes \<open>true\<close>.\<close>

definition getConfigBool :: "ConfigParser \<Rightarrow> string \<Rightarrow> string \<Rightarrow> bool \<Rightarrow> bool result" where
  "getConfigBool cp sect name default_val =
    (case mFileConfig cp of
       None \<Rightarrow> Inr True
     | Some c \<Rightarrow> bindr (ini_config_get_int c (Some sect) name (if default_val then 1 else 0)) (\<lambda>i. Inr (i \<noteq> 0)))"

section \<open>Starting\<close>

record run_env =
  re_file :: "string option"
  re_opens :: bool
  re_daemon :: bool
  re_junk :: "int \<Rightarrow> int"
  re_server :: "int \<times> int \<times> int \<times> int \<times> int"
  re_client :: "int \<times> int \<times> int \<times> int \<times> int"
  re_cliThread :: int
  re_kmThread :: int
  re_load :: load_env
  re_zero :: client_packet

definition AsyncTCPClient_new :: "(int \<Rightarrow> int) \<Rightarrow> AsyncTCPClient" where
  "AsyncTCPClient_new junk = \<lparr>cli_state = CliCreated, cli_fd = junk 0, cli_ip = [], cli_port = junk 1, cli_thread = ThreadIf_new\<rparr>"

definition start_server :: "string option \<Rightarrow> int \<Rightarrow> int \<times> int \<times> int \<times> int \<times> int \<Rightarrow> AsyncTCPServer \<Rightarrow> (int \<times> AsyncTCPServer) result" where
  "start_server ip port rcs s = (case rcs of (epoll, sock, bnd, lst, thr) \<Rightarrow> AsyncTCPServer_Start ip port epoll sock bnd lst thr s)"

text \<open>\<open>MCCAgentServer::Start\<close> and \<open>MCCClientManager::Start\<close>: a new server object, which is the handler's, and its \<open>Start\<close>.\<close>

definition AgentServer_Start :: "int \<Rightarrow> int \<Rightarrow> int \<times> int \<times> int \<times> int \<times> int \<Rightarrow> (int \<times> AsyncTCPServer) result" where
  "AgentServer_Start junk port rcs = start_server None port rcs (AsyncTCPServer_new junk)"

definition ClientMgr_Start :: "int \<Rightarrow> string option \<Rightarrow> int \<Rightarrow> int \<times> int \<times> int \<times> int \<times> int \<Rightarrow> (int \<times> AsyncTCPServer) result" where
  "ClientMgr_Start junk ip port rcs = start_server ip port rcs (AsyncTCPServer_new junk)"

definition text_or_fault :: "string option \<Rightarrow> string result" where
  "text_or_fault p = (case p of None \<Rightarrow> Inl NullDeref | Some s \<Rightarrow> Inr s)"

text \<open>\<open>MCCResourceManager::init\<close>: the resources, then the two agents on port 10001.\<close>

definition MCCResourceManager_init ::
    "run_env \<Rightarrow> ConfigParser \<Rightarrow> (int \<times> MCCResourceManager \<times> AsyncTCPServer \<times> AsyncTCPClient) result" where
  "MCCResourceManager_init e cp =
     bindr (text_or_fault (getConfigString cp ''MCC'' ''Cameras'' ''1'')) (\<lambda>cams.
     bindr (text_or_fault (getConfigString cp ''MCC'' ''Monitors'' ''1'')) (\<lambda>mons.
     bindr (text_or_fault (getConfigString cp ''MCC'' ''Trunks'' ''1-1'')) (\<lambda>trunks.
     bindr (initResource (re_junk e) cams mons trunks MCCResourceManager_new) (\<lambda>rm.
     bindr (getConfigInt cp ''MCC'' ''Level'' 0) (\<lambda>level.
     bindr (getConfigInt cp ''MCC'' ''MatrixID'' 0) (\<lambda>matrixid.
     bindr (AgentServer_Start (re_junk e 0) 10001 (re_server e)) (\<lambda>(serverRc, srv).
     let parentip = getConfigString cp ''MCC'' ''ParentNodeIP'' [] in
     bindr (if serverRc = 0 \<and> parentip \<noteq> None \<and> level \<noteq> 0
            then AsyncTCPClient_Start (re_cliThread e) (the parentip) 10001 (AsyncTCPClient_new (re_junk e))
            else Inr (0, AsyncTCPClient_new (re_junk e))) (\<lambda>(clientRc, cli).
       case initAgentMessenger level matrixid parentip serverRc clientRc rm of (rc, rm, _) \<Rightarrow> Inr (rc, rm, srv, cli)))))))))"

text \<open>The turn of the loop of \<open>run\<close> for one keyboard, and the loop.\<close>

definition load_configured :: "run_env \<Rightarrow> ConfigParser \<Rightarrow> int \<Rightarrow> MCCKeyboardManager \<Rightarrow> (int \<times> MCCKeyboardManager) result option" where
  "load_configured e cp i km =
    (let kb_name = ''Keyboard'' @ show_int i in
     case getConfigBool cp kb_name ''Enable'' False of
       Inl f \<Rightarrow> Some (Inl f)
     | Inr False \<Rightarrow> Some (Inr (0, km))
     | Inr True \<Rightarrow>
         (case bindr (text_or_fault (getConfigString cp kb_name ''Name'' [])) (\<lambda>name.
               bindr (text_or_fault (getConfigString cp kb_name ''KeyboardPath'' [])) (\<lambda>sp_kb.
               bindr (text_or_fault (getConfigString cp kb_name ''MatrixPath'' [])) (\<lambda>sp_mt.
               bindr (text_or_fault (getConfigString cp kb_name ''Setup'' [])) (\<lambda>setup.
                 Inr (name, sp_kb, sp_mt, if setup = [] then ''9600,8,1,n'' else setup))))) of
            Inl f \<Rightarrow> Some (Inl f)
          | Inr (name, sp_kb, sp_mt, setup) \<Rightarrow> LoadKeyboard_setup (re_load e) (re_junk e i) name sp_kb sp_mt setup i km))"

fun load_keyboards :: "run_env \<Rightarrow> ConfigParser \<Rightarrow> int list \<Rightarrow> MCCKeyboardManager \<Rightarrow> (int \<times> MCCKeyboardManager) result option" where
  "load_keyboards e cp [] km = Some (Inr (0, km))"
| "load_keyboards e cp (i # is) km =
    (case load_configured e cp i km of
       None \<Rightarrow> None
     | Some (Inl f) \<Rightarrow> Some (Inl f)
     | Some (Inr (rc, km)) \<Rightarrow> if rc \<noteq> 0 then Some (Inr (rc, km)) else load_keyboards e cp is km)"

definition MCCRunner_run :: "run_env \<Rightarrow> (int \<times> mcc_system option) result option" where
  "MCCRunner_run e =
    (case bindr (ConfigParser_Parse (re_file e) (re_opens e) ConfigParser_new) (\<lambda>(rc, cp).
          if rc < 0 then Inr None
          else
            bindr (getConfigBool cp ''MCC'' ''Daemonize'' False) (\<lambda>d.
            if d \<and> \<not> re_daemon e then Inl Uncaught
            else
              bindr (MCCResourceManager_init e cp) (\<lambda>(_, rm, srv, cli).
              bindr (getConfigInt cp ''MCC'' ''MatrixID'' 0) (\<lambda>matrix_id.
                Inr (Some (cp, rm, srv, cli,
                  SetResourceManager True (SetMatrixId matrix_id (MCCKeyboardManager_new 4 (re_junk e 0) (rm_msgCounter rm) (re_zero e))))))))) of
       Inl f \<Rightarrow> Some (Inl f)
     | Inr None \<Rightarrow> Some (Inr (-1, None))
     | Inr (Some (cp, rm, srv, cli, km)) \<Rightarrow>
         if re_kmThread e \<noteq> 0 then Some (Inr (re_kmThread e, None))
         else
           (case load_keyboards e cp [0, 1, 2, 3] km of
              None \<Rightarrow> None
            | Some (Inl f) \<Rightarrow> Some (Inl f)
            | Some (Inr (rc, km)) \<Rightarrow>
                if rc \<noteq> 0 then Some (Inr (rc, None))
                else
                  Some (bindr (getConfigInt cp ''Client'' ''ListenPort'' 30000) (\<lambda>port.
                        bindr (ClientMgr_Start (re_junk e 0) None port (re_client e)) (\<lambda>(_, csrv).
                          Inr (0, Some \<lparr>sys_rm = rm\<lparr>rm_msgCounter := km_counter km\<rparr>, sys_km = km,
                            sys_cm = \<lparr>cm_conns = [], cm_last = re_zero e\<rparr>, sys_csrv = csrv, sys_srv = srv, sys_cli = cli\<rparr>))))))"

section \<open>Reading the settings\<close>

lemma foldl_nat_digits: "foldl (\<lambda>n c. n * 10 + digit_val c) 0 (nat_digits n) = int n"
proof (induction n rule: nat_digits.induct)
  case (1 n)
  then show ?case
    by (cases "n < 10") (simp_all add: nat_digits.simps [of n] zdiv_int zmod_int)
qed

lemma c_atoi_nat_digits:
  assumes "int n < 2 ^ 31"
  shows "c_atoi (nat_digits n) = Inr (int n)"
proof -
  obtain c cs where cs: "nat_digits n = c # cs"
    using nat_digits_nonempty [of n] by (cases "nat_digits n") auto
  have d: "\<forall>x \<in> set (c # cs). is_digit x"
    using nat_digits_all_digits cs by metis
  have first: "\<not> is_space c" "c \<noteq> CHR ''-''" "c \<noteq> CHR ''+''"
    using d by (auto simp: is_digit_def is_space_def)
  have val: "foldl (\<lambda>n c. n * 10 + digit_val c) 0 (nat_digits n) = int n"
    by (rule foldl_nat_digits)
  have "takeWhile is_digit (c # cs) = c # cs"
    using d by (simp add: takeWhile_eq_all_conv)
  then show ?thesis
    using assms first val by (simp add: c_atoi_def cs is_int32_def Let_def)
qed

lemma no_nul_digits: "CHR 0x00 \<notin> set (nat_digits n)"
  using nat_digits_all_digits [of "CHR 0x00" n] by (auto simp: is_digit_def)

text \<open>A configuration as the parser object sees it.\<close>

lemma config_string:
  assumes "config_ok c" and "mFileConfig cp = Some c"
  shows "getConfigString cp sect key d = Some (case setting c (Some sect) key of None \<Rightarrow> d | Some v \<Rightarrow> c_string v)"
  using assms by (simp add: getConfigString_def get_string_setting split: option.splits)

lemma config_int:
  assumes "config_ok c" and "mFileConfig cp = Some c"
  shows "getConfigInt cp sect key d = (case setting c (Some sect) key of None \<Rightarrow> Inr d | Some v \<Rightarrow> c_atoi (c_string v))"
  using assms by (simp add: getConfigInt_def get_int_setting)

text \<open>A setting that is a number.\<close>

definition number_setting :: "INI_CONFIG \<Rightarrow> string \<Rightarrow> string \<Rightarrow> nat \<Rightarrow> bool" where
  "number_setting c sect key n \<longleftrightarrow> setting c (Some sect) key = Some (nat_digits n) \<and> int n < 2 ^ 31"

lemma config_number:
  assumes "config_ok c" and "mFileConfig cp = Some c" and "number_setting c sect key n"
  shows "getConfigInt cp sect key d = Inr (int n)"
  using assms by (simp add: config_int number_setting_def c_atoi_nat_digits no_nul_digits)

lemma config_bool:
  assumes "config_ok c" and "mFileConfig cp = Some c" and "number_setting c sect key n"
  shows "getConfigBool cp sect key d = Inr (n \<noteq> 0)"
  using assms by (simp add: getConfigBool_def get_int_setting number_setting_def c_atoi_nat_digits no_nul_digits)

text \<open>A setting that may be left out, with the value that counts then.\<close>

definition number_or :: "INI_CONFIG \<Rightarrow> string \<Rightarrow> string \<Rightarrow> nat \<Rightarrow> nat \<Rightarrow> bool" where
  "number_or c sect key d n \<longleftrightarrow> setting c (Some sect) key = None \<and> n = d \<or> number_setting c sect key n"

definition text_or :: "INI_CONFIG \<Rightarrow> string \<Rightarrow> string \<Rightarrow> string \<Rightarrow> string \<Rightarrow> bool" where
  "text_or c sect key d v \<longleftrightarrow> setting c (Some sect) key = None \<and> v = d \<or> setting c (Some sect) key = Some v \<and> CHR 0x00 \<notin> set v"

lemma config_number_or:
  assumes "config_ok c" and "mFileConfig cp = Some c" and "number_or c sect key d n"
  shows "getConfigInt cp sect key (int d) = Inr (int n)"
  using assms config_number [OF assms(1,2)] by (auto simp: number_or_def config_int)

lemma config_bool_or:
  assumes "config_ok c" and "mFileConfig cp = Some c" and "number_or c sect key 0 n"
  shows "getConfigBool cp sect key False = Inr (n \<noteq> 0)"
proof (cases "number_setting c sect key n")
  case True
  then show ?thesis
    by (rule config_bool [OF assms(1,2)])
next
  case False
  with assms show ?thesis
    by (simp add: number_or_def getConfigBool_def get_int_setting)
qed

lemma config_text_or:
  assumes "config_ok c" and "mFileConfig cp = Some c" and "text_or c sect key d v"
  shows "getConfigString cp sect key d = Some v"
  using assms by (auto simp: text_or_def config_string)

section \<open>The program starts\<close>

definition starts :: "int \<times> int \<times> int \<times> int \<times> int \<Rightarrow> bool" where
  "starts rcs \<longleftrightarrow> (case rcs of (epoll, sock, bnd, lst, thr) \<Rightarrow> epoll \<noteq> 0 \<and> 0 \<le> sock \<and> bnd = 0 \<and> lst = 0 \<and> thr = 0)"

lemma start_server_starts:
  "starts rcs \<Longrightarrow> \<exists>s. start_server ip port rcs (AsyncTCPServer_new j) = Inr (0, s) \<and> srv_state s = SrvStarted \<and>
    srv_addr s = Some (ip, port mod 2 ^ 16) \<and> srv_listenFd s = fst (snd rcs)"
  by (auto simp: starts_def start_server_def AsyncTCPServer_Start_def AsyncTCPServer_new_def ThreadIf_Start_def ThreadIf_new_def Let_def)

text \<open>
  Settings with one JXJ keyboard, as keyboard 0, and any other value: the resources, the numbers of the matrix and of its level,
  the daemon switch, the address of the upper matrix, the port for clients, the two device files and the settings of
  their lines.  \<open>mcc_settings\<close> lists the values, \<open>jxj_settings\<close> says that a file has them; a key may be left out where
  the code has a default, and an empty \<open>Setup\<close> counts as left out.
\<close>

record mcc_settings =
  st_cams :: "nat list"
  st_mons :: "nat list"
  st_trunks :: "(nat \<times> nat) list"
  st_matrix :: nat
  st_level :: nat
  st_daemon :: nat
  st_parent :: string
  st_port :: nat
  st_kbPath :: string
  st_mtPath :: string
  st_line :: "nat \<times> nat \<times> nat \<times> char"

definition line_setting :: "INI_CONFIG \<Rightarrow> nat \<times> nat \<times> nat \<times> char \<Rightarrow> bool" where
  "line_setting c l \<longleftrightarrow>
     (case l of (b, d, s, q) \<Rightarrow>
        setting c (Some ''Keyboard0'') ''Setup'' \<in> {None, Some []} \<and> l = (9600, 8, 1, CHR ''n'') \<or>
        setting c (Some ''Keyboard0'') ''Setup'' = Some (setup_text b d s q) \<and>
          int b < 2 ^ 31 \<and> int d < 2 ^ 31 \<and> int s < 2 ^ 31 \<and> q \<noteq> CHR '','' \<and> q \<noteq> CHR 0x00)"

definition jxj_settings :: "INI_CONFIG \<Rightarrow> mcc_settings \<Rightarrow> bool" where
  "jxj_settings c S \<longleftrightarrow>
     text_or c ''MCC'' ''Cameras'' ''1'' (join_ids (st_cams S)) \<and> text_or c ''MCC'' ''Monitors'' ''1'' (join_ids (st_mons S)) \<and>
     text_or c ''MCC'' ''Trunks'' ''1-1'' (join_trunks (st_trunks S)) \<and>
     st_cams S \<noteq> [] \<and> st_mons S \<noteq> [] \<and> st_trunks S \<noteq> [] \<and> (\<forall>n \<in> set (st_cams S) \<union> set (st_mons S). n < 2 ^ 31) \<and>
     (\<forall>(a, b) \<in> set (st_trunks S). a < 2 ^ 31 \<and> b < 2 ^ 31) \<and>
     number_or c ''MCC'' ''Daemonize'' 0 (st_daemon S) \<and> number_or c ''MCC'' ''MatrixID'' 0 (st_matrix S) \<and>
     number_or c ''MCC'' ''Level'' 0 (st_level S) \<and> text_or c ''MCC'' ''ParentNodeIP'' [] (st_parent S) \<and> length (st_parent S) < 256 \<and>
     number_or c ''Client'' ''ListenPort'' 30000 (st_port S) \<and>
     number_setting c ''Keyboard0'' ''Enable'' 1 \<and> text_or c ''Keyboard0'' ''Name'' [] ''jxj'' \<and>
     text_or c ''Keyboard0'' ''KeyboardPath'' [] (st_kbPath S) \<and> text_or c ''Keyboard0'' ''MatrixPath'' [] (st_mtPath S) \<and>
     length (st_kbPath S) < 256 \<and> length (st_mtPath S) < 256 \<and> line_setting c (st_line S) \<and>
     (\<forall>i \<in> {1, 2, 3}. number_or c (''Keyboard'' @ show_int i) ''Enable'' 0 0)"

text \<open>The keyboard's two lines are open on the two device files with the settings of the file.\<close>

definition lines_open :: "mcc_settings \<Rightarrow> MCCKeyboard \<Rightarrow> bool" where
  "lines_open S kb \<longleftrightarrow>
     (\<exists>kp mp. kb_keyboard kb = PtrTo kp \<and> kb_matrix kb = PtrTo mp \<and> sp_file kp = st_kbPath S \<and> sp_file mp = st_mtPath S \<and>
        (case st_line S of (b, d, s, q) \<Rightarrow>
           \<forall>p \<in> {kp, mp}. SerialPort_isOpen p \<and> sp_baudrate p = int b \<and> sp_databits p = int d \<and> sp_stopbits p = int s \<and>
             sp_parity p = of_char q))"

lemma digit_chars:
  "digit_char 0 = CHR ''0''" "digit_char 1 = CHR ''1''" "digit_char 6 = CHR ''6''" "digit_char 8 = CHR ''8''" "digit_char 9 = CHR ''9''"
  by code_simp+

text \<open>A keyboard whose ports can be freed, as \<open>Unload\<close> does.\<close>

definition ports_live :: "MCCKeyboard \<Rightarrow> bool" where
  "ports_live kb \<longleftrightarrow> kb_class kb = KbVirtual \<or> \<not> kb_loaded kb \<or> (\<exists>k m. kb_keyboard kb = PtrTo k \<and> kb_matrix kb = PtrTo m)"

lemma load_first:
  assumes "config_ok c" and "mFileConfig cp = Some c" and s: "jxj_settings c S"
    and "km_max km = 4" and "length (km_keyboards km) = 4" and "km_keyboards km ! 0 = None" and "km_factories km ''jxj'' = Some (Some KbJXJ)"
    and "opens (le_keyboard (re_load e))" and "opens (le_matrix (re_load e))" and "le_thread (re_load e) = 0"
  shows "\<exists>kb. load_keyboards e cp [0, 1, 2, 3] km = Some (Inr (0, set_keyboard 0 (Some kb) (km\<lparr>km_counter := wrap32 (km_counter km + 1)\<rparr>))) \<and>
    kb_class kb = KbJXJ \<and> kb_id kb = 0 \<and> kb_loaded kb \<and> map_option th_state (kb_query kb) = Some RUNNING \<and> q_list (kb_fifo kb) = [] \<and>
    ports_live kb \<and> lines_open S kb"
proof -
  note cfg = assms(1,2)
  obtain b d s q where line: "st_line S = (b, d, s, q)"
    by (cases "st_line S") auto
  have name: "show_int 0 = ''0''"
    by code_simp
  have text9600: "setup_text 9600 8 1 CHR ''n'' = ''9600,8,1,n''"
    using digit_chars by (simp add: setup_text_def nat_digits.simps)
  have small: "int b < 2 ^ 31" "int d < 2 ^ 31" "int s < 2 ^ 31" "q \<noteq> CHR '',''"
    using s by (auto simp: jxj_settings_def line_setting_def line)
  obtain su where su: "getConfigString cp ''Keyboard0'' ''Setup'' [] = Some su"
      "(if su = [] then ''9600,8,1,n'' else su) = setup_text b d s q"
  proof -
    have nul: "CHR 0x00 \<notin> set (setup_text b d s q)" if "q \<noteq> CHR 0x00"
      using that by (simp add: setup_text_def no_nul_digits)
    have ne: "setup_text b d s q \<noteq> []"
      by (simp add: setup_text_def)
    consider "setting c (Some ''Keyboard0'') ''Setup'' \<in> {None, Some []}" "(b, d, s, q) = (9600, 8, 1, CHR ''n'')"
      | "setting c (Some ''Keyboard0'') ''Setup'' = Some (setup_text b d s q)" "q \<noteq> CHR 0x00"
      using s by (auto simp: jxj_settings_def line_setting_def line)
    then show thesis
    proof cases
      case 1
      then show ?thesis
        using text9600 by (intro that [of "[]"]) (auto simp: config_string [OF cfg])
    next
      case 2
      then show ?thesis
        using nul ne by (intro that [of "setup_text b d s q"]) (simp_all add: config_string [OF cfg])
    qed
  qed
  have "getConfigBool cp ''Keyboard0'' ''Enable'' False = Inr True"
    using config_bool [OF cfg, of "''Keyboard0''" "''Enable''" 1] s by (simp add: jxj_settings_def)
  moreover have "getConfigString cp ''Keyboard0'' ''Name'' [] = Some ''jxj''" "getConfigString cp ''Keyboard0'' ''KeyboardPath'' [] = Some (st_kbPath S)"
      "getConfigString cp ''Keyboard0'' ''MatrixPath'' [] = Some (st_mtPath S)"
    using s by (simp_all add: jxj_settings_def config_text_or [OF cfg])
  ultimately have one: "load_configured e cp 0 km =
      LoadKeyboard_setup (re_load e) (re_junk e 0) ''jxj'' (st_kbPath S) (st_mtPath S) (setup_text b d s q) 0 km"
    using su by (simp add: load_configured_def name text_or_fault_def Let_def)
  have none: "load_configured e cp i km' = Some (Inr (0, km'))" if "i \<in> {1, 2, 3}" for i km'
  proof -
    have "number_or c (''Keyboard'' @ show_int i) ''Enable'' 0 0"
      using s that by (auto simp: jxj_settings_def)
    from config_bool_or [OF cfg this] show ?thesis
      by (simp add: load_configured_def Let_def)
  qed
  have km: "(0 :: int) \<le> 0" "0 < km_max km" "km_keyboards km ! nat 0 = None"
    using assms(4,6) by simp_all
  have short: "length (st_kbPath S) < 256" "length (st_mtPath S) < 256"
    using s by (simp_all add: jxj_settings_def)
  obtain kb where "LoadKeyboard_setup (re_load e) (re_junk e 0) ''jxj'' (st_kbPath S) (st_mtPath S) (setup_text b d s q) 0 km =
      Some (Inr (0, set_keyboard 0 (Some kb) (km\<lparr>km_counter := wrap32 (km_counter km + 1)\<rparr>)))"
    and kb: "kb_class kb = KbJXJ" "kb_id kb = 0" "kb_loaded kb" "map_option th_state (kb_query kb) = Some RUNNING" "q_list (kb_fifo kb) = []"
      "ports_live kb" "lines_open S kb"
    using load_jxj [OF km assms(7-10) short small, of "re_junk e 0"] by (auto simp: ports_live_def lines_open_def line)
  then have "load_keyboards e cp [0, 1, 2, 3] km = Some (Inr (0, set_keyboard 0 (Some kb) (km\<lparr>km_counter := wrap32 (km_counter km + 1)\<rparr>)))"
    by (simp add: one none)
  with kb show ?thesis
    by blast
qed

lemma init_settings:
  assumes "config_ok c" and "mFileConfig cp = Some c" and s: "jxj_settings c S" and "starts (re_server e)"
  shows "\<exists>rm srv cli. MCCResourceManager_init e cp = Inr (0, rm, srv, cli) \<and> rm_matrixId rm = int (st_matrix S) \<and> rm_level rm = int (st_level S) \<and>
    (\<forall>k. rm_cameras rm k = (if k \<in> int ` set (st_cams S) then Some (Some (Camera_new (re_junk e k) k)) else None)) \<and>
    (\<forall>k. rm_monitors rm k = (if k \<in> int ` set (st_mons S) then Some (Some (Monitor_new (re_junk e k) k)) else None)) \<and>
    rm_trunks rm = map (\<lambda>(a, b). Trunk_new (int a) (int b)) (st_trunks S) \<and>
    srv_state srv = SrvStarted \<and> srv_addr srv = Some (None, 10001) \<and>
    cli_state cli = (if st_level S = 0 then CliCreated else CliStarted) \<and> (st_level S \<noteq> 0 \<longrightarrow> cli_ip cli = st_parent S \<and> cli_port cli = 10001)"
proof -
  note cfg = assms(1,2)
  have str: "getConfigString cp ''MCC'' ''Cameras'' ''1'' = Some (join_ids (st_cams S))"
      "getConfigString cp ''MCC'' ''Monitors'' ''1'' = Some (join_ids (st_mons S))"
      "getConfigString cp ''MCC'' ''Trunks'' ''1-1'' = Some (join_trunks (st_trunks S))" "getConfigString cp ''MCC'' ''ParentNodeIP'' [] = Some (st_parent S)"
    using s by (simp_all add: jxj_settings_def config_text_or [OF cfg])
  have num: "getConfigInt cp ''MCC'' ''Level'' 0 = Inr (int (st_level S))" "getConfigInt cp ''MCC'' ''MatrixID'' 0 = Inr (int (st_matrix S))"
    using s config_number_or [OF cfg, of _ _ 0] by (auto simp: jxj_settings_def)
  obtain rm where rm: "initResource (re_junk e) (join_ids (st_cams S)) (join_ids (st_mons S)) (join_trunks (st_trunks S)) MCCResourceManager_new = Inr rm"
      "\<forall>k. rm_cameras rm k = (if k \<in> int ` set (st_cams S) then Some (Some (Camera_new (re_junk e k) k)) else None)"
      "\<forall>k. rm_monitors rm k = (if k \<in> int ` set (st_mons S) then Some (Some (Monitor_new (re_junk e k) k)) else None)"
      "rm_trunks rm = map (\<lambda>(a, b). Trunk_new (int a) (int b)) (st_trunks S)"
    using initResource_reads_settings [of "st_cams S" "st_mons S" "st_trunks S" "re_junk e"] s by (auto simp: jxj_settings_def)
  obtain srv where srv: "AgentServer_Start (re_junk e 0) 10001 (re_server e) = Inr (0, srv)" "srv_state srv = SrvStarted" "srv_addr srv = Some (None, 10001)"
    using start_server_starts [OF assms(4), of None 10001] by (auto simp: AgentServer_Start_def)
  obtain cli where cli: "AsyncTCPClient_Start (re_cliThread e) (st_parent S) 10001 (AsyncTCPClient_new (re_junk e)) = Inr (0, cli)"
      "cli_state cli = CliStarted" "cli_ip cli = st_parent S" "cli_port cli = 10001"
    using s by (simp add: AsyncTCPClient_Start_def AsyncTCPClient_new_def jxj_settings_def)
  have new: "cli_state (AsyncTCPClient_new (re_junk e)) = CliCreated"
    by (simp add: AsyncTCPClient_new_def)
  show ?thesis
    using rm srv(2,3) cli new
    by (cases "st_level S = 0") (simp_all add: MCCResourceManager_init_def str num text_or_fault_def srv(1) initAgentMessenger_def Let_def)
qed

lemma run_boots:
  assumes "ini_config_create_from_file (re_file e) (re_opens e) False = Inr (Some c)" and "config_ok c" and "jxj_settings c S"
    and "st_daemon S = 0 \<or> re_daemon e" and "starts (re_server e)" and "starts (re_client e)" and "re_kmThread e = 0"
    and "opens (le_keyboard (re_load e))" and "opens (le_matrix (re_load e))" and "le_thread (re_load e) = 0"
  shows "\<exists>s kb. MCCRunner_run e = Some (Inr (0, Some s)) \<and> jxj_first s kb \<and> kb_id kb = 0 \<and> queued s = [] \<and>
    kb_loaded kb \<and> map_option th_state (kb_query kb) = Some RUNNING \<and> lines_open S kb \<and>
    ports_live kb \<and> km_keyboards (sys_km s) = [Some kb, None, None, None] \<and> km_max (sys_km s) = 4 \<and>
    sq_queue (km_fifo (sys_km s)) = [] \<and> km_handler (sys_km s) = Some True \<and>
    km_matrixId (sys_km s) = int (st_matrix S) \<and> rm_matrixId (sys_rm s) = int (st_matrix S) \<and> rm_level (sys_rm s) = int (st_level S) \<and>
    (\<forall>k. rm_cameras (sys_rm s) k = (if k \<in> int ` set (st_cams S) then Some (Some (Camera_new (re_junk e k) k)) else None)) \<and>
    (\<forall>k. rm_monitors (sys_rm s) k = (if k \<in> int ` set (st_mons S) then Some (Some (Monitor_new (re_junk e k) k)) else None)) \<and>
    rm_trunks (sys_rm s) = map (\<lambda>(a, b). Trunk_new (int a) (int b)) (st_trunks S) \<and>
    srv_state (sys_srv s) = SrvStarted \<and> srv_addr (sys_srv s) = Some (None, 10001) \<and>
    srv_state (sys_csrv s) = SrvStarted \<and> srv_addr (sys_csrv s) = Some (None, int (st_port S) mod 2 ^ 16) \<and>
    srv_listenFd (sys_csrv s) = fst (snd (re_client e)) \<and>
    cli_state (sys_cli s) = (if st_level S = 0 then CliCreated else CliStarted) \<and>
    (st_level S \<noteq> 0 \<longrightarrow> cli_ip (sys_cli s) = st_parent S \<and> cli_port (sys_cli s) = 10001)"
proof -
  let ?cp = "\<lparr>mFileConfig = Some c\<rparr>" and ?matrix = "int (st_matrix S)"
  have cp: "ConfigParser_Parse (re_file e) (re_opens e) ConfigParser_new = Inr (0, ?cp)" "mFileConfig ?cp = Some c"
    using assms(1) by (simp_all add: ConfigParser_Parse_def ConfigParser_new_def)
  have sets: "number_or c ''MCC'' ''Daemonize'' 0 (st_daemon S)" "number_or c ''Client'' ''ListenPort'' 30000 (st_port S)"
      "number_or c ''MCC'' ''MatrixID'' 0 (st_matrix S)"
    using assms(3) by (simp_all add: jxj_settings_def)
  note daemon = config_bool_or [OF assms(2) cp(2) sets(1)]
  have matrixid: "getConfigInt ?cp ''MCC'' ''MatrixID'' 0 = Inr ?matrix"
    using config_number_or [OF assms(2) cp(2) sets(3)] by simp
  have port: "getConfigInt ?cp ''Client'' ''ListenPort'' 30000 = Inr (int (st_port S))"
    using config_number_or [OF assms(2) cp(2) sets(2)] by simp
  obtain rm srv cli where init: "MCCResourceManager_init e ?cp = Inr (0, rm, srv, cli)"
    and rm: "rm_matrixId rm = ?matrix" "rm_level rm = int (st_level S)"
      "\<forall>k. rm_cameras rm k = (if k \<in> int ` set (st_cams S) then Some (Some (Camera_new (re_junk e k) k)) else None)"
      "\<forall>k. rm_monitors rm k = (if k \<in> int ` set (st_mons S) then Some (Some (Monitor_new (re_junk e k) k)) else None)"
      "rm_trunks rm = map (\<lambda>(a, b). Trunk_new (int a) (int b)) (st_trunks S)" "srv_state srv = SrvStarted" "srv_addr srv = Some (None, 10001)"
      "cli_state cli = (if st_level S = 0 then CliCreated else CliStarted)"
      "st_level S \<noteq> 0 \<longrightarrow> cli_ip cli = st_parent S \<and> cli_port cli = 10001"
    using init_settings [OF assms(2) cp(2) assms(3,5)] by blast
  define km where "km = SetResourceManager True (SetMatrixId ?matrix (MCCKeyboardManager_new 4 (re_junk e 0) (rm_msgCounter rm) (re_zero e)))"
  have km: "km_max km = 4" "length (km_keyboards km) = 4" "km_keyboards km ! 0 = None" "km_keyboards km ! 1 = None" "km_factories km ''jxj'' = Some (Some KbJXJ)"
      "km_handler km = Some True" "km_matrixId km = ?matrix" "sq_queue (km_fifo km) = []" "km_keyboards km = [None, None, None, None]"
    by (simp_all add: km_def SetResourceManager_def SetMatrixId_def MCCKeyboardManager_new_def MCC_MAX_KEYBOARD_NUMBER_def registered_factories_def split_beta eval_nat_numeral)
  obtain kb where load: "load_keyboards e ?cp [0, 1, 2, 3] km = Some (Inr (0, set_keyboard 0 (Some kb) (km\<lparr>km_counter := wrap32 (km_counter km + 1)\<rparr>)))"
    and kb: "kb_class kb = KbJXJ" "kb_id kb = 0" "q_list (kb_fifo kb) = []" "ports_live kb" "kb_loaded kb"
      "map_option th_state (kb_query kb) = Some RUNNING" "lines_open S kb"
    using load_first [OF assms(2) cp(2) assms(3) km(1-3,5) assms(8-10)] by blast
  obtain csrv where csrv: "ClientMgr_Start (re_junk e 0) None (int (st_port S)) (re_client e) = Inr (0, csrv)" "srv_state csrv = SrvStarted"
      "srv_addr csrv = Some (None, int (st_port S) mod 2 ^ 16)" "srv_listenFd csrv = fst (snd (re_client e))"
    using start_server_starts [OF assms(6), of None "int (st_port S)"] by (auto simp: ClientMgr_Start_def)
  let ?km = "set_keyboard 0 (Some kb) (km\<lparr>km_counter := wrap32 (km_counter km + 1)\<rparr>)"
  let ?s = "\<lparr>sys_rm = rm\<lparr>rm_msgCounter := km_counter ?km\<rparr>, sys_km = ?km, sys_cm = \<lparr>cm_conns = [], cm_last = re_zero e\<rparr>,
    sys_csrv = csrv, sys_srv = srv, sys_cli = cli\<rparr>"
  have "\<not> (st_daemon S \<noteq> 0 \<and> \<not> re_daemon e)"
    using assms(4) by auto
  then have "MCCRunner_run e = Some (Inr (0, Some ?s))"
    by (simp add: MCCRunner_run_def cp(1) daemon init matrixid km_def [symmetric] assms(7) load port csrv(1) del: load_keyboards.simps)
  moreover have "jxj_first ?s kb" "queued ?s = []" "sq_queue (km_fifo ?km) = []" "km_handler ?km = Some True" "km_matrixId ?km = ?matrix"
      "km_keyboards ?km = [Some kb, None, None, None]" "km_max ?km = 4"
    using km kb(1,3) by (simp_all add: jxj_first_def queued_def set_keyboard_def)
  ultimately show ?thesis
    using rm kb(2,4-7) csrv(2-4) by (intro exI [of _ ?s] exI [of _ kb]) simp
qed


text \<open>A settings file with a JXJ keyboard, as \<open>ini_config_save\<close> writes it.\<close>

definition demo_mcc :: "string CONFIG_BTREE" where
  "demo_mcc = \<lparr>bt_numNodes = 6, bt_root =
     Node ''MatrixID'' (nat_digits 7) (Node ''Cameras'' (join_ids [1, 2]) Null (Node ''Level'' (nat_digits 1) Null Null))
       (Node ''Monitors'' (join_ids [4]) Null (Node ''Trunks'' (join_trunks [(5, 6)]) (Node ''ParentNodeIP'' ''192.168.1.253'' Null Null) Null))\<rparr>"

definition demo_kb0 :: "string CONFIG_BTREE" where
  "demo_kb0 = \<lparr>bt_numNodes = 5, bt_root =
     Node ''KeyboardPath'' ''/dev/ttyUSB1'' (Node ''Enable'' (nat_digits 1) Null Null)
       (Node ''MatrixPath'' ''/dev/ttyUSB0'' Null (Node ''Name'' ''jxj'' Null (Node ''Setup'' (setup_text 600 8 1 CHR ''n'') Null Null)))\<rparr>"

definition demo_client :: "string CONFIG_BTREE" where
  "demo_client = \<lparr>bt_numNodes = 1, bt_root = Node ''ListenPort'' (nat_digits 8000) Null Null\<rparr>"

definition demo_file :: INI_CONFIG where
  "demo_file = \<lparr>bt_numNodes = 3, bt_root = Node ''MCC'' demo_mcc (Node ''Keyboard0'' demo_kb0 (Node ''Client'' demo_client Null Null) Null) Null\<rparr>"

definition demo_settings :: mcc_settings where
  "demo_settings = \<lparr>st_cams = [1, 2], st_mons = [4], st_trunks = [(5, 6)], st_matrix = 7, st_level = 1, st_daemon = 0,
     st_parent = ''192.168.1.253'', st_port = 8000, st_kbPath = ''/dev/ttyUSB1'', st_mtPath = ''/dev/ttyUSB0'', st_line = (600, 8, 1, CHR ''n'')\<rparr>"

lemma demo_digits: "nat_digits 7 = ''7''" "nat_digits 1 = ''1''" "nat_digits (Suc 0) = ''1''" "join_ids [1, 2] = ''1:2''" "join_ids [4] = ''4''" "join_trunks [(5, 6)] = ''5-6''"
  by code_simp+

lemma demo_digits2: "nat_digits 8000 = ''8000''" "setup_text 600 8 1 CHR ''n'' = ''600,8,1,n''" "setup_text 600 8 (Suc 0) CHR ''n'' = ''600,8,1,n''"
  using digit_chars by (simp_all add: setup_text_def nat_digits.simps)

lemma demo_file_map: "btree_map demo_file = [''Client'' \<mapsto> demo_client, ''Keyboard0'' \<mapsto> demo_kb0, ''MCC'' \<mapsto> demo_mcc]"
  by (auto simp: demo_file_def btree_map_def tree_map_def fun_eq_iff)

lemma demo_file_ok: "config_ok demo_file"
proof -
  have "btree_ok demo_mcc" and "btree_ok demo_kb0" and "btree_ok demo_client" and "btree_ok demo_file"
    by (simp_all add: demo_mcc_def demo_kb0_def demo_client_def demo_file_def btree_ok_def search_tree_Node less_char_def)
  then show ?thesis
    by (auto simp: config_ok_def demo_file_map ran_def split: if_splits)
qed

lemma demo_file_clean: "config_clean demo_file"
  unfolding demo_file_def demo_mcc_def demo_kb0_def demo_client_def demo_digits demo_digits2
  by (simp add: config_clean_def name_clean_def key_clean_def value_clean_def
      no_setting_def trim_def is_blank_def MAX_SECTION_SIZE_def strict_prefix_def)

lemma demo_file_settings: "jxj_settings demo_file demo_settings"
proof -
  have "show_int 1 = ''1''" "show_int 2 = ''2''" "show_int 3 = ''3''"
    by code_simp+
  moreover have "setting demo_file (Some ''MCC'') ''Daemonize'' = None" "setting demo_file (Some ''Keyboard1'') ''Enable'' = None"
      "setting demo_file (Some ''Keyboard2'') ''Enable'' = None" "setting demo_file (Some ''Keyboard3'') ''Enable'' = None"
      "setting demo_file (Some ''MCC'') ''Cameras'' = Some (join_ids [1, 2])" "setting demo_file (Some ''MCC'') ''Monitors'' = Some (join_ids [4])"
      "setting demo_file (Some ''MCC'') ''Trunks'' = Some (join_trunks [(5, 6)])" "setting demo_file (Some ''MCC'') ''MatrixID'' = Some (nat_digits 7)"
      "setting demo_file (Some ''MCC'') ''Level'' = Some (nat_digits 1)" "setting demo_file (Some ''MCC'') ''ParentNodeIP'' = Some ''192.168.1.253''"
      "setting demo_file (Some ''Client'') ''ListenPort'' = Some (nat_digits 8000)" "setting demo_file (Some ''Keyboard0'') ''Enable'' = Some (nat_digits 1)"
      "setting demo_file (Some ''Keyboard0'') ''Name'' = Some ''jxj''" "setting demo_file (Some ''Keyboard0'') ''KeyboardPath'' = Some ''/dev/ttyUSB1''"
      "setting demo_file (Some ''Keyboard0'') ''MatrixPath'' = Some ''/dev/ttyUSB0''"
      "setting demo_file (Some ''Keyboard0'') ''Setup'' = Some (setup_text 600 8 1 CHR ''n'')"
    by (simp_all add: setting_def config_view_def demo_file_map section_or_default_def)
      (simp_all add: demo_mcc_def demo_kb0_def demo_client_def btree_map_def tree_map_def)
  ultimately show ?thesis
    by (simp add: jxj_settings_def demo_settings_def number_or_def number_setting_def text_or_def line_setting_def demo_digits demo_digits2 no_nul_digits)
qed

definition demo_run :: run_env where
  "demo_run = \<lparr>re_file = Some (ini_config_print demo_file), re_opens = True, re_daemon = True, re_junk = (\<lambda>i. 0), re_server = (5, 6, 0, 0, 0),
     re_client = (7, 8, 0, 0, 0), re_cliThread = 0, re_kmThread = 0, re_load = demo_load, re_zero = demo_packet\<rparr>"

lemma demo_run_loads:
  "\<exists>c. ini_config_create_from_file (re_file demo_run) (re_opens demo_run) False = Inr (Some c) \<and> config_ok c \<and>
     jxj_settings c demo_settings"
proof -
  have "bt_root demo_file \<noteq> Null"
    by (simp add: demo_file_def)
  from load_saved [OF demo_file_ok demo_file_clean this] obtain c where
    c: "ini_config_create_from_string (ini_config_print demo_file) (length (ini_config_print demo_file)) False = Inr (Some c)" "config_ok c"
      "config_view c = [''default'' \<mapsto> Map.empty] ++ config_view demo_file"
    by blast
  have same: "setting c = setting demo_file"
    by (auto simp: setting_def c(3) map_add_def fun_eq_iff split: option.splits)
  have "jxj_settings c demo_settings"
    using demo_file_settings unfolding jxj_settings_def number_or_def number_setting_def text_or_def line_setting_def same .
  with c show ?thesis
    by (simp add: demo_run_def ini_config_create_from_file_def)
qed

lemma demo_run_env:
  "st_daemon demo_settings = 0 \<or> re_daemon demo_run" "starts (re_server demo_run)" "starts (re_client demo_run)" "re_kmThread demo_run = 0" "opens (le_keyboard (re_load demo_run))"
  "opens (le_matrix (re_load demo_run))" "le_thread (re_load demo_run) = 0"
  "re_junk demo_run = (\<lambda>i. 0)" "fst (snd (re_client demo_run)) = 8"
  by (simp_all add: demo_run_def demo_settings_def starts_def demo_load_def opens_def demo_open_def)

lemma demo_run_boots:
  "\<exists>s kb. MCCRunner_run demo_run = Some (Inr (0, Some s)) \<and> jxj_first s kb \<and> sq_queue (km_fifo (sys_km s)) = [] \<and>
     km_handler (sys_km s) = Some True \<and> rm_matrixId (sys_rm s) = 7 \<and>
     rm_cameras (sys_rm s) 2 = Some (Some (Camera_new 0 2)) \<and> rm_monitors (sys_rm s) 4 = Some (Some (Monitor_new 0 4)) \<and>
     srv_listenFd (sys_csrv s) \<noteq> 9"
proof -
  obtain c where "ini_config_create_from_file (re_file demo_run) (re_opens demo_run) False = Inr (Some c)" "config_ok c"
      "jxj_settings c demo_settings"
    using demo_run_loads by blast
  from run_boots [OF this demo_run_env(1-7)] show ?thesis
    using demo_run_env(8,9) by (fastforce simp: demo_settings_def)
qed


end
