(* ===== verification/Mcc_Steps.thy ===== *)
theory Mcc_Steps
  imports Mcc_Runner
begin

text \<open>
  The threads of the running program as one step relation on \<open>mcc_system\<close>.  Each step is a turn of one thread: a keyboard's
  receive thread, the thread of the virtual keyboard, the dispatch thread of the keyboard manager, the event loop of the
  agent server, of the connection to the upper matrix, or of the client manager's server.  A turn takes what the operating
  system delivers as an argument.  The turns of the relation follow one another, as they do in a run whose turns do not overlap.
  Overlapping turns are outside of it.  The queues of messages have mutexes; the monitors are touched by the dispatch thread alone and the
  trunks by the thread of the connection to the upper matrix; the registered matrices are locked but for the reads of theory
  \<open>Matrix_Store\<close>.  \<open>mCameras\<close>, \<open>mProcessContexts\<close>, \<open>__last_switch_cid\<close> and the client manager's set of connections are used by the
  dispatch thread and by the threads of the agents or of the client server with no lock (\<open>mCamerasMutex\<close> and \<open>mMonitorsMutex\<close> are
  declared and never taken), so that two turns that use them and overlap have no defined result.
  \<open>te_req\<close>, \<open>te_resp\<close>, \<open>te_junk\<close> and \<open>te_buf0\<close> are uninitialised contents of the handlers' locals.
\<close>

record tcp_env =
  te_sys :: sys_env
  te_xml :: TiXml
  te_junk :: int
  te_req :: MCCAgentRequest
  te_resp :: MCCAgentResponse
  te_buf0 :: char

section \<open>The turns\<close>

text \<open>What \<open>MCCAgentServer\<close> does when its server calls it.\<close>

definition onServerCall :: "tcp_env \<Rightarrow> tcp_call \<Rightarrow> mcc_system \<Rightarrow> (mcc_system \<times> sys_out list) result" where
  "onServerCall e c s =
    (case c of
       NewConnection fd \<Rightarrow> handle (te_sys e) (\<lambda>rm. Inr (onNewConnection fd rm, [])) s
     | Disconnect fd \<Rightarrow> handle (te_sys e) (\<lambda>rm. bindr (onDisconnect fd rm) (\<lambda>rm. Inr (rm, []))) s
     | Readable fd data \<Rightarrow> agent_turn (te_sys e) (AgentServer_onReadable (te_xml e) (te_junk e) (te_req e) (te_resp e) fd data) s
     | _ \<Rightarrow> Inr (s, []))"

text \<open>What \<open>MCCAgentClient\<close> does when its connection calls it.\<close>

definition onClientCall :: "tcp_env \<Rightarrow> tcp_call \<Rightarrow> mcc_system \<Rightarrow> (mcc_system \<times> sys_out list) result" where
  "onClientCall e c s =
    (case c of
       Connected fd \<Rightarrow> handle (te_sys e) (onClientConnected (sn_rm (te_sys e)) fd) s
     | Disconnected fd \<Rightarrow> handle (te_sys e) (\<lambda>rm. Inr (onClientDisconnected fd rm, [])) s
     | Readable fd data \<Rightarrow> agent_turn (te_sys e) (AgentClient_onReadable (te_xml e) (te_junk e) (te_req e) (te_resp e) fd data) s
     | ReadableFailed fd \<Rightarrow> agent_turn (te_sys e) (AgentClient_onReadableFailed (te_buf0 e)) s
     | _ \<Rightarrow> Inr (s, []))"

text \<open>What \<open>MCCClientManager\<close> does when its server calls it; bytes received are characters there.\<close>

definition onManagerCall :: "tcp_call \<Rightarrow> mcc_system \<Rightarrow> mcc_system" where
  "onManagerCall c s =
    (case c of
       NewConnection fd \<Rightarrow> s\<lparr>sys_cm := ClientMgr_onNewConnection fd (sys_cm s)\<rparr>
     | Disconnect fd \<Rightarrow> s\<lparr>sys_cm := ClientMgr_onDisconnect fd (sys_cm s)\<rparr>
     | Readable fd data \<Rightarrow> s\<lparr>sys_km := ClientMgr_onReadable (map of_char data) (sys_km s)\<rparr>
     | _ \<Rightarrow> s)"

fun run_calls :: "(tcp_call \<Rightarrow> mcc_system \<Rightarrow> (mcc_system \<times> sys_out list) result) \<Rightarrow> tcp_call list \<Rightarrow> mcc_system \<Rightarrow> (mcc_system \<times> sys_out list) result" where
  "run_calls h [] s = Inr (s, [])"
| "run_calls h (c # cs) s = bindr (h c s) (\<lambda>(s, o1). bindr (run_calls h cs s) (\<lambda>(s, o2). Inr (s, o1 @ o2)))"

definition agent_server_turn :: "tcp_env \<Rightarrow> srv_event \<Rightarrow> mcc_system \<Rightarrow> (mcc_system \<times> sys_out list) result" where
  "agent_server_turn e ev s = bindr (server_event ev (sys_srv s)) (\<lambda>calls. run_calls (onServerCall e) calls s)"

definition agent_connect_turn :: "tcp_env \<Rightarrow> int \<Rightarrow> int \<Rightarrow> mcc_system \<Rightarrow> (mcc_system \<times> sys_out list) result" where
  "agent_connect_turn e sock rc s =
     (case client_connect sock rc (sys_cli s) of (_, calls, cli) \<Rightarrow> run_calls (onClientCall e) calls (s\<lparr>sys_cli := cli\<rparr>))"

definition agent_client_turn :: "tcp_env \<Rightarrow> int \<Rightarrow> bool \<Rightarrow> int \<Rightarrow> string \<Rightarrow> mcc_system \<Rightarrow> (mcc_system \<times> sys_out list) result" where
  "agent_client_turn e sel isset len bytes s =
     (case client_turn sel isset len bytes (sys_cli s) of (calls, cli) \<Rightarrow> run_calls (onClientCall e) calls (s\<lparr>sys_cli := cli\<rparr>))"

definition client_server_turn :: "srv_event \<Rightarrow> mcc_system \<Rightarrow> (mcc_system \<times> sys_out list) result" where
  "client_server_turn ev s = bindr (server_event ev (sys_csrv s)) (\<lambda>calls. run_calls (\<lambda>c s. Inr (onManagerCall c s, [])) calls s)"

text \<open>A keyboard's object while its thread runs is its entry in the table.\<close>

definition put_keyboard :: "int \<Rightarrow> MCCKeyboard \<Rightarrow> MCCKeyboardManager \<Rightarrow> mcc_system \<Rightarrow> mcc_system" where
  "put_keyboard k kb km s = s\<lparr>sys_km := set_keyboard k (Some kb) km\<rparr>"

text \<open>A turn at a time, with the keyboard events it dispatches; the resource manager reads the clock in a turn that reaches it.\<close>

inductive sys_step :: "int \<Rightarrow> km_event list \<Rightarrow> mcc_system \<Rightarrow> mcc_system \<Rightarrow> bool" where
  line_received: "0 \<le> k \<Longrightarrow> k < 4 \<Longrightarrow> km_keyboards (sys_km s) ! nat k = Some kb \<Longrightarrow>
    MCCKeyboard_on_recv re from_keyboard dev kb (sys_km s) = Some (Inr (kb', km', outs, dev')) \<Longrightarrow> sys_step t [] s (put_keyboard k kb' km' s)"
| virtual_served: "0 \<le> k \<Longrightarrow> k < 4 \<Longrightarrow> km_keyboards (sys_km s) ! nat k = Some kb \<Longrightarrow>
    Virtual_thread_turn pe fd again kb (sys_km s) = Inr (kb', km', outs) \<Longrightarrow> sys_step t [] s (put_keyboard k kb' km' s)"
| message_dispatched: "KbMgr_thread_turn wakes (sys_km s) = Some (Inr (evs, km')) \<Longrightarrow>
    message_turn e wakes s = Some (Inr (s', outs)) \<Longrightarrow> sys_step (e_now (sn_rm e)) evs s s'"
| agent_served: "agent_server_turn te ev s = Inr (s', outs) \<Longrightarrow> sys_step (e_now (sn_rm (te_sys te))) [] s s'"
| agent_connected: "agent_connect_turn te sock rc s = Inr (s', outs) \<Longrightarrow> sys_step (e_now (sn_rm (te_sys te))) [] s s'"
| agent_received: "agent_client_turn te sel isset len bytes s = Inr (s', outs) \<Longrightarrow> sys_step (e_now (sn_rm (te_sys te))) [] s s'"
| client_served: "client_server_turn ev s = Inr (s', outs) \<Longrightarrow> sys_step t [] s s'"

inductive sys_run :: "(int \<times> km_event list) list \<Rightarrow> mcc_system \<Rightarrow> mcc_system \<Rightarrow> bool" where
  run_nil: "sys_run [] s s"
| run_cons: "sys_step t evs s s1 \<Longrightarrow> sys_run acts s1 s2 \<Longrightarrow> sys_run ((t, evs) # acts) s s2"

inductive_cases sys_run_nilE: "sys_run [] s s'"
inductive_cases sys_run_consE: "sys_run (a # acts) s s'"

definition sys_reach :: "mcc_system \<Rightarrow> bool" where
  "sys_reach s \<longleftrightarrow> (\<exists>e s0 acts. MCCRunner_run e = Some (Inr (0, Some s0)) \<and> sys_run acts s0 s)"

section \<open>Invariants of the turns\<close>

text \<open>A keyboard event as an event of the resource manager, and the events that do not come from a keyboard.\<close>

fun rm_event_of :: "km_event \<Rightarrow> rm_event" where
  "rm_event_of (HandleSwitch kb msg) = KeyboardSwitch kb msg"
| "rm_event_of (HandlePtz kb msg) = KeyboardPtz kb msg"

fun no_keyboard :: "rm_event \<Rightarrow> bool" where
  "no_keyboard (KeyboardSwitch kb msg) \<longleftrightarrow> False"
| "no_keyboard (KeyboardPtz kb msg) \<longleftrightarrow> False"
| "no_keyboard ev \<longleftrightarrow> True"

definition handles :: "rm_env \<Rightarrow> rm_event \<Rightarrow> (MCCResourceManager \<Rightarrow> (MCCResourceManager \<times> rm_call list) result) \<Rightarrow> bool" where
  "handles re ev h \<longleftrightarrow> (\<forall>rm. h rm = rm_handle re ev rm)"

lemma handles_km: "handles re (rm_event_of ev) (handle_km_event re ev)"
  by (cases ev) (simp_all add: handles_def handle_km_event_def)

lemma handles_agent: "\<exists>rev. no_keyboard rev \<and> handles re rev (handle_agent_event re ev)"
proof -
  let ?ev = "case ev of ServerRxResponse fd r \<Rightarrow> ChildResponse fd r | ServerRegister fd q \<Rightarrow> ChildRegister fd q
      | ServerRxRequest fd q \<Rightarrow> ChildRequest fd q | ClientRxRequest fd q \<Rightarrow> ParentRequest fd q | ClientRxResponse fd r \<Rightarrow> ParentResponse fd r"
  have "no_keyboard ?ev \<and> handles re ?ev (handle_agent_event re ev)"
    by (cases ev) (simp_all add: handles_def handle_agent_event_def)
  then show ?thesis
    by blast
qed

lemma handles_tcp:
  "handles re (ChildConnected fd) (\<lambda>rm. Inr (onNewConnection fd rm, []))"
  "handles re (ChildDisconnected fd) (\<lambda>rm. bindr (onDisconnect fd rm) (\<lambda>rm. Inr (rm, [])))"
  "handles re (ParentConnected fd) (onClientConnected re fd)"
  "handles re (ParentDisconnected fd) (\<lambda>rm. Inr (onClientDisconnected fd rm, []))"
  by (simp_all add: handles_def)

text \<open>What has to be shown of a property of the system for every turn to preserve it; \<open>ok\<close> restricts the keyboard events.\<close>

locale turn_invariant =
  fixes Q :: "mcc_system \<Rightarrow> bool" and ok :: "int \<Rightarrow> rm_event \<Rightarrow> bool"
  assumes handled: "Q s \<Longrightarrow> handles re ev h \<Longrightarrow> ok (e_now re) ev \<Longrightarrow> handle e h s = Inr (s', outs) \<Longrightarrow> Q s'"
    and quiet_ok: "no_keyboard ev \<Longrightarrow> ok t ev"
    and dispatched: "Q s \<Longrightarrow> KbMgr_thread_turn wakes (sys_km s) = Some (Inr (evs, km)) \<Longrightarrow> Q (s\<lparr>sys_km := km\<rparr>)"
    and keyboard: "Q s \<Longrightarrow> 0 \<le> k \<Longrightarrow> k < 4 \<Longrightarrow> km_keyboards (sys_km s) ! nat k = Some kb \<Longrightarrow>
      same_table (sys_km s) km \<and> kb_id kb' = kb_id kb \<Longrightarrow> Q (put_keyboard k kb' km s)"
    and manager: "Q s \<Longrightarrow> Q (onManagerCall c s)"
    and connection: "Q s \<Longrightarrow> Q (s\<lparr>sys_cli := cli\<rparr>)"
begin

lemma handle_all:
  "handle_all e evs s = Inr (s', outs) \<Longrightarrow> Q s \<Longrightarrow> \<forall>ev \<in> set evs. ok (e_now (sn_rm e)) (rm_event_of ev) \<Longrightarrow> Q s'"
proof (induction evs arbitrary: s outs)
  case (Cons ev evs)
  then obtain s1 o1 o2 where "handle e (handle_km_event (sn_rm e) ev) s = Inr (s1, o1)" and rest: "handle_all e evs s1 = Inr (s', o2)"
    by (auto simp: bindr_Inr_iff)
  with Cons.prems(2,3) have "Q s1"
    using handled [OF _ handles_km] by fastforce
  with rest Cons.prems(3) show ?case
    by (auto intro: Cons.IH)
qed simp

lemma agent_turn:
  assumes "agent_turn e evs s = Inr (s', outs)" and "Q s"
  shows "Q s'"
proof -
  obtain es where es: "evs = Inr es"
    using assms(1) by (cases evs) (simp_all add: agent_turn_def)
  show ?thesis
  proof (cases es)
    case Nil
    with assms es show ?thesis
      by (simp add: agent_turn_def)
  next
    case (Cons ev rest)
    obtain rev where "no_keyboard rev" "handles (sn_rm e) rev (handle_agent_event (sn_rm e) ev)"
      using handles_agent by blast
    with assms Cons es show ?thesis
      using handled quiet_ok by (auto simp: agent_turn_def)
  qed
qed

lemma tcp_handled: "handles re ev h \<Longrightarrow> no_keyboard ev \<Longrightarrow> handle e h s = Inr (s', outs) \<Longrightarrow> Q s \<Longrightarrow> Q s'"
  using handled quiet_ok by blast

lemma tcp_turn:
  "handle e (\<lambda>rm. Inr (onNewConnection fd rm, [])) s = Inr (s', outs) \<Longrightarrow> Q s \<Longrightarrow> Q s'"
  "handle e (\<lambda>rm. bindr (onDisconnect fd rm) (\<lambda>rm. Inr (rm, []))) s = Inr (s', outs) \<Longrightarrow> Q s \<Longrightarrow> Q s'"
  "handle e (onClientConnected re fd) s = Inr (s', outs) \<Longrightarrow> Q s \<Longrightarrow> Q s'"
  "handle e (\<lambda>rm. Inr (onClientDisconnected fd rm, [])) s = Inr (s', outs) \<Longrightarrow> Q s \<Longrightarrow> Q s'"
  by (erule tcp_handled [OF handles_tcp(1), rotated] tcp_handled [OF handles_tcp(2), rotated] tcp_handled [OF handles_tcp(3), rotated]
      tcp_handled [OF handles_tcp(4), rotated]; simp)+

lemma server_call: "onServerCall e c s = Inr (s', outs) \<Longrightarrow> Q s \<Longrightarrow> Q s'"
  by (cases c) (auto simp: onServerCall_def dest: agent_turn tcp_turn)

lemma client_call: "onClientCall e c s = Inr (s', outs) \<Longrightarrow> Q s \<Longrightarrow> Q s'"
  by (cases c) (auto simp: onClientCall_def dest: agent_turn tcp_turn)

lemma calls:
  assumes "\<And>c s s' outs. h c s = Inr (s', outs) \<Longrightarrow> Q s \<Longrightarrow> Q s'"
  shows "run_calls h cs s = Inr (s', outs) \<Longrightarrow> Q s \<Longrightarrow> Q s'"
  by (induction cs arbitrary: s outs) (auto simp: bindr_Inr_iff dest: assms)

lemma manager_calls: "run_calls (\<lambda>c s. Inr (onManagerCall c s, [])) cs s = Inr (s', outs) \<Longrightarrow> Q s \<Longrightarrow> Q s'"
  by (induction cs arbitrary: s outs) (auto simp: bindr_Inr_iff manager)

lemmas server_calls = calls [OF server_call]
lemmas client_calls = calls [OF client_call]

lemma step: "sys_step t evs s s' \<Longrightarrow> Q s \<Longrightarrow> \<forall>ev \<in> set evs. ok t (rm_event_of ev) \<Longrightarrow> Q s'"
proof (induction rule: sys_step.induct)
  case (line_received k s kb re from_keyboard dev kb' km' outs dev')
  then show ?case
    using on_recv_table by (blast intro: keyboard)
next
  case (virtual_served k s kb pe fd again kb' km' outs)
  then show ?case
    using Virtual_turn_table by (blast intro: keyboard)
next
  case (message_dispatched wakes s evs km' e s' outs)
  then have "handle_all e evs (s\<lparr>sys_km := km'\<rparr>) = Inr (s', outs)"
    by (simp add: message_turn_def)
  with message_dispatched show ?case
    using handle_all dispatched by blast
next
  case (agent_served te ev s s' outs)
  then show ?case
    by (auto simp: agent_server_turn_def bindr_Inr_iff intro: server_calls)
next
  case (agent_connected te sock rc s s' outs)
  then show ?case
    by (auto simp: agent_connect_turn_def intro: client_calls connection split: prod.splits)
next
  case (agent_received te sel isset len bytes s s' outs)
  then show ?case
    by (auto simp: agent_client_turn_def intro: client_calls connection split: prod.splits)
next
  case (client_served ev s s' outs)
  then show ?case
    by (auto simp: client_server_turn_def bindr_Inr_iff intro: manager_calls)
qed

lemma run: "sys_run acts s s' \<Longrightarrow> Q s \<Longrightarrow> \<forall>(t, evs) \<in> set acts. \<forall>ev \<in> set evs. ok t (rm_event_of ev) \<Longrightarrow> Q s'"
  by (induction rule: sys_run.induct) (auto intro: step)

end

section \<open>What no turn changes\<close>

text \<open>The resource manager keeps the number of its matrix.\<close>

lemma isCameraExist_id: "isCameraExist i s = (b, s') \<Longrightarrow> rm_matrixId s' = rm_matrixId s"
  by (auto simp: isCameraExist_def split: prod.splits)

lemma processSwitch_id: "processSwitchMessage e msg kb s = (r, s', calls) \<Longrightarrow> rm_matrixId s' = rm_matrixId s"
  by (auto simp: processSwitchMessage_def Let_def dest!: isCameraExist_id split: prod.splits option.splits if_splits)

lemma processPtz_id: "processPtzMessage e msg kb s = (r, s', calls) \<Longrightarrow> rm_matrixId s' = rm_matrixId s"
  by (auto simp: processPtzMessage_def Let_def split: prod.splits option.splits if_splits)

lemma onSwitch_id: "onSwitch e kb msg s = Inr (s', calls) \<Longrightarrow> rm_matrixId s' = rm_matrixId s"
  by (auto simp: onSwitch_def bindr_Inr_iff dest!: processSwitch_id split: prod.splits if_splits)

lemma onPtz_id: "onPtz e kb msg s = Inr (s', calls) \<Longrightarrow> rm_matrixId s' = rm_matrixId s"
  by (auto simp: onPtz_def bindr_Inr_iff Let_def dest!: processPtz_id split: prod.splits if_splits)

lemma onRegister_id: "onRegister e fd r s = Inr (s', calls) \<Longrightarrow> rm_matrixId s' = rm_matrixId s"
  by (auto simp: onRegister_def Let_def bindr_Inr_iff split: if_splits option.splits)

lemma onClientRxSwitch_id:
  assumes "onClientRxSwitch e r s = Inr (s', calls)"
  shows "rm_matrixId s' = rm_matrixId s"
proof -
  obtain found ts where
    "checkTrunk (e_now e) (remote_user e r) (MCCGlobalID (a_to r) (swi_cameraid (a_content r))) (rm_trunks s) = Inr (found, ts)"
    using assms by (auto simp: onClientRxSwitch_def Let_def bindr_Inr_iff)
  with assms show ?thesis
    by (cases found) (auto simp: onClientRxSwitch_def Let_def MCCKeyboardMessage_new_def split: if_split_asm option.split_asm)
qed

lemma onClientRxPtz_id: "onClientRxPtz e r s = Inr (s', calls) \<Longrightarrow> rm_matrixId s' = rm_matrixId s"
  by (auto simp: onClientRxPtz_def Let_def MCCKeyboardMessage_new_def split: if_split_asm option.split_asm prod.split_asm)

lemma onClientRxRequest_id: "onClientRxRequest e fd r s = Inr (s', calls) \<Longrightarrow> rm_matrixId s' = rm_matrixId s"
  by (auto simp: onClientRxRequest_def dest: onClientRxSwitch_id onClientRxPtz_id split: if_splits)

lemma onServerRxResponse_id: "onServerRxResponse fd r s = (s', calls) \<Longrightarrow> rm_matrixId s' = rm_matrixId s"
  by (auto simp: onServerRxResponse_def Let_def split: if_splits option.splits)

lemma rm_handle_id: "rm_handle e ev s = Inr (s', calls) \<Longrightarrow> rm_matrixId s' = rm_matrixId s"
  by (cases ev)
    (auto simp: bindr_Inr_iff onNewConnection_def onServerRxRequest_def onClientDisconnected_def onClientRxResponse_def
      onDisconnect_def onClientConnected_def Let_def onServerRxResponse_id split: option.splits
      dest: onSwitch_id onPtz_id onRegister_id onClientRxRequest_id)

text \<open>The keyboard manager keeps its matrix number and its handler, whatever its keyboards send or receive.\<close>

definition km_config :: "MCCKeyboardManager \<Rightarrow> int \<times> bool option" where
  "km_config km = (km_matrixId km, km_handler km)"

lemma km_config_set [simp]: "km_config (set_keyboard k kb km) = km_config km"
  by (simp add: km_config_def set_keyboard_def)

lemma km_config_counter [simp]: "km_config (km\<lparr>km_counter := n\<rparr>) = km_config km" "km_ok (km\<lparr>km_counter := n\<rparr>) = km_ok km"
  by (simp_all add: km_config_def km_ok_def)

lemma same_table_config: "same_table km km' \<Longrightarrow> km_config km' = km_config km"
  by (simp add: same_table_def km_config_def)

lemma send_switch_config: "KbMgr_SendSwitch e k msg km = Inr (msg', km', outs) \<Longrightarrow> km_config km' = km_config km"
  by (auto simp: KbMgr_SendSwitch_def bindr_Inr_iff dest!: kb_SendSwitch_table same_table_config split: option.splits)

lemma send_ptz_config: "KbMgr_SendPtz e k msg km = Inr (km', outs) \<Longrightarrow> km_config km' = km_config km"
  by (auto simp: KbMgr_SendPtz_def bindr_Inr_iff dest!: kb_SendPtz_table same_table_config split: option.splits)

lemma turn_config: "KbMgr_thread_turn wakes km = Some (Inr (evs, km')) \<Longrightarrow> km_config km' = km_config km"
  by (auto simp: KbMgr_thread_turn_def bindr_Inr_iff km_config_def Let_def split: option.splits)

lemma notify_conns: "ClientMgr_Notify junk snd_rc msg cm = Inr (cm', outs) \<Longrightarrow> cm_conns cm' = cm_conns cm"
  by (auto simp: ClientMgr_Notify_def bindr_Inr_iff Let_def split: if_splits)

section \<open>The invariant of the program\<close>

definition sys_inv :: "mcc_system \<Rightarrow> bool" where
  "sys_inv s \<longleftrightarrow> rm_inv (sys_rm s) \<and> km_ok (sys_km s) \<and> km_config (sys_km s) = (rm_matrixId (sys_rm s), Some True) \<and>
     sorted_wrt (<) (cm_conns (sys_cm s))"

lemma exec_call_inv:
  assumes "exec_call e c (s, sent) = Inr ((s', sent'), outs)" and "sys_inv s"
  shows "sys_inv s'"
proof (cases c)
  case (KbMgrSendSwitch k msg)
  with assms show ?thesis
    by (auto simp: exec_call_def bindr_Inr_iff sys_inv_def dest: send_switch_config km_ok_send_switch)
next
  case (KbMgrSendPtz k msg)
  with assms show ?thesis
    by (auto simp: exec_call_def bindr_Inr_iff sys_inv_def dest: send_ptz_config km_ok_send_ptz)
next
  case (ClientMgrNotify msg)
  with assms show ?thesis
    by (auto simp: exec_call_def bindr_Inr_iff sys_inv_def Let_def dest: notify_conns)
qed (use assms in \<open>auto simp: exec_call_def bindr_Inr_iff\<close>)

lemma exec_calls_inv: "exec_calls e calls (s, sent) = Inr ((s', sent'), outs) \<Longrightarrow> sys_inv s \<Longrightarrow> sys_inv s'"
  by (induction calls arbitrary: s sent outs) (auto simp: bindr_Inr_iff dest: exec_call_inv)

lemma handle_split:
  assumes "handle e h s = Inr (s', outs)"
  obtains rm calls sent where "h ((sys_rm s)\<lparr>rm_msgCounter := km_counter (sys_km s)\<rparr>) = Inr (rm, calls)"
    and "exec_calls e calls (s\<lparr>sys_rm := rm, sys_km := (sys_km s)\<lparr>km_counter := rm_msgCounter rm\<rparr>\<rparr>, None) = Inr ((s', sent), outs)"
  using assms by (auto simp: handle_def bindr_Inr_iff)

lemma handle_inv:
  assumes "sys_inv s" and "handles re ev h" and "handle e h s = Inr (s', outs)"
  shows "sys_inv s'"
  using assms(3)
proof (rule handle_split)
  fix rm calls sent
  assume h: "h ((sys_rm s)\<lparr>rm_msgCounter := km_counter (sys_km s)\<rparr>) = Inr (rm, calls)"
    and c: "exec_calls e calls (s\<lparr>sys_rm := rm, sys_km := (sys_km s)\<lparr>km_counter := rm_msgCounter rm\<rparr>\<rparr>, None) = Inr ((s', sent), outs)"
  have "rm_inv ((sys_rm s)\<lparr>rm_msgCounter := km_counter (sys_km s)\<rparr>)"
    using assms(1) by (simp add: sys_inv_def rm_inv_updates)
  then have "rm_inv rm" "rm_matrixId rm = rm_matrixId (sys_rm s)"
    using h assms(2) rm_handle_inv rm_handle_id unfolding handles_def by fastforce+
  then have "sys_inv (s\<lparr>sys_rm := rm, sys_km := (sys_km s)\<lparr>km_counter := rm_msgCounter rm\<rparr>\<rparr>)"
    using assms(1) by (simp add: sys_inv_def)
  with c show ?thesis
    by (rule exec_calls_inv)
qed

lemma onManagerCall_inv: "sys_inv s \<Longrightarrow> sys_inv (onManagerCall c s)"
  using same_table_config [OF onReadable_table] same_table_ok [OF onReadable_table]
  by (auto simp: onManagerCall_def sys_inv_def ClientMgr_onNewConnection_def ClientMgr_onDisconnect_def sorted_insort distinct_insort
      strict_sorted_iff sorted_remove1 split: tcp_call.splits)

lemma put_keyboard_inv:
  assumes "sys_inv s" and "0 \<le> k" and "k < 4" and "km_keyboards (sys_km s) ! nat k = Some kb" and "same_table (sys_km s) km \<and> kb_id kb' = kb_id kb"
  shows "sys_inv (put_keyboard k kb' km s)"
  using assms km_ok_set_keyboard [of "sys_km s" k kb km kb'] same_table_config [of "sys_km s" km]
  by (simp add: sys_inv_def put_keyboard_def)

lemma sys_inv_cli [simp]: "sys_inv (s\<lparr>sys_cli := c\<rparr>) = sys_inv s"
  by (simp add: sys_inv_def)

interpretation sys_inv: turn_invariant sys_inv "\<lambda>t ev. True"
proof unfold_locales
  fix s wakes evs km
  assume "sys_inv s" and "KbMgr_thread_turn wakes (sys_km s) = Some (Inr (evs, km))"
  then show "sys_inv (s\<lparr>sys_km := km\<rparr>)"
    using turn_config km_ok_turn by (fastforce simp: sys_inv_def)
qed (auto intro: handle_inv put_keyboard_inv onManagerCall_inv)

text \<open>The start of the program establishes it.\<close>

lemma load_keyboard_config: "load_keyboard load name junk k km = Some (Inr (rc, km')) \<Longrightarrow> km_config km' = km_config km"
  by (erule load_keyboard_cases) (auto dest!: KbMgr_Create_table same_table_config)

lemma load_configured_keeps:
  assumes "load_configured e cp i km = Some (Inr (rc, km'))" and "km_ok km"
  shows "km_ok km' \<and> km_config km' = km_config km"
proof -
  have "km_ok km2 \<and> km_config km2 = km_config km"
    if "LoadKeyboard_setup env junk name kp mp cfg k km = Some (Inr (rc2, km2))" for env junk name kp mp cfg k rc2 km2
    using that assms(2) by (auto simp: LoadKeyboard_setup_def dest: load_keyboard_ok load_keyboard_config)
  with assms show ?thesis
    by (auto simp: load_configured_def Let_def split: sum.split_asm bool.split_asm)
qed

lemma load_keyboards_keep: "load_keyboards e cp is km = Some (Inr (rc, km')) \<Longrightarrow> km_ok km \<Longrightarrow> km_ok km' \<and> km_config km' = km_config km"
proof (induction "is" arbitrary: km)
  case (Cons i "is")
  then obtain rc1 km1 where "load_configured e cp i km = Some (Inr (rc1, km1))"
    by (auto split: option.split_asm sum.split_asm)
  with Cons show ?case
    using load_configured_keeps by (fastforce split: if_split_asm)
qed simp

lemma messenger_keeps:
  "rm_inv rm \<Longrightarrow> rm_inv (fst (snd (initAgentMessenger level matrixid ip a b rm)))"
  "rm_matrixId (fst (snd (initAgentMessenger level matrixid ip a b rm))) = matrixid"
  by (auto simp: initAgentMessenger_def Let_def rm_inv_def split: option.splits)

lemma init_keeps: "MCCResourceManager_init e cp = Inr (rc, rm, srv, cli) \<Longrightarrow> rm_inv rm \<and> getConfigInt cp ''MCC'' ''MatrixID'' 0 = Inr (rm_matrixId rm)"
  by (auto simp: MCCResourceManager_init_def bindr_Inr_iff Let_def case_prod_beta messenger_keeps(2) split: if_split_asm
      intro: messenger_keeps(1) dest: init_inv)

lemma boot_inv:
  assumes "MCCRunner_run e = Some (Inr (0, Some s))"
  shows "sys_inv s"
proof -
  obtain cp rm srv cli matrix km0 km rc where
    i: "MCCResourceManager_init e cp = Inr (rc, rm, srv, cli)" and m: "getConfigInt cp ''MCC'' ''MatrixID'' 0 = Inr matrix" and
    k0: "km0 = SetResourceManager True (SetMatrixId matrix (MCCKeyboardManager_new 4 (re_junk e 0) (rm_msgCounter rm) (re_zero e)))" and
    l: "load_keyboards e cp [0, 1, 2, 3] km0 = Some (Inr (0, km))" and
    s: "sys_rm s = rm\<lparr>rm_msgCounter := km_counter km\<rparr>" "sys_km s = km" "cm_conns (sys_cm s) = []"
    using assms
    by (auto simp: MCCRunner_run_def bindr_Inr_iff simp del: load_keyboards.simps split: sum.split_asm option.split_asm prod.split_asm if_split_asm)
  have "km_ok km0" "km_config km0 = (matrix, Some True)"
    using km_ok_new by (simp_all add: k0 km_ok_def SetResourceManager_def SetMatrixId_def km_config_def)
  then have "km_ok km" "km_config km = (matrix, Some True)"
    using load_keyboards_keep [OF l] by simp_all
  moreover have "rm_inv rm" "rm_matrixId rm = matrix"
    using init_keeps [OF i] m by auto
  ultimately show ?thesis
    by (simp add: sys_inv_def s rm_inv_updates)
qed

lemma reach_sys_inv: "sys_reach s \<Longrightarrow> sys_inv s"
  using boot_inv sys_inv.run by (fastforce simp: sys_reach_def)

section \<open>A held monitor\<close>

text \<open>A keyboard event that cannot take the monitor from its holder before the time is over.\<close>

definition no_takeover :: "int \<Rightarrow> int \<Rightarrow> int \<Rightarrow> int \<Rightarrow> rm_event \<Rightarrow> bool" where
  "no_takeover mon k until t ev \<longleftrightarrow>
     (\<forall>kb msg. ev = KeyboardSwitch kb msg \<longrightarrow> t \<le> until \<and> (monitor_id msg = mon \<longrightarrow> keyboard_id msg < k))"

lemma exec_call_rm: "exec_call e c (s, sent) = Inr ((s', sent'), outs) \<Longrightarrow> sys_rm s' = sys_rm s"
  by (cases c) (auto simp: exec_call_def bindr_Inr_iff Let_def)

lemma exec_calls_rm: "exec_calls e calls (s, sent) = Inr ((s', sent'), outs) \<Longrightarrow> sys_rm s' = sys_rm s"
  by (induction calls arbitrary: s sent outs) (auto simp: bindr_Inr_iff dest!: exec_call_rm)

lemma held_counter [simp]: "monitor_held mon k until (rm\<lparr>rm_msgCounter := n\<rparr>) = monitor_held mon k until rm"
  by (simp add: monitor_held_def)

lemma handle_keeps_held:
  assumes "monitor_held mon k until (sys_rm s)" and "handles re ev h" and "no_takeover mon k until (e_now re) ev"
    and "handle e h s = Inr (s', outs)"
  shows "monitor_held mon k until (sys_rm s')"
  using assms(4)
proof (rule handle_split)
  fix rm calls sent
  assume "h ((sys_rm s)\<lparr>rm_msgCounter := km_counter (sys_km s)\<rparr>) = Inr (rm, calls)"
    and c: "exec_calls e calls (s\<lparr>sys_rm := rm, sys_km := (sys_km s)\<lparr>km_counter := rm_msgCounter rm\<rparr>\<rparr>, None) = Inr ((s', sent), outs)"
  then have r: "rm_handle re ev ((sys_rm s)\<lparr>rm_msgCounter := km_counter (sys_km s)\<rparr>) = Inr (rm, calls)"
    using assms(2) by (simp add: handles_def)
  have "monitor_held mon k until rm"
  proof (cases "\<exists>kb msg. ev = KeyboardSwitch kb msg")
    case True
    then show ?thesis
      using assms(1,3) by (intro handle_held [OF r]) (auto simp: no_takeover_def)
  next
    case False
    then have "rm_monitors rm = rm_monitors (sys_rm s)"
      using handle_monitors [OF r] by auto
    with assms(1) show ?thesis
      by (simp add: monitor_held_def)
  qed
  with exec_calls_rm [OF c] show ?thesis
    by simp
qed

interpretation held: turn_invariant "\<lambda>s. monitor_held mon k until (sys_rm s)" "no_takeover mon k until" for mon k until
proof unfold_locales
  fix ev t
  assume "no_keyboard ev"
  then show "no_takeover mon k until t ev"
    by (auto simp: no_takeover_def)
qed (auto intro: handle_keeps_held simp: put_keyboard_def onManagerCall_def split: tcp_call.split)

text \<open>The turn in which a switch is accepted.\<close>

lemma accepted_turn_holds:
  assumes "sys_inv s" and "KbMgr_thread_turn wakes (sys_km s) = Some (Inr ([HandleSwitch kb msg], km))"
    and "message_turn e wakes s = Some (Inr (s1, outs))"
    and "processSwitchMessage (sn_rm e) msg kb ((sys_rm s)\<lparr>rm_msgCounter := km_counter km\<rparr>) = (ACCEPT, rm, calls)"
  shows "monitor_held (monitor_id msg) (keyboard_id msg) (e_now (sn_rm e) + DEFAULT_EXPIRE) (sys_rm s1)"
proof -
  let ?s = "s\<lparr>sys_km := km\<rparr>"
  have "handle e (handle_km_event (sn_rm e) (HandleSwitch kb msg)) ?s = Inr (s1, outs)"
    using assms(2,3) by (auto simp: message_turn_def bindr_Inr_iff)
  then obtain rm' calls' sent where h: "onSwitch (sn_rm e) kb msg ((sys_rm s)\<lparr>rm_msgCounter := km_counter km\<rparr>) = Inr (rm', calls')"
    and c: "exec_calls e calls' (?s\<lparr>sys_rm := rm', sys_km := km\<lparr>km_counter := rm_msgCounter rm'\<rparr>\<rparr>, None) = Inr ((s1, sent), outs)"
    by (elim handle_split) (simp add: handle_km_event_def)
  have "rm_inv ((sys_rm s)\<lparr>rm_msgCounter := km_counter km\<rparr>)"
    using assms(1) by (simp add: sys_inv_def rm_inv_updates)
  from accepted_switch_holds [OF this assms(4)]
  have "monitor_held (monitor_id msg) (keyboard_id msg) (e_now (sn_rm e) + DEFAULT_EXPIRE) rm" .
  then have "monitor_held (monitor_id msg) (keyboard_id msg) (e_now (sn_rm e) + DEFAULT_EXPIRE) rm'"
    using h assms(4) by (auto simp: onSwitch_def monitor_held_def bindr_Inr_iff)
  with exec_calls_rm [OF c] show ?thesis
    by simp
qed

section \<open>Which turns touch which members\<close>

text \<open>Only the dispatch thread, which handles the keyboards' switches, touches the monitors.\<close>

definition not_switch :: "int \<Rightarrow> rm_event \<Rightarrow> bool" where
  "not_switch t ev \<longleftrightarrow> (\<forall>kb msg. ev \<noteq> KeyboardSwitch kb msg)"

lemma handle_monitors_kept:
  assumes "rm_monitors (sys_rm s) = M" and "handles re ev h" and "not_switch t ev" and "handle e h s = Inr (s', outs)"
  shows "rm_monitors (sys_rm s') = M"
  using assms(4)
proof (rule handle_split)
  fix rm calls sent
  assume "h ((sys_rm s)\<lparr>rm_msgCounter := km_counter (sys_km s)\<rparr>) = Inr (rm, calls)"
    and c: "exec_calls e calls (s\<lparr>sys_rm := rm, sys_km := (sys_km s)\<lparr>km_counter := rm_msgCounter rm\<rparr>\<rparr>, None) = Inr ((s', sent), outs)"
  then have "rm_handle re ev ((sys_rm s)\<lparr>rm_msgCounter := km_counter (sys_km s)\<rparr>) = Inr (rm, calls)"
    using assms(2) by (simp add: handles_def)
  then have "rm_monitors rm = M"
    using handle_monitors assms(1,3) by (fastforce simp: not_switch_def)
  with exec_calls_rm [OF c] show ?thesis
    by simp
qed

interpretation frame: turn_invariant "\<lambda>s. rm_monitors (sys_rm s) = M" not_switch for M
proof unfold_locales
  fix ev t
  assume "no_keyboard ev"
  then show "not_switch t ev"
    by (auto simp: not_switch_def)
qed (auto intro: handle_monitors_kept simp: put_keyboard_def onManagerCall_def split: tcp_call.split)

text \<open>The dispatch thread leaves alone what belongs to the agents' threads: trunks, children and the state of the connection.\<close>

definition agents_part :: "mcc_system \<Rightarrow> Trunk list \<times> (int \<times> MatrixInfo) list \<times> bool \<times> AsyncTCPServer \<times> AsyncTCPClient" where
  "agents_part s = (rm_trunks (sys_rm s), rm_children (sys_rm s), rm_clientConnected (sys_rm s), sys_srv s, sys_cli s)"

lemma exec_call_agents: "exec_call e c (s, sent) = Inr ((s', sent'), outs) \<Longrightarrow> agents_part s' = agents_part s"
  by (cases c) (auto simp: exec_call_def bindr_Inr_iff Let_def agents_part_def)

lemma exec_calls_agents: "exec_calls e calls (s, sent) = Inr ((s', sent'), outs) \<Longrightarrow> agents_part s' = agents_part s"
  by (induction calls arbitrary: s sent outs) (auto simp: bindr_Inr_iff dest!: exec_call_agents)

lemma onSwitch_part:
  assumes "onSwitch e kb msg s = Inr (s', calls)"
  shows "rm_trunks s' = rm_trunks s \<and> rm_children s' = rm_children s \<and> rm_clientConnected s' = rm_clientConnected s"
proof -
  have "rm_trunks s1 = rm_trunks s \<and> rm_children s1 = rm_children s \<and> rm_clientConnected s1 = rm_clientConnected s"
    if "processSwitchMessage e msg kb s = (r, s1, c)" for r s1 c
    using that by (rule processSwitch_cases) (auto simp: isCameraExist_def split: prod.splits)
  then show ?thesis
    using assms by (fastforce simp: onSwitch_def bindr_Inr_iff split: prod.splits if_splits)
qed

lemma processPtz_part:
  "processPtzMessage e msg kb s = (r, s', calls) \<Longrightarrow>
   rm_trunks s' = rm_trunks s \<and> rm_children s' = rm_children s \<and> rm_clientConnected s' = rm_clientConnected s"
  by (auto simp: processPtzMessage_def isCameraExist_def Let_def split: if_splits option.splits prod.splits)

lemma onPtz_part:
  "onPtz e kb msg s = Inr (s', calls) \<Longrightarrow>
   rm_trunks s' = rm_trunks s \<and> rm_children s' = rm_children s \<and> rm_clientConnected s' = rm_clientConnected s"
  by (auto simp: onPtz_def bindr_Inr_iff Let_def dest!: processPtz_part split: prod.splits if_splits)

lemma handle_km_agents:
  assumes "handle e (handle_km_event re ev) s = Inr (s', outs)"
  shows "agents_part s' = agents_part s"
  using assms
proof (rule handle_split)
  fix rm calls sent
  assume h: "handle_km_event re ev ((sys_rm s)\<lparr>rm_msgCounter := km_counter (sys_km s)\<rparr>) = Inr (rm, calls)"
    and c: "exec_calls e calls (s\<lparr>sys_rm := rm, sys_km := (sys_km s)\<lparr>km_counter := rm_msgCounter rm\<rparr>\<rparr>, None) = Inr ((s', sent), outs)"
  have "rm_trunks rm = rm_trunks (sys_rm s) \<and> rm_children rm = rm_children (sys_rm s) \<and> rm_clientConnected rm = rm_clientConnected (sys_rm s)"
    using h by (cases ev) (auto simp: handle_km_event_def dest: onSwitch_part onPtz_part)
  with exec_calls_agents [OF c] show ?thesis
    by (simp add: agents_part_def)
qed

lemma handle_all_agents: "handle_all e evs s = Inr (s', outs) \<Longrightarrow> agents_part s' = agents_part s"
  by (induction evs arbitrary: s outs) (auto simp: bindr_Inr_iff dest!: handle_km_agents)

lemma message_turn_agents: "message_turn e wakes s = Some (Inr (s', outs)) \<Longrightarrow> agents_part s' = agents_part s"
  by (auto simp: message_turn_def bindr_Inr_iff agents_part_def [of "sys_km_update _ _"] agents_part_def [of s]
      dest!: handle_all_agents split: option.splits)

section \<open>Claims about the running program\<close>

text \<open>C2. In every state that the program reaches from its start by whole turns of its threads, one after the other in any order, the
  resource manager's state is well-formed, the keyboard table has the shape that the drivers rely on, both managers carry the same
  matrix number, the keyboard manager's messages reach the resource manager, and the set of client connections is sorted
  and free of duplicates.  From there, a turn that dispatches no keyboard event leaves the monitors as they are, and a turn of
  the dispatch thread leaves the trunks, the registered matrices and the agents' connections as they are.  Turns that overlap are
  not covered: the cameras, the pending requests and the set of client connections have no lock.\<close>

theorem program_invariant:
  assumes "sys_reach s"
  shows "rm_inv (sys_rm s) \<and> km_ok (sys_km s) \<and> km_matrixId (sys_km s) = rm_matrixId (sys_rm s) \<and>
    km_handler (sys_km s) = Some True \<and> sorted_wrt (<) (cm_conns (sys_cm s)) \<and>
    (\<forall>t s'. sys_step t [] s s' \<longrightarrow> rm_monitors (sys_rm s') = rm_monitors (sys_rm s)) \<and>
    (\<forall>e wakes s' outs. message_turn e wakes s = Some (Inr (s', outs)) \<longrightarrow>
       rm_trunks (sys_rm s') = rm_trunks (sys_rm s) \<and> rm_children (sys_rm s') = rm_children (sys_rm s) \<and>
       rm_clientConnected (sys_rm s') = rm_clientConnected (sys_rm s) \<and> sys_srv s' = sys_srv s \<and> sys_cli s' = sys_cli s)"
  using reach_sys_inv [OF assms] frame.step [OF _ refl]
  by (auto simp: sys_inv_def km_config_def agents_part_def dest!: message_turn_agents)

theorem program_invariant_witness: "\<exists>s. sys_reach s \<and> km_matrixId (sys_km s) = 7 \<and> rm_inv (sys_rm s)"
proof -
  obtain s where s: "MCCRunner_run demo_run = Some (Inr (0, Some s))" "rm_matrixId (sys_rm s) = 7"
    using demo_run_boots by blast
  then have "sys_reach s"
    using run_nil by (auto simp: sys_reach_def)
  from this program_invariant [OF this] s(2) show ?thesis
    by auto
qed

text \<open>The program started from the demonstration settings, with a client's request for camera 2 on monitor 4 in its queue.\<close>

definition demo_order :: client_packet where
  "demo_order = demo_packet\<lparr>cp_matrix_id := 7, cp_bind_kb := 0, cp_cid := 2, cp_mid := 4\<rparr>"

definition demo_recv :: srv_event where
  "demo_recv = \<lparr>se_sock = 9, se_in = True, se_hup = False, se_rc = 36, se_bytes = map (\<lambda>w. char_of (unat w)) (packet_bytes demo_order)\<rparr>"

lemma of_char_byte: "of_char (char_of (unat w)) = (w :: byte)"
proof -
  have "unat w < 256"
    using unsigned_less [of w] by simp
  then have "of_nat (of_char (char_of (unat w))) = (w :: byte)"
    by simp
  then show ?thesis
    by (simp only: of_nat_of_char)
qed

lemma demo_order_arrives:
  "srv_listenFd (sys_csrv s) \<noteq> 9 \<Longrightarrow> client_server_turn demo_recv s =
     Inr (s\<lparr>sys_km := (sys_km s)\<lparr>km_counter := wrap32 (km_counter (sys_km s) + 1),
       km_fifo := \<lparr>sq_queue = sq_queue (km_fifo (sys_km s)) @ [client_switch_message demo_order (fst (MCCKeyboardMessage_new (km_counter (sys_km s))))]\<rparr>\<rparr>\<rparr>, [])"
proof -
  assume fd: "srv_listenFd (sys_csrv s) \<noteq> 9"
  have "packet_ok demo_order"
    by (simp add: demo_order_def demo_packet_def packet_ok_def packet_fields_def is_int32_def)
  then have "ClientMgr_onReadable (packet_bytes demo_order) km = onClientPacket demo_order km" for km
    using onReadable_packets [of "[demo_order]" "[]" km] by (simp add: packet_size_def)
  moreover have "map of_char (se_bytes demo_recv) = packet_bytes demo_order"
    by (simp add: demo_recv_def of_char_byte map_idI)
  moreover have "length (se_bytes demo_recv) = 36"
    by (simp add: demo_recv_def packet_size_def)
  moreover have "cp_type demo_order = 1"
    by (simp add: demo_order_def demo_packet_def)
  moreover have "se_sock demo_recv = 9" "se_in demo_recv" "se_rc demo_recv = 36"
    by (simp_all add: demo_recv_def)
  ultimately show ?thesis
    using fd by (simp add: client_server_turn_def server_event_def onManagerCall_def onClientPacket_eq message_of_def Let_def)
qed

text \<open>C6. In the running program a monitor stays with the keyboard whose switch was accepted for 20 seconds: whatever turns the
  threads take meanwhile, in whatever order, as long as no switch of that monitor by a keyboard with the same or a greater number
  is dispatched.\<close>

theorem program_keeps_monitor:
  assumes "sys_reach s" and "KbMgr_thread_turn wakes (sys_km s) = Some (Inr ([HandleSwitch kb msg], km))"
    and "message_turn e wakes s = Some (Inr (s1, outs))"
    and "processSwitchMessage (sn_rm e) msg kb ((sys_rm s)\<lparr>rm_msgCounter := km_counter km\<rparr>) = (ACCEPT, rm, calls)"
    and "sys_run acts s1 s2"
    and "\<And>t evs kb' msg'. (t, evs) \<in> set acts \<Longrightarrow> HandleSwitch kb' msg' \<in> set evs \<Longrightarrow>
      t \<le> e_now (sn_rm e) + 20 \<and> (monitor_id msg' = monitor_id msg \<longrightarrow> keyboard_id msg' < keyboard_id msg)"
  shows "monitor_held (monitor_id msg) (keyboard_id msg) (e_now (sn_rm e) + 20) (sys_rm s2)"
proof (rule held.run [OF assms(5)])
  show "monitor_held (monitor_id msg) (keyboard_id msg) (e_now (sn_rm e) + 20) (sys_rm s1)"
    using accepted_turn_holds [OF reach_sys_inv [OF assms(1)] assms(2-4)] by (simp add: DEFAULT_EXPIRE_def)
  have "no_takeover (monitor_id msg) (keyboard_id msg) (e_now (sn_rm e) + 20) t (rm_event_of ev)"
    if "(t, evs) \<in> set acts" "ev \<in> set evs" for t evs ev
    using assms(6) [OF that(1)] that(2) by (cases ev) (auto simp: no_takeover_def)
  then show "\<forall>(t, evs) \<in> set acts. \<forall>ev \<in> set evs.
      no_takeover (monitor_id msg) (keyboard_id msg) (e_now (sn_rm e) + 20) t (rm_event_of ev)"
    by blast
qed

theorem program_keeps_monitor_witness:
  "\<exists>s1 s2. sys_reach s1 \<and> sys_run [(130, [])] s1 s2 \<and> monitor_held 4 0 120 (sys_rm s2)"
proof -
  obtain s0 kb where s0: "MCCRunner_run demo_run = Some (Inr (0, Some s0))" "jxj_first s0 kb" "sq_queue (km_fifo (sys_km s0)) = []"
      "km_handler (sys_km s0) = Some True" "rm_matrixId (sys_rm s0) = 7" "rm_cameras (sys_rm s0) 2 = Some (Some (Camera_new 0 2))"
      "rm_monitors (sys_rm s0) 4 = Some (Some (Monitor_new 0 4))" "srv_listenFd (sys_csrv s0) \<noteq> 9"
    using demo_run_boots by blast
  define msg where "msg = client_switch_message demo_order (fst (MCCKeyboardMessage_new (km_counter (sys_km s0))))"
  define s where "s = s0\<lparr>sys_km := (sys_km s0)\<lparr>km_counter := wrap32 (km_counter (sys_km s0) + 1), km_fifo := \<lparr>sq_queue = [msg]\<rparr>\<rparr>\<rparr>"
  have msg: "msg_type msg = eKBMsg_SWITCH" "keyboard_id msg = 0" "camera_id msg = MCCGlobalID 7 2" "monitor_id msg = 4"
    by (simp_all add: msg_def client_switch_message_def demo_order_def demo_packet_def eKBMsg_SWITCH_def)
  have "client_server_turn demo_recv s0 = Inr (s, [])"
    using s0(3,8) by (simp add: demo_order_arrives s_def msg_def)
  then have "sys_step 0 [] s0 s"
    by (rule sys_step.client_served)
  then have run: "sys_run [(0, [])] s0 s"
    by (rule run_cons [OF _ run_nil])
  then have reach: "sys_reach s"
    using s0(1) by (auto simp: sys_reach_def)
  have km: "km_keyboards (sys_km s) = km_keyboards (sys_km s0)" "sq_queue (km_fifo (sys_km s)) = [msg]" "km_handler (sys_km s) = Some True"
      "sys_rm s = sys_rm s0" "sys_cm s = sys_cm s0"
    by (simp_all add: s_def s0(4))
  have inst: "length (km_keyboards (sys_km s)) = 4" "km_keyboards (sys_km s) ! 0 = Some kb" "km_keyboards (sys_km s) ! 1 = None"
      "kb_class kb = KbJXJ" "cm_conns (sys_cm s) = []"
    using s0(2) by (simp_all add: km jxj_first_def)
  have turn: "KbMgr_thread_turn [] (sys_km s) = Some (Inr ([HandleSwitch (Some 0) msg], (sys_km s)\<lparr>km_fifo := \<lparr>sq_queue = []\<rparr>\<rparr>))"
    using msg inst km by (cases "km_fifo (sys_km s)")
      (simp add: KbMgr_thread_turn_def Squeue_get.simps [of "[]"] dispatch_def getKeyboard_def kb_at_def Let_def)
  let ?rm = "(sys_rm s)\<lparr>rm_msgCounter := km_counter (sys_km s)\<rparr>"
  have acc: "processSwitchMessage (sn_rm (demo_sys_env 100)) msg (Some 0) ?rm = (ACCEPT,
      ?rm\<lparr>rm_monitors := (rm_monitors ?rm)(monitor_id msg \<mapsto> Some (Monitor_replace (e_now (sn_rm (demo_sys_env 100))) (keyboard_id msg) (Monitor_new 0 4)))\<rparr>, [])"
    using s0(5-7) by (intro processSwitch_accepts [where cam = "Camera_new 0 2"]) (simp_all add: msg km Monitor_new_def NullID_def)
  obtain s1 where s1: "message_turn (demo_sys_env 100) [] s = Some (Inr (s1, []))"
    using local_switch_turn [OF inst(1-4) km(3) inst(5) km(2) msg(1,2) acc] by blast
  let ?idle = "\<lparr>se_sock = srv_listenFd (sys_csrv s1) + 1, se_in = False, se_hup = False, se_rc = 0, se_bytes = []\<rparr>"
  have "client_server_turn ?idle s1 = Inr (s1, [])"
    by (simp add: client_server_turn_def server_event_def)
  then have idle: "sys_run [(130, [])] s1 s1"
    by (rule run_cons [OF sys_step.client_served run_nil])
  have acc': "processSwitchMessage (sn_rm (demo_sys_env 100)) msg (Some 0)
      ((sys_rm s)\<lparr>rm_msgCounter := km_counter ((sys_km s)\<lparr>km_fifo := \<lparr>sq_queue = []\<rparr>\<rparr>)\<rparr>) = (ACCEPT,
      ?rm\<lparr>rm_monitors := (rm_monitors ?rm)(monitor_id msg \<mapsto> Some (Monitor_replace (e_now (sn_rm (demo_sys_env 100))) (keyboard_id msg) (Monitor_new 0 4)))\<rparr>, [])"
    using acc by simp
  have "monitor_held (monitor_id msg) (keyboard_id msg) (e_now (sn_rm (demo_sys_env 100)) + 20) (sys_rm s1)"
    using program_keeps_monitor [OF reach turn s1 acc' idle] by auto
  moreover have "sys_run ([(0, []), (100, [HandleSwitch (Some 0) msg])]) s0 s1"
    using \<open>sys_step 0 [] s0 s\<close> sys_step.message_dispatched [OF turn s1] by (auto intro!: run_cons run_nil simp: demo_sys_env_def)
  then have "sys_reach s1"
    using s0(1) by (auto simp: sys_reach_def)
  ultimately show ?thesis
    using idle msg by (auto simp: demo_sys_env_def)
qed

end
