(* ===== verification/Mcc_Main.thy ===== *)
theory Mcc_Main
  imports Mcc_Runner
begin

text \<open>
  \<open>mcc.cpp\<close>, \<open>serverprocess.cpp\<close> and the end of \<open>mccrunner.cpp\<close>: signals, the loop of \<open>main\<close> and the shutdown, with the destructors
  it runs.  What \<open>main\<close> meets in its loop and in the shutdown is a list of events: the second of a \<open>usleep\<close> is over, or a
  signal arrives.  A signal that the main thread handles in \<open>usleep\<close> ends the sleep at once; the kernel may as well give it to
  another thread, or it may come between the test of the loop and the sleep, which then goes on.
\<close>

section \<open>The daemon\<close>

text \<open>On the results of \<open>fork\<close> and \<open>chdir\<close>: the parent exits, the child goes on without the three standard descriptors.\<close>

datatype daemon = DaemonThrows | ParentExits int | DaemonGoesOn "int list"

definition ServerProcess_Daemonize :: "int \<Rightarrow> int \<Rightarrow> daemon" where
  "ServerProcess_Daemonize pid dir =
    (if pid < 0 then DaemonThrows
     else if pid \<noteq> 0 then ParentExits 0
     else if dir < 0 then DaemonThrows
     else DaemonGoesOn [0, 1, 2])"

section \<open>Signals and the loop of main\<close>

record signals =
  sg_finished :: bool
  sg_cnt :: int

definition signals_start :: signals where
  "signals_start = \<lparr>sg_finished = False, sg_cnt = 0\<rparr>"

text \<open>\<open>None\<close> is \<open>exit(0)\<close>.\<close>

definition signalHandler :: "signals \<Rightarrow> signals option" where
  "signalHandler s =
    (if sg_cnt s = 0 then (let s = s\<lparr>sg_finished := True\<rparr> in Some (s\<lparr>sg_cnt := wrap32 (sg_cnt s + 1)\<rparr>))
     else None)"

fun deliver :: "nat \<Rightarrow> signals \<Rightarrow> signals option" where
  "deliver 0 s = Some s"
| "deliver (Suc n) s = (case signalHandler s of None \<Rightarrow> None | Some s \<Rightarrow> deliver n s)"





section \<open>The runner's objects and their end\<close>












section \<open>The program\<close>




section \<open>Waiting for a signal\<close>

lemma deliver_new: "deliver n signals_start = (if n = 0 then Some signals_start else if n = 1 then Some \<lparr>sg_finished = True, sg_cnt = 1\<rparr> else None)"
proof (cases n)
  case (Suc k)
  then show ?thesis
    by (cases k) (simp_all add: signalHandler_def signals_start_def is_int32_def Let_def)
qed simp







section \<open>Unloading the keyboards\<close>




section \<open>How the program ends\<close>








end
