(* ===== verification/Matrix_Store.thy ===== *)
theory Matrix_Store
  imports Resource_Manager
begin

text \<open>
  The registered lower matrices of \<open>mccresourcemanager.cpp\<close> as the code keeps them: a map from matrix numbers to pointers.
  \<open>Resource_Manager\<close> keeps the objects in the map itself; this theory justifies that by a refinement, and shows what the
  pointers add: the keyboard manager's thread looks a matrix up in \<open>matchMatrix\<close> and reads its socket without
  \<open>mChildMatrixsMutex\<close>, while the server's thread, which does take the lock, can delete the object.  New objects get fresh
  addresses, so that the use of a freed object shows.
\<close>

section \<open>Objects and pointers\<close>

record matrix_store =
  ms_heap :: "nat \<rightharpoonup> MatrixInfo"
  ms_next :: nat
  ms_table :: "(int \<times> nat) list"

definition ms_obj :: "nat \<Rightarrow> matrix_store \<Rightarrow> MatrixInfo result" where
  "ms_obj p st = (case ms_heap st p of None \<Rightarrow> Inl NullDeref | Some x \<Rightarrow> Inr x)"

definition ms_new :: "MatrixInfo \<Rightarrow> matrix_store \<Rightarrow> nat \<times> matrix_store" where
  "ms_new x st = (ms_next st, st\<lparr>ms_heap := (ms_heap st)(ms_next st \<mapsto> x), ms_next := Suc (ms_next st)\<rparr>)"

definition ms_store :: "nat \<Rightarrow> MatrixInfo \<Rightarrow> matrix_store \<Rightarrow> matrix_store" where
  "ms_store p x st = st\<lparr>ms_heap := (ms_heap st)(p \<mapsto> x)\<rparr>"

definition ms_delete :: "nat \<Rightarrow> matrix_store \<Rightarrow> matrix_store" where
  "ms_delete p st = st\<lparr>ms_heap := (ms_heap st)(p := None)\<rparr>"

text \<open>\<open>isChild\<close> and \<open>matchMatrix\<close>, over the entries from the iterator on.\<close>

fun is_child_loop :: "int \<Rightarrow> matrix_store \<Rightarrow> (int \<times> nat) list \<Rightarrow> bool result" where
  "is_child_loop m st [] = Inr False"
| "is_child_loop m st ((k, p) # es) = bindr (ms_obj p st) (\<lambda>x. if hasChild m x then Inr True else is_child_loop m st es)"

definition ms_isChild :: "int \<Rightarrow> matrix_store \<Rightarrow> bool result" where
  "ms_isChild m st = is_child_loop m st (ms_table st)"

fun match_loop :: "int \<Rightarrow> matrix_store \<Rightarrow> (int \<times> nat) list \<Rightarrow> nat option result" where
  "match_loop m st [] = Inr None"
| "match_loop m st ((k, p) # es) =
     bindr (ms_obj p st) (\<lambda>x. if mx_id x = m \<or> hasChild m x then Inr (Some p) else match_loop m st es)"

definition ms_matchMatrix :: "int \<Rightarrow> matrix_store \<Rightarrow> nat option result" where
  "ms_matchMatrix m st = match_loop m st (ms_table st)"

definition ms_sock :: "nat \<Rightarrow> matrix_store \<Rightarrow> int result" where
  "ms_sock p st = bindr (ms_obj p st) (\<lambda>x. Inr (mx_fd x))"

text \<open>\<open>onRegister\<close> up to the report to the upper matrix.\<close>

definition ms_onRegister :: "int \<Rightarrow> MCCAgentRequest \<Rightarrow> matrix_store \<Rightarrow> matrix_store result" where
  "ms_onRegister fd reg st =
    (if a_method reg \<noteq> REGISTER then Inr st
     else
       let m = a_from reg; c = a_content reg; i = map_of (ms_table st) m; n = nat (reg_children_num c) in
       if reg_expire c > 0 then
         (case i of
            None \<Rightarrow>
              (case ms_new (MatrixInfo_new m fd) st of (matrix, st) \<Rightarrow>
               bindr (ms_obj matrix st) (\<lambda>x. bindr (add_children c 0 n x) (\<lambda>x.
                 let st = ms_store matrix x st in Inr (st\<lparr>ms_table := smap_insert m matrix (ms_table st)\<rparr>))))
          | Some matrix \<Rightarrow>
              bindr (ms_obj matrix st) (\<lambda>x. bindr (clearChildren x) (\<lambda>x.
              bindr (add_children c 0 n x) (\<lambda>x. Inr (ms_store matrix x st)))))
       else
         (case i of
            None \<Rightarrow> Inr st
          | Some matrix \<Rightarrow> Inr (ms_delete matrix (st\<lparr>ms_table := smap_erase m (ms_table st)\<rparr>))))"

text \<open>\<open>onDisconnect\<close>: the entry found is erased and its object deleted before its iterator is advanced.\<close>

fun disconnect_loop :: "int \<Rightarrow> matrix_store \<Rightarrow> (int \<times> nat) list \<Rightarrow> matrix_store result" where
  "disconnect_loop fd st [] = Inr st"
| "disconnect_loop fd st ((k, p) # es) =
     bindr (ms_obj p st) (\<lambda>x. if mx_fd x = fd then Inl IteratorInvalidated else disconnect_loop fd st es)"

definition ms_onDisconnect :: "int \<Rightarrow> matrix_store \<Rightarrow> matrix_store result" where
  "ms_onDisconnect fd st = disconnect_loop fd st (ms_table st)"

section \<open>The map of objects\<close>

definition ms_view :: "matrix_store \<Rightarrow> (int \<times> MatrixInfo) list" where
  "ms_view st = map (\<lambda>(k, p). (k, the (ms_heap st p))) (ms_table st)"

definition store_ok :: "matrix_store \<Rightarrow> bool" where
  "store_ok st \<longleftrightarrow> smap_sorted (ms_table st) \<and> distinct (map snd (ms_table st)) \<and>
     (\<forall>p. ms_heap st p \<noteq> None \<longrightarrow> p < ms_next st) \<and> (\<forall>e \<in> set (ms_table st). ms_heap st (snd e) \<noteq> None)"

text \<open>The table part of \<open>onRegister\<close> on the map of objects.\<close>

definition register_children :: "int \<Rightarrow> MCCAgentRequest \<Rightarrow> (int \<times> MatrixInfo) list \<Rightarrow> (int \<times> MatrixInfo) list result" where
  "register_children fd reg children =
    (if a_method reg \<noteq> REGISTER then Inr children
     else
       let m = a_from reg; c = a_content reg; n = nat (reg_children_num c) in
       if reg_expire c > 0 then
         (case map_of children m of
            None \<Rightarrow> bindr (add_children c 0 n (MatrixInfo_new m fd)) (\<lambda>x. Inr (smap_insert m x children))
          | Some x \<Rightarrow> bindr (clearChildren x) (\<lambda>x. bindr (add_children c 0 n x) (\<lambda>x. Inr (smap_update m x children))))
       else Inr (if map_of children m = None then children else smap_erase m children))"

lemma onRegister_children:
  "onRegister e fd reg s =
     bindr (register_children fd reg (rm_children s)) (\<lambda>ch.
       let s = s\<lparr>rm_children := ch\<rparr> in
       if a_method reg = REGISTER \<and> rm_level s \<noteq> 0 \<and> rm_clientConnected s
       then bindr (buildRegister e s) (\<lambda>r. Inr (s, [ClientSendRequest r])) else Inr (s, []))"
  by (simp add: onRegister_def register_children_def Let_def bindr_assoc split: option.split)

lemma view_lookup: "map_of (ms_view st) k = map_option (\<lambda>p. the (ms_heap st p)) (map_of (ms_table st) k)"
  unfolding ms_view_def by (induction "ms_table st" arbitrary: st) (simp_all add: map_of_map)

lemma smap_insert_map: "smap_insert k (f v) (map (\<lambda>(k, v). (k, f v)) m) = map (\<lambda>(k, v). (k, f v)) (smap_insert k v m)"
  by (induction k v m rule: smap_insert.induct) auto

lemma distinct_insert:
  "distinct (map snd m) \<Longrightarrow> (\<And>e. e \<in> set m \<Longrightarrow> snd e \<noteq> v) \<Longrightarrow> distinct (map snd (smap_insert k v m))"
proof (induction k v m rule: smap_insert.induct)
  case (2 k v k' v' m)
  have "snd ` set (smap_insert k v m) \<subseteq> insert v (snd ` set m)"
    by (induction k v m rule: smap_insert.induct) auto
  with 2 show ?case
    by (force simp: image_iff)
qed simp

lemma store_ok_obj: "store_ok st \<Longrightarrow> (k, p) \<in> set (ms_table st) \<Longrightarrow> ms_obj p st = Inr (the (ms_heap st p))"
  by (auto simp: store_ok_def ms_obj_def)

text \<open>The readers see the objects of the map.\<close>

lemma match_loop_view:
  assumes "\<forall>e \<in> set es. ms_heap st (snd e) \<noteq> None"
  shows "match_loop m st es = Inr (map_option snd (find (\<lambda>e. mx_id (the (ms_heap st (snd e))) = m \<or> hasChild m (the (ms_heap st (snd e)))) es))"
  using assms by (induction es) (auto simp: ms_obj_def)

lemma is_child_loop_view:
  assumes "\<forall>e \<in> set es. ms_heap st (snd e) \<noteq> None"
  shows "is_child_loop m st es = Inr (\<exists>e \<in> set es. hasChild m (the (ms_heap st (snd e))))"
  using assms by (induction es) (auto simp: ms_obj_def)

lemma disconnect_loop_view:
  assumes "\<forall>e \<in> set es. ms_heap st (snd e) \<noteq> None"
  shows "disconnect_loop fd st es = (if \<exists>e \<in> set es. mx_fd (the (ms_heap st (snd e))) = fd then Inl IteratorInvalidated else Inr st)"
  using assms by (induction es) (fastforce simp: ms_obj_def)+

lemma ms_view_alt: "ms_view st = map (\<lambda>e. (fst e, the (ms_heap st (snd e)))) (ms_table st)"
  by (simp add: ms_view_def split_beta)

lemma find_map: "find P (map f xs) = map_option f (find (\<lambda>x. P (f x)) xs)"
  by (induction xs) auto

lemma readers_see_objects:
  assumes "store_ok st"
  shows "ms_isChild m st = Inr (find (\<lambda>e. hasChild m (snd e)) (ms_view st) \<noteq> None)"
    and "ms_onDisconnect fd st = (if find (\<lambda>e. mx_fd (snd e) = fd) (ms_view st) = None then Inr st else Inl IteratorInvalidated)"
    and "ms_matchMatrix m st = Inr p \<Longrightarrow>
      map_option (\<lambda>p. the (ms_heap st p)) p = map_option snd (find (\<lambda>e. mx_id (snd e) = m \<or> hasChild m (snd e)) (ms_view st)) \<and>
      (\<forall>q. p = Some q \<longrightarrow> (\<exists>k. (k, q) \<in> set (ms_table st)))"
proof -
  have live: "\<forall>e \<in> set (ms_table st). ms_heap st (snd e) \<noteq> None"
    using assms by (simp add: store_ok_def)
  show "ms_isChild m st = Inr (find (\<lambda>e. hasChild m (snd e)) (ms_view st) \<noteq> None)"
    by (auto simp: ms_isChild_def is_child_loop_view [OF live] ms_view_alt find_None_iff)
  show "ms_onDisconnect fd st = (if find (\<lambda>e. mx_fd (snd e) = fd) (ms_view st) = None then Inr st else Inl IteratorInvalidated)"
    by (auto simp: ms_onDisconnect_def disconnect_loop_view [OF live] ms_view_alt find_None_iff)
  assume "ms_matchMatrix m st = Inr p"
  then have p: "p = map_option snd (find (\<lambda>e. mx_id (the (ms_heap st (snd e))) = m \<or> hasChild m (the (ms_heap st (snd e)))) (ms_table st))"
    by (simp add: ms_matchMatrix_def match_loop_view [OF live])
  show "map_option (\<lambda>p. the (ms_heap st p)) p = map_option snd (find (\<lambda>e. mx_id (snd e) = m \<or> hasChild m (snd e)) (ms_view st)) \<and>
      (\<forall>q. p = Some q \<longrightarrow> (\<exists>k. (k, q) \<in> set (ms_table st)))"
    by (auto simp: p ms_view_alt find_map option.map_comp comp_def dest!: find_SomeD)
qed

section \<open>Registrations keep the pointers in order\<close>

lemma table_keys:
  assumes "store_ok st" and "(k, p) \<in> set (ms_table st)" and "e \<in> set (ms_table st)"
  shows "fst e = k \<longleftrightarrow> snd e = p"
proof -
  have "inj_on fst (set (ms_table st))" "inj_on snd (set (ms_table st))"
    using assms(1) distinct_map [of fst "ms_table st"] distinct_map [of snd "ms_table st"]
    by (auto simp: store_ok_def smap_sorted_def strict_sorted_iff)
  then show ?thesis
    using assms(2,3) by (metis fst_conv snd_conv inj_onD)
qed

lemma view_store:
  assumes "store_ok st" and "(k, p) \<in> set (ms_table st)"
  shows "ms_view (ms_store p x st) = smap_update k x (ms_view st)" and "store_ok (ms_store p x st)"
proof -
  note keys = table_keys [OF assms]
  show "ms_view (ms_store p x st) = smap_update k x (ms_view st)"
    using keys by (auto simp: ms_view_def ms_store_def smap_update_def split_beta)
  show "store_ok (ms_store p x st)"
    using assms by (auto simp: store_ok_def ms_store_def)
qed

lemma view_insert:
  assumes "store_ok st" and "map_of (ms_table st) k = None" and st'_def: "st' = ms_store (ms_next st) x (snd (ms_new y st))"
  shows "ms_view (st'\<lparr>ms_table := smap_insert k (ms_next st) (ms_table st)\<rparr>) = smap_insert k x (ms_view st)"
    and "store_ok (st'\<lparr>ms_table := smap_insert k (ms_next st) (ms_table st)\<rparr>)"
proof -
  have fresh: "snd e \<noteq> ms_next st" if "e \<in> set (ms_table st)" for e
    using that assms(1) unfolding store_ok_def by (metis less_irrefl)
  let ?h = "\<lambda>p. the (if p = ms_next st then Some x else ms_heap st p)"
  have "ms_view st = map (\<lambda>(k, p). (k, ?h p)) (ms_table st)"
    using fresh by (auto simp: ms_view_def)
  then have "smap_insert k x (ms_view st) = map (\<lambda>(k, p). (k, ?h p)) (smap_insert k (ms_next st) (ms_table st))"
    using smap_insert_map [of k ?h "ms_next st" "ms_table st"] by simp
  then show "ms_view (st'\<lparr>ms_table := smap_insert k (ms_next st) (ms_table st)\<rparr>) = smap_insert k x (ms_view st)"
    by (auto simp: st'_def ms_view_def ms_store_def ms_new_def)
  have sorted: "smap_sorted (ms_table st)" and "distinct (map snd (ms_table st))"
    using assms(1) by (simp_all add: store_ok_def)
  have "set (smap_insert k (ms_next st) (ms_table st)) = {(k, ms_next st)} \<union> set (ms_table st)"
    using smap.set_insert_new [OF sorted assms(2)] .
  moreover have "distinct (map snd (smap_insert k (ms_next st) (ms_table st)))"
    using \<open>distinct (map snd (ms_table st))\<close> fresh by (rule distinct_insert)
  ultimately show "store_ok (st'\<lparr>ms_table := smap_insert k (ms_next st) (ms_table st)\<rparr>)"
    using assms(1) smap_insert_sorted [OF sorted]
    by (fastforce simp: st'_def store_ok_def ms_store_def ms_new_def)
qed

lemma view_erase:
  assumes "store_ok st" and "map_of (ms_table st) k = Some p"
  shows "ms_view (ms_delete p (st\<lparr>ms_table := smap_erase k (ms_table st)\<rparr>)) = smap_erase k (ms_view st)"
    and "store_ok (ms_delete p (st\<lparr>ms_table := smap_erase k (ms_table st)\<rparr>))"
proof -
  have "(k, p) \<in> set (ms_table st)"
    using assms(2) by (rule map_of_SomeD)
  note keys = table_keys [OF assms(1) this]
  show "ms_view (ms_delete p (st\<lparr>ms_table := smap_erase k (ms_table st)\<rparr>)) = smap_erase k (ms_view st)"
    using keys by (auto simp: ms_view_def ms_delete_def smap_erase_def filter_map comp_def split_beta intro!: map_cong)
  have "distinct (map snd (smap_erase k (ms_table st)))"
    using assms(1) by (simp add: store_ok_def smap_erase_def distinct_map_filter)
  moreover have "smap_sorted (smap_erase k (ms_table st))"
    using assms(1) by (simp add: store_ok_def smap_erase_sorted)
  ultimately show "store_ok (ms_delete p (st\<lparr>ms_table := smap_erase k (ms_table st)\<rparr>))"
    using assms(1) keys by (auto simp: store_ok_def ms_delete_def smap_erase_def)
qed

text \<open>\<open>onRegister\<close> for a matrix that is new, and for one that is registered.\<close>

lemma ms_onRegister_new:
  assumes "a_method reg = REGISTER" and "map_of (ms_table st) (a_from reg) = None"
  shows "ms_onRegister fd reg st =
    (if 0 < reg_expire (a_content reg) then
       bindr (add_children (a_content reg) 0 (nat (reg_children_num (a_content reg))) (MatrixInfo_new (a_from reg) fd)) (\<lambda>x.
         Inr (ms_store (ms_next st) x (snd (ms_new (MatrixInfo_new (a_from reg) fd) st))
           \<lparr>ms_table := smap_insert (a_from reg) (ms_next st) (ms_table st)\<rparr>))
     else Inr st)"
  using assms by (simp add: ms_onRegister_def ms_new_def ms_obj_def ms_store_def Let_def)

definition new_children :: "MCCAgentRequest \<Rightarrow> MatrixInfo \<Rightarrow> MatrixInfo result" where
  "new_children reg x = bindr (clearChildren x) (add_children (a_content reg) 0 (nat (reg_children_num (a_content reg))))"

lemma ms_onRegister_old:
  assumes "a_method reg = REGISTER" and "map_of (ms_table st) (a_from reg) = Some p" and "store_ok st"
  shows "ms_onRegister fd reg st =
    (if 0 < reg_expire (a_content reg) then bindr (new_children reg (the (ms_heap st p))) (\<lambda>x. Inr (ms_store p x st))
     else Inr (ms_delete p (st\<lparr>ms_table := smap_erase (a_from reg) (ms_table st)\<rparr>)))"
  using assms store_ok_obj [OF assms(3) map_of_SomeD [OF assms(2)]]
  by (simp add: ms_onRegister_def new_children_def bindr_assoc Let_def)

lemma register_refines:
  assumes "store_ok st"
  shows "map_sum id ms_view (ms_onRegister fd reg st) = register_children fd reg (ms_view st) \<and>
    (\<forall>st'. ms_onRegister fd reg st = Inr st' \<longrightarrow> store_ok st')"
proof (cases "a_method reg = REGISTER")
  case False
  then show ?thesis
    using assms by (simp add: ms_onRegister_def register_children_def)
next
  case reg: True
  show ?thesis
  proof (cases "map_of (ms_table st) (a_from reg)")
    case None
    show ?thesis
      using assms reg None view_insert [OF assms None refl]
      by (cases "add_children (a_content reg) 0 (nat (reg_children_num (a_content reg))) (MatrixInfo_new (a_from reg) fd)")
        (auto simp: ms_onRegister_new [OF reg None] register_children_def view_lookup Let_def)
  next
    case (Some p)
    have "register_children fd reg (ms_view st) =
      (if 0 < reg_expire (a_content reg) then bindr (new_children reg (the (ms_heap st p))) (\<lambda>x. Inr (smap_update (a_from reg) x (ms_view st)))
       else Inr (smap_erase (a_from reg) (ms_view st)))"
      using reg Some by (simp add: register_children_def view_lookup new_children_def bindr_assoc Let_def)
    then show ?thesis
      using view_store [OF assms map_of_SomeD [OF Some]] view_erase [OF assms Some]
      by (cases "new_children reg (the (ms_heap st p))") (auto simp: ms_onRegister_old [OF reg Some assms])
  qed
qed

section \<open>What becomes of a pointer\<close>

lemma fd_add_children: "add_children c i n x = Inr y \<Longrightarrow> mx_fd y = mx_fd x"
  by (induction c i n x rule: add_children.induct) (auto simp: bindr_Inr_iff addChild_def)

lemma fd_new_children: "new_children reg x = Inr y \<Longrightarrow> mx_fd y = mx_fd x"
  by (auto simp: new_children_def bindr_Inr_iff clearChildren_def dest!: fd_add_children split: if_splits)

definition unregisters :: "int \<Rightarrow> MCCAgentRequest \<Rightarrow> bool" where
  "unregisters k reg \<longleftrightarrow> a_method reg = REGISTER \<and> a_from reg = k \<and> reg_expire (a_content reg) \<le> 0"

lemma register_pointer:
  assumes ok: "store_ok st" and step: "ms_onRegister fd reg st = Inr st'" and p: "p < ms_next st"
  shows "p < ms_next st'"
    and "ms_heap st p = None \<Longrightarrow> ms_heap st' p = None"
    and "(k, p) \<in> set (ms_table st) \<Longrightarrow>
      (if unregisters k reg then ms_heap st' p = None
       else (k, p) \<in> set (ms_table st') \<and> mx_fd (the (ms_heap st' p)) = mx_fd (the (ms_heap st p)))"
proof -
  have "p < ms_next st' \<and> (ms_heap st p = None \<longrightarrow> ms_heap st' p = None) \<and>
    ((k, p) \<in> set (ms_table st) \<longrightarrow>
      (if unregisters k reg then ms_heap st' p = None
       else (k, p) \<in> set (ms_table st') \<and> mx_fd (the (ms_heap st' p)) = mx_fd (the (ms_heap st p))))"
  proof (cases "a_method reg = REGISTER")
    case False
    then show ?thesis
      using step p by (simp add: ms_onRegister_def unregisters_def)
  next
    case reg: True
    show ?thesis
    proof (cases "map_of (ms_table st) (a_from reg)")
      case None
      then have other: "k \<noteq> a_from reg" if "(k, p) \<in> set (ms_table st)"
        using that by (auto simp: map_of_eq_None_iff image_iff)
      have "set (smap_insert (a_from reg) (ms_next st) (ms_table st)) = {(a_from reg, ms_next st)} \<union> set (ms_table st)"
        using ok None by (intro smap.set_insert_new) (simp_all add: store_ok_def)
      with step p other show ?thesis
        by (auto simp: ms_onRegister_new [OF reg None] unregisters_def ms_store_def ms_new_def bindr_Inr_iff split: if_splits)
    next
      case (Some q)
      have q: "(a_from reg, q) \<in> set (ms_table st)"
        using Some by (rule map_of_SomeD)
      have live: "ms_heap st q \<noteq> None"
        using ok q by (force simp: store_ok_def)
      have same: "k = a_from reg \<longleftrightarrow> p = q" if "(k, p) \<in> set (ms_table st)"
        using table_keys [OF ok q that] by simp
      show ?thesis
        using step p live same fd_new_children
        by (auto simp: ms_onRegister_old [OF reg Some ok] unregisters_def reg ms_store_def ms_delete_def smap_erase_def bindr_Inr_iff
            split: if_splits)
    qed
  qed
  then show "p < ms_next st'" "ms_heap st p = None \<Longrightarrow> ms_heap st' p = None"
    "(k, p) \<in> set (ms_table st) \<Longrightarrow>
      (if unregisters k reg then ms_heap st' p = None
       else (k, p) \<in> set (ms_table st') \<and> mx_fd (the (ms_heap st' p)) = mx_fd (the (ms_heap st p)))"
    by simp_all
qed

section \<open>The keyboard's thread against the server's\<close>

text \<open>The server's thread handles registrations between the keyboard thread's call of \<open>matchMatrix\<close> and its call of \<open>sock\<close>.\<close>

fun ms_registers :: "(int \<times> MCCAgentRequest) list \<Rightarrow> matrix_store \<Rightarrow> matrix_store result" where
  "ms_registers [] st = Inr st"
| "ms_registers ((fd, reg) # rs) st = bindr (ms_onRegister fd reg st) (ms_registers rs)"

lemma freed_stays_freed:
  "store_ok st \<Longrightarrow> p < ms_next st \<Longrightarrow> ms_heap st p = None \<Longrightarrow> ms_registers rs st = Inr st' \<Longrightarrow> ms_heap st' p = None"
proof (induction rs arbitrary: st)
  case (Cons r rs)
  obtain fd reg where r: "r = (fd, reg)"
    by (cases r)
  with Cons.prems obtain st1 where st1: "ms_onRegister fd reg st = Inr st1" "ms_registers rs st1 = Inr st'"
    by (auto simp: bindr_Inr_iff)
  with Cons.prems Cons.IH [of st1] register_pointer [OF Cons.prems(1) st1(1) Cons.prems(2)] register_refines [OF Cons.prems(1), of fd reg]
  show ?case
    by simp
qed simp

lemma pointer_read:
  "store_ok st \<Longrightarrow> (k, p) \<in> set (ms_table st) \<Longrightarrow> ms_registers rs st = Inr st' \<Longrightarrow>
     ms_sock p st' = (if \<exists>r \<in> set rs. unregisters k (snd r) then Inl NullDeref else Inr (mx_fd (the (ms_heap st p))))"
proof (induction rs arbitrary: st)
  case Nil
  then show ?case
    by (simp add: ms_sock_def store_ok_obj)
next
  case (Cons r rs)
  obtain fd reg where r: "r = (fd, reg)"
    by (cases r)
  with Cons.prems obtain st1 where st1: "ms_onRegister fd reg st = Inr st1" "ms_registers rs st1 = Inr st'"
    by (auto simp: bindr_Inr_iff)
  have ok1: "store_ok st1"
    using register_refines [OF Cons.prems(1), of fd reg] st1(1) by simp
  have p: "p < ms_next st"
    using Cons.prems(1,2) by (force simp: store_ok_def)
  note step = register_pointer [OF Cons.prems(1) st1(1) p]
  show ?case
  proof (cases "unregisters k reg")
    case True
    then have "ms_heap st' p = None"
      using freed_stays_freed [OF ok1 step(1) _ st1(2)] step(3) [OF Cons.prems(2)] by simp
    with True r show ?thesis
      by (simp add: ms_sock_def ms_obj_def)
  next
    case False
    then show ?thesis
      using Cons.IH [OF ok1 _ st1(2)] step(3) [OF Cons.prems(2)] r by simp
  qed
qed

text \<open>C10. The pointers of the registered matrices refine the map of objects that the rest of the development uses, for handlers
  that run alone: a registration changes the pointers and objects exactly as the handler's model changes the map, faults
  included, \<open>onDisconnect\<close> faults for the same sockets, and the readers find the same matrix.\<close>

theorem matrix_pointers_refine:
  assumes "store_ok st"
  shows "onRegister e fd reg (s\<lparr>rm_children := ms_view st\<rparr>) =
      bindr (map_sum id ms_view (ms_onRegister fd reg st)) (\<lambda>ch.
        let s = s\<lparr>rm_children := ch\<rparr> in
        if a_method reg = REGISTER \<and> rm_level s \<noteq> 0 \<and> rm_clientConnected s
        then bindr (buildRegister e s) (\<lambda>r. Inr (s, [ClientSendRequest r])) else Inr (s, [])) \<and>
    (\<forall>st'. ms_onRegister fd reg st = Inr st' \<longrightarrow> store_ok st') \<and>
    onDisconnect fd (s\<lparr>rm_children := ms_view st\<rparr>) = map_sum id (\<lambda>st'. s\<lparr>rm_children := ms_view st'\<rparr>) (ms_onDisconnect fd st) \<and>
    ms_isChild m st = Inr (isChild m (s\<lparr>rm_children := ms_view st\<rparr>)) \<and>
    (\<exists>p. ms_matchMatrix m st = Inr p \<and> map_option (\<lambda>p. the (ms_heap st p)) p = matchMatrix m (s\<lparr>rm_children := ms_view st\<rparr>))"
proof -
  have "\<forall>e \<in> set (ms_table st). ms_heap st (snd e) \<noteq> None"
    using assms by (simp add: store_ok_def)
  from match_loop_view [OF this] obtain p where "ms_matchMatrix m st = Inr p"
    by (simp add: ms_matchMatrix_def)
  with readers_see_objects [OF assms, of m] readers_see_objects(2) [OF assms, of fd] register_refines [OF assms, of fd reg]
  show ?thesis
    by (simp add: onRegister_children matchMatrix_def isChild_def onDisconnect_def split: option.split)
qed

definition demo_store :: matrix_store where
  "demo_store = \<lparr>ms_heap = [0 \<mapsto> \<lparr>mx_id = 3, mx_fd = 11, mx_children = [5]\<rparr>], ms_next = 1, ms_table = [(3, 0)]\<rparr>"

lemma demo_store_ok: "store_ok demo_store"
  by (simp add: demo_store_def store_ok_def smap_sorted_def)

theorem matrix_pointers_refine_witness:
  "onDisconnect 11 (MCCResourceManager_new\<lparr>rm_children := [(3, \<lparr>mx_id = 3, mx_fd = 11, mx_children = [5]\<rparr>)]\<rparr>) = Inl IteratorInvalidated"
  using matrix_pointers_refine [OF demo_store_ok, where fd = 11 and s = MCCResourceManager_new]
  by (simp add: demo_store_def ms_view_def ms_onDisconnect_def ms_obj_def)

text \<open>C20. The keyboard manager's thread reads the socket of the matrix it has found without the lock.  Whatever registrations
  the server's thread handles between \<open>matchMatrix\<close> and \<open>sock\<close>, the socket read is that of the matrix found, unless one of them
  ends the registration of that matrix: then a freed object is read.\<close>

theorem matched_matrix_read:
  assumes "store_ok st" and "ms_matchMatrix m st = Inr (Some p)" and "ms_registers rs st = Inr st'"
  shows "\<exists>k x. (k, p) \<in> set (ms_table st) \<and> matchMatrix m (s\<lparr>rm_children := ms_view st\<rparr>) = Some x \<and>
    ms_sock p st' = (if \<exists>r \<in> set rs. unregisters k (snd r) then Inl NullDeref else Inr (mx_fd x))"
proof -
  obtain k where k: "(k, p) \<in> set (ms_table st)"
    using readers_see_objects(3) [OF assms(1,2)] by blast
  have "matchMatrix m (s\<lparr>rm_children := ms_view st\<rparr>) = Some (the (ms_heap st p))"
    using readers_see_objects(3) [OF assms(1,2)] by (simp add: matchMatrix_def)
  then show ?thesis
    using k pointer_read [OF assms(1) k assms(3)] by blast
qed

text \<open>The registered matrix 3 announces that it leaves, in the window.\<close>

definition demo_leave :: MCCAgentRequest where
  "demo_leave = \<lparr>a_initiator = 0, a_from = 3, a_to = 0, a_type = REQUEST, a_method = REGISTER, a_id = 0, a_content = replicate content_size 0, a_valid = True\<rparr>"

theorem matched_matrix_read_witness:
  "ms_matchMatrix 5 demo_store = Inr (Some 0) \<and>
   ms_registers [(11, demo_leave)] demo_store = Inr (ms_delete 0 (demo_store\<lparr>ms_table := []\<rparr>)) \<and>
   ms_sock 0 (ms_delete 0 (demo_store\<lparr>ms_table := []\<rparr>)) = Inl NullDeref"
proof -
  have found: "ms_matchMatrix 5 demo_store = Inr (Some 0)"
    by (simp add: ms_matchMatrix_def demo_store_def ms_obj_def hasChild_def)
  have left: "ms_registers [(11, demo_leave)] demo_store = Inr (ms_delete 0 (demo_store\<lparr>ms_table := []\<rparr>))"
    by (simp add: ms_onRegister_def demo_leave_def demo_store_def content_size_def MAX_CHILDREN_NUM_def smap_erase_def Let_def)
  have "unregisters 3 demo_leave"
    by (simp add: unregisters_def demo_leave_def content_size_def)
  with matched_matrix_read [OF demo_store_ok found left, of MCCResourceManager_new] found left show ?thesis
    by (auto simp: demo_store_def)
qed

end
