(* ===== verification/Locks.thy ===== *)
theory Locks
  imports Containers User
begin

text \<open>
  \<open>mutex.h\<close> and \<open>autolock.h\<close>: the lock that the objects of the program hold for the body of
  an operation, and what it is good for: threads that work on an object only under its lock behave as if they took turns.
  That is why the other theories treat such an operation as one step.  Threads are numbered.
\<close>

section \<open>The mutex\<close>

record Mutex =
  mutex_holder :: "nat option"

definition Mutex_new :: Mutex where
  "Mutex_new = \<lparr>mutex_holder = None\<rparr>"

text \<open>\<open>pthread_mutex_lock\<close> on a mutex without attributes: \<open>None\<close> while some thread, be it the caller, holds it.\<close>

definition Mutex_Lock :: "nat \<Rightarrow> Mutex \<Rightarrow> Mutex option" where
  "Mutex_Lock t m = (if mutex_holder m = None then Some (m\<lparr>mutex_holder := Some t\<rparr>) else None)"

definition EBUSY :: int where "EBUSY = 16"

definition Mutex_TryLock :: "nat \<Rightarrow> Mutex \<Rightarrow> int \<times> Mutex" where
  "Mutex_TryLock t m = (case Mutex_Lock t m of None \<Rightarrow> (EBUSY, m) | Some m \<Rightarrow> (0, m))"

definition Mutex_Unlock :: "Mutex \<Rightarrow> Mutex" where
  "Mutex_Unlock m = m\<lparr>mutex_holder := None\<rparr>"

text \<open>The constructor and the destructor of \<open>AutoLock\<close>.\<close>

definition AutoLock_new :: "nat \<Rightarrow> Mutex \<Rightarrow> Mutex option" where
  "AutoLock_new t m = Mutex_Lock t m"

definition AutoLock_destroy :: "Mutex \<Rightarrow> Mutex" where
  "AutoLock_destroy m = Mutex_Unlock m"

text \<open>\<open>Camera::empty\<close> and \<open>Camera::size\<close> call themselves under the lock they have taken.\<close>

partial_function (option) Camera_empty :: "nat \<Rightarrow> Mutex \<Rightarrow> bool option" where
  "Camera_empty t m =
    (case AutoLock_new t m of
       None \<Rightarrow> None
     | Some m \<Rightarrow> Camera_empty t m)"

lemma Camera_empty_held: "mutex_holder m \<noteq> None \<Longrightarrow> Camera_empty t m = None"
  by (subst Camera_empty.simps) (auto simp: AutoLock_new_def Mutex_Lock_def)

text \<open>Neither ever returns.\<close>

theorem Camera_empty_deadlocks: "Camera_empty t m = None"
proof (cases "mutex_holder m")
  case None
  then have "AutoLock_new t m = Some (m\<lparr>mutex_holder := Some t\<rparr>)"
    by (simp add: AutoLock_new_def Mutex_Lock_def)
  moreover have "Camera_empty t (m\<lparr>mutex_holder := Some t\<rparr>) = None"
    by (rule Camera_empty_held) simp
  ultimately show ?thesis
    by (subst Camera_empty.simps) simp
qed (simp add: Camera_empty_held)

text \<open>The users of a camera.\<close>

definition Camera_addUser :: "MCCUser \<Rightarrow> MCCUser list \<Rightarrow> MCCUser list" where
  "Camera_addUser user users = users @ [user]"

fun Camera_removeUser :: "MCCGlobalID \<Rightarrow> MCCUser list \<Rightarrow> bool \<times> MCCUser list" where
  "Camera_removeUser userid [] = (False, [])"
| "Camera_removeUser userid (u # us) =
     (if gid_eq (u_id u) userid then (True, us)
      else case Camera_removeUser userid us of (b, us) \<Rightarrow> (b, u # us))"

lemma Camera_removeUser_first:
  "Camera_removeUser userid us = (\<exists>u \<in> set us. u_id u = userid, erase_first (\<lambda>u. u_id u = userid) us)"
  by (induction us) (auto simp: gid_eq_def MCCGlobalID.expand)

section \<open>Threads that take turns\<close>

text \<open>
  A section is what a thread does between the constructor and the destructor of an \<open>AutoLock\<close>: steps on the object and on the
  thread's own variables.  Steps of different threads may interleave in any way the mutex allows.
\<close>

type_synonym ('s, 'l) micro = "'s \<times> 'l \<Rightarrow> 's \<times> 'l"

record ('s, 'l) threads =
  t_shared :: 's
  t_mutex :: Mutex
  t_locals :: "nat \<Rightarrow> 'l"
  t_todo :: "nat \<Rightarrow> ('s, 'l) micro list list"
  t_current :: "('s, 'l) micro list"

definition do_micro :: "nat \<Rightarrow> ('s, 'l) micro \<Rightarrow> ('s, 'l) threads \<Rightarrow> ('s, 'l) threads" where
  "do_micro t m c = (case m (t_shared c, t_locals c t) of (s, l) \<Rightarrow> c\<lparr>t_shared := s, t_locals := (t_locals c)(t := l)\<rparr>)"

inductive turn :: "('s, 'l) threads \<Rightarrow> ('s, 'l) threads \<Rightarrow> bool" where
  turn_lock: "t_todo c t = sec # secs \<Longrightarrow> AutoLock_new t (t_mutex c) = Some m \<Longrightarrow>
    turn c (c\<lparr>t_mutex := m, t_todo := (t_todo c)(t := secs), t_current := sec\<rparr>)"
| turn_micro: "mutex_holder (t_mutex c) = Some t \<Longrightarrow> t_current c = m # ms \<Longrightarrow> turn c (do_micro t m (c\<lparr>t_current := ms\<rparr>))"
| turn_unlock: "mutex_holder (t_mutex c) = Some t \<Longrightarrow> t_current c = [] \<Longrightarrow> turn c (c\<lparr>t_mutex := AutoLock_destroy (t_mutex c)\<rparr>)"

text \<open>A whole section at once, and a sequence of them: the numbers of the threads whose turn it is.\<close>

definition whole_section :: "nat \<Rightarrow> ('s, 'l) threads \<Rightarrow> ('s, 'l) threads" where
  "whole_section t c =
    (case t_todo c t of [] \<Rightarrow> c
     | sec # secs \<Rightarrow> fold (do_micro t) sec (c\<lparr>t_todo := (t_todo c)(t := secs)\<rparr>))"

definition in_turns :: "nat list \<Rightarrow> ('s, 'l) threads \<Rightarrow> ('s, 'l) threads" where
  "in_turns order c = fold whole_section order c"

section \<open>Taking turns is all they do\<close>

lemma do_micro_simps [simp]:
  "t_mutex (do_micro t m c) = t_mutex c" "t_todo (do_micro t m c) = t_todo c" "t_current (do_micro t m c) = t_current c"
  by (simp_all add: do_micro_def split: prod.split)

lemma do_micro_update:
  "do_micro t m (c\<lparr>t_mutex := x\<rparr>) = do_micro t m c\<lparr>t_mutex := x\<rparr>" "do_micro t m (c\<lparr>t_current := y\<rparr>) = do_micro t m c\<lparr>t_current := y\<rparr>"
  by (simp_all add: do_micro_def split: prod.split)

lemma fold_micro_simps [simp]:
  "t_mutex (fold (do_micro t) ms c) = t_mutex c" "t_todo (fold (do_micro t) ms c) = t_todo c" "t_current (fold (do_micro t) ms c) = t_current c"
  by (induction ms arbitrary: c) simp_all

lemma fold_micro_update:
  "fold (do_micro t) ms c\<lparr>t_mutex := x\<rparr> = fold (do_micro t) ms (c\<lparr>t_mutex := x\<rparr>)"
  "fold (do_micro t) ms c\<lparr>t_current := y\<rparr> = fold (do_micro t) ms (c\<lparr>t_current := y\<rparr>)"
  by (induction ms arbitrary: c) (simp_all add: do_micro_update)

lemma in_turns_idle [simp]:
  "t_mutex (in_turns order c) = t_mutex c" "t_current (in_turns order c) = t_current c"
  by (induction order arbitrary: c) (simp_all add: in_turns_def whole_section_def split: list.splits)

lemma in_turns_snoc: "in_turns (order @ [t]) c = whole_section t (in_turns order c)"
  by (simp add: in_turns_def)

text \<open>Between two sections the state is that of some sequence of whole sections; inside one it is that, with the first steps of
  the holder's section done.\<close>

definition inside :: "nat \<Rightarrow> ('s, 'l) threads \<Rightarrow> ('s, 'l) threads \<Rightarrow> bool" where
  "inside t c1 c \<longleftrightarrow> (\<exists>secs ms. t_todo c1 t = (ms @ t_current c) # secs \<and>
     c = fold (do_micro t) ms (c1\<lparr>t_mutex := \<lparr>mutex_holder = Some t\<rparr>, t_todo := (t_todo c1)(t := secs), t_current := t_current c\<rparr>))"

definition takes_turns :: "('s, 'l) threads \<Rightarrow> ('s, 'l) threads \<Rightarrow> bool" where
  "takes_turns c0 c \<longleftrightarrow> (\<exists>order. case mutex_holder (t_mutex c) of
     None \<Rightarrow> c = in_turns order c0
   | Some t \<Rightarrow> inside t (in_turns order c0) c)"

lemma update_order: "c\<lparr>t_todo := td, t_current := cs, t_mutex := m\<rparr> = c\<lparr>t_mutex := m, t_todo := td, t_current := cs\<rparr>"
  by (cases c) simp

lemma turn_keeps:
  assumes "t_mutex c0 = Mutex_new" and "t_current c0 = []" and "turn c c'" and "takes_turns c0 c"
  shows "takes_turns c0 c'"
  using assms(3)
proof cases
  case (turn_lock t sec secs m)
  then have free: "mutex_holder (t_mutex c) = None" and m: "m = \<lparr>mutex_holder = Some t\<rparr>"
    by (auto simp: AutoLock_new_def Mutex_Lock_def split: if_splits)
  from free assms(4) obtain order where c: "c = in_turns order c0"
    by (auto simp: takes_turns_def)
  have "inside t c c'"
    using turn_lock m by (auto simp: inside_def intro!: exI [of _ "[]"])
  then show ?thesis
    unfolding takes_turns_def using turn_lock m c by auto
next
  case (turn_micro t m ms)
  from turn_micro(2) assms(4) obtain order where i: "inside t (in_turns order c0) c"
    by (auto simp: takes_turns_def)
  then obtain secs ps where p: "t_todo (in_turns order c0) t = (ps @ t_current c) # secs"
      "c = fold (do_micro t) ps (in_turns order c0\<lparr>t_mutex := \<lparr>mutex_holder = Some t\<rparr>,
         t_todo := (t_todo (in_turns order c0))(t := secs), t_current := t_current c\<rparr>)"
    by (auto simp: inside_def)
  have "c\<lparr>t_current := ms\<rparr> = fold (do_micro t) ps (in_turns order c0\<lparr>t_mutex := \<lparr>mutex_holder = Some t\<rparr>,
         t_todo := (t_todo (in_turns order c0))(t := secs), t_current := ms\<rparr>)"
    by (subst p(2)) (simp add: fold_micro_update)
  then have "inside t (in_turns order c0) c'"
    using p(1) turn_micro(1,3) unfolding inside_def by (intro exI [of _ secs] exI [of _ "ps @ [m]"]) simp
  then show ?thesis
    unfolding takes_turns_def using turn_micro(1,2) by auto
next
  case (turn_unlock t)
  from turn_unlock(2) assms(4) obtain order where "inside t (in_turns order c0) c"
    by (auto simp: takes_turns_def)
  then obtain secs ps where p: "t_todo (in_turns order c0) t = ps # secs"
      "c = fold (do_micro t) ps (in_turns order c0\<lparr>t_mutex := \<lparr>mutex_holder = Some t\<rparr>,
         t_todo := (t_todo (in_turns order c0))(t := secs), t_current := []\<rparr>)"
    using turn_unlock(3) by (auto simp: inside_def)
  have idle: "in_turns order c0\<lparr>t_mutex := Mutex_new, t_todo := x, t_current := []\<rparr> = in_turns order c0\<lparr>t_todo := x\<rparr>" for x
    using assms(1,2) in_turns_idle [of order c0] by (metis threads.surjective threads.update_convs(2,4,5))
  have "AutoLock_destroy (t_mutex c) = Mutex_new"
    by (simp add: AutoLock_destroy_def Mutex_Unlock_def Mutex_new_def)
  then have "c' = c\<lparr>t_mutex := Mutex_new\<rparr>"
    using turn_unlock(1) by simp
  also have "\<dots> = fold (do_micro t) ps (in_turns order c0\<lparr>t_mutex := Mutex_new,
         t_todo := (t_todo (in_turns order c0))(t := secs), t_current := []\<rparr>)"
    by (subst p(2)) (simp add: fold_micro_update update_order)
  finally have "c' = fold (do_micro t) ps (in_turns order c0\<lparr>t_mutex := Mutex_new,
         t_todo := (t_todo (in_turns order c0))(t := secs), t_current := []\<rparr>)" .
  then have "c' = in_turns (order @ [t]) c0"
    by (simp add: idle in_turns_snoc whole_section_def p(1))
  moreover from this have "mutex_holder (t_mutex c') = None"
    using assms(1) by (simp add: Mutex_new_def)
  ultimately show ?thesis
    unfolding takes_turns_def by auto
qed

inductive turns :: "('s, 'l) threads \<Rightarrow> ('s, 'l) threads \<Rightarrow> bool" where
  turns_refl: "turns c c"
| turns_step: "turns c0 c \<Longrightarrow> turn c c' \<Longrightarrow> turns c0 c'"

lemma turns_keep: "turns c0 c \<Longrightarrow> t_mutex c0 = Mutex_new \<Longrightarrow> t_current c0 = [] \<Longrightarrow> takes_turns c0 c"
proof (induction rule: turns.induct)
  case (turns_refl c)
  then show ?case
    by (auto simp: takes_turns_def Mutex_new_def in_turns_def intro!: exI [of _ "[]"])
next
  case (turns_step c0 c c')
  then show ?case
    using turn_keeps by blast
qed

text \<open>They never block each other for good: while a thread has something left, some step is possible.\<close>

lemma some_turn:
  assumes "mutex_holder (t_mutex c) \<noteq> None \<or> t_todo c t \<noteq> []"
  shows "\<exists>c'. turn c c'"
proof (cases "mutex_holder (t_mutex c)")
  case None
  then obtain sec secs where "t_todo c t = sec # secs"
    using assms by (auto simp: neq_Nil_conv)
  moreover have "AutoLock_new t (t_mutex c) = Some \<lparr>mutex_holder = Some t\<rparr>"
    using None by (simp add: AutoLock_new_def Mutex_Lock_def)
  ultimately show ?thesis
    by (blast intro: turn_lock)
next
  case (Some u)
  then show ?thesis
    by (cases "t_current c") (blast intro: turn_unlock turn_micro)+
qed

section \<open>The shared queue\<close>

text \<open>\<open>Squeue\<close> step by step, as the methods are written; a thread's variables are the element and the results so far.\<close>

datatype 'a squeue_call = CallAdd 'a | CallTryget

type_synonym 'a squeue_locals = "'a option \<times> 'a option list"

fun squeue_section :: "'a squeue_call \<Rightarrow> ('a Squeue, 'a squeue_locals) micro list" where
  "squeue_section (CallAdd e) = [\<lambda>(q, l). (Squeue_add e q, l)]"
| "squeue_section CallTryget =
     [\<lambda>(q, e, rs). (q, if sq_queue q = [] then None else Some (hd (sq_queue q)), rs),
      \<lambda>(q, e, rs). (if e = None then q else q\<lparr>sq_queue := tl (sq_queue q)\<rparr>, e, rs),
      \<lambda>(q, e, rs). (q, e, rs @ [e])]"

fun squeue_atomic :: "'a squeue_call \<Rightarrow> 'a Squeue \<times> 'a squeue_locals \<Rightarrow> 'a Squeue \<times> 'a squeue_locals" where
  "squeue_atomic (CallAdd e) (q, l) = (Squeue_add e q, l)"
| "squeue_atomic CallTryget (q, e, rs) =
     (case Squeue_tryget (the e) q of (ok, x, q') \<Rightarrow> let r = (if ok then Some x else None) in (q', r, rs @ [r]))"

lemma squeue_section_atomic:
  "t_shared (fold (do_micro t) (squeue_section call) c) = fst (squeue_atomic call (t_shared c, t_locals c t))"
  "t_locals (fold (do_micro t) (squeue_section call) c) = (t_locals c)(t := snd (squeue_atomic call (t_shared c, t_locals c t)))"
  by (cases call; cases "t_locals c t"; simp add: do_micro_def Squeue_tryget_def Let_def)+

definition queue_threads :: "'a Squeue \<Rightarrow> (nat \<Rightarrow> 'a squeue_call list) \<Rightarrow> ('a Squeue, 'a squeue_locals) threads" where
  "queue_threads q prog =
    \<lparr>t_shared = q, t_mutex = Mutex_new, t_locals = (\<lambda>t. (None, [])), t_todo = (\<lambda>t. map squeue_section (prog t)), t_current = []\<rparr>"

text \<open>The calls of the threads one after the other, each as one step, in the order of the turns.\<close>

fun squeue_turns :: "nat list \<Rightarrow> (nat \<Rightarrow> 'a squeue_call list) \<times> 'a Squeue \<times> (nat \<Rightarrow> 'a squeue_locals) \<Rightarrow>
    (nat \<Rightarrow> 'a squeue_call list) \<times> 'a Squeue \<times> (nat \<Rightarrow> 'a squeue_locals)" where
  "squeue_turns [] s = s"
| "squeue_turns (t # ts) (prog, q, ls) =
     (case prog t of [] \<Rightarrow> squeue_turns ts (prog, q, ls)
      | call # calls \<Rightarrow> (case squeue_atomic call (q, ls t) of (q, l) \<Rightarrow> squeue_turns ts (prog(t := calls), q, ls(t := l))))"

lemma squeue_in_turns:
  "t_todo c = (\<lambda>t. map squeue_section (prog t)) \<Longrightarrow>
   \<exists>rest. squeue_turns order (prog, t_shared c, t_locals c) = (rest, t_shared (in_turns order c), t_locals (in_turns order c)) \<and>
     t_todo (in_turns order c) = (\<lambda>t. map squeue_section (rest t))"
proof (induction order arbitrary: c prog)
  case Nil
  then show ?case
    by (simp add: in_turns_def)
next
  case (Cons t ts)
  show ?case
  proof (cases "prog t")
    case Nil
    then have "whole_section t c = c"
      using Cons.prems by (simp add: whole_section_def)
    then have "in_turns (t # ts) c = in_turns ts c"
      by (simp add: in_turns_def)
    with Cons.IH [OF Cons.prems] Nil show ?thesis
      by simp
  next
    case (Cons call calls)
    let ?c = "whole_section t c"
    have c': "?c = fold (do_micro t) (squeue_section call) (c\<lparr>t_todo := (t_todo c)(t := map squeue_section calls)\<rparr>)"
      using Cons Cons.prems by (simp add: whole_section_def)
    have "t_todo ?c = (\<lambda>u. map squeue_section ((prog(t := calls)) u))"
      using Cons.prems by (auto simp: c')
    note IH = Cons.IH [OF this]
    have "t_shared ?c = fst (squeue_atomic call (t_shared c, t_locals c t))"
      "t_locals ?c = (t_locals c)(t := snd (squeue_atomic call (t_shared c, t_locals c t)))"
      unfolding c' squeue_section_atomic by simp_all
    moreover have "in_turns (t # ts) c = in_turns ts ?c"
      by (simp add: in_turns_def)
    ultimately show ?thesis
      using IH Cons by (simp add: split_beta fun_upd_def)
  qed
qed

text \<open>C11. The shared queue is used by any number of threads at once, each with a list of calls of \<open>add\<close> and \<open>tryget\<close>.  Their
  steps may interleave in every way the mutex allows; whenever no thread is inside a call, the queue and the results the
  threads have got are those of the same calls made one after the other in some order that keeps each thread's own, and as long
  as a call is left or running some thread can go on.\<close>

theorem squeue_calls_atomic:
  assumes "turns (queue_threads q prog) c"
  shows "(mutex_holder (t_mutex c) = None \<longrightarrow>
      (\<exists>order rest. squeue_turns order (prog, q, \<lambda>t. (None, [])) = (rest, t_shared c, t_locals c) \<and>
        t_todo c = (\<lambda>t. map squeue_section (rest t)))) \<and>
    (mutex_holder (t_mutex c) \<noteq> None \<or> (\<exists>t. t_todo c t \<noteq> []) \<longrightarrow> (\<exists>c'. turn c c'))"
proof (intro conjI impI)
  assume "mutex_holder (t_mutex c) = None"
  then obtain order where c: "c = in_turns order (queue_threads q prog)"
    using turns_keep [OF assms] by (auto simp: queue_threads_def takes_turns_def)
  have "t_todo (queue_threads q prog) = (\<lambda>t. map squeue_section (prog t))"
    by (simp add: queue_threads_def)
  from squeue_in_turns [OF this, of order]
  show "\<exists>order rest. squeue_turns order (prog, q, \<lambda>t. (None, [])) = (rest, t_shared c, t_locals c) \<and> t_todo c = (\<lambda>t. map squeue_section (rest t))"
    unfolding c by (auto simp: queue_threads_def)
next
  assume "mutex_holder (t_mutex c) \<noteq> None \<or> (\<exists>t. t_todo c t \<noteq> [])"
  then show "\<exists>c'. turn c c'"
    using some_turn by blast
qed

text \<open>Two threads: one adds, the other one takes.\<close>

theorem squeue_calls_atomic_witness:
  "\<exists>c'. turn (queue_threads \<lparr>sq_queue = []\<rparr> (\<lambda>t. if t = 0 then [CallAdd (7 :: int)] else if t = 1 then [CallTryget] else [])) c'"
proof -
  let ?prog = "\<lambda>t :: nat. if t = 0 then [CallAdd (7 :: int)] else if t = 1 then [CallTryget] else []"
  have "t_todo (queue_threads \<lparr>sq_queue = []\<rparr> ?prog) 0 \<noteq> []"
    by (simp add: queue_threads_def)
  then show ?thesis
    using squeue_calls_atomic [of "\<lparr>sq_queue = []\<rparr>" ?prog, OF turns_refl] by blast
qed

end
