(* ===== verification/Thread_Pool.thy ===== *)
theory Thread_Pool
  imports Containers Thread_If
begin

text \<open>
  \<open>threadpool.h\<close>: threads that take tasks from a shared queue.  A task is a pointer, \<open>None\<close> when it is null; the results of
  the thread creations are an argument.
\<close>

record 'k ThreadPool =
  pool_tasks :: "'k option Squeue"
  pool_threads :: "ThreadIf list"

definition ThreadPool_new :: "int \<Rightarrow> 'k ThreadPool" where
  "ThreadPool_new n = \<lparr>pool_tasks = \<lparr>sq_queue = []\<rparr>, pool_threads = replicate (nat n) ThreadIf_new\<rparr>"

definition submitTask :: "'k option \<Rightarrow> 'k ThreadPool \<Rightarrow> 'k ThreadPool" where
  "submitTask task p = p\<lparr>pool_tasks := Squeue_add task (pool_tasks p)\<rparr>"

text \<open>\<open>Start\<close> counts the threads whose \<open>Start\<close> returns something else than 0.\<close>

fun start_loop :: "int list \<Rightarrow> ThreadIf list \<Rightarrow> int \<times> ThreadIf list" where
  "start_loop (rc # rcs) (t # ts) =
     (case ThreadIf_Start rc t of (r, t') \<Rightarrow> case start_loop rcs ts of (cnt, ts') \<Rightarrow> (if r \<noteq> 0 then cnt + 1 else cnt, t' # ts'))"
| "start_loop _ ts = (0, ts)"

definition ThreadPool_Start :: "int list \<Rightarrow> 'k ThreadPool \<Rightarrow> int \<times> 'k ThreadPool" where
  "ThreadPool_Start rcs p = (case start_loop rcs (pool_threads p) of (cnt, ts) \<Rightarrow> (cnt, p\<lparr>pool_threads := ts\<rparr>))"

text \<open>\<open>StopAll\<close>: the last thread is shut down and leaves the vector, until it is empty; the threads as they are left.\<close>

function stop_loop :: "ThreadIf list \<Rightarrow> ThreadIf list" where
  "stop_loop ts = (if ts = [] then [] else snd (ThreadIf_Shutdown (last ts)) # stop_loop (butlast ts))"
  by pat_completeness auto
termination
  by (relation "measure length") auto

declare stop_loop.simps [simp del]

definition ThreadPool_StopAll :: "'k ThreadPool \<Rightarrow> ThreadIf list \<times> 'k ThreadPool" where
  "ThreadPool_StopAll p = (stop_loop (pool_threads p), p\<lparr>pool_threads := []\<rparr>)"

text \<open>A turn of a work thread: the task it runs, \<open>None\<close> while it waits for one.\<close>

definition work_turn :: "'k option Squeue list \<Rightarrow> 'k ThreadPool \<Rightarrow> ('k \<times> 'k ThreadPool) result option" where
  "work_turn wakes p =
    (case Squeue_get wakes (pool_tasks p) of
       None \<Rightarrow> None
     | Some (None, q) \<Rightarrow> Some (Inl AssertFailed)
     | Some (Some task, q) \<Rightarrow> Some (Inr (task, p\<lparr>pool_tasks := q\<rparr>)))"

section \<open>Starting and stopping\<close>

lemma start_loop_new:
  "start_loop rcs (replicate (length rcs) ThreadIf_new) =
    (int (length (filter (\<lambda>rc. rc \<noteq> 0) rcs)),
     map (\<lambda>rc. if rc = 0 then ThreadIf_new\<lparr>th_state := RUNNING, th_alive := True\<rparr> else ThreadIf_new) rcs)"
  by (induction rcs) (simp_all add: ThreadIf_Start_def ThreadIf_new_def)

text \<open>A pool whose threads all start reports 0 started threads; the number reported is that of the threads that did not start.\<close>

theorem pool_start_counts_failures:
  assumes "n = int (length rcs)"
  shows "ThreadPool_Start rcs (ThreadPool_new n) =
    (int (length (filter (\<lambda>rc. rc \<noteq> 0) rcs)),
     \<lparr>pool_tasks = \<lparr>sq_queue = []\<rparr>,
      pool_threads = map (\<lambda>rc. if rc = 0 then ThreadIf_new\<lparr>th_state := RUNNING, th_alive := True\<rparr> else ThreadIf_new) rcs\<rparr>)"
  using assms by (simp add: ThreadPool_Start_def ThreadPool_new_def start_loop_new)

lemma stop_loop_rev: "stop_loop ts = map (\<lambda>t. snd (ThreadIf_Shutdown t)) (rev ts)"
proof (induction ts rule: rev_induct)
  case (snoc t ts)
  then show ?case
    by (subst stop_loop.simps) simp
qed (simp add: stop_loop.simps)

lemma pool_stops: "\<forall>t \<in> set (pool_threads p). thread_ok t \<Longrightarrow> \<forall>t \<in> set (fst (ThreadPool_StopAll p)). \<not> th_alive t"
  by (auto simp: ThreadPool_StopAll_def stop_loop_rev ThreadIf_Shutdown_def thread_ok_def)

section \<open>The tasks\<close>

text \<open>The work threads run the tasks in the order they were submitted in, whichever thread takes which.\<close>

fun work_turns :: "nat \<Rightarrow> 'k ThreadPool \<Rightarrow> ('k list \<times> 'k ThreadPool) result option" where
  "work_turns 0 p = Some (Inr ([], p))"
| "work_turns (Suc n) p =
     (case work_turn [] p of
        None \<Rightarrow> None
      | Some (Inl f) \<Rightarrow> Some (Inl f)
      | Some (Inr (k, p)) \<Rightarrow> map_option (map_sum id (\<lambda>(ks, p). (k # ks, p))) (work_turns n p))"

lemma tasks_in_order:
  "sq_queue (pool_tasks p) = map Some ks @ rest \<Longrightarrow>
     work_turns (length ks) p = Some (Inr (ks, p\<lparr>pool_tasks := \<lparr>sq_queue = rest\<rparr>\<rparr>))"
proof (induction ks arbitrary: p)
  case Nil
  then show ?case
    by (cases "pool_tasks p") (simp add: ThreadPool.equality)
next
  case (Cons k ks)
  let ?p = "p\<lparr>pool_tasks := \<lparr>sq_queue = map Some ks @ rest\<rparr>\<rparr>"
  have "work_turn [] p = Some (Inr (k, ?p))"
    using Cons.prems by (cases "pool_tasks p") (simp add: work_turn_def Squeue_get.simps)
  with Cons.IH [of ?p] show ?case
    by simp
qed

end
