(* ===== verification/Process_Util.thy ===== *)
theory Process_Util
  imports Prelude "HOL-Library.Multiset"
begin

text \<open>
  \<open>socketpair.cpp\<close> and \<open>processfactory.cpp\<close>: a pair of connected sockets shared by a process and the child it forks.  The
  results of the system calls are arguments; the operations return the calls they make on descriptors.
\<close>

section \<open>The socket pair\<close>

datatype eSocketPair_Status = eSocketPair_Loaded | eSocketPair_Inited | eSocketPair_Closed

record SocketPair =
  sk_fd0 :: int
  sk_fd1 :: int
  sk_owned_fd :: int
  sk_status :: eSocketPair_Status

datatype fd_call = FdClose int | FdSend int string | FdRecv int int

text \<open>The constructor, on the result of \<open>socketpair\<close> and the two descriptors; it throws a string that no caller catches.\<close>

definition SocketPair_new :: "int \<Rightarrow> int \<Rightarrow> int \<Rightarrow> SocketPair result" where
  "SocketPair_new rc a b =
    (if rc = -1 then Inl Uncaught
     else Inr \<lparr>sk_fd0 = a, sk_fd1 = b, sk_owned_fd = -1, sk_status = eSocketPair_Loaded\<rparr>)"

definition SocketPair_Init :: "int \<Rightarrow> SocketPair \<Rightarrow> int \<times> fd_call list \<times> SocketPair" where
  "SocketPair_Init pid s =
    (if sk_status s \<noteq> eSocketPair_Loaded then (-1, [], s)
     else if pid = 0 then (0, [FdClose (sk_fd0 s)], s\<lparr>sk_owned_fd := sk_fd1 s, sk_status := eSocketPair_Inited\<rparr>)
     else (0, [FdClose (sk_fd1 s)], s\<lparr>sk_owned_fd := sk_fd0 s, sk_status := eSocketPair_Inited\<rparr>))"

definition SocketPair_Send :: "int \<Rightarrow> string \<Rightarrow> SocketPair \<Rightarrow> int \<times> fd_call list \<times> SocketPair" where
  "SocketPair_Send rc msg s =
    (if sk_status s \<noteq> eSocketPair_Inited then (-1, [], s) else (rc, [FdSend (sk_owned_fd s) msg], s))"

definition SocketPair_Recv :: "int \<Rightarrow> int \<Rightarrow> SocketPair \<Rightarrow> int \<times> fd_call list \<times> SocketPair" where
  "SocketPair_Recv rc len s =
    (if sk_status s \<noteq> eSocketPair_Inited then (-1, [], s) else (rc, [FdRecv (sk_owned_fd s) len], s))"

definition SocketPair_Close :: "SocketPair \<Rightarrow> int \<times> fd_call list \<times> SocketPair" where
  "SocketPair_Close s =
    (0,
     if sk_status s = eSocketPair_Inited then [FdClose (sk_owned_fd s)]
     else if sk_status s = eSocketPair_Loaded then [FdClose (sk_fd0 s), FdClose (sk_fd1 s)]
     else [],
     s\<lparr>sk_status := eSocketPair_Closed\<rparr>)"

definition SocketPair_destruct :: "SocketPair \<Rightarrow> fd_call list" where
  "SocketPair_destruct s = (if sk_status s \<noteq> eSocketPair_Closed then fst (snd (SocketPair_Close s)) else [])"

section \<open>Any use of a pair\<close>

datatype pair_op = OpInit int | OpSend int string | OpRecv int int | OpClose

definition pair_step :: "pair_op \<Rightarrow> SocketPair \<Rightarrow> int \<times> fd_call list \<times> SocketPair" where
  "pair_step op s = (case op of
     OpInit pid \<Rightarrow> SocketPair_Init pid s
   | OpSend rc msg \<Rightarrow> SocketPair_Send rc msg s
   | OpRecv rc len \<Rightarrow> SocketPair_Recv rc len s
   | OpClose \<Rightarrow> SocketPair_Close s)"

fun pair_life :: "pair_op list \<Rightarrow> SocketPair \<Rightarrow> fd_call list" where
  "pair_life [] s = SocketPair_destruct s"
| "pair_life (op # ops) s = (case pair_step op s of (rc, calls, s) \<Rightarrow> calls @ pair_life ops s)"

definition closed_fds :: "fd_call list \<Rightarrow> int multiset" where
  "closed_fds cs = mset (List.map_filter (\<lambda>c. case c of FdClose fd \<Rightarrow> Some fd | _ \<Rightarrow> None) cs)"

lemma closed_fds_simps [simp]:
  "closed_fds [] = {#}" "closed_fds (FdClose fd # cs) = add_mset fd (closed_fds cs)" "closed_fds (FdSend fd m # cs) = closed_fds cs"
  "closed_fds (FdRecv fd n # cs) = closed_fds cs" "closed_fds (cs @ ds) = closed_fds cs + closed_fds ds"
  by (simp_all add: closed_fds_def map_filter_simps) (simp add: List.map_filter_def)

text \<open>The descriptors a pair still has to close.\<close>

definition open_fds :: "SocketPair \<Rightarrow> int multiset" where
  "open_fds s = (case sk_status s of
     eSocketPair_Loaded \<Rightarrow> {#sk_fd0 s, sk_fd1 s#} | eSocketPair_Inited \<Rightarrow> {#sk_owned_fd s#} | eSocketPair_Closed \<Rightarrow> {#})"

text \<open>The rule of descriptors: only an open one is closed, sent on or received from, and closing ends it.\<close>

fun fds_ok :: "int multiset \<Rightarrow> fd_call list \<Rightarrow> bool" where
  "fds_ok fds [] \<longleftrightarrow> True"
| "fds_ok fds (FdClose fd # cs) \<longleftrightarrow> fd \<in># fds \<and> fds_ok (fds - {#fd#}) cs"
| "fds_ok fds (FdSend fd m # cs) \<longleftrightarrow> fd \<in># fds \<and> fds_ok fds cs"
| "fds_ok fds (FdRecv fd n # cs) \<longleftrightarrow> fd \<in># fds \<and> fds_ok fds cs"

lemmas pair_step_simps = pair_step_def SocketPair_Init_def SocketPair_Send_def SocketPair_Recv_def SocketPair_Close_def open_fds_def

lemma pair_step_open: "pair_step op s = (rc, calls, s') \<Longrightarrow> open_fds s = closed_fds calls + open_fds s'"
  by (cases "sk_status s"; cases op) (auto simp: pair_step_simps split: if_splits)

lemma pair_step_ok: "pair_step op s = (rc, calls, s') \<Longrightarrow> fds_ok (open_fds s) (calls @ rest) = fds_ok (open_fds s') rest"
  by (cases "sk_status s"; cases op) (auto simp: pair_step_simps split: if_splits)

lemma pair_life_closes: "closed_fds (pair_life ops s) = open_fds s \<and> fds_ok (open_fds s) (pair_life ops s)"
proof (induction ops s rule: pair_life.induct)
  case (1 s)
  show ?case
    by (cases "sk_status s") (simp_all add: SocketPair_destruct_def SocketPair_Close_def open_fds_def)
next
  case (2 op ops s)
  obtain rc calls s' where "pair_step op s = (rc, calls, s')"
    by (cases "pair_step op s")
  then show ?case
    using 2 pair_step_open [of op s rc calls s'] pair_step_ok [of op s rc calls s' "pair_life ops s'"] by auto
qed

section \<open>Forking a process\<close>

record ProcessInfo =
  pi_pid :: int
  pi_name :: string
  pi_sock :: SocketPair
  pi_len :: int

text \<open>The name is copied with \<open>strcpy\<close> into 256 bytes.\<close>

definition ProcessInfo_new :: "string \<Rightarrow> int \<Rightarrow> SocketPair \<Rightarrow> int \<Rightarrow> ProcessInfo result" where
  "ProcessInfo_new name pid sock len =
    (if 256 \<le> length name then Inl OutOfBounds else Inr \<lparr>pi_pid = pid, pi_name = name, pi_sock = sock, pi_len = len\<rparr>)"

text \<open>What the system calls return: \<open>socketpair\<close> with its descriptors, \<open>fork\<close>, and whether \<open>signal\<close> returned the default
  handler; and the static member \<open>bInstallSigHandler\<close>.\<close>

record fork_env =
  fe_pair :: "int \<times> int \<times> int"
  fe_fork :: int
  fe_default :: bool
  fe_installed :: bool

text \<open>How \<open>CreateProcess\<close> ends: it returns a null pointer or a process, or it runs the function and exits with its result.\<close>

datatype created = NoProcess | Parent ProcessInfo | ChildExit int

definition CreateProcess ::
    "fork_env \<Rightarrow> string option \<Rightarrow> (int \<Rightarrow> SocketPair \<Rightarrow> int) option \<Rightarrow> int \<Rightarrow> (created \<times> fd_call list \<times> bool) result" where
  "CreateProcess env name func len =
    (case (name, func) of
       (Some name, Some func) \<Rightarrow>
         (case fe_pair env of (rc, a, b) \<Rightarrow>
          bindr (SocketPair_new rc a b) (\<lambda>sock.
            let pid = fe_fork env in
            if pid = -1 then Inr (NoProcess, [], fe_installed env)
            else
              case SocketPair_Init pid sock of (_, calls, sock) \<Rightarrow>
              if pid \<noteq> 0 then
                let installed = (if \<not> fe_installed env \<and> fe_default env then True else fe_installed env) in
                bindr (ProcessInfo_new name pid sock len) (\<lambda>info. Inr (Parent info, calls, installed))
              else Inr (ChildExit (func len sock), calls, fe_installed env)))
     | _ \<Rightarrow> Inr (NoProcess, [], fe_installed env))"

text \<open>After \<open>fork\<close> each side closes the descriptor the other side keeps.\<close>

lemma fork_sides:
  assumes "fe_pair env = (0, a, b)" and "length name < 256" and "0 < pid"
  shows "\<exists>info. CreateProcess (env\<lparr>fe_fork := pid\<rparr>) (Some name) (Some f) len = Inr (Parent info, [FdClose b], fe_installed env \<or> fe_default env) \<and>
      pi_pid info = pid \<and> pi_name info = name \<and> sk_owned_fd (pi_sock info) = a \<and> sk_status (pi_sock info) = eSocketPair_Inited"
    and "\<exists>sock. CreateProcess (env\<lparr>fe_fork := 0\<rparr>) (Some name) (Some f) len = Inr (ChildExit (f len sock), [FdClose a], fe_installed env) \<and>
      sk_owned_fd sock = b \<and> sk_status sock = eSocketPair_Inited"
proof -
  show "\<exists>info. CreateProcess (env\<lparr>fe_fork := pid\<rparr>) (Some name) (Some f) len = Inr (Parent info, [FdClose b], fe_installed env \<or> fe_default env) \<and>
      pi_pid info = pid \<and> pi_name info = name \<and> sk_owned_fd (pi_sock info) = a \<and> sk_status (pi_sock info) = eSocketPair_Inited"
    using assms by (simp add: CreateProcess_def SocketPair_new_def SocketPair_Init_def ProcessInfo_new_def Let_def)
  show "\<exists>sock. CreateProcess (env\<lparr>fe_fork := 0\<rparr>) (Some name) (Some f) len = Inr (ChildExit (f len sock), [FdClose a], fe_installed env) \<and>
      sk_owned_fd sock = b \<and> sk_status sock = eSocketPair_Inited"
    by (rule exI [of _ "\<lparr>sk_fd0 = a, sk_fd1 = b, sk_owned_fd = b, sk_status = eSocketPair_Inited\<rparr>"])
      (simp add: assms CreateProcess_def SocketPair_new_def SocketPair_Init_def Let_def)
qed

text \<open>When \<open>fork\<close> fails, the pair just made is lost with both its descriptors open.\<close>

lemma failed_fork_leaks:
  "fe_pair env = (0, a, b) \<Longrightarrow> fe_fork env = -1 \<Longrightarrow>
     \<exists>s. SocketPair_new 0 a b = Inr s \<and> open_fds s = {#a, b#} \<and> CreateProcess env (Some name) (Some f) len = Inr (NoProcess, [], fe_installed env)"
  by (simp add: CreateProcess_def SocketPair_new_def open_fds_def Let_def)

text \<open>Whatever is done with a socket pair, in any order and however often, between its constructor and its destructor, each of
  its two descriptors is closed exactly once, and nothing is closed, sent or received on a descriptor that was closed before.\<close>

theorem socketpair_closes_once:
  assumes "SocketPair_new rc a b = Inr s"
  shows "closed_fds (pair_life ops s) = {#a, b#} \<and> fds_ok {#a, b#} (pair_life ops s)"
proof -
  have "open_fds s = {#a, b#}"
    using assms by (auto simp: SocketPair_new_def open_fds_def split: if_splits)
  then show ?thesis
    using pair_life_closes [of ops s] by metis
qed

theorem socketpair_closes_once_witness:
  "\<exists>s. SocketPair_new 0 3 4 = Inr s \<and> fds_ok {#3, 4#} (pair_life [OpInit 0, OpSend 3 ''abc'', OpInit 5, OpClose, OpClose] s) \<and>
     pair_life [OpInit 0, OpSend 3 ''abc'', OpInit 5, OpClose, OpClose] s = [FdClose 3, FdSend 4 ''abc'', FdClose 4]"
proof (intro exI conjI)
  show "SocketPair_new 0 3 4 = Inr \<lparr>sk_fd0 = 3, sk_fd1 = 4, sk_owned_fd = -1, sk_status = eSocketPair_Loaded\<rparr>"
    by (simp add: SocketPair_new_def)
  from socketpair_closes_once [OF this]
  show "fds_ok {#3, 4#} (pair_life [OpInit 0, OpSend 3 ''abc'', OpInit 5, OpClose, OpClose]
      \<lparr>sk_fd0 = 3, sk_fd1 = 4, sk_owned_fd = -1, sk_status = eSocketPair_Loaded\<rparr>)" ..
qed (simp add: pair_step_def SocketPair_Init_def SocketPair_Send_def SocketPair_Close_def SocketPair_destruct_def)

end
