(* ===== verification/Http_Server.thy ===== *)
theory Http_Server
  imports Async_Tcp
begin

text \<open>
  \<open>httpserver.cpp\<close>: a handler of the TCP server that answers whatever it receives with one fixed page.  A read of the server
  leaves the bytes it got at the front of the server's buffer of 2048 characters; the handler prints the buffer up to the
  first zero character.
\<close>

record HttpServer =
  hs_mServer :: "AsyncTCPServer option"
  hs_mConnections :: "int set"

definition HttpServer_new :: HttpServer where
  "HttpServer_new = \<lparr>hs_mServer = None, hs_mConnections = {}\<rparr>"

text \<open>\<open>Start\<close>, on the junk of the new server's members and the results of the system calls of its \<open>Start\<close>.\<close>

definition HttpServer_Start :: "int \<Rightarrow> int \<Rightarrow> int \<Rightarrow> int \<Rightarrow> int \<Rightarrow> int \<Rightarrow> int \<Rightarrow> HttpServer \<Rightarrow> (int \<times> HttpServer) result" where
  "HttpServer_Start port junk epoll sock bnd lst thr h =
    bindr (AsyncTCPServer_Start None port epoll sock bnd lst thr (AsyncTCPServer_new junk)) (\<lambda>(rc, s). Inr (rc, h\<lparr>hs_mServer := Some s\<rparr>))"

definition http_onNewConnection :: "int \<Rightarrow> HttpServer \<Rightarrow> HttpServer" where
  "http_onNewConnection fd h =
    (if fd \<notin> hs_mConnections h then h\<lparr>hs_mConnections := insert fd (hs_mConnections h)\<rparr> else h)"

definition http_onDisconnect :: "int \<Rightarrow> HttpServer \<Rightarrow> HttpServer" where
  "http_onDisconnect fd h =
    (if fd \<in> hs_mConnections h then h\<lparr>hs_mConnections := hs_mConnections h - {fd}\<rparr> else h)"

definition CRLF :: string where
  "CRLF = [CHR 0x0D, CHR 0x0A]"

definition http_body :: string where
  "http_body =
    ''<?xml version='' @ [CHR 0x22] @ ''1.0'' @ [CHR 0x22] @ '' encoding='' @ [CHR 0x22] @ ''utf-8'' @ [CHR 0x22] @ ''?>'' @
    ''<!DOCTYPE html PUBLIC '' @ [CHR 0x22] @ ''-//W3C//DTD XHTML 1.0 Transitional//EN'' @ [CHR 0x22] @ '' '' @
      [CHR 0x22] @ ''http://www.w3.org/TR/xhtml1/DTD/xhtml1-transitional.dtd'' @ [CHR 0x22] @ ''>'' @
    ''<html xmlns='' @ [CHR 0x22] @ ''http://www.w3.org/1999/xhtml'' @ [CHR 0x22] @ ''>'' @
    ''<head>'' @
    ''<meta http-equiv='' @ [CHR 0x22] @ ''content-type'' @ [CHR 0x22] @ '' content='' @ [CHR 0x22] @ ''text/html;charset=utf-8'' @ [CHR 0x22] @ '' />'' @
    ''<title>Test Server</title>'' @
    ''</head>'' @
    ''<body bgcolor='' @ [CHR 0x22] @ ''#ffffff'' @ [CHR 0x22] @ ''>'' @
    ''<p>This is test Server</p>'' @
    ''</body>'' @
    ''</html>''"

definition http_reply :: "string \<Rightarrow> string" where
  "http_reply body =
    ''HTTP/1.0 200 OK'' @ CRLF @
    ''Mime-version: 1.0'' @ CRLF @
    ''Pragma: no-cache'' @ CRLF @
    ''Content-Length: '' @ nat_digits (length body) @ CRLF @
    ''Content-Type: text/html'' @ CRLF @
    CRLF @ body"

text \<open>The server's buffer after a read of \<open>data\<close>, and the text from its start, which ends at the first zero.\<close>

definition HTTP_MSGBUF :: nat where
  "HTTP_MSGBUF = 2048"

definition read_into :: "string \<Rightarrow> string \<Rightarrow> string" where
  "read_into data msgbuf = data @ drop (length data) msgbuf"

definition text_of_buffer :: "string \<Rightarrow> string result" where
  "text_of_buffer msgbuf = (if CHR 0x00 \<in> set msgbuf then Inr (c_string msgbuf) else Inl OutOfBounds)"

text \<open>\<open>onReadable\<close>: what it prints, and what it sends.\<close>

definition http_onReadable :: "int \<Rightarrow> string \<Rightarrow> HttpServer \<Rightarrow> (string list \<times> (int \<times> string) list) result" where
  "http_onReadable fd msgbuf h =
    bindr (text_of_buffer msgbuf) (\<lambda>received.
      let body = http_body;
          reply = http_reply body
      in Inr ([received, reply], [(fd, reply)]))"

definition http_onExcept :: "int \<Rightarrow> int \<Rightarrow> HttpServer \<Rightarrow> HttpServer" where
  "http_onExcept fd err h = h"

text \<open>The calls of a turn of the server's loop, with the buffer they share.\<close>

fun http_calls :: "tcp_call list \<Rightarrow> string \<Rightarrow> HttpServer \<Rightarrow> ((int \<times> string) list \<times> string \<times> HttpServer) result" where
  "http_calls [] msgbuf h = Inr ([], msgbuf, h)"
| "http_calls (NewConnection fd # cs) msgbuf h = http_calls cs msgbuf (http_onNewConnection fd h)"
| "http_calls (Disconnect fd # cs) msgbuf h = http_calls cs msgbuf (http_onDisconnect fd h)"
| "http_calls (Except fd err # cs) msgbuf h = http_calls cs msgbuf (http_onExcept fd err h)"
| "http_calls (Readable fd data # cs) msgbuf h =
     (let msgbuf = read_into data msgbuf in
      bindr (http_onReadable fd msgbuf h) (\<lambda>(printed, sent).
      bindr (http_calls cs msgbuf h) (\<lambda>(sent', msgbuf', h'). Inr (sent @ sent', msgbuf', h'))))"
| "http_calls (c # cs) msgbuf h = http_calls cs msgbuf h"

section \<open>The reply\<close>

text \<open>How a client of the protocol reads a reply: header lines up to an empty one, then as many characters as
  \<open>Content-Length\<close> says.\<close>

fun http_line :: "string \<Rightarrow> (string \<times> string) option" where
  "http_line (a # b # cs) =
     (if a = CHR 0x0D \<and> b = CHR 0x0A then Some ([], cs)
      else case http_line (b # cs) of None \<Rightarrow> None | Some (l, r) \<Rightarrow> Some (a # l, r))"
| "http_line _ = None"

lemma http_line_shorter: "http_line s = Some (l, r) \<Longrightarrow> length r < length s"
  by (induction s arbitrary: l rule: http_line.induct) (auto split: if_splits option.splits)

function http_head :: "string \<Rightarrow> (string list \<times> string) option" where
  "http_head s =
    (case http_line s of
       None \<Rightarrow> None
     | Some ([], r) \<Rightarrow> Some ([], r)
     | Some (l, r) \<Rightarrow> (case http_head r of None \<Rightarrow> None | Some (ls, body) \<Rightarrow> Some (l # ls, body)))"
  by pat_completeness auto
termination
  by (relation "measure length") (auto dest: http_line_shorter)

declare http_head.simps [simp del]

fun content_length :: "string list \<Rightarrow> nat option" where
  "content_length [] = None"
| "content_length (l # ls) =
     (if take 16 l = ''Content-Length: '' then Some (nat (fst (scan_digits 0 (drop 16 l)))) else content_length ls)"

definition http_parse :: "string \<Rightarrow> (string \<times> string) option" where
  "http_parse s =
    (case http_head s of
       Some (status # ls, rest) \<Rightarrow> (case content_length ls of Some n \<Rightarrow> if n \<le> length rest then Some (status, take n rest) else None | None \<Rightarrow> None)
     | _ \<Rightarrow> None)"

lemma http_line_CRLF: "CHR 0x0D \<notin> set l \<Longrightarrow> http_line (l @ CRLF @ r) = Some (l, r)"
proof (induction l)
  case Nil
  then show ?case by (simp add: CRLF_def)
next
  case (Cons a l)
  then show ?case
    by (cases l) (auto simp: CRLF_def)
qed

lemma http_head_line: "l \<noteq> [] \<Longrightarrow> CHR 0x0D \<notin> set l \<Longrightarrow> http_head (l @ CRLF @ r) = (case http_head r of None \<Rightarrow> None | Some (ls, body) \<Rightarrow> Some (l # ls, body))"
  by (subst http_head.simps) (auto simp: http_line_CRLF neq_Nil_conv simp del: append_Cons)

lemma http_head_end: "http_head (CRLF @ body) = Some ([], body)"
  using http_line_CRLF [of "[]" body] by (subst http_head.simps) simp

lemma digits_no_CR: "CHR 0x0D \<notin> set (nat_digits n)"
  using nat_digits_all_digits [of "CHR 0x0D" n] by (auto simp: is_digit_def)

lemma http_reply_parses:
  assumes "length body < 2 ^ 31"
  shows "http_parse (http_reply body) = Some (''HTTP/1.0 200 OK'', body)"
proof -
  have "http_head (http_reply body) =
      Some ([''HTTP/1.0 200 OK'', ''Mime-version: 1.0'', ''Pragma: no-cache'', ''Content-Length: '' @ nat_digits (length body), ''Content-Type: text/html''], body)"
    unfolding http_reply_def
    using http_head_line [of "''Content-Length: '' @ nat_digits (length body)"]
    by (simp add: http_head_line http_head_end digits_no_CR del: append_Cons)
  then show ?thesis
    using assms scan_nat_digits [of "length body"] by (simp add: http_parse_def)
qed

section \<open>The connections\<close>

text \<open>What the calls leave of the set: those connected and not disconnected since.\<close>

fun tracked :: "tcp_call list \<Rightarrow> int set \<Rightarrow> int set" where
  "tracked [] S = S"
| "tracked (NewConnection fd # cs) S = tracked cs (insert fd S)"
| "tracked (Disconnect fd # cs) S = tracked cs (S - {fd})"
| "tracked (c # cs) S = tracked cs S"

fun reads_of :: "tcp_call list \<Rightarrow> int list" where
  "reads_of [] = []"
| "reads_of (Readable fd data # cs) = fd # reads_of cs"
| "reads_of (c # cs) = reads_of cs"

text \<open>As long as every read leaves a zero in the buffer, a turn answers each of them by the page on the connection it came from.\<close>

fun reads_fit :: "tcp_call list \<Rightarrow> string \<Rightarrow> bool" where
  "reads_fit [] msgbuf = True"
| "reads_fit (Readable fd data # cs) msgbuf = (CHR 0x00 \<in> set (read_into data msgbuf) \<and> reads_fit cs (read_into data msgbuf))"
| "reads_fit (c # cs) msgbuf = reads_fit cs msgbuf"

theorem http_turn_answers:
  assumes "reads_fit cs msgbuf"
  shows "\<exists>msgbuf'. http_calls cs msgbuf h =
    Inr (map (\<lambda>fd. (fd, http_reply http_body)) (reads_of cs), msgbuf', h\<lparr>hs_mConnections := tracked cs (hs_mConnections h)\<rparr>)"
  using assms
proof (induction cs msgbuf h rule: http_calls.induct)
  case (2 fd cs msgbuf h)
  then show ?case
    by (simp add: http_onNewConnection_def insert_absorb split: if_splits)
next
  case (3 fd cs msgbuf h)
  then show ?case
    by (simp add: http_onDisconnect_def split: if_splits)
next
  case (5 fd data cs msgbuf h)
  then show ?case
    by (auto simp: http_onReadable_def text_of_buffer_def Let_def)
qed (simp_all add: http_onExcept_def)

text \<open>A read that fills the buffer leaves no zero in it: printing the request reads past the buffer.\<close>

lemma http_full_read:
  assumes "length data = HTTP_MSGBUF" and "length msgbuf = HTTP_MSGBUF" and "CHR 0x00 \<notin> set data"
  shows "http_calls (Readable fd data # cs) msgbuf h = Inl OutOfBounds"
  using assms by (simp add: read_into_def http_onReadable_def text_of_buffer_def Let_def)

text \<open>A short request is printed with the rest of a longer one before it.\<close>

lemma http_prints_stale:
  "http_onReadable 7 (read_into ''GET /b'' (read_into ''GET /aaaa'' (replicate HTTP_MSGBUF (CHR 0x00)))) h =
     Inr ([''GET /baaa'', http_reply http_body], [(7, http_reply http_body)])"
  by (simp add: http_onReadable_def text_of_buffer_def read_into_def HTTP_MSGBUF_def c_string_def Let_def)

text \<open>A connection whose read fails is closed by the server, and stays in the set.\<close>

lemma http_except_keeps: "fd \<in> hs_mConnections h \<Longrightarrow> fd \<in> hs_mConnections (http_onExcept fd err h)"
  by (simp add: http_onExcept_def)

end
