(* ===== verification/Sip_Ua.thy ===== *)
theory Sip_Ua
  imports Prelude
begin

text \<open>
  \<open>sipua.cpp\<close> and \<open>sipeventhandler.h\<close>: the front end to the pjsua library, which is not part of the repository.  What its
  functions return is an argument; the calls made on it are recorded.  A callback of the library is the name of its slot and
  a value for all its arguments, which every callback hands on unchanged.
\<close>

section \<open>Callbacks\<close>

datatype sip_callback =
    On_call_state | On_incoming_call | On_call_tsx_state | On_call_media_state | On_call_sdp_created | On_stream_created
    | On_stream_destroyed | On_dtmf_digit | On_call_transfer_request | On_call_transfer_request2
    | On_call_transfer_status | On_call_replace_request | On_call_replace_request2 | On_call_replaced | On_call_rx_offer
    | On_reg_started | On_reg_state | On_reg_state2 | On_incoming_subscribe | On_srv_subscribe_state | On_buddy_state
    | On_buddy_evsub_state | On_pager | On_pager2 | On_pager_status | On_pager_status2 | On_typing | On_typing2
    | On_nat_detect | On_call_redirected | On_mwi_state | On_mwi_info | On_transport_state
    | On_call_media_transport_state | On_ice_transport_error | On_snd_dev_operation | On_call_media_event
    | On_create_media_transport

text \<open>What a callback returns: nothing, a status, a redirection, or a media transport, here a null pointer.\<close>

datatype sip_return = Nothing | Status int | Redirect int | NullTransport

text \<open>The methods of \<open>SipEventHandler\<close>: empty, but for four.\<close>

definition default_handler :: "sip_callback \<Rightarrow> sip_return" where
  "default_handler c =
    (if c = On_call_redirected then Redirect 0
     else if c = On_call_media_transport_state \<or> c = On_snd_dev_operation then Status 0
     else if c = On_create_media_transport then NullTransport
     else Nothing)"

text \<open>The pointer \<open>m_handle\<close>; the constructor leaves it uninitialised.\<close>

datatype sip_handler = Uninitialised | DefaultHandler | UserHandler nat

section \<open>The user agent\<close>

record SipUA =
  ua_handle :: sip_handler
  ua_slots :: "sip_callback \<Rightarrow> sip_callback option"
  ua_port :: int
  ua_transport :: int
  ua_local_aid :: int

datatype pjsua_call =
    PjCreate | PjInit | PjTransportCreate int | PjAccAddLocal int | PjOnline int | PjStart | PjDestroy | PjError int

definition SipUA_new :: SipUA where
  "SipUA_new = \<lparr>ua_handle = Uninitialised, ua_slots = Map.empty, ua_port = 0, ua_transport = 0, ua_local_aid = 0\<rparr>"

text \<open>\<open>GetInstance\<close>, on the static pointer.\<close>

definition SipUA_GetInstance :: "SipUA option \<Rightarrow> SipUA" where
  "SipUA_GetInstance inst = (case inst of None \<Rightarrow> SipUA_new | Some ua \<Rightarrow> ua)"

text \<open>\<open>sys_var->ua_cfg.cb.on_x = on_x\<close>, in the order of \<open>Init\<close>.\<close>

definition callback_slots :: "sip_callback list" where
  "callback_slots =
  [On_call_state, On_incoming_call, On_call_tsx_state, On_call_media_state, On_call_sdp_created, On_stream_created,
   On_stream_destroyed, On_dtmf_digit, On_call_transfer_request, On_call_transfer_request2, On_call_transfer_status,
   On_call_replace_request, On_call_replace_request2, On_call_replaced, On_call_rx_offer, On_reg_started, On_reg_state,
   On_reg_state2, On_incoming_subscribe, On_srv_subscribe_state, On_buddy_state, On_buddy_evsub_state, On_pager,
   On_pager2, On_pager_status, On_pager_status2, On_typing, On_typing2, On_nat_detect, On_call_redirected,
   On_mwi_state, On_mwi_info, On_transport_state, On_call_media_transport_state, On_ice_transport_error,
   On_snd_dev_operation, On_call_media_event, On_create_media_transport]"

fun set_callbacks :: "sip_callback list \<Rightarrow> SipUA \<Rightarrow> SipUA" where
  "set_callbacks [] ua = ua"
| "set_callbacks (c # cs) ua = set_callbacks cs (ua\<lparr>ua_slots := (ua_slots ua)(c \<mapsto> c)\<rparr>)"

text \<open>What \<open>pjsua_create\<close>, \<open>pjsua_init\<close>, \<open>pjsua_transport_create\<close> return, the transport and the account they make.\<close>

record sip_env =
  sip_create :: int
  sip_init :: int
  sip_transport :: "int \<times> int"
  sip_account :: int

definition PJ_SUCCESS :: int where "PJ_SUCCESS = 0"

definition SipUA_Init :: "sip_env \<Rightarrow> nat option \<Rightarrow> SipUA \<Rightarrow> int \<times> pjsua_call list \<times> SipUA" where
  "SipUA_Init env handle ua =
    (let ua = (if handle = None then ua\<lparr>ua_handle := DefaultHandler\<rparr> else ua) in
     if sip_create env \<noteq> PJ_SUCCESS then (sip_create env, [PjCreate, PjError (sip_create env)], ua)
     else
       let ua = set_callbacks callback_slots (ua\<lparr>ua_slots := Map.empty\<rparr>) in
       if sip_init env \<noteq> PJ_SUCCESS then (sip_init env, [PjCreate, PjInit, PjError (sip_init env)], ua)
       else
         let ua = ua\<lparr>ua_port := 5060\<rparr> in
         if fst (sip_transport env) \<noteq> PJ_SUCCESS then (-1, [PjCreate, PjInit, PjTransportCreate (ua_port ua)], ua)
         else
           let ua = ua\<lparr>ua_transport := snd (sip_transport env), ua_local_aid := sip_account env\<rparr> in
           (0, [PjCreate, PjInit, PjTransportCreate (ua_port ua), PjAccAddLocal (ua_transport ua), PjOnline (ua_local_aid ua)], ua))"

definition SipUA_Start :: "int \<Rightarrow> SipUA \<Rightarrow> int \<times> pjsua_call list" where
  "SipUA_Start status ua = (if status \<noteq> PJ_SUCCESS then (status, [PjStart, PjDestroy, PjError status]) else (0, [PjStart]))"

definition SipUA_Stop :: "SipUA \<Rightarrow> int \<times> pjsua_call list" where
  "SipUA_Stop ua = (0, [PjDestroy])"

text \<open>The body of each callback: the method of the same name of the instance's handler, with the same arguments.\<close>

definition sip_forward :: "(nat \<Rightarrow> sip_callback \<Rightarrow> 'a \<Rightarrow> sip_return) \<Rightarrow> SipUA option \<Rightarrow> sip_callback \<Rightarrow> 'a \<Rightarrow> sip_return result" where
  "sip_forward users inst c args =
    (case ua_handle (SipUA_GetInstance inst) of
       Uninitialised \<Rightarrow> Inl Unspecified
     | DefaultHandler \<Rightarrow> Inr (default_handler c)
     | UserHandler h \<Rightarrow> Inr (users h c args))"

text \<open>An event of the library: the function in its slot, if there is one.\<close>

definition sip_event :: "(nat \<Rightarrow> sip_callback \<Rightarrow> 'a \<Rightarrow> sip_return) \<Rightarrow> SipUA \<Rightarrow> sip_callback \<Rightarrow> 'a \<Rightarrow> sip_return result option" where
  "sip_event users ua c args = map_option (\<lambda>f. sip_forward users (Some ua) f args) (ua_slots ua c)"

section \<open>What Init sets up\<close>

lemma set_callbacks_slots:
  "ua_slots (set_callbacks cs ua) c = (if c \<in> set cs then Some c else ua_slots ua c)"
  "ua_handle (set_callbacks cs ua) = ua_handle ua"
  by (induction cs arbitrary: ua) auto

lemma all_callbacks: "c \<in> set callback_slots"
  by (cases c) (simp_all add: callback_slots_def)

text \<open>After a successful \<open>Init\<close> every event of the library reaches the method of its own name: of the default handler, when
  none was given; a handler that is given is dropped, and every event goes through the pointer the constructor left
  uninitialised.\<close>

theorem Init_dispatches:
  assumes "SipUA_Init env handle SipUA_new = (0, calls, ua)" and "sip_create env = PJ_SUCCESS" and "sip_init env = PJ_SUCCESS"
  shows "sip_event users ua c args = Some (if handle = None then Inr (default_handler c) else Inl Unspecified) \<and>
    calls = [PjCreate, PjInit, PjTransportCreate 5060, PjAccAddLocal (snd (sip_transport env)), PjOnline (sip_account env)]"
  using assms
  by (auto simp: SipUA_Init_def sip_event_def sip_forward_def SipUA_GetInstance_def SipUA_new_def set_callbacks_slots all_callbacks Let_def
      split: if_splits)

text \<open>The first call that fails decides what \<open>Init\<close> returns, and nothing is called after it but the report.\<close>

lemma Init_fails:
  "sip_create env \<noteq> 0 \<Longrightarrow> \<exists>ua'. SipUA_Init env h ua = (sip_create env, [PjCreate, PjError (sip_create env)], ua')"
  "sip_create env = 0 \<Longrightarrow> sip_init env \<noteq> 0 \<Longrightarrow> \<exists>ua'. SipUA_Init env h ua = (sip_init env, [PjCreate, PjInit, PjError (sip_init env)], ua')"
  "sip_create env = 0 \<Longrightarrow> sip_init env = 0 \<Longrightarrow> fst (sip_transport env) \<noteq> 0 \<Longrightarrow>
     \<exists>ua'. SipUA_Init env h ua = (-1, [PjCreate, PjInit, PjTransportCreate 5060], ua')"
  by (simp_all add: SipUA_Init_def PJ_SUCCESS_def Let_def)

end
