(* ===== verification/Time_Util.thy ===== *)
theory Time_Util
  imports Prelude "HOL-Library.Signed_Division"
begin

text \<open>
  \<open>timeutil.cpp\<close>: the conversion between seconds since 1970 and a date.  A \<open>long\<close> has 64 bits, the members of a date
  and the result of \<open>TimeToSec\<close> have 32.  The code counts in cycles of four years, of which the third is a leap year.
\<close>

section \<open>The code\<close>

record time_parts =
  tp_year :: int
  tp_month :: int
  tp_day :: int
  tp_hour :: int
  tp_minute :: int
  tp_second :: int
  tp_msec :: int
  tp_usec :: int

definition SEC_PER_DAY :: int where "SEC_PER_DAY = 86400"
definition SEC_PER_HOUR :: int where "SEC_PER_HOUR = 3600"
definition DAY_PER_4YEAR :: int where "DAY_PER_4YEAR = 1461"

definition day_in_leapyear :: "int list" where
  "day_in_leapyear = [0, 31, 60, 91, 121, 152, 182, 213, 244, 274, 305, 335, 366]"

definition day_in_commonyear :: "int list" where
  "day_in_commonyear = [0, 31, 59, 90, 120, 151, 181, 212, 243, 273, 304, 334, 365]"

definition day_in_4year :: "int list" where
  "day_in_4year = [0, 365, 730, 1096, 1461]"

text \<open>Members that the initialiser does not name are zero.\<close>

definition timebase :: time_parts where
  "timebase = \<lparr>tp_year = 1970, tp_month = 1, tp_day = 1, tp_hour = 0, tp_minute = 0, tp_second = 0, tp_msec = 0, tp_usec = 0\<rparr>"

text \<open>\<open>for(i=0;i<n;i++) if(t >= tab[i] && t < tab[i+1]) break;\<close>\<close>

fun table_slot :: "int list \<Rightarrow> int \<Rightarrow> nat \<Rightarrow> nat \<Rightarrow> nat" where
  "table_slot tab t i 0 = i"
| "table_slot tab t i (Suc n) = (if tab ! i \<le> t \<and> t < tab ! Suc i then i else table_slot tab t (Suc i) n)"

definition SecToTime :: "int \<Rightarrow> time_parts \<Rightarrow> int \<times> time_parts" where
  "SecToTime n_Sec p =
    (if n_Sec < 0 then (0, p)
     else
       let p = timebase;
           t = n_Sec mod SEC_PER_DAY;
           p = p\<lparr>tp_hour := t div SEC_PER_HOUR\<rparr>;
           t = t mod SEC_PER_HOUR;
           p = p\<lparr>tp_minute := t div 60, tp_second := t mod 60\<rparr>;
           t = n_Sec div SEC_PER_DAY;
           p = p\<lparr>tp_year := wrap32 (tp_year p + 4 * (t div DAY_PER_4YEAR))\<rparr>;
           t = t mod DAY_PER_4YEAR;
           i = table_slot day_in_4year t 0 4;
           p = p\<lparr>tp_year := wrap32 (tp_year p + int i)\<rparr>;
           day_in_year = (if i = 2 then day_in_leapyear else day_in_commonyear);
           t = t - day_in_4year ! i;
           i = table_slot day_in_year t 0 12;
           p = p\<lparr>tp_month := tp_month p + int i\<rparr>;
           t = t - day_in_year ! i
       in (1, p\<lparr>tp_day := tp_day p + t\<rparr>))"

text \<open>The index of a table, as the code uses it.\<close>

definition table_at :: "int list \<Rightarrow> int \<Rightarrow> int result" where
  "table_at tab i = (if i < 0 \<or> int (length tab) \<le> i then Inl OutOfBounds else Inr (tab ! nat i))"

definition TimeToSec :: "time_parts \<Rightarrow> int result" where
  "TimeToSec p =
    (let day_in_year = (if tp_year p smod 4 = 0 then day_in_leapyear else day_in_commonyear);
         t = tp_year p - tp_year timebase
     in bindr (table_at day_in_year (tp_month p - tp_month timebase)) (\<lambda>days.
        bindr (table_at day_in_4year (t smod 4)) (\<lambda>ydays.
          Inr (wrap32 (days * SEC_PER_DAY + (tp_day p - tp_day timebase) * SEC_PER_DAY + (tp_hour p - tp_hour timebase) * SEC_PER_HOUR +
            (tp_minute p - tp_minute timebase) * 60 + (tp_second p - tp_second timebase) +
            t sdiv 4 * day_in_4year ! 4 * SEC_PER_DAY + ydays * SEC_PER_DAY)))))"

text \<open>\<open>SysTime\<close>: \<open>Update\<close> fills in the fraction of the second before it calls \<open>SecToTime\<close>, which resets it.\<close>

record SysTime =
  st_sec :: int
  st_usec :: int
  st_utc :: time_parts

definition SysTime_new :: "time_parts \<Rightarrow> SysTime" where
  "SysTime_new junk = \<lparr>st_sec = 0, st_usec = 0, st_utc = junk\<rparr>"

definition SysTime_Update :: "int \<Rightarrow> int \<Rightarrow> SysTime \<Rightarrow> SysTime" where
  "SysTime_Update sec usec s =
    (let s = s\<lparr>st_sec := sec, st_usec := usec\<rparr>;
         utc = (st_utc s)\<lparr>tp_msec := st_usec s div 1000, tp_usec := st_usec s mod 1000\<rparr>
     in s\<lparr>st_utc := snd (SecToTime (st_sec s) utc)\<rparr>)"

section \<open>The tables\<close>

lemma table_slot_found:
  "tab ! i \<le> t \<Longrightarrow> t < tab ! (i + n) \<Longrightarrow> table_slot tab t i n < i + n \<and> i \<le> table_slot tab t i n \<and>
     tab ! table_slot tab t i n \<le> t \<and> t < tab ! Suc (table_slot tab t i n)"
proof (induction n arbitrary: i)
  case (Suc n)
  show ?case
  proof (cases "t < tab ! Suc i")
    case True
    with Suc.prems show ?thesis
      by simp
  next
    case False
    with Suc.prems Suc.IH [of "Suc i"] show ?thesis
      by auto
  qed
qed simp

lemma four_years:
  assumes "0 \<le> t" and "t < 1461"
  obtains i where "table_slot day_in_4year t 0 4 = i" and "i < 4" and "day_in_4year ! i \<le> t" and "t < day_in_4year ! Suc i"
  using table_slot_found [of day_in_4year 0 t 4] assms by (simp add: day_in_4year_def)

lemma months:
  assumes "0 \<le> t" and "t < (if leap then 366 else 365)" and "tab = (if leap then day_in_leapyear else day_in_commonyear)"
  obtains k where "table_slot tab t 0 12 = k" and "k < 12" and "tab ! k \<le> t" and "t < tab ! Suc k"
  using table_slot_found [of tab 0 t 12] assms by (auto simp: day_in_leapyear_def day_in_commonyear_def split: if_splits)

lemma year_days: "i < 4 \<Longrightarrow> day_in_4year ! Suc i - day_in_4year ! i = (if i = 2 then 366 else 365)"
  by (auto simp: day_in_4year_def less_Suc_eq numeral_eq_Suc)

lemma table_lengths: "length day_in_leapyear = 13" "length day_in_commonyear = 13" "length day_in_4year = 5"
  by (simp_all add: day_in_leapyear_def day_in_commonyear_def day_in_4year_def)

text \<open>What \<open>SecToTime\<close> gives, by the position of the day in its cycle, its year and its month.\<close>

lemma SecToTime_parts:
  assumes "0 \<le> n" and "n < 2 ^ 55"
  obtains q i t k tab where "n div SEC_PER_DAY = 1461 * q + day_in_4year ! i + t" and "0 \<le> q" and "i < 4" and "0 \<le> t"
    and "t < (if i = 2 then 366 else 365)" and "tab = (if i = 2 then day_in_leapyear else day_in_commonyear)"
    and "k < 12" and "tab ! k \<le> t" and "t < tab ! Suc k"
    and "SecToTime n p = (1, \<lparr>tp_year = 1970 + 4 * q + int i, tp_month = 1 + int k, tp_day = 1 + (t - tab ! k),
      tp_hour = n mod SEC_PER_DAY div 3600, tp_minute = n mod SEC_PER_DAY mod 3600 div 60, tp_second = n mod SEC_PER_DAY mod 3600 mod 60,
      tp_msec = 0, tp_usec = 0\<rparr>)"
proof -
  define d where "d = n div SEC_PER_DAY"
  define q where "q = d div 1461"
  have d: "0 \<le> d" "d = 1461 * q + d mod 1461" "0 \<le> q"
    using assms by (simp_all add: d_def q_def SEC_PER_DAY_def)
  have "d * 86400 \<le> n"
    unfolding d_def SEC_PER_DAY_def by linarith
  then have small: "q * 126230400 < 2 ^ 55"
    using assms(2) d(2) pos_mod_sign [of 1461 d] by linarith
  have "0 \<le> d mod 1461" "d mod 1461 < 1461"
    by simp_all
  then obtain i where i: "table_slot day_in_4year (d mod 1461) 0 4 = i" "i < 4" "day_in_4year ! i \<le> d mod 1461" "d mod 1461 < day_in_4year ! Suc i"
    by (rule four_years)
  define t where "t = d mod 1461 - day_in_4year ! i"
  have t: "0 \<le> t" "t < (if i = 2 then 366 else 365)"
    using i year_days [OF i(2)] by (simp_all add: t_def)
  define tab where "tab = (if i = 2 then day_in_leapyear else day_in_commonyear)"
  obtain k where k: "table_slot tab t 0 12 = k" "k < 12" "tab ! k \<le> t" "t < tab ! Suc k"
    using months [OF t tab_def] .
  have "is_int32 (1970 + 4 * q)" "is_int32 (1970 + 4 * q + int i)"
    using small d(3) i(2) by (simp_all add: is_int32_def)
  then have "SecToTime n p = (1, \<lparr>tp_year = 1970 + 4 * q + int i, tp_month = 1 + int k, tp_day = 1 + (t - tab ! k),
      tp_hour = n mod SEC_PER_DAY div 3600, tp_minute = n mod SEC_PER_DAY mod 3600 div 60, tp_second = n mod SEC_PER_DAY mod 3600 mod 60,
      tp_msec = 0, tp_usec = 0\<rparr>)"
    using assms(1) by (simp add: SecToTime_def Let_def timebase_def SEC_PER_HOUR_def DAY_PER_4YEAR_def d_def [symmetric] q_def [symmetric] i(1)
        t_def [symmetric] tab_def [symmetric] k(1))
  then show thesis
    using that [of q i t tab k] d i(2) t tab_def k by (simp add: t_def d_def)
qed

section \<open>The Gregorian calendar\<close>

definition gregorian_leap :: "int \<Rightarrow> bool" where
  "gregorian_leap y \<longleftrightarrow> y mod 4 = 0 \<and> (y mod 100 \<noteq> 0 \<or> y mod 400 = 0)"

definition month_length :: "int \<Rightarrow> int \<Rightarrow> int" where
  "month_length y m = [31, if gregorian_leap y then 29 else 28, 31, 30, 31, 30, 31, 31, 30, 31, 30, 31] ! nat (m - 1)"

definition next_date :: "int \<times> int \<times> int \<Rightarrow> int \<times> int \<times> int" where
  "next_date = (\<lambda>(y, m, d). if d < month_length y m then (y, m, d + 1) else if m < 12 then (y, m + 1, 1) else (y + 1, 1, 1))"

definition calendar_date :: "nat \<Rightarrow> int \<times> int \<times> int" where
  "calendar_date n = (next_date ^^ n) (1970, 1, 1)"

definition date_part :: "time_parts \<Rightarrow> int \<times> int \<times> int" where
  "date_part p = (tp_year p, tp_month p, tp_day p)"

definition code_date :: "int \<Rightarrow> int \<times> int \<times> int" where
  "code_date d = date_part (snd (SecToTime (86400 * d) timebase))"

abbreviation (input) year_table :: "nat \<Rightarrow> int list" where
  "year_table i \<equiv> if i = 2 then day_in_leapyear else day_in_commonyear"

lemma table_slot_is:
  "\<forall>j. i \<le> j \<longrightarrow> j < k \<longrightarrow> tab ! Suc j \<le> t \<Longrightarrow> tab ! k \<le> t \<Longrightarrow> t < tab ! Suc k \<Longrightarrow> i \<le> k \<Longrightarrow> k < i + n \<Longrightarrow> table_slot tab t i n = k"
proof (induction n arbitrary: i)
  case (Suc n)
  show ?case
  proof (cases "i = k")
    case True
    with Suc.prems show ?thesis
      by simp
  next
    case False
    with Suc.prems have "\<not> t < tab ! Suc i"
      by (simp add: not_less)
    with Suc False show ?thesis
      by simp
  qed
qed simp

lemma table_slot_sorted:
  assumes "sorted tab" and "tab ! k \<le> t" and "t < tab ! Suc k" and "k < n" and "k < length tab"
  shows "table_slot tab t 0 n = k"
proof (rule table_slot_is)
  show "\<forall>j. 0 \<le> j \<longrightarrow> j < k \<longrightarrow> tab ! Suc j \<le> t"
  proof (intro allI impI)
    fix j
    assume "j < k"
    then have "tab ! Suc j \<le> tab ! k"
      using assms(5) by (intro sorted_nth_mono [OF assms(1)]) simp_all
    with assms(2) show "tab ! Suc j \<le> t"
      by simp
  qed
qed (use assms in simp_all)

lemma tables_sorted: "sorted day_in_4year" "sorted day_in_leapyear" "sorted day_in_commonyear"
  by (simp_all add: day_in_4year_def day_in_leapyear_def day_in_commonyear_def)

lemma code_date_at:
  assumes "0 \<le> q" and "q < 1000" and "i < 4" and "0 \<le> t" and "t < (if i = 2 then 366 else 365)"
    and "k < 12" and "year_table i ! k \<le> t" and "t < year_table i ! Suc k"
  shows "code_date (1461 * q + day_in_4year ! i + t) = (1970 + 4 * q + int i, 1 + int k, 1 + (t - year_table i ! k))"
proof -
  let ?d = "1461 * q + day_in_4year ! i + t"
  have y: "0 \<le> day_in_4year ! i" "day_in_4year ! i + t < day_in_4year ! Suc i" "day_in_4year ! Suc i \<le> 1461"
    using year_days [OF assms(3)] assms(3,5) by (auto simp: day_in_4year_def less_Suc_eq numeral_eq_Suc)
  then have dm: "?d mod 1461 = day_in_4year ! i + t" "?d div 1461 = q"
    using assms(4) by (simp_all add: div_pos_pos_trivial mod_pos_pos_trivial add.assoc)
  have i: "table_slot day_in_4year (day_in_4year ! i + t) 0 4 = i"
    using y assms(3,4) by (intro table_slot_sorted tables_sorted) (simp_all add: table_lengths)
  have k: "table_slot (year_table i) t 0 12 = k"
    using assms(6-8) by (intro table_slot_sorted) (auto simp: table_lengths tables_sorted)
  have "is_int32 (1970 + 4 * q)" "is_int32 (1970 + 4 * q + int i)" "0 \<le> ?d"
    using assms(1-4) y(1) by (simp_all add: is_int32_def)
  then show ?thesis
    using k by (simp add: code_date_def date_part_def SecToTime_def Let_def timebase_def SEC_PER_DAY_def DAY_PER_4YEAR_def dm i)
qed

lemma date_zero: "code_date 0 = (1970, 1, 1)"
  using code_date_at [of 0 0 0 0] by (simp add: day_in_4year_def day_in_commonyear_def)

lemma leap_third:
  assumes "0 \<le> q" and "q < 32 \<or> q = 32 \<and> i \<noteq> 2" and "i < 4"
  shows "gregorian_leap (1970 + 4 * q + int i) \<longleftrightarrow> i = 2"
proof (cases "i = 2")
  case True
  with assms(1,2) have "(1972 + 4 * q) mod 100 \<noteq> 0 \<or> 1972 + 4 * q = 2000"
    by presburger
  with True show ?thesis
    unfolding gregorian_leap_def by simp presburger
next
  case False
  have "(1970 + 4 * q + int i) mod 4 = (2 + int i) mod 4"
    by presburger
  also have "\<dots> \<noteq> 0"
    using False assms(3) by presburger
  finally show ?thesis
    using False by (simp add: gregorian_leap_def)
qed

lemma month_length_table:
  assumes "gregorian_leap y \<longleftrightarrow> i = 2" and "k < 12"
  shows "month_length y (1 + int k) = year_table i ! Suc k - year_table i ! k"
  using assms by (auto simp: month_length_def day_in_leapyear_def day_in_commonyear_def less_Suc_eq numeral_eq_Suc)

lemma day_position:
  assumes "0 \<le> d" and "d < 100000"
  obtains q i t k where "d = 1461 * q + day_in_4year ! i + t" and "0 \<le> q" and "i < 4" and "0 \<le> t"
    and "t < (if i = 2 then 366 else 365)" and "k < 12" and "year_table i ! k \<le> t" and "t < year_table i ! Suc k"
  using assms by (rule_tac n = "86400 * d" and p = timebase in SecToTime_parts) (simp_all add: SEC_PER_DAY_def)

text \<open>The next day, wherever in the tables the day is.\<close>

lemma code_date_next:
  assumes "0 \<le> d" and "d < 47540"
  shows "code_date (d + 1) = next_date (code_date d)"
proof -
  from assms have "d < 100000"
    by simp
  with assms(1) obtain q i t k where d: "d = 1461 * q + day_in_4year ! i + t" "0 \<le> q" "i < 4" "0 \<le> t"
    "t < (if i = 2 then 366 else 365)" "k < 12" "year_table i ! k \<le> t" "t < year_table i ! Suc k"
    by (rule day_position)
  have y4: "0 \<le> day_in_4year ! i"
    using d(3) by (auto simp: day_in_4year_def less_Suc_eq numeral_eq_Suc)
  with d(1,4) assms(2) have q: "q < 33"
    by linarith
  then have here: "code_date d = (1970 + 4 * q + int i, 1 + int k, 1 + (t - year_table i ! k))"
    unfolding d(1) using d(2-8) by (intro code_date_at) simp_all
  have same: "code_date (d + 1) = (1970 + 4 * q + int i, 1 + int j, 1 + (t + 1 - year_table i ! j))"
    if "t + 1 < (if i = 2 then 366 else 365)" "j < 12" "year_table i ! j \<le> t + 1" "t + 1 < year_table i ! Suc j" for j
    using code_date_at [of q i "t + 1" j] that d(1-4) q by (simp add: add.assoc)
  have ends: "year_table i ! 12 = (if i = 2 then 366 else 365)" "year_table i ! 0 = 0" "0 < year_table i ! 1"
    by (simp_all add: day_in_leapyear_def day_in_commonyear_def)
  show ?thesis
  proof (cases "q = 32 \<and> i = 2")
    case True
    with d(1) assms(2) have "t < 58"
      by (simp add: day_in_4year_def)
    moreover from this d(6,7) True have "k = 0 \<or> k = 1"
      by (auto simp: day_in_leapyear_def less_Suc_eq numeral_eq_Suc)
    ultimately show ?thesis
      using here same [of k] same [of 1] d(4,7,8) True
      by (auto simp: next_date_def month_length_def gregorian_leap_def day_in_leapyear_def)
  next
    case False
    then have leap: "gregorian_leap (1970 + 4 * q + int i) \<longleftrightarrow> i = 2"
      using d(2,3) q by (intro leap_third) auto
    note len = month_length_table [OF leap d(6)]
    show ?thesis
    proof (cases "t + 1 < year_table i ! Suc k")
      case True
      then have "t + 1 < (if i = 2 then 366 else 365)"
        using d(6) ends sorted_nth_mono [of "year_table i" "Suc k" 12] by (auto simp: tables_sorted table_lengths)
      with True d(6,7) here same [of k] len show ?thesis
        by (simp add: next_date_def)
    next
      case last_day: False
      then have t: "t + 1 = year_table i ! Suc k"
        using d(8) by simp
      show ?thesis
      proof (cases "k < 11")
        case True
        have "year_table i ! Suc k < year_table i ! Suc (Suc k)" "year_table i ! Suc (Suc k) \<le> year_table i ! 12"
          using True by (auto simp: day_in_leapyear_def day_in_commonyear_def less_Suc_eq numeral_eq_Suc)
        with True t ends(1) same [of "Suc k"] here len show ?thesis
          by (simp add: next_date_def)
      next
        case False
        with d(6) have k: "k = 11"
          by simp
        with t ends(1) have t': "t + 1 = (if i = 2 then 366 else 365)"
          by (simp add: numeral_eq_Suc)
        have "code_date (d + 1) = (1970 + 4 * q + int i + 1, 1, 1)"
        proof (cases "i < 3")
          case True
          then have "d + 1 = 1461 * q + day_in_4year ! Suc i + 0"
            using d(1) t' year_days [OF d(3)] by simp
          with True q d(2) code_date_at [of q "Suc i" 0 0] ends show ?thesis
            by (auto simp: day_in_leapyear_def day_in_commonyear_def)
        next
          case False
          with d(3) have "i = 3"
            by simp
          with d(1) t' have "d + 1 = 1461 * (q + 1) + day_in_4year ! 0 + 0"
            by (simp add: day_in_4year_def)
          with q d(2) code_date_at [of "q + 1" 0 0 0] \<open>i = 3\<close> show ?thesis
            by (simp add: day_in_commonyear_def day_in_4year_def algebra_simps)
        qed
        then show ?thesis
          using here len k t by (simp add: next_date_def)
      qed
    qed
  qed
qed

lemma calendar_Suc: "calendar_date (Suc n) = next_date (calendar_date n)"
  by (simp add: calendar_date_def)

lemma code_date_calendar: "n \<le> 47540 \<Longrightarrow> code_date (int n) = calendar_date n"
proof (induction n)
  case 0
  then show ?case
    by (simp add: date_zero calendar_date_def)
next
  case (Suc n)
  then have "code_date (int n + 1) = next_date (calendar_date n)"
    using code_date_next [of "int n"] by simp
  then show ?case
    by (simp add: calendar_Suc add.commute)
qed

section \<open>Claims\<close>

lemma signed_nonneg: "0 \<le> a \<Longrightarrow> a sdiv 4 = a div (4 :: int)" "0 \<le> a \<Longrightarrow> a smod 4 = a mod (4 :: int)"
  by (cases "a = 0"; simp add: signed_divide_int_def signed_modulo_int_def sgn_if)+

text \<open>The conversions are inverse to each other: for every number of seconds from 1970 to January 2038, \<open>TimeToSec\<close> gives
  back the number that \<open>SecToTime\<close> has taken apart.\<close>

theorem time_roundtrip:
  assumes "0 \<le> n" and "n < 2 ^ 31"
  shows "fst (SecToTime n p) = 1 \<and> TimeToSec (snd (SecToTime n p)) = Inr n"
proof -
  have "n < 2 ^ 55"
    using assms(2) by simp
  with assms(1) obtain q i t k tab where d: "n div SEC_PER_DAY = 1461 * q + day_in_4year ! i + t" "0 \<le> q" "i < 4" "0 \<le> t"
      "tab = (if i = 2 then day_in_leapyear else day_in_commonyear)" "k < 12"
    and p: "SecToTime n p = (1, \<lparr>tp_year = 1970 + 4 * q + int i, tp_month = 1 + int k, tp_day = 1 + (t - tab ! k),
      tp_hour = n mod SEC_PER_DAY div 3600, tp_minute = n mod SEC_PER_DAY mod 3600 div 60, tp_second = n mod SEC_PER_DAY mod 3600 mod 60,
      tp_msec = 0, tp_usec = 0\<rparr>)"
    by (rule SecToTime_parts [of n p]) blast
  have q: "(4 * q + int i) sdiv 4 = q" "(4 * q + int i) smod 4 = int i"
    using d(2,3) by (simp_all add: signed_nonneg)
  have "(1970 + 4 * q + int i) smod 4 = 0 \<longleftrightarrow> i = 2"
  proof -
    have "(1970 + 4 * q + int i) smod 4 = (1970 + 4 * q + int i) mod 4"
      using d(2) by (simp add: signed_nonneg)
    also have "\<dots> = (2 + int i) mod 4"
      by presburger
    finally show ?thesis
      using d(3) by presburger
  qed
  then have tab: "(if (1970 + 4 * q + int i) smod 4 = 0 then day_in_leapyear else day_in_commonyear) = tab"
    by (simp add: d(5))
  have at: "table_at tab (int k) = Inr (tab ! k)" "table_at day_in_4year (int i) = Inr (day_in_4year ! i)"
    using d(3,5,6) by (auto simp: table_at_def table_lengths)
  have "n = 86400 * (1461 * q + day_in_4year ! i + t) + n mod SEC_PER_DAY"
    unfolding d(1) [symmetric] SEC_PER_DAY_def by simp
  moreover have "n mod SEC_PER_DAY = 3600 * (n mod SEC_PER_DAY div 3600) + 60 * (n mod SEC_PER_DAY mod 3600 div 60) + n mod SEC_PER_DAY mod 3600 mod 60"
    by simp
  moreover have "day_in_4year ! 4 = 1461"
    by (simp add: day_in_4year_def)
  ultimately have "tab ! k * 86400 + (t - tab ! k) * 86400 + n mod SEC_PER_DAY div 3600 * 3600 + n mod SEC_PER_DAY mod 3600 div 60 * 60 +
      n mod SEC_PER_DAY mod 3600 mod 60 + q * day_in_4year ! 4 * 86400 + day_in_4year ! i * 86400 = n"
    by (simp add: algebra_simps)
  moreover have "is_int32 n"
    using assms by (simp add: is_int32_def)
  ultimately show ?thesis
    by (simp add: p TimeToSec_def tab timebase_def at Let_def q SEC_PER_DAY_def [symmetric] SEC_PER_HOUR_def)
qed

theorem time_roundtrip_witness: "TimeToSec (snd (SecToTime 951782400 timebase)) = Inr 951782400"
  using time_roundtrip [of 951782400 timebase] by simp

lemma day_parts:
  fixes m :: int
  assumes "0 \<le> m" and "m < 86400"
  shows "0 \<le> m div 3600 \<and> m div 3600 < 24 \<and> 0 \<le> m mod 3600 div 60 \<and> m mod 3600 div 60 < 60 \<and>
    0 \<le> m mod 3600 mod 60 \<and> m mod 3600 mod 60 < 60 \<and> m div 3600 * 3600 + m mod 3600 div 60 * 60 + m mod 3600 mod 60 = m"
proof -
  obtain h r where hr: "m div 3600 = h" "m mod 3600 = r"
    by simp
  then have m: "m = h * 3600 + r" "0 \<le> r" "r < 3600"
    by auto
  obtain i s where i_s: "r div 60 = i" "r mod 60 = s"
    by simp
  then have "r = i * 60 + s" "0 \<le> s" "s < 60"
    by auto
  moreover from this have "0 \<le> i" "i < 60" "0 \<le> h" "h < 24"
    using assms m by linarith+
  ultimately show ?thesis
    unfolding hr i_s using m(1) by simp
qed

text \<open>C37. Up to 28 February 2100 the date that \<open>SecToTime\<close> gives is the date of the Gregorian calendar, day by day from 1 January
  1970, with the time of the day; the day after is 29 February 2100 for the code, a date that the calendar does not have.\<close>

theorem SecToTime_calendar:
  assumes "0 \<le> n" and "n < 4107542400"
  shows "date_part (snd (SecToTime n p)) = calendar_date (nat (n div 86400)) \<and>
    (\<exists>q. snd (SecToTime n p) = q \<and> 0 \<le> tp_hour q \<and> tp_hour q < 24 \<and> 0 \<le> tp_minute q \<and> tp_minute q < 60 \<and> 0 \<le> tp_second q \<and> tp_second q < 60 \<and>
      tp_hour q * 3600 + tp_minute q * 60 + tp_second q = n mod 86400) \<and>
    date_part (snd (SecToTime 4107542400 p)) = (2100, 2, 29) \<and> calendar_date 47541 = (2100, 3, 1)"
proof -
  have same_day: "date_part (snd (SecToTime m p)) = code_date (m div 86400)" if "0 \<le> m" for m
  proof -
    have "\<not> m div 86400 < 0"
      using that by (simp add: pos_imp_zdiv_neg_iff)
    then show ?thesis
      using that by (simp add: code_date_def date_part_def SecToTime_def Let_def SEC_PER_DAY_def)
  qed
  have "calendar_date 47540 = (2100, 2, 28)"
    using code_date_calendar [of 47540] code_date_at [of 32 2 58 1]
    by (simp add: day_in_4year_def day_in_leapyear_def)
  then have "calendar_date (Suc 47540) = (2100, 3, 1)"
    unfolding calendar_Suc by (simp add: next_date_def month_length_def gregorian_leap_def)
  then have real: "calendar_date 47541 = (2100, 3, 1)"
    by simp
  have "code_date 47541 = (2100, 2, 29)"
    using code_date_at [of 32 2 59 1] by (simp add: day_in_4year_def day_in_leapyear_def)
  then have late: "date_part (snd (SecToTime 4107542400 p)) = (2100, 2, 29)"
    using same_day [of 4107542400] by simp
  have "code_date (n div 86400) = calendar_date (nat (n div 86400))"
  proof -
    have "0 \<le> n div 86400" "n div 86400 \<le> 47540"
      using assms by linarith+
    then show ?thesis
      using code_date_calendar [of "nat (n div 86400)"] by simp
  qed
  then have date: "date_part (snd (SecToTime n p)) = calendar_date (nat (n div 86400))"
    using same_day [OF assms(1)] by (rule trans [rotated])
  have clock: "tp_hour (snd (SecToTime n p)) = n mod 86400 div 3600" "tp_minute (snd (SecToTime n p)) = n mod 86400 mod 3600 div 60"
      "tp_second (snd (SecToTime n p)) = n mod 86400 mod 3600 mod 60"
    using assms(1) by (simp_all add: SecToTime_def Let_def SEC_PER_DAY_def SEC_PER_HOUR_def)
  have "0 \<le> tp_hour (snd (SecToTime n p)) \<and> tp_hour (snd (SecToTime n p)) < 24 \<and> 0 \<le> tp_minute (snd (SecToTime n p)) \<and>
      tp_minute (snd (SecToTime n p)) < 60 \<and> 0 \<le> tp_second (snd (SecToTime n p)) \<and> tp_second (snd (SecToTime n p)) < 60 \<and>
      tp_hour (snd (SecToTime n p)) * 3600 + tp_minute (snd (SecToTime n p)) * 60 + tp_second (snd (SecToTime n p)) = n mod 86400"
    unfolding clock by (rule day_parts [of "n mod 86400"]) simp_all
  then show ?thesis
    using date late real by blast
qed

theorem SecToTime_calendar_witness: "date_part (snd (SecToTime 86399 timebase)) = (1970, 1, 1) \<and> calendar_date 47541 = (2100, 3, 1)"
  using SecToTime_calendar [of 86399 timebase] by (simp add: calendar_date_def)

text \<open>\<open>Update\<close> loses the fraction of the second.\<close>

lemma Update_loses_fraction: "0 \<le> sec \<Longrightarrow> tp_msec (st_utc (SysTime_Update sec usec s)) = 0 \<and> tp_usec (st_utc (SysTime_Update sec usec s)) = 0"
  by (simp add: SysTime_Update_def SecToTime_def timebase_def Let_def)

end
