(* ===== verification/Mcc_Proto.thy ===== *)
theory Mcc_Proto
  imports Config_File
begin

text \<open>
  \<open>mccsys.cpp\<close>: the first version of the matrix centre, a program of its own.  A thread answers the requests of other
  matrices for a camera over one of four trunks, the console asks for a camera, a monitor and a user.  Sockets, clocks and
  the values of uninitialised variables are arguments; the thread and the console share the tables without a lock, here
  each request and each turn of the console is one step.
\<close>

section \<open>Users, requests and responses\<close>

record PUser =
  pu_id :: int
  pu_matrix :: int
  pu_expires :: int

definition PUser_new :: "int \<Rightarrow> int \<Rightarrow> int \<Rightarrow> PUser" where
  "PUser_new i mi e = \<lparr>pu_id = i, pu_matrix = mi, pu_expires = e\<rparr>"

definition nulluser :: PUser where
  "nulluser = \<lparr>pu_id = -1, pu_matrix = -1, pu_expires = 0\<rparr>"

text \<open>\<open>expires\<close> is an \<open>int\<close>, the clock a \<open>long\<close>.\<close>

definition pu_update :: "int \<Rightarrow> PUser \<Rightarrow> PUser" where
  "pu_update now u = u\<lparr>pu_expires := wrap32 (now + 20)\<rparr>"

text \<open>The assignment renews the expiry; the copy constructor is the compiler's and keeps it.\<close>

definition pu_assign :: "int \<Rightarrow> PUser \<Rightarrow> PUser" where
  "pu_assign now u = pu_update now \<lparr>pu_id = pu_id u, pu_matrix = pu_matrix u, pu_expires = 0\<rparr>"

definition pu_eq :: "PUser \<Rightarrow> PUser \<Rightarrow> bool" where
  "pu_eq a b \<longleftrightarrow> pu_id a = pu_id b \<and> pu_matrix a = pu_matrix b"

definition pu_le :: "PUser \<Rightarrow> PUser \<Rightarrow> bool" where
  "pu_le a b =
    (if pu_id a < pu_id b then True
     else if pu_id a = pu_id b \<and> pu_matrix a \<le> pu_matrix b then True
     else False)"

definition pu_isExpired :: "int \<Rightarrow> PUser \<Rightarrow> bool" where
  "pu_isExpired now u \<longleftrightarrow> now > pu_expires u"

record PMatrix =
  pm_ip :: string
  pm_port :: int

record ResRequest =
  rr_cam_id :: int
  rr_to_matrix_id :: int
  rr_from_matrix_id :: int
  rr_user_id :: int
  rr_expires :: int
  rr_route :: "int list"
  rr_jump :: int

definition ResRequest_new :: "int \<Rightarrow> int list \<Rightarrow> int \<Rightarrow> int \<Rightarrow> int \<Rightarrow> ResRequest" where
  "ResRequest_new local_matrix_id junk mid cid uid =
    \<lparr>rr_cam_id = cid, rr_to_matrix_id = mid, rr_from_matrix_id = local_matrix_id, rr_user_id = uid, rr_expires = 20,
     rr_route = junk, rr_jump = 0\<rparr>"

text \<open>The rest of the array \<open>msg\<close>, \<open>route\<close> and \<open>jump\<close> stay uninitialised and are sent along; they are left out.\<close>

record ResResponse =
  rs_status_code :: int
  rs_msg :: string

definition ResResponse_new :: "int \<Rightarrow> string \<Rightarrow> ResResponse" where
  "ResResponse_new code p_msg = \<lparr>rs_status_code = code, rs_msg = p_msg\<rparr>"

section \<open>The program's tables\<close>

record proto =
  pr_local_matrix_id :: int
  pr_cam :: "PUser list"
  pr_mon :: "PUser list"
  pr_trunk :: "PUser list"
  pr_addr_book :: "PMatrix option list"

definition max_mon :: int where "max_mon = 10"
definition min_mon :: int where "min_mon = 0"

definition proto_statics :: proto where
  "proto_statics = \<lparr>pr_local_matrix_id = 0, pr_cam = replicate 100 nulluser, pr_mon = replicate 100 nulluser,
     pr_trunk = replicate 4 nulluser, pr_addr_book = replicate 100 None\<rparr>"

definition init_sys_var :: "string list \<Rightarrow> proto \<Rightarrow> proto result" where
  "init_sys_var argv st =
    (if length argv = 1 then Inr st
     else if length argv = 0 then Inl NullDeref
     else bindr (c_atoi (argv ! 1)) (\<lambda>i. Inr (st\<lparr>pr_local_matrix_id := i\<rparr>)))"

definition init_matrix_addr_book :: "proto \<Rightarrow> proto" where
  "init_matrix_addr_book st =
    (let st = st\<lparr>pr_addr_book := replicate 100 None\<rparr>;
         st = st\<lparr>pr_addr_book := (pr_addr_book st)[0 := Some \<lparr>pm_ip = ''192.168.229.140'', pm_port = 10000\<rparr>]\<rparr>
     in st\<lparr>pr_addr_book := (pr_addr_book st)[1 := Some \<lparr>pm_ip = ''192.168.229.141'', pm_port = 10000\<rparr>]\<rparr>)"

text \<open>An array element by its number, and its assignment.\<close>

definition at_index :: "'a list \<Rightarrow> int \<Rightarrow> 'a result" where
  "at_index xs i = (if 0 \<le> i \<and> i < int (length xs) then Inr (xs ! nat i) else Inl OutOfBounds)"

text \<open>\<open>for(i=0;i<4;i++,p++) if(*p <= *min) ...\<close>, on the user found so far and its number.\<close>

fun min_trunk_loop :: "PUser list \<Rightarrow> nat \<Rightarrow> PUser \<times> nat \<Rightarrow> PUser \<times> nat" where
  "min_trunk_loop [] i acc = acc"
| "min_trunk_loop (p # ps) i (mn, index) = min_trunk_loop ps (Suc i) (if pu_le p mn then (p, i) else (mn, index))"

definition getMinTrunkUser :: "proto \<Rightarrow> PUser \<times> nat" where
  "getMinTrunkUser st = min_trunk_loop (pr_trunk st) 0 (pr_trunk st ! 0, 0)"

fun trunk_id_loop :: "PUser list \<Rightarrow> int \<Rightarrow> PUser \<Rightarrow> int" where
  "trunk_id_loop [] i user = -1"
| "trunk_id_loop (p # ps) i user = (if pu_eq p user then i else trunk_id_loop ps (i + 1) user)"

definition getTrunkID :: "proto \<Rightarrow> PUser \<Rightarrow> int" where
  "getTrunkID st user = trunk_id_loop (pr_trunk st) 0 user"

section \<open>Asking another matrix\<close>

datatype proto_call =
    SendReq int ResRequest
  | SendResp int ResResponse
  | CloseFd int

text \<open>What the system calls return; \<open>pe_resp\<close> is what the variable \<open>resp\<close> holds after \<open>recv\<close>, \<open>pe_auto\<close> the
  uninitialised descriptor of the \<open>AutoSock\<close>.\<close>

record req_env =
  pe_socket :: int
  pe_connect :: int
  pe_send :: int
  pe_recv :: int
  pe_resp :: ResResponse
  pe_route :: "int list"
  pe_auto :: int

definition AutoSock_destruct :: "int \<Rightarrow> proto_call list" where
  "AutoSock_destruct sock = (if sock > 0 then [CloseFd sock] else [])"

definition Request :: "req_env \<Rightarrow> int \<Rightarrow> int \<Rightarrow> int \<Rightarrow> proto \<Rightarrow> (int \<times> proto_call list) result" where
  "Request env matrix_id cam_id user_id st =
    bindr (at_index (pr_addr_book st) matrix_id) (\<lambda>m.
      if m = None then Inr (-1, [])
      else
        let fin = AutoSock_destruct (pe_auto env);
            sock = pe_socket env in
        if sock < 0 then Inr (-1, fin)
        else if pe_connect env < 0 then Inr (-1, fin)
        else
          let req = ResRequest_new (pr_local_matrix_id st) (pe_route env) matrix_id cam_id user_id in
          if pe_send env < 0 then Inr (-1, fin)
          else if pe_recv env < 0 then Inr (-1, SendReq sock req # fin)
          else if rs_status_code (pe_resp env) = 200 then Inr (0, SendReq sock req # fin)
          else Inr (-2, SendReq sock req # fin))"

section \<open>The thread that answers requests\<close>

definition sizeof_ResRequest :: int where "sizeof_ResRequest = 64"

text \<open>One request: the bytes received, the clock where the trunk's user and the camera's user are tested and where they are
  assigned, and what \<open>Request\<close> meets.\<close>

record serve_env =
  se_n :: int
  se_t_trunk :: int
  se_t_cam :: int
  se_t_take_cam :: int
  se_t_take_trunk :: int
  se_req :: req_env

definition trunk_free :: "int \<Rightarrow> PUser \<Rightarrow> PUser \<Rightarrow> bool" where
  "trunk_free now mn user \<longleftrightarrow> pu_eq mn nulluser \<or> pu_le mn user \<or> pu_isExpired now mn"

definition camera_free :: "int \<Rightarrow> PUser \<Rightarrow> PUser \<Rightarrow> bool" where
  "camera_free now c user \<longleftrightarrow> pu_eq c nulluser \<or> pu_isExpired now c \<or> pu_le c user"

definition serve_camera :: "serve_env \<Rightarrow> ResRequest \<Rightarrow> PUser \<Rightarrow> proto \<Rightarrow> (bool \<times> proto_call list \<times> proto) result" where
  "serve_camera env req user st =
    (if rr_to_matrix_id req = pr_local_matrix_id st then
       bindr (at_index (pr_cam st) (rr_cam_id req)) (\<lambda>c.
         if camera_free (se_t_cam env) c user
         then Inr (True, [], st\<lparr>pr_cam := (pr_cam st)[nat (rr_cam_id req) := pu_assign (se_t_take_cam env) user]\<rparr>)
         else Inr (False, [], st))
     else
       bindr (Request (se_req env) (rr_to_matrix_id req) (rr_cam_id req) (rr_user_id req) st) (\<lambda>(rc, calls).
         Inr (rc = 0, calls, st)))"

definition serve_request :: "serve_env \<Rightarrow> int \<Rightarrow> ResRequest \<Rightarrow> proto \<Rightarrow> (proto_call list \<times> proto) result" where
  "serve_request env connectfd req st =
    (if se_n env \<noteq> sizeof_ResRequest then Inl AssertFailed
     else
       let user = PUser_new (rr_user_id req) (rr_from_matrix_id req) 20;
           (min_trunk_user, trunk_id) = getMinTrunkUser st in
       if trunk_free (se_t_trunk env) min_trunk_user user then
         bindr (serve_camera env req user st) (\<lambda>(camera_ok, calls, st).
           if camera_ok then
             let st = st\<lparr>pr_trunk := (pr_trunk st)[trunk_id := pu_assign (se_t_take_trunk env) user]\<rparr>
             in Inr (calls @ [SendResp connectfd (ResResponse_new 200 ''Ok''), CloseFd connectfd], st)
           else Inr (calls @ [SendResp connectfd (ResResponse_new 400 ''Camera is Not Available!''), CloseFd connectfd], st))
       else Inr ([SendResp connectfd (ResResponse_new 400 ''No Trunk Available''), CloseFd connectfd], st))"

text \<open>\<open>process\<close>: the set-up of the listening socket, then one turn for each result of \<open>accept\<close>; a failing one ends the thread.\<close>

datatype accepted = AcceptFailed | Accepted int serve_env ResRequest

fun serve_loop :: "accepted list \<Rightarrow> proto \<Rightarrow> (proto_call list \<times> proto) result" where
  "serve_loop [] st = Inr ([], st)"
| "serve_loop (AcceptFailed # as) st = Inr ([], st)"
| "serve_loop (Accepted fd env req # as) st =
     bindr (serve_request env fd req st) (\<lambda>(c1, st1). bindr (serve_loop as st1) (\<lambda>(c2, st2). Inr (c1 @ c2, st2)))"

definition proto_process :: "int \<Rightarrow> int \<Rightarrow> int \<Rightarrow> accepted list \<Rightarrow> proto \<Rightarrow> (proto_call list \<times> proto) result" where
  "proto_process sock bnd lst as st =
    (if sock < 0 then Inr ([], st)
     else if bnd < 0 then Inr ([], st)
     else if lst < 0 then Inr ([], st)
     else serve_loop as st)"

section \<open>The console\<close>

record console_env =
  ce_t_mon :: int
  ce_t_take_cam :: int
  ce_t_take_mon :: int
  ce_req :: req_env

text \<open>One turn of the loop of \<open>main\<close>, with what it prints last.\<close>

definition console_turn :: "console_env \<Rightarrow> int \<Rightarrow> int \<Rightarrow> int \<Rightarrow> int \<Rightarrow> proto \<Rightarrow> (string \<times> proto_call list \<times> proto) result" where
  "console_turn env mid cid moid uid st =
    (let user = PUser_new uid mid 20 in
     if moid > max_mon \<or> moid < min_mon then Inr (''monitor dosen't exist!'', [], st)
     else
       let m = pr_mon st ! nat moid in
       if pu_id m > uid \<and> \<not> pu_isExpired (ce_t_mon env) m then Inr (''monitor is busy'', [], st)
       else
         let take_monitor = (\<lambda>st. st\<lparr>pr_mon := (pr_mon st)[nat moid :=
               pu_assign (ce_t_take_mon env) (PUser_new uid (pr_local_matrix_id st) 20)]\<rparr>) in
         if mid = pr_local_matrix_id st then
           bindr (at_index (pr_cam st) cid) (\<lambda>c.
             if pu_le c user
             then Inr (''camera is aviable!'', [],
                 take_monitor (st\<lparr>pr_cam := (pr_cam st)[nat cid := pu_assign (ce_t_take_cam env) user]\<rparr>))
             else Inr (''camera is not aviable!'', [], st))
         else
           bindr (Request (ce_req env) mid cid uid st) (\<lambda>(rc, calls).
             if rc = 0 then Inr (''camera is aviable!'', calls, take_monitor st)
             else Inr (''camera is not aviable!'', calls, st)))"

section \<open>The order of the users and the trunk of the least one\<close>

lemma pu_le_refl [simp]: "pu_le a a"
  by (simp add: pu_le_def)

lemma pu_le_trans: "pu_le a b \<Longrightarrow> pu_le b c \<Longrightarrow> pu_le a c"
  by (auto simp: pu_le_def split: if_splits)

lemma pu_le_total: "pu_le a b \<or> pu_le b a"
  by (auto simp: pu_le_def)

lemma pu_le_key: "pu_id a = pu_id a' \<Longrightarrow> pu_matrix a = pu_matrix a' \<Longrightarrow> pu_le a b = pu_le a' b"
  by (simp add: pu_le_def)

text \<open>The loop keeps the greatest number of a least user among those it has seen.\<close>

definition least_at :: "PUser list \<Rightarrow> PUser \<times> nat \<Rightarrow> bool" where
  "least_at ps r \<longleftrightarrow> snd r < length ps \<and> fst r = ps ! snd r \<and> (\<forall>p \<in> set ps. pu_le (fst r) p) \<and>
     (\<forall>j. snd r < j \<and> j < length ps \<longrightarrow> \<not> pu_le (ps ! j) (fst r))"

lemma least_at_snoc:
  assumes "least_at ps (mn, k)"
  shows "least_at (ps @ [p]) (if pu_le p mn then (p, length ps) else (mn, k))"
proof (cases "pu_le p mn")
  case True
  then show ?thesis
    using assms pu_le_trans [of p mn] by (auto simp: least_at_def nth_append)
next
  case False
  then have "pu_le mn p"
    using pu_le_total by blast
  with False show ?thesis
    using assms by (auto simp: least_at_def nth_append less_Suc_eq)
qed

lemma min_trunk_loop_least: "least_at seen acc \<Longrightarrow> i = length seen \<Longrightarrow> least_at (seen @ ps) (min_trunk_loop ps i acc)"
proof (induction ps i acc arbitrary: seen rule: min_trunk_loop.induct)
  case (2 p ps i mn index)
  from least_at_snoc [OF 2(2), of p] 2(3) have "least_at (seen @ [p]) (if pu_le p mn then (p, i) else (mn, index))"
    by (cases "pu_le p mn") simp_all
  from 2(1) [OF this] 2(3) show ?case
    by (cases "pu_le p mn") simp_all
qed simp

lemma getMinTrunkUser_least: "pr_trunk st \<noteq> [] \<Longrightarrow> least_at (pr_trunk st) (getMinTrunkUser st)"
proof (cases "pr_trunk st")
  case (Cons a ps)
  have "least_at [a] (a, 0)"
    by (auto simp: least_at_def)
  from min_trunk_loop_least [OF this, of 1 ps] show ?thesis
    by (simp add: getMinTrunkUser_def Cons)
qed simp

section \<open>The tables keep their sizes\<close>

definition proto_ok :: "proto \<Rightarrow> bool" where
  "proto_ok st \<longleftrightarrow> length (pr_cam st) = 100 \<and> length (pr_mon st) = 100 \<and> length (pr_trunk st) = 4 \<and> length (pr_addr_book st) = 100"

lemma proto_ok_updates [simp]:
  "proto_ok (st\<lparr>pr_cam := (pr_cam st)[i := u]\<rparr>) = proto_ok st"
  "proto_ok (st\<lparr>pr_mon := (pr_mon st)[i := u]\<rparr>) = proto_ok st"
  "proto_ok (st\<lparr>pr_trunk := (pr_trunk st)[i := u]\<rparr>) = proto_ok st"
  by (simp_all add: proto_ok_def)

lemma proto_ok_start: "proto_ok (init_matrix_addr_book (proto_statics\<lparr>pr_local_matrix_id := i\<rparr>))"
  by (simp add: proto_ok_def init_matrix_addr_book_def proto_statics_def Let_def)

section \<open>Every operation, defined on its inputs\<close>

datatype proto_op =
    OpServe int serve_env ResRequest
  | OpConsole console_env int int int int

definition proto_apply :: "proto_op \<Rightarrow> proto \<Rightarrow> (proto_call list \<times> proto) result" where
  "proto_apply op st = (case op of
     OpServe fd env req \<Rightarrow> serve_request env fd req st
   | OpConsole env mid cid moid uid \<Rightarrow> bindr (console_turn env mid cid moid uid st) (\<lambda>(msg, calls, st). Inr (calls, st)))"

fun proto_run :: "proto_op list \<Rightarrow> proto \<Rightarrow> (proto_call list \<times> proto) result" where
  "proto_run [] st = Inr ([], st)"
| "proto_run (op # ops) st =
     bindr (proto_apply op st) (\<lambda>(c1, st1). bindr (proto_run ops st1) (\<lambda>(c2, st2). Inr (c1 @ c2, st2)))"

text \<open>The inputs the code can take: a whole request, and numbers inside the tables.\<close>

fun op_defined :: "int \<Rightarrow> proto_op \<Rightarrow> bool" where
  "op_defined here (OpServe fd env req) \<longleftrightarrow> se_n env = sizeof_ResRequest \<and>
     (let i = (if rr_to_matrix_id req = here then rr_cam_id req else rr_to_matrix_id req) in 0 \<le> i \<and> i < 100)"
| "op_defined here (OpConsole env mid cid moid uid) \<longleftrightarrow> (let i = (if mid = here then cid else mid) in 0 \<le> i \<and> i < 100)"

text \<open>The camera an operation asks for on this matrix, the user it asks for and the clock when the camera is tested.\<close>

fun op_asks :: "int \<Rightarrow> proto_op \<Rightarrow> (int \<times> PUser \<times> int) option" where
  "op_asks here (OpServe fd env req) =
     (if rr_to_matrix_id req = here then Some (rr_cam_id req, PUser_new (rr_user_id req) (rr_from_matrix_id req) 20, se_t_cam env) else None)"
| "op_asks here (OpConsole env mid cid moid uid) = (if mid = here then Some (cid, PUser_new uid mid 20, ce_t_mon env) else None)"

lemma Request_returns:
  assumes "proto_ok st" and "0 \<le> mid" and "mid < 100"
  obtains rc calls where "Request env mid cid uid st = Inr (rc, calls)"
proof -
  obtain m where "at_index (pr_addr_book st) mid = Inr m"
    using assms by (simp add: at_index_def proto_ok_def)
  then have "\<exists>rc calls. Request env mid cid uid st = Inr (rc, calls)"
    by (auto simp: Request_def Let_def)
  then show thesis
    using that by blast
qed

text \<open>The camera table after an operation: at most the entry of the camera asked for is given to the user who asks, and only when
  the user may have it.\<close>

lemma serve_cameras:
  assumes "proto_ok st" and "op_defined (pr_local_matrix_id st) (OpServe fd env req)"
  shows "\<exists>calls st'. serve_request env fd req st = Inr (calls, st') \<and> proto_ok st' \<and> pr_local_matrix_id st' = pr_local_matrix_id st \<and>
    (pr_cam st' = pr_cam st \<or>
     (\<exists>c user t. op_asks (pr_local_matrix_id st) (OpServe fd env req) = Some (c, user, t) \<and>
        camera_free t (pr_cam st ! nat c) user \<and> pr_cam st' = (pr_cam st)[nat c := pu_assign (se_t_take_cam env) user]))"
proof -
  obtain mn k where k: "getMinTrunkUser st = (mn, k)"
    by (cases "getMinTrunkUser st")
  show ?thesis
  proof (cases "rr_to_matrix_id req = pr_local_matrix_id st")
    case True
    then show ?thesis
      using assms k by (auto simp: serve_request_def serve_camera_def at_index_def Let_def proto_ok_def)
  next
    case False
    then obtain rc calls where "Request (se_req env) (rr_to_matrix_id req) (rr_cam_id req) (rr_user_id req) st = Inr (rc, calls)"
      using assms Request_returns [of st "rr_to_matrix_id req" "se_req env" "rr_cam_id req" "rr_user_id req"] by (auto simp: Let_def)
    then show ?thesis
      using assms k False by (simp add: serve_request_def serve_camera_def Let_def)
  qed
qed

lemma console_cameras:
  assumes "proto_ok st" and "op_defined (pr_local_matrix_id st) (OpConsole env mid cid moid uid)"
  shows "\<exists>msg calls st'. console_turn env mid cid moid uid st = Inr (msg, calls, st') \<and> proto_ok st' \<and>
    pr_local_matrix_id st' = pr_local_matrix_id st \<and>
    (pr_cam st' = pr_cam st \<or>
     mid = pr_local_matrix_id st \<and> pu_le (pr_cam st ! nat cid) (PUser_new uid mid 20) \<and>
       pr_cam st' = (pr_cam st)[nat cid := pu_assign (ce_t_take_cam env) (PUser_new uid mid 20)])"
proof (cases "mid = pr_local_matrix_id st")
  case True
  then show ?thesis
    using assms by (auto simp: console_turn_def at_index_def Let_def proto_ok_def)
next
  case False
  then obtain rc calls where "Request (ce_req env) mid cid uid st = Inr (rc, calls)"
    using assms Request_returns [of st mid "ce_req env" cid uid] by (auto simp: Let_def)
  then show ?thesis
    using assms False by (simp add: console_turn_def Let_def proto_ok_def)
qed

section \<open>Who gets a camera, and for how long\<close>

text \<open>An operation that may not displace the user \<open>u\<close> of camera \<open>c\<close>: it asks for another camera, or for a user that is less
  than \<open>u\<close> while \<open>u\<close> has not expired.\<close>

definition yields :: "int \<Rightarrow> int \<Rightarrow> PUser \<Rightarrow> proto_op \<Rightarrow> bool" where
  "yields here c u op = (case op_asks here op of
     None \<Rightarrow> True
   | Some (c', v, t) \<Rightarrow> c' = c \<longrightarrow> \<not> pu_le u v \<and> t \<le> pu_expires u)"

lemma apply_keeps:
  assumes "proto_ok st" and "op_defined (pr_local_matrix_id st) op" and "yields (pr_local_matrix_id st) c u op"
    and "0 \<le> c" and "pr_cam st ! nat c = u" and "\<not> pu_eq u nulluser"
  shows "\<exists>calls st'. proto_apply op st = Inr (calls, st') \<and> proto_ok st' \<and> pr_local_matrix_id st' = pr_local_matrix_id st \<and>
    pr_cam st' ! nat c = u"
proof (cases op)
  case (OpServe fd env req)
  obtain calls st' where *: "serve_request env fd req st = Inr (calls, st')" "proto_ok st'" "pr_local_matrix_id st' = pr_local_matrix_id st"
      "pr_cam st' = pr_cam st \<or>
       (\<exists>c user t. op_asks (pr_local_matrix_id st) (OpServe fd env req) = Some (c, user, t) \<and>
        camera_free t (pr_cam st ! nat c) user \<and> pr_cam st' = (pr_cam st)[nat c := pu_assign (se_t_take_cam env) user])"
    using serve_cameras [OF assms(1), of fd env req] assms(2) OpServe by auto
  have "pr_cam st' ! nat c = u"
    using *(4)
  proof (elim disjE exE conjE)
    fix c' user t
    assume asks: "op_asks (pr_local_matrix_id st) (OpServe fd env req) = Some (c', user, t)"
      and given: "camera_free t (pr_cam st ! nat c') user" "pr_cam st' = (pr_cam st)[nat c' := pu_assign (se_t_take_cam env) user]"
    have "0 \<le> c'"
      using asks assms(2) OpServe by (auto simp: Let_def split: if_splits)
    show ?thesis
    proof (cases "c' = c")
      case True
      then have "\<not> pu_le u user" "t \<le> pu_expires u"
        using assms(3) asks OpServe by (simp_all add: yields_def)
      then have False
        using given(1) assms(5,6) True by (simp add: camera_free_def pu_isExpired_def)
      then show ?thesis ..
    next
      case False
      then show ?thesis
        using given(2) assms(4,5) \<open>0 \<le> c'\<close> by (simp add: nat_eq_iff)
    qed
  qed (simp add: assms(5))
  then show ?thesis
    using * OpServe by (simp add: proto_apply_def)
next
  case (OpConsole env mid cid moid uid)
  obtain msg calls st' where *: "console_turn env mid cid moid uid st = Inr (msg, calls, st')" "proto_ok st'"
      "pr_local_matrix_id st' = pr_local_matrix_id st"
      "pr_cam st' = pr_cam st \<or> mid = pr_local_matrix_id st \<and> pu_le (pr_cam st ! nat cid) (PUser_new uid mid 20) \<and>
         pr_cam st' = (pr_cam st)[nat cid := pu_assign (ce_t_take_cam env) (PUser_new uid mid 20)]"
    using console_cameras [OF assms(1), of env mid cid moid uid] assms(2) OpConsole by auto
  have "pr_cam st' ! nat c = u"
    using *(4)
  proof (elim disjE conjE)
    assume given: "mid = pr_local_matrix_id st" "pu_le (pr_cam st ! nat cid) (PUser_new uid mid 20)"
      "pr_cam st' = (pr_cam st)[nat cid := pu_assign (ce_t_take_cam env) (PUser_new uid mid 20)]"
    have "0 \<le> cid"
      using given(1) assms(2) OpConsole by (auto simp: Let_def)
    moreover have "cid \<noteq> c"
      using given(1,2) assms(3,5) OpConsole by (auto simp: yields_def)
    ultimately show ?thesis
      using given(3) assms(4,5) by (simp add: nat_eq_iff)
  qed (simp add: assms(5))
  then show ?thesis
    using * OpConsole by (simp add: proto_apply_def)
qed

lemma run_keeps:
  assumes "0 \<le> c" and "\<not> pu_eq u nulluser"
  shows "proto_ok st \<Longrightarrow> \<forall>op\<in>set ops. op_defined (pr_local_matrix_id st) op \<and> yields (pr_local_matrix_id st) c u op \<Longrightarrow>
    pr_cam st ! nat c = u \<Longrightarrow> \<exists>calls st'. proto_run ops st = Inr (calls, st') \<and> pr_cam st' ! nat c = u"
proof (induction ops arbitrary: st)
  case (Cons op ops)
  then obtain c1 st1 where step: "proto_apply op st = Inr (c1, st1)" "proto_ok st1" "pr_local_matrix_id st1 = pr_local_matrix_id st"
      "pr_cam st1 ! nat c = u"
    using apply_keeps [of st op c u] assms by auto
  with Cons.IH [of st1] Cons.prems(2) obtain c2 st2 where "proto_run ops st1 = Inr (c2, st2)" "pr_cam st2 ! nat c = u"
    by auto
  with step show ?case
    by simp
qed simp

text \<open>A request for a camera of this matrix, in full.\<close>

lemma serve_local:
  assumes "proto_ok st" and "se_n env = sizeof_ResRequest" and "rr_to_matrix_id req = pr_local_matrix_id st"
    and "0 \<le> rr_cam_id req" and "rr_cam_id req < 100"
  shows "\<exists>mn k. least_at (pr_trunk st) (mn, k) \<and>
    (let user = PUser_new (rr_user_id req) (rr_from_matrix_id req) 20;
         c = nat (rr_cam_id req);
         trunk_ok = trunk_free (se_t_trunk env) mn user;
         camera_ok = camera_free (se_t_cam env) (pr_cam st ! c) user
     in serve_request env fd req st = Inr
       (if \<not> trunk_ok then ([SendResp fd (ResResponse_new 400 ''No Trunk Available''), CloseFd fd], st)
        else if \<not> camera_ok then ([SendResp fd (ResResponse_new 400 ''Camera is Not Available!''), CloseFd fd], st)
        else ([SendResp fd (ResResponse_new 200 ''Ok''), CloseFd fd],
          st\<lparr>pr_cam := (pr_cam st)[c := pu_assign (se_t_take_cam env) user],
             pr_trunk := (pr_trunk st)[k := pu_assign (se_t_take_trunk env) user]\<rparr>)))"
proof -
  obtain mn k where k: "getMinTrunkUser st = (mn, k)"
    by (cases "getMinTrunkUser st")
  have "pr_trunk st \<noteq> []"
    using assms(1) by (auto simp: proto_ok_def)
  then have "least_at (pr_trunk st) (mn, k)"
    using getMinTrunkUser_least k by metis
  then show ?thesis
    using assms k
    by (intro exI [of _ mn] exI [of _ k]) (simp add: serve_request_def serve_camera_def at_index_def Let_def proto_ok_def)
qed

text \<open>C29. A request that was granted a camera of this matrix has displaced the last of the least trunk users, and for 20 seconds
  the camera is taken by nobody less than its user: every sequence of requests and console turns with inputs inside the tables,
  in which those for this camera are for lesser users and are tested before the user expires, is carried out to its end and
  leaves the camera with that user.\<close>

theorem proto_camera_held:
  assumes "proto_ok st" and "se_n env = sizeof_ResRequest" and "rr_to_matrix_id req = pr_local_matrix_id st"
    and "0 \<le> rr_cam_id req" and "rr_cam_id req < 100"
    and "serve_request env fd req st = Inr (calls, st1)" and "SendResp fd (ResResponse_new 200 ''Ok'') \<in> set calls"
    and "u = pu_assign (se_t_take_cam env) (PUser_new (rr_user_id req) (rr_from_matrix_id req) 20)" and "\<not> pu_eq u nulluser"
    and "\<forall>op\<in>set ops. op_defined (pr_local_matrix_id st) op \<and> yields (pr_local_matrix_id st) (rr_cam_id req) u op"
  shows "(\<exists>mn k. least_at (pr_trunk st) (mn, k) \<and>
      pr_trunk st1 = (pr_trunk st)[k := pu_assign (se_t_take_trunk env) (PUser_new (rr_user_id req) (rr_from_matrix_id req) 20)]) \<and>
    (\<exists>calls2 st2. proto_run ops st1 = Inr (calls2, st2) \<and> pr_cam st2 ! nat (rr_cam_id req) = u)"
proof -
  obtain mn k where mn: "least_at (pr_trunk st) (mn, k)"
    and st1: "st1 = st\<lparr>pr_cam := (pr_cam st)[nat (rr_cam_id req) := u],
             pr_trunk := (pr_trunk st)[k := pu_assign (se_t_take_trunk env) (PUser_new (rr_user_id req) (rr_from_matrix_id req) 20)]\<rparr>"
    using serve_local [OF assms(1-5), of fd] assms(6-8) by (auto simp: Let_def ResResponse_new_def split: if_splits)
  have "proto_ok st1" "pr_cam st1 ! nat (rr_cam_id req) = u"
    using assms(1,4,5) by (simp_all add: st1 proto_ok_def)
  moreover have "pr_local_matrix_id st1 = pr_local_matrix_id st"
    by (simp add: st1)
  ultimately obtain calls2 st2 where "proto_run ops st1 = Inr (calls2, st2)" "pr_cam st2 ! nat (rr_cam_id req) = u"
    using run_keeps [OF assms(4,9), of st1 ops] assms(10) by auto
  then show ?thesis
    using mn by (auto simp: st1)
qed

definition demo_env :: req_env where
  "demo_env = \<lparr>pe_socket = 5, pe_connect = 0, pe_send = 64, pe_recv = 200, pe_resp = ResResponse_new 200 ''Ok'', pe_route = [], pe_auto = 0\<rparr>"

definition demo_serve :: "int \<Rightarrow> serve_env" where
  "demo_serve t = \<lparr>se_n = 64, se_t_trunk = t, se_t_cam = t, se_t_take_cam = t, se_t_take_trunk = t, se_req = demo_env\<rparr>"

definition demo_req :: "int \<Rightarrow> ResRequest" where
  "demo_req uid = \<lparr>rr_cam_id = 7, rr_to_matrix_id = 0, rr_from_matrix_id = 1, rr_user_id = uid, rr_expires = 20, rr_route = [], rr_jump = 0\<rparr>"

lemma demo_granted:
  "serve_request (demo_serve 100) 6 (demo_req 3) proto_statics =
     Inr ([SendResp 6 (ResResponse_new 200 ''Ok''), CloseFd 6],
       proto_statics\<lparr>pr_cam := (pr_cam proto_statics)[7 := \<lparr>pu_id = 3, pu_matrix = 1, pu_expires = 120\<rparr>],
         pr_trunk := (pr_trunk proto_statics)[3 := \<lparr>pu_id = 3, pu_matrix = 1, pu_expires = 120\<rparr>]\<rparr>)"
  by (simp add: serve_request_def serve_camera_def at_index_def demo_serve_def demo_req_def sizeof_ResRequest_def getMinTrunkUser_def
      PUser_new_def trunk_free_def camera_free_def pu_eq_def nulluser_def proto_statics_def pu_assign_def pu_update_def is_int32_def
      eval_nat_numeral Let_def)

theorem proto_camera_held_witness:
  "\<exists>calls2 st2. proto_run [OpServe 6 (demo_serve 115) (demo_req 2)] (snd (projr (serve_request (demo_serve 100) 6 (demo_req 3) proto_statics)))
     = Inr (calls2, st2) \<and> pr_cam st2 ! 7 = \<lparr>pu_id = 3, pu_matrix = 1, pu_expires = 120\<rparr>"
  using proto_camera_held [of proto_statics "demo_serve 100" "demo_req 3" 6, OF _ _ _ _ _ demo_granted _ refl,
      of "[OpServe 6 (demo_serve 115) (demo_req 2)]"] demo_granted
  by (simp add: proto_ok_def proto_statics_def demo_serve_def demo_req_def sizeof_ResRequest_def pu_assign_def pu_update_def PUser_new_def
      is_int32_def pu_eq_def nulluser_def yields_def pu_le_def)

text \<open>Only the least trunk user is looked at: a trunk whose user has expired is not given away while a lesser user has not.\<close>

lemma expired_trunk_overlooked:
  "serve_request (demo_serve 100) 6 (demo_req 1)
     (proto_statics\<lparr>pr_trunk := [PUser_new 9 1 50, PUser_new 5 1 110, PUser_new 9 1 50, PUser_new 9 1 50]\<rparr>) =
   Inr ([SendResp 6 (ResResponse_new 400 ''No Trunk Available''), CloseFd 6],
     proto_statics\<lparr>pr_trunk := [PUser_new 9 1 50, PUser_new 5 1 110, PUser_new 9 1 50, PUser_new 9 1 50]\<rparr>)"
  by (simp add: serve_request_def demo_serve_def demo_req_def sizeof_ResRequest_def getMinTrunkUser_def PUser_new_def pu_le_def
      trunk_free_def pu_eq_def nulluser_def pu_isExpired_def Let_def)

text \<open>\<open>AutoSock\<close> forgets the descriptor it is given: the socket that \<open>Request\<close> opens is closed by no call.\<close>

lemma Request_leaks:
  assumes "Request env mid cid uid st = Inr (rc, calls)" and "CloseFd fd \<in> set calls"
  shows "fd = pe_auto env"
  using assms by (auto simp: Request_def AutoSock_destruct_def Let_def bindr_Inr_iff split: if_splits)

text \<open>The address book has 100 entries, the matrix number comes from the network or the console.\<close>

lemma Request_outside: "proto_ok st \<Longrightarrow> 100 \<le> mid \<Longrightarrow> Request env mid cid uid st = Inl OutOfBounds"
  by (simp add: Request_def at_index_def proto_ok_def)

end
