(* ===== verification/Key_Recorder.thy ===== *)
theory Key_Recorder
  imports Prelude
begin

text \<open>
  \<open>recorder.cpp\<close>: a tool that records what a keyboard sends for each of its keys, and the same classes in
  \<open>mcckeyboardcmdrecord.cpp\<close>.  The constructor of a record copies through its member \<open>cmd\<close>, a pointer that nothing has set,
  as many bytes as its member \<open>len\<close> holds by chance, before it sets \<open>len\<close>.
\<close>

record key_record =
  kr_len :: int
  kr_value :: int

record KeyboardCmdRecordSet =
  ks_name :: string
  ks_baudrate :: int
  ks_databits :: int
  ks_stopbits :: int
  ks_parity :: char
  ks_records :: "key_record list"

text \<open>The constructor, on the value that \<open>len\<close> has by chance; only a copy of nothing has a defined result.\<close>

definition Record_new :: "int \<Rightarrow> int \<Rightarrow> int \<Rightarrow> key_record result" where
  "Record_new junk len value = (if junk = 0 then Inr \<lparr>kr_len = len, kr_value = value\<rparr> else Inl Unspecified)"

text \<open>\<open>Init\<close>: the name goes into an array of 256 bytes.\<close>

definition RecordSet_Init :: "string \<Rightarrow> int \<Rightarrow> int \<Rightarrow> int \<Rightarrow> char \<Rightarrow> KeyboardCmdRecordSet \<Rightarrow> KeyboardCmdRecordSet result" where
  "RecordSet_Init name baudrate databits stopbits parity s =
    (if 256 \<le> length name then Inl OutOfBounds
     else Inr (s\<lparr>ks_name := name, ks_baudrate := baudrate, ks_databits := databits, ks_stopbits := stopbits, ks_parity := parity\<rparr>))"

definition AddRecord :: "int \<Rightarrow> int \<Rightarrow> int \<Rightarrow> KeyboardCmdRecordSet \<Rightarrow> (int \<times> KeyboardCmdRecordSet) result" where
  "AddRecord junk len value s =
    bindr (Record_new junk len value) (\<lambda>r. Inr (0, s\<lparr>ks_records := ks_records s @ [r]\<rparr>))"

text \<open>\<open>ReadAndAddRecord\<close>, on the result of the keyboard's \<open>Read\<close>.\<close>

definition ReadAndAddRecord :: "int \<Rightarrow> int \<Rightarrow> int \<Rightarrow> KeyboardCmdRecordSet \<Rightarrow> (int \<times> KeyboardCmdRecordSet) result" where
  "ReadAndAddRecord junk len value s = (if len > 0 then AddRecord junk len value s else Inr (-1, s))"

text \<open>\<open>DumpToFile\<close>: the name of the file and its text; a record with bytes is read through its pointer.\<close>

definition newline :: string where "newline = [CHR 0x0A]"

fun dump_records :: "key_record list \<Rightarrow> string result" where
  "dump_records [] = Inr []"
| "dump_records (r # rs) =
     (if kr_len r > 0 then Inl Unspecified
      else bindr (dump_records rs) (\<lambda>text. Inr (''[ hello, '' @ show_int (kr_len r) @ '', ]'' @ newline @ text)))"

definition DumpToFile :: "bool \<Rightarrow> string option \<Rightarrow> KeyboardCmdRecordSet \<Rightarrow> (int \<times> (string \<times> string) option) result" where
  "DumpToFile opened filename s =
    (let filename = (case filename of None \<Rightarrow> ks_name s | Some f \<Rightarrow> f);
         namebuf = filename @ ''.rec'' in
     if 1024 \<le> length namebuf then Inl OutOfBounds
     else if \<not> opened then Inr (-1, None)
     else bindr (dump_records (ks_records s)) (\<lambda>text. Inr (0, Some (namebuf,
       ''Keyboard Name:'' @ ks_name s @ newline @
       ''Configuration:'' @ show_int (ks_baudrate s) @ '','' @ show_int (ks_databits s) @ '','' @ show_int (ks_stopbits s) @ '','' @ [ks_parity s] @ newline @
       ''Total Records:'' @ show_int (int (length (ks_records s))) @ newline @
       ''#[KeyName, CommandLength, CommandData]'' @ newline @ text))))"

text \<open>The loop of \<open>main\<close>, on the chance value and the result of \<open>Read\<close> for each key, and the file written in the end.\<close>

fun record_keys :: "(int \<times> int) list \<Rightarrow> int \<Rightarrow> KeyboardCmdRecordSet \<Rightarrow> KeyboardCmdRecordSet result" where
  "record_keys [] i s = Inr s"
| "record_keys ((junk, len) # ks) i s = bindr (ReadAndAddRecord junk len i s) (\<lambda>(_, s). record_keys ks (i + 1) s)"

definition recorder_main :: "(int \<times> int) list \<Rightarrow> bool \<Rightarrow> KeyboardCmdRecordSet \<Rightarrow> (int \<times> (string \<times> string) option) result" where
  "recorder_main keys opened s = bindr (record_keys keys 0 s) (DumpToFile opened None)"

section \<open>The recorder records nothing\<close>

lemma record_keys_records:
  "record_keys keys i s = Inr s' \<Longrightarrow>
     ks_name s' = ks_name s \<and>
     (\<forall>r \<in> set (ks_records s). r \<in> set (ks_records s')) \<and> ((\<exists>k \<in> set keys. snd k > 0) \<longrightarrow> (\<exists>r \<in> set (ks_records s'). kr_len r > 0))"
proof (induction keys i s rule: record_keys.induct)
  case (2 junk len ks i s)
  then obtain rc s1 where s1: "ReadAndAddRecord junk len i s = Inr (rc, s1)" "record_keys ks (i + 1) s1 = Inr s'"
    by (auto simp: bindr_Inr_iff)
  have "ks_name s1 = ks_name s \<and> set (ks_records s) \<subseteq> set (ks_records s1) \<and> (len > 0 \<longrightarrow> (\<exists>r \<in> set (ks_records s1). kr_len r > 0))"
    using s1(1) by (auto simp: ReadAndAddRecord_def AddRecord_def Record_new_def bindr_Inr_iff split: if_splits)
  moreover note 2(1) [OF s1(2)]
  ultimately show ?case
    by fastforce
qed simp

lemma dump_records_fault: "\<exists>r \<in> set rs. kr_len r > 0 \<Longrightarrow> dump_records rs = Inl Unspecified"
proof (induction rs)
  case (Cons r rs)
  then show ?case
    by (cases "kr_len r > 0") auto
qed simp

text \<open>With one key that sends something, no run of the recorder writes a file.\<close>

theorem recorder_writes_nothing:
  assumes "\<exists>k \<in> set keys. snd k > 0"
  shows "recorder_main keys opened s \<noteq> Inr (0, Some f)"
proof (cases "record_keys keys 0 s")
  case (Inr s')
  then have "\<exists>r \<in> set (ks_records s'). kr_len r > 0"
    using record_keys_records [OF Inr] assms by blast
  then have "dump_records (ks_records s') = Inl Unspecified"
    by (rule dump_records_fault)
  then show ?thesis
    using Inr by (simp add: recorder_main_def DumpToFile_def Let_def)
qed (simp add: recorder_main_def)

end
