(* ===== verification/Resource_Ptz.thy ===== *)
theory Resource_Ptz
  imports Resource_Props
begin

text \<open>
  The arbitration of a camera's pan-tilt head: the decision as a specification on the view (locked, owner, expiry),
  the guarantee the owner of a lock has, what releasing a lock leaves, and the null entries that looking up an
  unknown camera leaves in the table.
\<close>

section \<open>The decision\<close>

text \<open>
  A lock counts only until it expires.  While it counts, its owner and users above it are served; otherwise a lock
  request is served for users not below the last owner, an unlock request never, and an operation for users
  not below the last owner or when that owner has expired.
\<close>

definition ptz_lock_counts :: "int \<Rightarrow> Camera \<Rightarrow> bool" where
  "ptz_lock_counts now c \<longleftrightarrow> cam_ptzLocked c \<and> now \<le> u_expireTime (cam_ptzUser c)"

definition ptz_allowed :: "int \<Rightarrow> Camera \<Rightarrow> MCCGlobalID \<Rightarrow> int \<Rightarrow> bool" where
  "ptz_allowed now c u lock \<longleftrightarrow>
     (if ptz_lock_counts now c then u_id (cam_ptzUser c) \<le> u
      else if lock = 1 then u_id (cam_ptzUser c) \<le> u
      else if lock = 2 then False
      else u_id (cam_ptzUser c) \<le> u \<or> u_expireTime (cam_ptzUser c) < now)"

definition ptz_owned :: "int \<Rightarrow> MCCGlobalID \<Rightarrow> Camera \<Rightarrow> Camera" where
  "ptz_owned now u c =
     c\<lparr>cam_ptzUser := (cam_ptzUser c)\<lparr>u_id := u, u_expireTime := now + u_expire (cam_ptzUser c)\<rparr>\<rparr>"

definition ptz_result :: "int \<Rightarrow> Camera \<Rightarrow> MCCGlobalID \<Rightarrow> int \<Rightarrow> Camera" where
  "ptz_result now c u lock =
     (let held = ptz_lock_counts now c; c = c\<lparr>cam_ptzLocked := held\<rparr> in
      if \<not> ptz_allowed now c u lock then c
      else if lock = 1 then (ptz_owned now u c)\<lparr>cam_ptzLocked := True\<rparr>
      else if held then (if lock = 2 then c\<lparr>cam_ptzLocked := False\<rparr> else c)
      else ptz_owned now u c)"

lemma camera_same_lock: "cam_ptzLocked c = b \<Longrightarrow> c\<lparr>cam_ptzLocked := b\<rparr> = c"
  by (cases c) simp

lemma processLocalPtz_eq:
  "processLocalPtz now c u opt lock =
     (if ptz_allowed now c u lock then ACCEPT else REJECT, ptz_result now c u lock)"
proof -
  have s: "c\<lparr>cam_ptzLocked := b\<rparr> = c" if "cam_ptzLocked c = b" for b
    using that by (rule camera_same_lock)
  have op: "acquirePtz now u x = ptz_owned now u x" for x
    by (simp add: acquirePtz_def ptz_owned_def updateExpire_def)
  have lk: "(ptz_owned now u x)\<lparr>cam_ptzLocked := b\<rparr> = ptz_owned now u (x\<lparr>cam_ptzLocked := b\<rparr>)" for x b
    by (simp add: ptz_owned_def)
  show ?thesis
    by (cases "cam_ptzLocked c"; cases "u_expireTime (cam_ptzUser c) < now")
      (auto simp: processLocalPtz_def ptz_result_def ptz_allowed_def ptz_lock_counts_def isExpired_def lockPtz_def unlockPtz_def
        op lk s Let_def)
qed

text \<open>C8. The decision of \<open>processLocalPtz\<close> and the camera it leaves are those of the specification
  \<open>ptz_allowed\<close> and \<open>ptz_result\<close>, for every camera, user, operation and lock code.\<close>

theorem ptz_arbitration:
  "processLocalPtz now c u opt lock =
     (if ptz_allowed now c u lock then ACCEPT else REJECT, ptz_result now c u lock)"
  by (rule processLocalPtz_eq)

section \<open>The owner of a lock\<close>

text \<open>C31. A user who has locked a camera's pan-tilt head keeps it for 20 seconds: any request of a user with a
  smaller identifier, whatever the operation and lock code, is rejected and leaves the camera as it was.\<close>

theorem ptz_lock_exclusive:
  assumes "camera_ok k c" and "processLocalPtz t c u opt 1 = (ACCEPT, c')"
    and "v < u" and "t \<le> t'" and "t' \<le> t + 20"
  shows "processLocalPtz t' c' v opt' lock = (REJECT, c')"
proof -
  have c': "c' = (ptz_owned t u (c\<lparr>cam_ptzLocked := ptz_lock_counts t c\<rparr>))\<lparr>cam_ptzLocked := True\<rparr>"
    using assms(2) by (auto simp: processLocalPtz_eq ptz_result_def ptz_allowed_def ptz_lock_counts_def Let_def split: if_splits)
  then have "ptz_lock_counts t' c'" and "u_id (cam_ptzUser c') = u" and "c'\<lparr>cam_ptzLocked := True\<rparr> = c'"
    using assms(1,5) by (simp_all add: ptz_lock_counts_def ptz_owned_def camera_ok_def DEFAULT_EXPIRE_def)
  with assms(3) show ?thesis
    by (simp add: processLocalPtz_eq ptz_result_def ptz_allowed_def ptz_lock_counts_def)
qed

theorem ptz_lock_exclusive_witness:
  "\<exists>c'. processLocalPtz 100 (Camera_new 0 2) (MCCGlobalID 7 3) 4 1 = (ACCEPT, c') \<and>
        processLocalPtz 118 c' (MCCGlobalID 7 1) 4 0 = (REJECT, c')"
proof -
  have "fst (processLocalPtz 100 (Camera_new 0 2) (MCCGlobalID 7 3) 4 1) = ACCEPT"
    by (simp add: processLocalPtz_def Camera_new_def NullID_le Let_def)
  then obtain c' where "processLocalPtz 100 (Camera_new 0 2) (MCCGlobalID 7 3) 4 1 = (ACCEPT, c')"
    by (cases "processLocalPtz 100 (Camera_new 0 2) (MCCGlobalID 7 3) 4 1") simp
  with ptz_lock_exclusive [OF camera_ok_new this, of "MCCGlobalID 7 1" 118 4 0] show ?thesis
    by (auto simp: gid_less_iff)
qed

text \<open>Unlocking does not give the head back: after a user has locked and then unlocked a camera, a user with a
  smaller identifier is still rejected until 20 seconds after the lock, because \<open>releasePtz\<close> compares the user
  instead of resetting it.\<close>

theorem ptz_unlock_keeps_owner:
  assumes "camera_ok k c" and "processLocalPtz t c u opt 1 = (ACCEPT, c1)"
    and "processLocalPtz t1 c1 u opt1 2 = (ACCEPT, c2)" and "v < u" and "t2 \<le> t + 20"
  shows "\<not> cam_ptzLocked c2 \<and> fst (processLocalPtz t2 c2 v opt2 lock) = REJECT"
proof -
  have c1: "c1 = (ptz_owned t u (c\<lparr>cam_ptzLocked := ptz_lock_counts t c\<rparr>))\<lparr>cam_ptzLocked := True\<rparr>"
    using assms(2) by (auto simp: processLocalPtz_eq ptz_result_def ptz_allowed_def ptz_lock_counts_def Let_def split: if_splits)
  have c2: "c2 = c1\<lparr>cam_ptzLocked := False\<rparr>"
    using assms(3) by (auto simp: processLocalPtz_eq ptz_result_def ptz_allowed_def ptz_lock_counts_def Let_def split: if_splits)
  show ?thesis
    using assms(1,4,5) unfolding c2 c1
    by (auto simp: processLocalPtz_eq ptz_allowed_def ptz_lock_counts_def ptz_owned_def camera_ok_def DEFAULT_EXPIRE_def)
qed

theorem ptz_unlock_keeps_owner_witness:
  "\<exists>c2. \<not> cam_ptzLocked c2 \<and> fst (processLocalPtz 105 c2 (MCCGlobalID 7 1) 4 0) = REJECT"
proof -
  define c1 where "c1 = snd (processLocalPtz 100 (Camera_new 0 2) (MCCGlobalID 7 3) 4 1)"
  define c2 where "c2 = snd (processLocalPtz 103 c1 (MCCGlobalID 7 3) 0 2)"
  have 1: "processLocalPtz 100 (Camera_new 0 2) (MCCGlobalID 7 3) 4 1 = (ACCEPT, c1)"
    by (simp add: c1_def processLocalPtz_def Camera_new_def NullID_le Let_def)
  have 2: "processLocalPtz 103 c1 (MCCGlobalID 7 3) 0 2 = (ACCEPT, c2)"
    by (simp add: c1_def c2_def processLocalPtz_def Camera_new_def NullID_le Let_def lockPtz_def acquirePtz_def DEFAULT_EXPIRE_def)
  from ptz_unlock_keeps_owner [OF camera_ok_new 1 2, of "MCCGlobalID 7 1" 105 4 0] show ?thesis
    by (auto simp: gid_less_iff)
qed

section \<open>Unknown cameras\<close>

lemma switch_unknown_camera:
  assumes "mid (camera_id msg) = rm_matrixId s" and "rm_cameras s (lid (camera_id msg)) = None"
    and "rm_monitors s (monitor_id msg) = Some (Some m)"
    and "isExpired (e_now e) (mon_user m) \<or> lid (u_id (mon_user m)) \<le> keyboard_id msg"
  shows "onSwitch e (Some kb) msg s =
    Inr (s\<lparr>rm_cameras := (rm_cameras s)(lid (camera_id msg) \<mapsto> None)\<rparr>, [KbNotify kb msg 400 ''Rejected''])"
  using assms by (auto simp: onSwitch_def processSwitchMessage_def bracket_def isCameraExist_def notify_kb_def)

text \<open>A rejected local switch to an unknown camera is not without trace: it leaves a null camera in the table.
  Before it, the upper matrix's pan-tilt request for that camera is answered 404 (the camera is unknown); after it, the same
  request dereferences the null camera.\<close>

theorem unknown_camera_leaves_null:
  assumes "mid (camera_id msg) = rm_matrixId s" and "rm_cameras s (lid (camera_id msg)) = None"
    and "rm_monitors s (monitor_id msg) = Some (Some m)"
    and "isExpired (e_now e) (mon_user m) \<or> lid (u_id (mon_user m)) \<le> keyboard_id msg"
    and "a_method r = PTZ" and "a_to r = rm_matrixId s" and "ptz_cameraid (a_content r) = lid (camera_id msg)"
  shows "onClientRxRequest e' fd r s =
      Inr (s, [ClientSendResponse (buildPtzResponse r 404 ''Ptz Not Found'' (e_response e'))]) \<and>
    (\<exists>s'. onSwitch e (Some kb) msg s = Inr (s', [KbNotify kb msg 400 ''Rejected'']) \<and>
      onClientRxRequest e' fd r s' = Inl NullDeref)"
proof -
  have "onClientRxRequest e' fd r s =
      Inr (s, [ClientSendResponse (buildPtzResponse r 404 ''Ptz Not Found'' (e_response e'))])"
    using assms by (simp add: onClientRxRequest_def onClientRxPtz_def message_enums)
  moreover have "onClientRxRequest e' fd r (s\<lparr>rm_cameras := (rm_cameras s)(lid (camera_id msg) \<mapsto> None)\<rparr>) = Inl NullDeref"
    using assms by (simp add: onClientRxRequest_def onClientRxPtz_def message_enums)
  ultimately show ?thesis
    using switch_unknown_camera [OF assms(1-4)] by blast
qed

theorem unknown_camera_leaves_null_witness:
  "\<exists>s'. onSwitch (demo_env 100) (Some 3) (demo_switch 3 7 9 4) demo_state =
          Inr (s', [KbNotify 3 (demo_switch 3 7 9 4) 400 ''Rejected'']) \<and>
        onClientRxRequest (demo_env 101) 8
          (demo_request\<lparr>a_method := PTZ, a_to := 7, a_content := (replicate content_size 0)[1 := 9]\<rparr>) s' = Inl NullDeref"
  using unknown_camera_leaves_null [of "demo_switch 3 7 9 4" demo_state "Monitor_new 0 4" "demo_env 100"
      "demo_request\<lparr>a_method := PTZ, a_to := 7, a_content := (replicate content_size 0)[1 := 9]\<rparr>" "demo_env 101" 8 3]
  by (simp add: Monitor_new_def NullID_def content_size_def MAX_CHILDREN_NUM_def)

end
