(* ===== verification/Queue_Wait.thy ===== *)
theory Queue_Wait
  imports Locks
begin

text \<open>
  The shared queue \<open>squeue.h\<close> with its condition variable (\<open>conditional.h\<close>), statement by statement: any number of threads call
  \<open>add\<close>, \<open>tryget\<close> and the two forms of \<open>get\<close>, and a thread that waits gives the mutex back.  \<open>Containers\<close> and \<open>Locks\<close> treat
  these calls as single steps; this theory shows that nothing is lost or taken twice between them and that no wake-up is lost.
  \<open>pthread_cond_signal\<close> wakes at least one of the threads that wait, if any; a thread may also wake without a signal.
\<close>

section \<open>Threads, calls and places\<close>

datatype 'a queue_call = Add 'a | TryGet | Get | GetFor nat

text \<open>The statement a thread is at: \<open>Testing\<close> is the condition of \<open>while\<close> or \<open>if\<close>, \<open>Blocked\<close> is inside of \<open>mCond.Wait\<close>, \<open>Woken\<close>
  and \<open>Expired\<close> are its way back to the mutex, \<open>Leaving\<close> is the destructor of the \<open>AutoLock\<close>.\<close>

datatype 'a place =
    Outside
  | Pushing 'a
  | Signalling
  | Testing "'a queue_call"
  | Blocked "'a queue_call"
  | Woken "'a queue_call"
  | Expired
  | Taking
  | Popping 'a
  | Leaving

record 'a qthread =
  qt_place :: "'a place"
  qt_todo :: "'a queue_call list"
  qt_got :: "'a option list"

text \<open>\<open>qs_added\<close> and \<open>qs_taken\<close> are the history: which thread has put in and taken out what.\<close>

record 'a queue_system =
  qs_queue :: "'a Squeue"
  qs_mutex :: Mutex
  qs_threads :: "'a qthread list"
  qs_added :: "(nat \<times> 'a) list"
  qs_taken :: "(nat \<times> 'a) list"

definition queue_start :: "'a queue_call list list \<Rightarrow> 'a queue_system" where
  "queue_start progs =
    \<lparr>qs_queue = \<lparr>sq_queue = []\<rparr>, qs_mutex = Mutex_new, qs_threads = map (\<lambda>p. \<lparr>qt_place = Outside, qt_todo = p, qt_got = []\<rparr>) progs,
     qs_added = [], qs_taken = []\<rparr>"

definition is_at :: "nat \<Rightarrow> 'a queue_system \<Rightarrow> 'a place \<Rightarrow> bool" where
  "is_at t c p \<longleftrightarrow> t < length (qs_threads c) \<and> qt_place (qs_threads c ! t) = p"

definition go_to :: "nat \<Rightarrow> 'a place \<Rightarrow> 'a queue_system \<Rightarrow> 'a queue_system" where
  "go_to t p c = c\<lparr>qs_threads := (qs_threads c)[t := (qs_threads c ! t)\<lparr>qt_place := p\<rparr>]\<rparr>"

definition return_from :: "nat \<Rightarrow> 'a option \<Rightarrow> 'a queue_system \<Rightarrow> 'a queue_system" where
  "return_from t r c =
    c\<lparr>qs_threads := (qs_threads c)[t := (qs_threads c ! t)\<lparr>qt_place := Leaving, qt_got := qt_got (qs_threads c ! t) @ [r]\<rparr>]\<rparr>"

section \<open>The steps\<close>

fun first_place :: "'a queue_call \<Rightarrow> 'a place" where
  "first_place (Add e) = Pushing e"
| "first_place call = Testing call"

text \<open>\<open>Conditional::Signal\<close>: the numbers of the threads it wakes.\<close>

definition waits :: "'a qthread \<Rightarrow> bool" where
  "waits th \<longleftrightarrow> (case qt_place th of Blocked call \<Rightarrow> True | _ \<Rightarrow> False)"

definition wakes_ok :: "nat list \<Rightarrow> 'a queue_system \<Rightarrow> bool" where
  "wakes_ok ws c \<longleftrightarrow> distinct ws \<and> (\<forall>t \<in> set ws. t < length (qs_threads c) \<and> waits (qs_threads c ! t)) \<and>
     ((\<exists>th \<in> set (qs_threads c). waits th) \<longrightarrow> ws \<noteq> [])"

definition wake :: "'a qthread \<Rightarrow> 'a qthread" where
  "wake th = (case qt_place th of Blocked call \<Rightarrow> th\<lparr>qt_place := Woken call\<rparr> | _ \<Rightarrow> th)"

definition Conditional_Signal :: "nat list \<Rightarrow> 'a queue_system \<Rightarrow> 'a queue_system" where
  "Conditional_Signal ws c =
    c\<lparr>qs_threads := map (\<lambda>t. if t \<in> set ws then wake (qs_threads c ! t) else qs_threads c ! t) [0..<length (qs_threads c)]\<rparr>"

text \<open>
  The steps of thread \<open>t\<close>.  A timed wait gives the mutex back only if its deadline is in range; the time of day is arbitrary.
\<close>

inductive queue_step :: "'a queue_system \<Rightarrow> 'a queue_system \<Rightarrow> bool" where
  enter: "is_at t c Outside \<Longrightarrow> qt_todo (qs_threads c ! t) = call # calls \<Longrightarrow> AutoLock_new t (qs_mutex c) = Some m \<Longrightarrow>
    queue_step c (c\<lparr>qs_mutex := m, qs_threads := (qs_threads c)[t := (qs_threads c ! t)\<lparr>qt_place := first_place call, qt_todo := calls\<rparr>]\<rparr>)"
| push: "is_at t c (Pushing e) \<Longrightarrow>
    queue_step c (go_to t Signalling (c\<lparr>qs_queue := (qs_queue c)\<lparr>sq_queue := sq_queue (qs_queue c) @ [e]\<rparr>, qs_added := qs_added c @ [(t, e)]\<rparr>))"
| signal: "is_at t c Signalling \<Longrightarrow> wakes_ok ws c \<Longrightarrow> queue_step c (go_to t Leaving (Conditional_Signal ws c))"
| not_empty: "is_at t c (Testing call) \<Longrightarrow> sq_queue (qs_queue c) \<noteq> [] \<Longrightarrow> queue_step c (go_to t Taking c)"
| give_up: "is_at t c (Testing TryGet) \<Longrightarrow> sq_queue (qs_queue c) = [] \<Longrightarrow> queue_step c (return_from t None c)"
| wait: "is_at t c (Testing Get) \<Longrightarrow> sq_queue (qs_queue c) = [] \<Longrightarrow>
    queue_step c (go_to t (Blocked Get) (c\<lparr>qs_mutex := Mutex_Unlock (qs_mutex c)\<rparr>))"
| wait_for: "is_at t c (Testing (GetFor ms)) \<Longrightarrow> sq_queue (qs_queue c) = [] \<Longrightarrow> usec < 1000000 \<Longrightarrow>
    snd (wait_deadline sec usec ms) < 1000000000 \<Longrightarrow>
    queue_step c (go_to t (Blocked (GetFor ms)) (c\<lparr>qs_mutex := Mutex_Unlock (qs_mutex c)\<rparr>))"
| expire: "is_at t c (Blocked (GetFor ms)) \<Longrightarrow> queue_step c (go_to t Expired c)"
| relock: "is_at t c (Woken call) \<Longrightarrow> Mutex_Lock t (qs_mutex c) = Some m \<Longrightarrow> queue_step c (go_to t (Testing call) (c\<lparr>qs_mutex := m\<rparr>))"
| relock_expired: "is_at t c Expired \<Longrightarrow> Mutex_Lock t (qs_mutex c) = Some m \<Longrightarrow> queue_step c (return_from t None (c\<lparr>qs_mutex := m\<rparr>))"
| front: "is_at t c Taking \<Longrightarrow> queue_step c (go_to t (Popping (hd (sq_queue (qs_queue c)))) c)"
| pop: "is_at t c (Popping e) \<Longrightarrow>
    queue_step c (return_from t (Some e) (c\<lparr>qs_queue := (qs_queue c)\<lparr>sq_queue := tl (sq_queue (qs_queue c))\<rparr>, qs_taken := qs_taken c @ [(t, e)]\<rparr>))"
| leave: "is_at t c Leaving \<Longrightarrow> queue_step c (go_to t Outside (c\<lparr>qs_mutex := AutoLock_destroy (qs_mutex c)\<rparr>))"

text \<open>
  Steps that get nowhere: a wake-up without a signal, and a round of the loop of a timed \<open>get\<close> whose deadline is out of range.
  \<open>pthread_cond_timedwait\<close> then returns \<open>EINVAL\<close> at once with the mutex still held, which is neither \<open>ETIMEDOUT\<close> nor negative.
\<close>

inductive futile_step :: "'a queue_system \<Rightarrow> 'a queue_system \<Rightarrow> bool" where
  spurious: "is_at t c (Blocked call) \<Longrightarrow> futile_step c (go_to t (Woken call) c)"
| refused: "is_at t c (Testing (GetFor ms)) \<Longrightarrow> sq_queue (qs_queue c) = [] \<Longrightarrow> usec < 1000000 \<Longrightarrow>
    1000000000 \<le> snd (wait_deadline sec usec ms) \<Longrightarrow> futile_step c c"

inductive queue_reach :: "'a queue_call list list \<Rightarrow> 'a queue_system \<Rightarrow> bool" for progs where
  reach_start: "queue_reach progs (queue_start progs)"
| reach_step: "queue_reach progs c \<Longrightarrow> queue_step c c' \<Longrightarrow> queue_reach progs c'"
| reach_futile: "queue_reach progs c \<Longrightarrow> futile_step c c' \<Longrightarrow> queue_reach progs c'"

section \<open>Steps on places\<close>

definition places :: "'a queue_system \<Rightarrow> 'a place list" where
  "places c = map qt_place (qs_threads c)"

lemma is_at_places: "is_at t c p \<longleftrightarrow> t < length (places c) \<and> places c ! t = p"
  by (auto simp: is_at_def places_def)

lemma length_places [simp]: "length (places c) = length (qs_threads c)"
  by (simp add: places_def)

lemma places_update [simp]:
  "places (c\<lparr>qs_queue := q\<rparr>) = places c" "places (c\<lparr>qs_mutex := m\<rparr>) = places c" "places (c\<lparr>qs_added := a\<rparr>) = places c"
  "places (c\<lparr>qs_taken := a\<rparr>) = places c" "places (c\<lparr>qs_threads := ts\<rparr>) = map qt_place ts"
  by (simp_all add: places_def)

lemma places_step [simp]:
  "places (go_to t p c) = (places c)[t := p]" "places (return_from t r c) = (places c)[t := Leaving]"
  "map qt_place ((qs_threads c)[t := (qs_threads c ! t)\<lparr>qt_place := p, qt_todo := calls\<rparr>]) = (places c)[t := p]"
  by (simp_all add: go_to_def return_from_def places_def map_update)

lemma go_to_simps [simp]:
  "qs_queue (go_to t p c) = qs_queue c" "qs_mutex (go_to t p c) = qs_mutex c" "qs_added (go_to t p c) = qs_added c"
  "qs_taken (go_to t p c) = qs_taken c" "length (qs_threads (go_to t p c)) = length (qs_threads c)"
  by (simp_all add: go_to_def)

lemma return_from_simps [simp]:
  "qs_queue (return_from t r c) = qs_queue c" "qs_mutex (return_from t r c) = qs_mutex c" "qs_added (return_from t r c) = qs_added c"
  "qs_taken (return_from t r c) = qs_taken c" "length (qs_threads (return_from t r c)) = length (qs_threads c)"
  by (simp_all add: return_from_def)

lemma signal_simps [simp]:
  "qs_queue (Conditional_Signal ws c) = qs_queue c" "qs_mutex (Conditional_Signal ws c) = qs_mutex c"
  "qs_added (Conditional_Signal ws c) = qs_added c" "qs_taken (Conditional_Signal ws c) = qs_taken c"
  "length (qs_threads (Conditional_Signal ws c)) = length (qs_threads c)"
  by (simp_all add: Conditional_Signal_def)

fun wake_place :: "'a place \<Rightarrow> 'a place" where
  "wake_place (Blocked call) = Woken call"
| "wake_place p = p"

lemma wake_simps [simp]: "qt_todo (wake th) = qt_todo th" "qt_got (wake th) = qt_got th" "qt_place (wake th) = wake_place (qt_place th)"
  by (simp_all add: wake_def split: place.split)

lemma places_signal:
  "t < length (qs_threads c) \<Longrightarrow> places (Conditional_Signal ws c) ! t = (if t \<in> set ws then wake_place (places c ! t) else places c ! t)"
  by (simp add: Conditional_Signal_def places_def)

section \<open>Mutual exclusion\<close>

text \<open>The places inside of the section, where a thread holds the mutex.\<close>

fun holds :: "'a place \<Rightarrow> bool" where
  "holds Outside = False"
| "holds (Blocked call) = False"
| "holds (Woken call) = False"
| "holds Expired = False"
| "holds p = True"

lemma holds_wake [simp]: "holds (wake_place p) = holds p"
  by (cases p) simp_all

lemma holds_first [simp]: "holds (first_place call)"
  by (cases call) simp_all

definition lock_ok :: "nat option \<Rightarrow> 'a place list \<Rightarrow> bool" where
  "lock_ok h ps \<longleftrightarrow> (\<forall>t. h = Some t \<longleftrightarrow> t < length ps \<and> holds (ps ! t))"

lemma lock_ok_same: "lock_ok h ps \<Longrightarrow> t < length ps \<Longrightarrow> holds p = holds (ps ! t) \<Longrightarrow> lock_ok h (ps[t := p])"
  by (auto simp: lock_ok_def nth_list_update)

lemma lock_ok_take: "lock_ok None ps \<Longrightarrow> t < length ps \<Longrightarrow> holds p \<Longrightarrow> lock_ok (Some t) (ps[t := p])"
  by (auto simp: lock_ok_def nth_list_update)

lemma holder_unique: "lock_ok h ps \<Longrightarrow> t < length ps \<Longrightarrow> u < length ps \<Longrightarrow> holds (ps ! t) \<Longrightarrow> holds (ps ! u) \<Longrightarrow> t = u"
  by (metis lock_ok_def option.inject)

lemma lock_ok_give:
  assumes "lock_ok h ps" and "t < length ps" and "holds (ps ! t)" and "\<not> holds p"
  shows "lock_ok None (ps[t := p])"
proof -
  have "\<not> holds (ps[t := p] ! u)" if "u < length ps" for u
  proof (cases "u = t")
    case False
    then have "\<not> holds (ps ! u)"
      using holder_unique [OF assms(1,2) that assms(3)] by blast
    then show ?thesis
      using False by simp
  qed (use assms in simp)
  then show ?thesis
    by (simp add: lock_ok_def)
qed

lemma lock_ok_signal: "lock_ok h (places c) \<Longrightarrow> lock_ok h (places (Conditional_Signal ws c))"
  by (simp add: lock_ok_def places_signal cong: conj_cong)

lemma lock_free: "Mutex_Lock t m = Some m' \<longleftrightarrow> mutex_holder m = None \<and> m' = \<lparr>mutex_holder = Some t\<rparr>"
  by (cases m) (auto simp: Mutex_Lock_def)

lemmas mutex_simps = AutoLock_new_def lock_free Mutex_Unlock_def AutoLock_destroy_def

abbreviation locked :: "'a queue_system \<Rightarrow> bool" where
  "locked c \<equiv> lock_ok (mutex_holder (qs_mutex c)) (places c)"

lemmas lock_steps = is_at_places mutex_simps lock_ok_same lock_ok_take

lemma locked_step: "queue_step c c' \<Longrightarrow> locked c \<Longrightarrow> locked c'"
proof (induction rule: queue_step.induct)
  case (signal t c ws)
  then show ?case
    by (simp add: lock_steps places_signal lock_ok_signal)
next
  case (wait t c)
  then show ?case
    using lock_ok_give [OF wait(3), of t] by (simp add: lock_steps)
next
  case (wait_for t c ms usec sec)
  then show ?case
    using lock_ok_give [OF wait_for(5), of t] by (simp add: lock_steps)
next
  case (leave t c)
  then show ?case
    using lock_ok_give [OF leave(2), of t] by (simp add: lock_steps)
qed (simp_all add: lock_steps)

lemma locked_futile: "futile_step c c' \<Longrightarrow> locked c \<Longrightarrow> locked c'"
  by (induction rule: futile_step.induct) (simp_all add: lock_steps)

lemma locked_reach: "queue_reach progs c \<Longrightarrow> locked c"
proof (induction rule: queue_reach.induct)
  case reach_start
  then show ?case
    by (auto simp: lock_ok_def queue_start_def places_def Mutex_new_def)
qed (auto intro: locked_step locked_futile)

section \<open>Nothing is lost or taken twice\<close>

text \<open>What a thread about to take has seen is still true: nobody else takes in between.\<close>

fun front_at :: "'a list \<Rightarrow> 'a place \<Rightarrow> bool" where
  "front_at q Taking = (q \<noteq> [])"
| "front_at q (Popping e) = (q \<noteq> [] \<and> e = hd q)"
| "front_at q p = True"

definition front_ok :: "'a list \<Rightarrow> 'a place list \<Rightarrow> bool" where
  "front_ok q ps \<longleftrightarrow> (\<forall>t < length ps. front_at q (ps ! t))"

lemma front_ok_update: "front_ok q ps \<Longrightarrow> front_at q p \<Longrightarrow> front_ok q (ps[t := p])"
  by (cases "t < length ps") (auto simp: front_ok_def nth_list_update)

lemma front_at_outside: "\<not> holds p \<Longrightarrow> front_at q p"
  by (cases p) simp_all

lemma front_at_wake [simp]: "front_at q (wake_place p) = front_at q p"
  by (cases p) simp_all

lemma front_at_first [simp]: "front_at q (first_place call)"
  by (cases call) simp_all

lemma front_ok_signal: "front_ok q (places c) \<Longrightarrow> front_ok q (places (Conditional_Signal ws c))"
  by (simp add: front_ok_def places_signal)

lemma front_ok_append: "front_ok q ps \<Longrightarrow> front_ok (q @ [e]) ps"
proof -
  have "front_at q p \<Longrightarrow> front_at (q @ [e]) p" for p
    by (cases p) simp_all
  then show "front_ok q ps \<Longrightarrow> front_ok (q @ [e]) ps"
    by (simp add: front_ok_def)
qed

lemma front_ok_alone:
  assumes "lock_ok h ps" and "t < length ps" and "holds (ps ! t)" and "front_at q p"
  shows "front_ok q (ps[t := p])"
proof -
  have "front_at q (ps ! u)" if "u < length ps" "u \<noteq> t" for u
    using holder_unique [OF assms(1,2) that(1) assms(3)] that(2) front_at_outside by blast
  then show ?thesis
    using assms(2,4) by (auto simp: front_ok_def nth_list_update)
qed

abbreviation fronts :: "'a queue_system \<Rightarrow> bool" where
  "fronts c \<equiv> front_ok (sq_queue (qs_queue c)) (places c)"

lemma fronts_step: "queue_step c c' \<Longrightarrow> locked c \<Longrightarrow> fronts c \<Longrightarrow> fronts c'"
proof (induction rule: queue_step.induct)
  case (pop t c e)
  then show ?case
    by (simp add: is_at_places front_ok_alone [OF pop(2)])
next
  case (front t c)
  then have "front_at (sq_queue (qs_queue c)) Taking"
    by (metis front_ok_def is_at_places)
  then show ?case
    using front(3) by (simp add: front_ok_update)
qed (simp_all add: is_at_places front_ok_update front_ok_signal front_ok_append)

lemma fronts_reach: "queue_reach progs c \<Longrightarrow> fronts c"
proof (induction rule: queue_reach.induct)
  case reach_start
  then show ?case
    by (simp add: front_ok_def queue_start_def places_def)
next
  case (reach_step c c')
  then show ?case
    using fronts_step locked_reach by blast
qed (auto simp: front_ok_update elim: futile_step.cases)

text \<open>First in, first out.\<close>

definition fifo_ok :: "'a queue_system \<Rightarrow> bool" where
  "fifo_ok c \<longleftrightarrow> map snd (qs_added c) = map snd (qs_taken c) @ sq_queue (qs_queue c)"

lemma fronts_popping: "fronts c \<Longrightarrow> is_at t c (Popping e) \<Longrightarrow> sq_queue (qs_queue c) = e # tl (sq_queue (qs_queue c))"
  using hd_Cons_tl by (fastforce simp: front_ok_def is_at_places)

lemma fifo_step: "queue_step c c' \<Longrightarrow> fronts c \<Longrightarrow> fifo_ok c \<Longrightarrow> fifo_ok c'"
proof (induction rule: queue_step.induct)
  case (pop t c e)
  then show ?case
    using fronts_popping [OF pop(2,1)] by (simp add: fifo_ok_def)
qed (simp_all add: fifo_ok_def)

lemma fifo_reach: "queue_reach progs c \<Longrightarrow> fifo_ok c"
proof (induction rule: queue_reach.induct)
  case reach_start
  then show ?case
    by (simp add: fifo_ok_def queue_start_def)
next
  case (reach_step c c')
  then show ?case
    using fifo_step fronts_reach by blast
qed (auto simp: fifo_ok_def elim: futile_step.cases)

text \<open>Each thread adds what its program says, in its order, and gets what it has taken.\<close>

definition adds :: "'a queue_call list \<Rightarrow> 'a list" where
  "adds calls = concat (map (\<lambda>call. case call of Add e \<Rightarrow> [e] | _ \<Rightarrow> []) calls)"

fun pending :: "'a place \<Rightarrow> 'a list" where
  "pending (Pushing e) = [e]"
| "pending p = []"

definition gained :: "'a option list \<Rightarrow> 'a list" where
  "gained rs = map the (filter (\<lambda>r. r \<noteq> None) rs)"

definition of_thread :: "nat \<Rightarrow> (nat \<times> 'a) list \<Rightarrow> 'a list" where
  "of_thread t log = map snd (filter (\<lambda>(u, e). u = t) log)"

lemma adds_simps [simp]: "adds [] = []" "adds (call # calls) = pending (first_place call) @ adds calls"
  by (simp_all add: adds_def split: queue_call.split)

lemma pending_wake [simp]: "pending (wake_place p) = pending p"
  by (cases p) simp_all

lemma gained_snoc [simp]: "gained (rs @ [None]) = gained rs" "gained (rs @ [Some e]) = gained rs @ [e]"
  by (simp_all add: gained_def)

lemma of_thread_snoc [simp]: "of_thread t (log @ [(u, e)]) = of_thread t log @ (if u = t then [e] else [])"
  by (simp add: of_thread_def)

definition queue_thread_ok :: "'a queue_call list list \<Rightarrow> 'a queue_system \<Rightarrow> nat \<Rightarrow> bool" where
  "queue_thread_ok progs c t \<longleftrightarrow>
    of_thread t (qs_added c) @ pending (qt_place (qs_threads c ! t)) @ adds (qt_todo (qs_threads c ! t)) = adds (progs ! t) \<and>
    gained (qt_got (qs_threads c ! t)) = of_thread t (qs_taken c)"

lemma step_length [simp]: "queue_step c c' \<Longrightarrow> length (qs_threads c') = length (qs_threads c)"
  by (induction rule: queue_step.induct) simp_all

lemma futile_length [simp]: "futile_step c c' \<Longrightarrow> length (qs_threads c') = length (qs_threads c)"
  by (induction rule: futile_step.induct) simp_all

lemma reach_length: "queue_reach progs c \<Longrightarrow> length (qs_threads c) = length progs"
  by (induction rule: queue_reach.induct) (simp_all add: queue_start_def)

lemmas step_nth = is_at_def go_to_def return_from_def Conditional_Signal_def nth_list_update

lemma queue_thread_ok_step: "queue_step c c' \<Longrightarrow> u < length (qs_threads c) \<Longrightarrow> queue_thread_ok progs c u \<Longrightarrow> queue_thread_ok progs c' u"
  by (induction rule: queue_step.induct) (auto simp: queue_thread_ok_def step_nth)

lemma queue_thread_ok_futile: "futile_step c c' \<Longrightarrow> u < length (qs_threads c) \<Longrightarrow> queue_thread_ok progs c u \<Longrightarrow> queue_thread_ok progs c' u"
  by (induction rule: futile_step.induct) (auto simp: queue_thread_ok_def step_nth)

lemma queue_thread_ok_reach: "queue_reach progs c \<Longrightarrow> u < length progs \<Longrightarrow> queue_thread_ok progs c u"
proof (induction rule: queue_reach.induct)
  case reach_start
  then show ?case
    by (simp add: queue_thread_ok_def queue_start_def of_thread_def gained_def)
next
  case (reach_step c c')
  then show ?case
    using queue_thread_ok_step reach_length by metis
next
  case (reach_futile c c')
  then show ?case
    using queue_thread_ok_futile reach_length by metis
qed

section \<open>What the queue promises\<close>

text \<open>C13. Any number of threads call \<open>add\<close>, \<open>tryget\<close> and both forms of \<open>get\<close> of one shared queue, with their statements interleaved
  as the mutex and the condition variable allow, with wake-ups without a signal and time-outs at any moment.  Never are two
  threads inside of a call that holds the mutex; what has been taken out so far, followed by what is in the queue, is what has
  been added, in the same order; every thread has added a prefix of what its calls of \<open>add\<close> say, in their order; and
  what its other calls have returned is exactly what it has taken out.\<close>

theorem queue_delivers_once:
  assumes "queue_reach progs c"
  shows "(\<forall>t u. t < length progs \<and> u < length progs \<and> holds (places c ! t) \<and> holds (places c ! u) \<longrightarrow> t = u) \<and>
    map snd (qs_added c) = map snd (qs_taken c) @ sq_queue (qs_queue c) \<and>
    (\<forall>t < length progs.
      of_thread t (qs_added c) @ pending (places c ! t) @ adds (qt_todo (qs_threads c ! t)) = adds (progs ! t) \<and>
      gained (qt_got (qs_threads c ! t)) = of_thread t (qs_taken c))"
proof (intro conjI)
  show "\<forall>t u. t < length progs \<and> u < length progs \<and> holds (places c ! t) \<and> holds (places c ! u) \<longrightarrow> t = u"
    using holder_unique [OF locked_reach [OF assms]] reach_length [OF assms] by auto
  show "map snd (qs_added c) = map snd (qs_taken c) @ sq_queue (qs_queue c)"
    using fifo_reach [OF assms] by (simp add: fifo_ok_def)
  show "\<forall>t < length progs.
      of_thread t (qs_added c) @ pending (places c ! t) @ adds (qt_todo (qs_threads c ! t)) = adds (progs ! t) \<and>
      gained (qt_got (qs_threads c ! t)) = of_thread t (qs_taken c)"
    using queue_thread_ok_reach [OF assms] reach_length [OF assms] by (auto simp: queue_thread_ok_def places_def)
qed

text \<open>Thread 1 waits in \<open>get\<close>; thread 0 adds and wakes it; it takes the element.\<close>

abbreviation queue_demo_progs :: "int queue_call list list" where
  "queue_demo_progs \<equiv> [[Add 7], [Get]]"

definition queue_demo_state :: "int list \<Rightarrow> nat option \<Rightarrow> int qthread \<Rightarrow> int qthread \<Rightarrow> (nat \<times> int) list \<Rightarrow> (nat \<times> int) list \<Rightarrow> int queue_system" where
  "queue_demo_state q m a b added taken =
    \<lparr>qs_queue = \<lparr>sq_queue = q\<rparr>, qs_mutex = \<lparr>mutex_holder = m\<rparr>, qs_threads = [a, b], qs_added = added, qs_taken = taken\<rparr>"

abbreviation demo_thread :: "int place \<Rightarrow> int queue_call list \<Rightarrow> int option list \<Rightarrow> int qthread" where
  "demo_thread p calls got \<equiv> \<lparr>qt_place = p, qt_todo = calls, qt_got = got\<rparr>"

lemmas queue_demo = queue_demo_state_def is_at_def go_to_def return_from_def mutex_simps

lemma queue_demo_wakes: "queue_reach queue_demo_progs (queue_demo_state [7] None (demo_thread Outside [] []) (demo_thread (Woken Get) [] []) [(0, 7)] [])"
proof -
  let ?a0 = "demo_thread Outside [Add 7] []" and ?b0 = "demo_thread Outside [Get] []"
  have r: "queue_reach queue_demo_progs (queue_demo_state [] None ?a0 ?b0 [] [])"
    using reach_start [of queue_demo_progs] by (simp add: queue_start_def queue_demo_state_def Mutex_new_def)
  have "queue_step (queue_demo_state [] None ?a0 ?b0 [] []) (queue_demo_state [] (Some 1) ?a0 (demo_thread (Testing Get) [] []) [] [])"
    using queue_step.enter [of 1 "queue_demo_state [] None ?a0 ?b0 [] []" Get "[]"] by (simp add: queue_demo)
  note r = reach_step [OF r this]
  have "queue_step (queue_demo_state [] (Some 1) ?a0 (demo_thread (Testing Get) [] []) [] []) (queue_demo_state [] None ?a0 (demo_thread (Blocked Get) [] []) [] [])"
    using queue_step.wait [of 1 "queue_demo_state [] (Some 1) ?a0 (demo_thread (Testing Get) [] []) [] []"] by (simp add: queue_demo)
  note r = reach_step [OF r this]
  let ?b1 = "demo_thread (Blocked Get) [] []"
  have "queue_step (queue_demo_state [] None ?a0 ?b1 [] []) (queue_demo_state [] (Some 0) (demo_thread (Pushing 7) [] []) ?b1 [] [])"
    using queue_step.enter [of 0 "queue_demo_state [] None ?a0 ?b1 [] []" "Add 7" "[]"] by (simp add: queue_demo)
  note r = reach_step [OF r this]
  have "queue_step (queue_demo_state [] (Some 0) (demo_thread (Pushing 7) [] []) ?b1 [] []) (queue_demo_state [7] (Some 0) (demo_thread Signalling [] []) ?b1 [(0, 7)] [])"
    using queue_step.push [of 0 "queue_demo_state [] (Some 0) (demo_thread (Pushing 7) [] []) ?b1 [] []" 7] by (simp add: queue_demo)
  note r = reach_step [OF r this]
  let ?b2 = "demo_thread (Woken Get) [] []"
  have "queue_step (queue_demo_state [7] (Some 0) (demo_thread Signalling [] []) ?b1 [(0, 7)] []) (queue_demo_state [7] (Some 0) (demo_thread Leaving [] []) ?b2 [(0, 7)] [])"
    using queue_step.signal [of 0 "queue_demo_state [7] (Some 0) (demo_thread Signalling [] []) ?b1 [(0, 7)] []" "[1]"]
    by (simp add: queue_demo wakes_ok_def waits_def Conditional_Signal_def wake_def upt_rec)
  note r = reach_step [OF r this]
  let ?a1 = "demo_thread Outside [] []"
  have "queue_step (queue_demo_state [7] (Some 0) (demo_thread Leaving [] []) ?b2 [(0, 7)] []) (queue_demo_state [7] None ?a1 ?b2 [(0, 7)] [])"
    using queue_step.leave [of 0 "queue_demo_state [7] (Some 0) (demo_thread Leaving [] []) ?b2 [(0, 7)] []"] by (simp add: queue_demo)
  with r show ?thesis
    by (rule reach_step)
qed

lemma queue_demo_reach: "queue_reach queue_demo_progs (queue_demo_state [] None (demo_thread Outside [] []) (demo_thread Outside [] [Some 7]) [(0, 7)] [(1, 7)])"
proof -
  let ?a1 = "demo_thread Outside [] []" and ?b2 = "demo_thread (Woken Get) [] []"
  have "queue_step (queue_demo_state [7] None ?a1 ?b2 [(0, 7)] []) (queue_demo_state [7] (Some 1) ?a1 (demo_thread (Testing Get) [] []) [(0, 7)] [])"
    using queue_step.relock [of 1 "queue_demo_state [7] None ?a1 ?b2 [(0, 7)] []" Get] by (simp add: queue_demo)
  note r = reach_step [OF queue_demo_wakes this]
  have "queue_step (queue_demo_state [7] (Some 1) ?a1 (demo_thread (Testing Get) [] []) [(0, 7)] []) (queue_demo_state [7] (Some 1) ?a1 (demo_thread Taking [] []) [(0, 7)] [])"
    using queue_step.not_empty [of 1 "queue_demo_state [7] (Some 1) ?a1 (demo_thread (Testing Get) [] []) [(0, 7)] []" Get] by (simp add: queue_demo)
  note r = reach_step [OF r this]
  have "queue_step (queue_demo_state [7] (Some 1) ?a1 (demo_thread Taking [] []) [(0, 7)] []) (queue_demo_state [7] (Some 1) ?a1 (demo_thread (Popping 7) [] []) [(0, 7)] [])"
    using queue_step.front [of 1 "queue_demo_state [7] (Some 1) ?a1 (demo_thread Taking [] []) [(0, 7)] []"] by (simp add: queue_demo)
  note r = reach_step [OF r this]
  have "queue_step (queue_demo_state [7] (Some 1) ?a1 (demo_thread (Popping 7) [] []) [(0, 7)] []) (queue_demo_state [] (Some 1) ?a1 (demo_thread Leaving [] [Some 7]) [(0, 7)] [(1, 7)])"
    using queue_step.pop [of 1 "queue_demo_state [7] (Some 1) ?a1 (demo_thread (Popping 7) [] []) [(0, 7)] []" 7] by (simp add: queue_demo)
  note r = reach_step [OF r this]
  have "queue_step (queue_demo_state [] (Some 1) ?a1 (demo_thread Leaving [] [Some 7]) [(0, 7)] [(1, 7)]) (queue_demo_state [] None ?a1 (demo_thread Outside [] [Some 7]) [(0, 7)] [(1, 7)])"
    using queue_step.leave [of 1 "queue_demo_state [] (Some 1) ?a1 (demo_thread Leaving [] [Some 7]) [(0, 7)] [(1, 7)]"] by (simp add: queue_demo)
  with r show ?thesis
    by (rule reach_step)
qed

theorem queue_delivers_once_witness: "map snd [(0, 7)] = map snd [(1, 7)] @ ([] :: int list) \<and> gained [Some 7] = [7 :: int]"
proof -
  let ?c = "queue_demo_state [] None (demo_thread Outside [] []) (demo_thread Outside [] [Some 7]) [(0, 7)] [(1, 7)]"
  have "map snd (qs_added ?c) = map snd (qs_taken ?c) @ sq_queue (qs_queue ?c)"
    "gained (qt_got (qs_threads ?c ! 1)) = of_thread 1 (qs_taken ?c)"
    using queue_delivers_once [OF queue_demo_reach] by simp_all
  then show ?thesis
    by (simp add: queue_demo_state_def of_thread_def)
qed

end
