(* ===== verification/Queue_Progress.thy ===== *)
theory Queue_Progress
  imports Queue_Wait
begin

text \<open>
  That calls of the shared queue return: no wake-up is lost, and every step but two kinds leaves less to do.  The two kinds are a
  wake-up without a signal, and a round of a timed \<open>get\<close> whose deadline the system refuses: that round changes nothing and keeps
  the mutex.  A wait shorter than a second goes round in this way until the microseconds of the clock leave room for it; a longer
  one does so for ever.
\<close>

section \<open>No wake-up is lost\<close>















section \<open>Every call returns, or waits for an element\<close>

text \<open>What is left to do for \<open>n\<close> threads; a signal can wake all of them.\<close>

fun place_work :: "nat \<Rightarrow> 'a place \<Rightarrow> nat" where
  "place_work n Outside = 0"
| "place_work n (Pushing e) = 3 + 2 * n"
| "place_work n Signalling = 2 + 2 * n"
| "place_work n (Testing call) = 4"
| "place_work n (Blocked call) = 3"
| "place_work n (Woken call) = 5"
| "place_work n Expired = 2"
| "place_work n Taking = 3"
| "place_work n (Popping e) = 2"
| "place_work n Leaving = 1"

definition thread_work :: "nat \<Rightarrow> 'a qthread \<Rightarrow> nat" where
  "thread_work n th = place_work n (qt_place th) + sum_list (map (\<lambda>call. Suc (place_work n (first_place call))) (qt_todo th))"

definition queue_work :: "'a queue_system \<Rightarrow> nat" where
  "queue_work c = (\<Sum>t<length (qs_threads c). thread_work (length (qs_threads c)) (qs_threads c ! t))"





lemma work_other [simp]:
  "queue_work (go_to t p (c\<lparr>qs_queue := q, qs_added := a\<rparr>)) = queue_work (go_to t p c)"
  "queue_work (go_to t p (c\<lparr>qs_mutex := m\<rparr>)) = queue_work (go_to t p c)"
  "queue_work (return_from t r (c\<lparr>qs_mutex := m\<rparr>)) = queue_work (return_from t r c)"
  "queue_work (return_from t r (c\<lparr>qs_queue := q, qs_taken := a\<rparr>)) = queue_work (return_from t r c)"
  by (simp_all add: queue_work_def go_to_def return_from_def)







text \<open>Where no thread can go on, each has finished or waits in \<open>get\<close> for an element of an empty queue.\<close>

fun short_call :: "'a queue_call \<Rightarrow> bool" where
  "short_call (GetFor ms) = (ms < 1000)"
| "short_call call = True"

fun short_place :: "'a place \<Rightarrow> bool" where
  "short_place (Testing call) = short_call call"
| "short_place (Blocked call) = short_call call"
| "short_place (Woken call) = short_call call"
| "short_place p = True"

fun in_get :: "'a place \<Rightarrow> bool" where
  "in_get (Testing call) = True"
| "in_get (Blocked call) = True"
| "in_get (Woken call) = True"
| "in_get Expired = True"
| "in_get Taking = True"
| "in_get (Popping e) = True"
| "in_get p = False"


fun not_add :: "'a place \<Rightarrow> bool" where
  "not_add (Testing call) = in_get (first_place call)"
| "not_add (Blocked call) = (in_get (first_place call) \<and> call \<noteq> TryGet)"
| "not_add (Woken call) = (in_get (first_place call) \<and> call \<noteq> TryGet)"
| "not_add p = True"


lemma place_wake [simp]: "in_get (wake_place p) = in_get p" "not_add (wake_place p) = not_add p" "short_place (wake_place p) = short_place p"
  by (cases p; simp)+

















section \<open>What the calls promise\<close>



section \<open>A timed wait of a second or more\<close>

text \<open>
  The deadline that \<open>Conditional::Wait\<close> computes for such a wait is refused.  On an empty queue the loop then goes round for
  ever with the mutex held, and no other thread can add anything.
\<close>

abbreviation any_step :: "'a queue_system \<Rightarrow> 'a queue_system \<Rightarrow> bool" where
  "any_step c c' \<equiv> queue_step c c' \<or> futile_step c c'"

abbreviation spinning :: "nat \<Rightarrow> nat \<Rightarrow> 'a queue_system \<Rightarrow> bool" where
  "spinning t ms c \<equiv> locked c \<and> is_at t c (Testing (GetFor ms)) \<and> sq_queue (qs_queue c) = []"

lemma spinning_holds: "spinning t ms c \<Longrightarrow> mutex_holder (qs_mutex c) = Some t"
  by (simp add: lock_ok_def is_at_places)

lemma spinning_others: "spinning t ms c \<Longrightarrow> is_at u c p \<Longrightarrow> holds p \<Longrightarrow> u = t \<and> p = Testing (GetFor ms)"
  using holder_unique [of _ "places c" u t] by (auto simp: is_at_places)

lemma spinning_is_at: "spinning t ms c \<Longrightarrow> is_at u c p \<Longrightarrow> u \<noteq> t \<Longrightarrow> is_at t (go_to u q c) (Testing (GetFor ms))"
  by (simp add: is_at_places)

lemma spinning_step:
  assumes "any_step c c'" and spin: "spinning t ms c" and "1000 \<le> ms"
  shows "spinning t ms c'"
  using assms(1)
proof
  assume step: "queue_step c c'"
  have free: "mutex_holder (qs_mutex c) \<noteq> None"
    using spinning_holds [OF spin] by simp
  have late: "\<not> snd (wait_deadline sec usec ms) < 1000000000" for sec usec
    using wait_deadline_nsec [of sec usec ms] assms(3) by simp
  have no: "\<not> is_at u c (Pushing e)" "\<not> is_at u c Signalling" "\<not> is_at u c Taking" "\<not> is_at u c (Popping e)" "\<not> is_at u c Leaving"
    and no': "\<not> is_at u c (Testing TryGet)" "\<not> is_at u c (Testing Get)" "is_at u c (Testing (GetFor ms')) \<longleftrightarrow> u = t \<and> ms' = ms" for u e ms'
    using spinning_others [OF spin, of u] spin by fastforce+
  from step have "is_at t c' (Testing (GetFor ms)) \<and> sq_queue (qs_queue c') = []"
  proof cases
    case (expire u ms')
    then have "u \<noteq> t"
      using spin by (auto simp: is_at_places)
    then show ?thesis
      using expire spin spinning_is_at [OF spin expire(2)] by simp
  qed (use spin free late no no' in \<open>auto simp: mutex_simps\<close>)
  then show ?thesis
    using locked_step [OF step] spin by blast
next
  assume step: "futile_step c c'"
  then have "is_at t c' (Testing (GetFor ms)) \<and> sq_queue (qs_queue c') = []"
  proof cases
    case (spurious u call)
    then have "u \<noteq> t"
      using spin by (auto simp: is_at_places)
    then show ?thesis
      using spurious spin spinning_is_at [OF spin spurious(2)] by simp
  qed (use spin in simp)
  then show ?thesis
    using locked_futile [OF step] spin by blast
qed

theorem long_wait_locks_queue:
  assumes "any_step\<^sup>*\<^sup>* c c'" and "queue_reach progs c" and "is_at t c (Testing (GetFor ms))" and "sq_queue (qs_queue c) = []" and "1000 \<le> ms"
  shows "is_at t c' (Testing (GetFor ms)) \<and> sq_queue (qs_queue c') = [] \<and> mutex_holder (qs_mutex c') = Some t"
proof -
  have start: "spinning t ms c"
    using assms(3,4) locked_reach [OF assms(2)] by simp
  from assms(1) have "spinning t ms c'"
  proof (induction rule: rtranclp_induct)
    case (step y z)
    from spinning_step [OF step(2,3) assms(5)] show ?case .
  qed (rule start)
  then show ?thesis
    using spinning_holds by blast
qed

end
