(* ===== verification/Atomic_Threads.thy ===== *)
theory Atomic_Threads
  imports Locks
begin

text \<open>
  \<open>rwlock.h\<close>, the two scoped locks of \<open>autolock.h\<close> for it, and the counter \<open>atomic.h\<close> that uses them, with the loads and stores of
  several threads interleaved.  \<open>Containers\<close> has the operations of the counter as single steps; here a change is a load
  and a store of the member, and a function that returns a reference leaves the reading to its caller, who no longer holds the lock.
\<close>

section \<open>The read-write lock\<close>

record RWlock =
  rw_readers :: "nat list"
  rw_writer :: "nat option"

definition RWlock_new :: RWlock where
  "RWlock_new = \<lparr>rw_readers = [], rw_writer = None\<rparr>"

text \<open>\<open>None\<close>: the caller waits.\<close>

definition RWlock_Rdlock :: "nat \<Rightarrow> RWlock \<Rightarrow> RWlock option" where
  "RWlock_Rdlock t l = (if rw_writer l = None then Some (l\<lparr>rw_readers := t # rw_readers l\<rparr>) else None)"

definition RWlock_Wrlock :: "nat \<Rightarrow> RWlock \<Rightarrow> RWlock option" where
  "RWlock_Wrlock t l = (if rw_writer l = None \<and> rw_readers l = [] then Some (l\<lparr>rw_writer := Some t\<rparr>) else None)"

definition RWlock_TryRdlock :: "nat \<Rightarrow> RWlock \<Rightarrow> int \<times> RWlock" where
  "RWlock_TryRdlock t l = (case RWlock_Rdlock t l of None \<Rightarrow> (EBUSY, l) | Some l \<Rightarrow> (0, l))"

definition RWlock_TryWrlock :: "nat \<Rightarrow> RWlock \<Rightarrow> int \<times> RWlock" where
  "RWlock_TryWrlock t l = (case RWlock_Wrlock t l of None \<Rightarrow> (EBUSY, l) | Some l \<Rightarrow> (0, l))"

definition RWlock_Unlock :: "nat \<Rightarrow> RWlock \<Rightarrow> RWlock" where
  "RWlock_Unlock t l = (if rw_writer l = Some t then l\<lparr>rw_writer := None\<rparr> else l\<lparr>rw_readers := remove1 t (rw_readers l)\<rparr>)"

definition AutoRLock_new :: "nat \<Rightarrow> RWlock \<Rightarrow> RWlock option" where
  "AutoRLock_new t l = RWlock_Rdlock t l"

definition AutoRLock_destroy :: "nat \<Rightarrow> RWlock \<Rightarrow> RWlock" where
  "AutoRLock_destroy t l = RWlock_Unlock t l"

definition AutoWLock_new :: "nat \<Rightarrow> RWlock \<Rightarrow> RWlock option" where
  "AutoWLock_new t l = RWlock_Wrlock t l"

definition AutoWLock_destroy :: "nat \<Rightarrow> RWlock \<Rightarrow> RWlock" where
  "AutoWLock_destroy t l = RWlock_Unlock t l"

section \<open>Calls on a counter\<close>

datatype 'a atomic_call =
    Inc | IncBy 'a | Dec | DecBy 'a | PreIncr | PreDecr | PostIncr | PostDecr | GetRef | SetTo 'a

fun atomic_effect :: "'a::ring_1 atomic_call \<Rightarrow> 'a Atomic \<Rightarrow> 'a \<times> 'a Atomic" where
  "atomic_effect Inc a = Atomic_inc a"
| "atomic_effect (IncBy d) a = Atomic_inc_by d a"
| "atomic_effect Dec a = Atomic_dec a"
| "atomic_effect (DecBy d) a = Atomic_dec_by d a"
| "atomic_effect PreIncr a = Atomic_pre_incr a"
| "atomic_effect PreDecr a = Atomic_pre_decr a"
| "atomic_effect PostIncr a = Atomic_post_incr a"
| "atomic_effect PostDecr a = Atomic_post_decr a"
| "atomic_effect GetRef a = (Atomic_get a, a)"
| "atomic_effect (SetTo v) a = Atomic_set v a"

text \<open>The two functions that return a copy; all others return \<open>T &\<close>.\<close>

fun by_value :: "'a atomic_call \<Rightarrow> bool" where
  "by_value PostIncr = True"
| "by_value PostDecr = True"
| "by_value call = False"

fun only_reads :: "'a atomic_call \<Rightarrow> bool" where
  "only_reads GetRef = True"
| "only_reads call = False"

definition new_value :: "'a::ring_1 atomic_call \<Rightarrow> 'a \<Rightarrow> 'a" where
  "new_value call v = a_value (snd (atomic_effect call \<lparr>a_value = v\<rparr>))"

text \<open>\<open>Changed\<close> is the destructor of the scoped lock, with the copy to return, if any; \<open>HasRef\<close> is the caller about to
  read through the reference it got.\<close>

datatype 'a atomic_place =
    Idle
  | Locked "'a atomic_call"
  | Copied "'a atomic_call" 'a
  | Loaded "'a atomic_call" "'a option" 'a
  | Changed "'a atomic_call" "'a option"
  | HasRef "'a atomic_call"

record 'a athread =
  at_place :: "'a atomic_place"
  at_todo :: "'a atomic_call list"
  at_got :: "('a atomic_call \<times> 'a) list"

text \<open>\<open>as_log\<close> is the history of the stores: the thread, its call, and the value it replaced.\<close>

record 'a atomic_system =
  as_value :: "'a Atomic"
  as_lock :: RWlock
  as_threads :: "'a athread list"
  as_log :: "(nat \<times> 'a atomic_call \<times> 'a) list"

definition atomic_start :: "'a \<Rightarrow> 'a atomic_call list list \<Rightarrow> 'a atomic_system" where
  "atomic_start v progs =
    \<lparr>as_value = \<lparr>a_value = v\<rparr>, as_lock = RWlock_new, as_threads = map (\<lambda>p. \<lparr>at_place = Idle, at_todo = p, at_got = []\<rparr>) progs, as_log = []\<rparr>"

definition lock_for :: "nat \<Rightarrow> 'a atomic_call \<Rightarrow> RWlock \<Rightarrow> RWlock option" where
  "lock_for t call l = (if only_reads call then AutoRLock_new t l else AutoWLock_new t l)"

definition unlock_for :: "nat \<Rightarrow> 'a atomic_call \<Rightarrow> RWlock \<Rightarrow> RWlock" where
  "unlock_for t call l = (if only_reads call then AutoRLock_destroy t l else AutoWLock_destroy t l)"

definition stands :: "nat \<Rightarrow> 'a atomic_system \<Rightarrow> 'a atomic_place \<Rightarrow> bool" where
  "stands t c p \<longleftrightarrow> t < length (as_threads c) \<and> at_place (as_threads c ! t) = p"

definition moves :: "nat \<Rightarrow> 'a atomic_place \<Rightarrow> 'a atomic_system \<Rightarrow> 'a atomic_system" where
  "moves t p c = c\<lparr>as_threads := (as_threads c)[t := (as_threads c ! t)\<lparr>at_place := p\<rparr>]\<rparr>"

definition gets_value :: "nat \<Rightarrow> 'a atomic_call \<Rightarrow> 'a \<Rightarrow> 'a atomic_system \<Rightarrow> 'a atomic_system" where
  "gets_value t call v c =
    c\<lparr>as_threads := (as_threads c)[t := (as_threads c ! t)\<lparr>at_place := Idle, at_got := at_got (as_threads c ! t) @ [(call, v)]\<rparr>]\<rparr>"

inductive atomic_step :: "'a::ring_1 atomic_system \<Rightarrow> 'a atomic_system \<Rightarrow> bool" where
  lock: "stands t c Idle \<Longrightarrow> at_todo (as_threads c ! t) = call # calls \<Longrightarrow> lock_for t call (as_lock c) = Some l \<Longrightarrow>
    atomic_step c (c\<lparr>as_lock := l, as_threads := (as_threads c)[t := (as_threads c ! t)\<lparr>at_place := Locked call, at_todo := calls\<rparr>]\<rparr>)"
| copy: "stands t c (Locked call) \<Longrightarrow> by_value call \<Longrightarrow> atomic_step c (moves t (Copied call (a_value (as_value c))) c)"
| load: "stands t c (Locked call) \<Longrightarrow> \<not> by_value call \<Longrightarrow> \<not> only_reads call \<Longrightarrow>
    atomic_step c (moves t (Loaded call None (a_value (as_value c))) c)"
| load_again: "stands t c (Copied call r) \<Longrightarrow> atomic_step c (moves t (Loaded call (Some r) (a_value (as_value c))) c)"
| store: "stands t c (Loaded call r v) \<Longrightarrow>
    atomic_step c (moves t (Changed call r) (c\<lparr>as_value := \<lparr>a_value = new_value call v\<rparr>, as_log := as_log c @ [(t, call, v)]\<rparr>))"
| no_change: "stands t c (Locked call) \<Longrightarrow> only_reads call \<Longrightarrow> atomic_step c (moves t (Changed call None) c)"
| unlock_copy: "stands t c (Changed call (Some r)) \<Longrightarrow>
    atomic_step c (gets_value t call r (c\<lparr>as_lock := unlock_for t call (as_lock c)\<rparr>))"
| unlock_ref: "stands t c (Changed call None) \<Longrightarrow> atomic_step c (moves t (HasRef call) (c\<lparr>as_lock := unlock_for t call (as_lock c)\<rparr>))"
| read_ref: "stands t c (HasRef call) \<Longrightarrow> atomic_step c (gets_value t call (a_value (as_value c)) c)"

inductive atomic_reach :: "'a::ring_1 \<Rightarrow> 'a atomic_call list list \<Rightarrow> 'a atomic_system \<Rightarrow> bool" for v progs where
  atomic_begin: "atomic_reach v progs (atomic_start v progs)"
| atomic_next: "atomic_reach v progs c \<Longrightarrow> atomic_step c c' \<Longrightarrow> atomic_reach v progs c'"

section \<open>Steps on places\<close>

definition spots :: "'a atomic_system \<Rightarrow> 'a atomic_place list" where
  "spots c = map at_place (as_threads c)"

lemma stands_spots: "stands t c p \<longleftrightarrow> t < length (spots c) \<and> spots c ! t = p"
  by (auto simp: stands_def spots_def)

lemma length_spots [simp]: "length (spots c) = length (as_threads c)"
  by (simp add: spots_def)

lemma spots_step [simp]:
  "spots (moves t p c) = (spots c)[t := p]" "spots (gets_value t call v c) = (spots c)[t := Idle]"
  "map at_place ((as_threads c)[t := (as_threads c ! t)\<lparr>at_place := p, at_todo := calls\<rparr>]) = (spots c)[t := p]"
  "spots (c\<lparr>as_lock := l\<rparr>) = spots c" "spots (c\<lparr>as_value := x\<rparr>) = spots c" "spots (c\<lparr>as_log := g\<rparr>) = spots c"
  "spots (c\<lparr>as_threads := ts\<rparr>) = map at_place ts"
  by (simp_all add: moves_def gets_value_def spots_def map_update)

lemma moves_simps [simp]:
  "as_value (moves t p c) = as_value c" "as_lock (moves t p c) = as_lock c" "as_log (moves t p c) = as_log c"
  "length (as_threads (moves t p c)) = length (as_threads c)"
  "as_value (gets_value t call v c) = as_value c" "as_lock (gets_value t call v c) = as_lock c" "as_log (gets_value t call v c) = as_log c"
  "length (as_threads (gets_value t call v c)) = length (as_threads c)"
  by (simp_all add: moves_def gets_value_def)

lemma atomic_step_length: "atomic_step c c' \<Longrightarrow> length (as_threads c') = length (as_threads c)"
  by (induction rule: atomic_step.induct) simp_all

lemma atomic_reach_length: "atomic_reach v progs c \<Longrightarrow> length (as_threads c) = length progs"
  by (induction rule: atomic_reach.induct) (simp_all add: atomic_start_def atomic_step_length)

section \<open>Who holds the lock\<close>

fun in_call :: "'a atomic_place \<Rightarrow> 'a atomic_call option" where
  "in_call (Locked call) = Some call"
| "in_call (Copied call r) = Some call"
| "in_call (Loaded call r v) = Some call"
| "in_call (Changed call r) = Some call"
| "in_call p = None"

definition reading :: "'a atomic_place \<Rightarrow> bool" where
  "reading p \<longleftrightarrow> (case in_call p of None \<Rightarrow> False | Some call \<Rightarrow> only_reads call)"

definition writing :: "'a atomic_place \<Rightarrow> bool" where
  "writing p \<longleftrightarrow> (case in_call p of None \<Rightarrow> False | Some call \<Rightarrow> \<not> only_reads call)"

definition rw_ok :: "RWlock \<Rightarrow> 'a atomic_place list \<Rightarrow> bool" where
  "rw_ok l ps \<longleftrightarrow> distinct (rw_readers l) \<and> (\<forall>t. t \<in> set (rw_readers l) \<longleftrightarrow> t < length ps \<and> reading (ps ! t)) \<and>
     (\<forall>t. rw_writer l = Some t \<longleftrightarrow> t < length ps \<and> writing (ps ! t)) \<and> (rw_writer l \<noteq> None \<longrightarrow> rw_readers l = [])"

lemma rw_same: "rw_ok l ps \<Longrightarrow> t < length ps \<Longrightarrow> in_call p = in_call (ps ! t) \<Longrightarrow> rw_ok l (ps[t := p])"
  by (auto simp: rw_ok_def nth_list_update reading_def writing_def)

lemma rw_lock:
  "rw_ok l ps \<Longrightarrow> t < length ps \<Longrightarrow> in_call (ps ! t) = None \<Longrightarrow> lock_for t call l = Some l' \<Longrightarrow> in_call p = Some call \<Longrightarrow> rw_ok l' (ps[t := p])"
  by (auto simp: rw_ok_def nth_list_update reading_def writing_def lock_for_def AutoRLock_new_def AutoWLock_new_def RWlock_Rdlock_def
      RWlock_Wrlock_def split: if_splits)

lemma rw_unlock:
  assumes ok: "rw_ok l ps" and t: "t < length ps" and call: "in_call (ps ! t) = Some call" and p: "in_call p = None"
  shows "rw_ok (unlock_for t call l) (ps[t := p])"
proof -
  have out: "\<not> reading p" "\<not> writing p"
    using p by (simp_all add: reading_def writing_def)
  have rs: "distinct (rw_readers l)" "\<And>u. u \<in> set (rw_readers l) \<longleftrightarrow> u < length ps \<and> reading (ps ! u)"
    and w: "\<And>u. rw_writer l = Some u \<longleftrightarrow> u < length ps \<and> writing (ps ! u)" and none: "rw_writer l \<noteq> None \<Longrightarrow> rw_readers l = []"
    using ok by (auto simp: rw_ok_def)
  show ?thesis
  proof (cases "rw_writer l = Some t")
    case True
    then have "unlock_for t call l = l\<lparr>rw_writer := None\<rparr>"
      by (simp add: unlock_for_def AutoRLock_destroy_def AutoWLock_destroy_def RWlock_Unlock_def)
    moreover have "\<not> reading (ps[t := p] ! u)" if "u < length ps" for u
      using that rs(2) [of u] none True out(1) by (cases "u = t") auto
    moreover have "\<not> writing (ps[t := p] ! u)" if "u < length ps" for u
      using that w [of u] True out(2) by (cases "u = t") auto
    ultimately show ?thesis
      using none True by (auto simp: rw_ok_def)
  next
    case False
    then have l: "unlock_for t call l = l\<lparr>rw_readers := remove1 t (rw_readers l)\<rparr>"
      by (simp add: unlock_for_def AutoRLock_destroy_def AutoWLock_destroy_def RWlock_Unlock_def)
    have "u \<in> set (remove1 t (rw_readers l)) \<longleftrightarrow> u < length ps \<and> reading (ps[t := p] ! u)" for u
      using rs out(1) by (cases "u = t") auto
    moreover have "rw_writer l = Some u \<longleftrightarrow> u < length ps \<and> writing (ps[t := p] ! u)" for u
      using w [of u] False out(2) by (cases "u = t") auto
    ultimately show ?thesis
      using rs(1) none unfolding l by (simp add: rw_ok_def)
  qed
qed

abbreviation rw_locked :: "'a atomic_system \<Rightarrow> bool" where
  "rw_locked c \<equiv> rw_ok (as_lock c) (spots c)"

lemma rw_step: "atomic_step c c' \<Longrightarrow> rw_locked c \<Longrightarrow> rw_locked c'"
proof (induction rule: atomic_step.induct)
  case (lock t c call calls l)
  then show ?case
    using rw_lock [OF lock(4)] by (simp add: stands_spots)
next
  case (unlock_copy t c call r)
  then show ?case
    using rw_unlock [OF unlock_copy(2), of t call Idle] by (simp add: stands_spots)
next
  case (unlock_ref t c call)
  then show ?case
    using rw_unlock [OF unlock_ref(2), of t call "HasRef call"] by (simp add: stands_spots)
qed (simp_all add: stands_spots rw_same)

lemma rw_reach: "atomic_reach v progs c \<Longrightarrow> rw_locked c"
proof (induction rule: atomic_reach.induct)
  case atomic_begin
  then show ?case
    by (auto simp: rw_ok_def atomic_start_def RWlock_new_def spots_def reading_def writing_def)
qed (rule rw_step)

lemma writer_alone:
  assumes "rw_ok l ps" and "t < length ps" and "writing (ps ! t)" and "u < length ps" and "u \<noteq> t"
  shows "in_call (ps ! u) = None"
proof -
  have w: "rw_writer l = Some t" "rw_readers l = []"
    using assms(1-3) unfolding rw_ok_def by (blast, blast)
  have "\<not> reading (ps ! u)"
    using assms(1,4) w(2) unfolding rw_ok_def by (metis empty_iff empty_set)
  moreover have "rw_writer l \<noteq> Some u"
    using w(1) assms(5) by simp
  then have "\<not> writing (ps ! u)"
    using assms(1,4) unfolding rw_ok_def by blast
  ultimately
  show ?thesis
    by (auto simp: reading_def writing_def split: option.splits)
qed

section \<open>No change is lost\<close>

text \<open>What a thread has copied and loaded is still the value when it stores.\<close>

fun place_ok :: "'a \<Rightarrow> 'a atomic_place \<Rightarrow> bool" where
  "place_ok x (Copied call r) = (by_value call \<and> r = x)"
| "place_ok x (Loaded call r v) = (\<not> only_reads call \<and> v = x \<and> r = (if by_value call then Some x else None))"
| "place_ok x (Changed call r) = (r \<noteq> None \<longleftrightarrow> by_value call)"
| "place_ok x (HasRef call) = (\<not> by_value call)"
| "place_ok x p = True"

definition spots_ok :: "'a \<Rightarrow> 'a atomic_place list \<Rightarrow> bool" where
  "spots_ok x ps \<longleftrightarrow> (\<forall>t < length ps. place_ok x (ps ! t))"

lemma by_value_writes: "by_value call \<Longrightarrow> \<not> only_reads call"
  by (cases call) simp_all

lemma spots_ok_update: "spots_ok x ps \<Longrightarrow> place_ok x p \<Longrightarrow> spots_ok x (ps[t := p])"
  by (cases "t < length ps") (auto simp: spots_ok_def nth_list_update)

lemma place_ok_other: "in_call p = None \<Longrightarrow> place_ok x p \<Longrightarrow> place_ok y p"
  by (cases p) simp_all

lemma spots_ok_store:
  assumes "rw_ok l ps" and "spots_ok x ps" and "t < length ps" and "writing (ps ! t)" and "place_ok y p"
  shows "spots_ok y (ps[t := p])"
proof -
  have "place_ok y (ps ! u)" if "u < length ps" "u \<noteq> t" for u
    using writer_alone [OF assms(1,3,4) that] place_ok_other assms(2) that(1) by (metis spots_ok_def)
  then show ?thesis
    using assms(3,5) by (auto simp: spots_ok_def nth_list_update)
qed

abbreviation loads_ok :: "'a atomic_system \<Rightarrow> bool" where
  "loads_ok c \<equiv> spots_ok (a_value (as_value c)) (spots c)"

lemma spots_okD: "stands t c p \<Longrightarrow> loads_ok c \<Longrightarrow> place_ok (a_value (as_value c)) p"
  by (auto simp: stands_spots spots_ok_def)

lemma loads_step: "atomic_step c c' \<Longrightarrow> rw_locked c \<Longrightarrow> loads_ok c \<Longrightarrow> loads_ok c'"
proof (induction rule: atomic_step.induct)
  case (store t c call r v)
  note p = spots_okD [OF store(1,3)]
  have "writing (spots c ! t)"
    using store(1) p by (simp add: stands_spots writing_def)
  then show ?case
    using spots_ok_store [OF store(2,3)] store(1) p by (simp add: stands_spots)
next
  case (load_again t c call r)
  then show ?case
    using spots_okD [OF load_again(1,3)] by (simp add: spots_ok_update by_value_writes)
next
  case (no_change t c call)
  then have "\<not> by_value call"
    using by_value_writes by blast
  then show ?case
    using no_change(4) by (simp add: spots_ok_update)
next
  case (unlock_ref t c call)
  then show ?case
    using spots_okD [OF unlock_ref(1,3)] by (simp add: spots_ok_update)
qed (simp_all add: spots_ok_update)

lemma loads_reach: "atomic_reach v progs c \<Longrightarrow> loads_ok c"
proof (induction rule: atomic_reach.induct)
  case atomic_begin
  then show ?case
    by (simp add: spots_ok_def atomic_start_def spots_def)
next
  case (atomic_next c c')
  then show ?case
    using loads_step rw_reach by blast
qed

text \<open>Every value that was replaced is the one the change before it has left.\<close>

fun chained :: "'a::ring_1 \<Rightarrow> (nat \<times> 'a atomic_call \<times> 'a) list \<Rightarrow> 'a \<Rightarrow> bool" where
  "chained v [] w = (v = w)"
| "chained v ((t, call, old) # log) w = (old = v \<and> chained (new_value call v) log w)"

lemma chained_snoc: "chained v (log @ [(t, call, old)]) w \<longleftrightarrow> chained v log old \<and> w = new_value call old"
  by (induction log arbitrary: v) auto

abbreviation serial :: "'a::ring_1 \<Rightarrow> 'a atomic_system \<Rightarrow> bool" where
  "serial v c \<equiv> chained v (as_log c) (a_value (as_value c))"

lemma serial_step: "atomic_step c c' \<Longrightarrow> loads_ok c \<Longrightarrow> serial v c \<Longrightarrow> serial v c'"
proof (induction rule: atomic_step.induct)
  case (store t c call r x)
  then show ?case
    using spots_okD [OF store(1,2)] by (simp add: chained_snoc)
qed simp_all

lemma serial_reach: "atomic_reach v progs c \<Longrightarrow> serial v c"
proof (induction rule: atomic_reach.induct)
  case atomic_begin
  then show ?case
    by (simp add: atomic_start_def)
next
  case (atomic_next c c')
  then show ?case
    using serial_step loads_reach by blast
qed

section \<open>Each thread makes its changes and gets its copies\<close>

abbreviation changes :: "'a atomic_call list \<Rightarrow> 'a atomic_call list" where
  "changes calls \<equiv> filter (\<lambda>call. \<not> only_reads call) calls"

text \<open>The change a thread has still to store, and the copy it has still to return.\<close>

fun unstored :: "'a atomic_place \<Rightarrow> 'a atomic_call list" where
  "unstored (Locked call) = changes [call]"
| "unstored (Copied call r) = [call]"
| "unstored (Loaded call r v) = [call]"
| "unstored p = []"

fun unreturned :: "'a atomic_place \<Rightarrow> ('a atomic_call \<times> 'a) list" where
  "unreturned (Changed call (Some r)) = [(call, r)]"
| "unreturned p = []"

definition stored_by :: "nat \<Rightarrow> (nat \<times> 'a atomic_call \<times> 'a) list \<Rightarrow> ('a atomic_call \<times> 'a) list" where
  "stored_by t log = map snd (filter (\<lambda>(u, call, old). u = t) log)"

lemma stored_by_snoc [simp]: "stored_by t (log @ [(u, call, old)]) = stored_by t log @ (if u = t then [(call, old)] else [])"
  by (simp add: stored_by_def)

abbreviation copies :: "('a atomic_call \<times> 'a) list \<Rightarrow> ('a atomic_call \<times> 'a) list" where
  "copies rs \<equiv> filter (\<lambda>(call, v). by_value call) rs"

definition athread_ok :: "'a atomic_call list list \<Rightarrow> 'a atomic_system \<Rightarrow> nat \<Rightarrow> bool" where
  "athread_ok progs c t \<longleftrightarrow>
    (let th = as_threads c ! t in
     map fst (stored_by t (as_log c)) @ unstored (at_place th) @ changes (at_todo th) = changes (progs ! t) \<and>
     copies (at_got th) @ unreturned (at_place th) = copies (stored_by t (as_log c)))"

lemmas moved = moves_def gets_value_def nth_list_update stands_def

lemma place_ok_at: "stands t c p \<Longrightarrow> loads_ok c \<Longrightarrow> place_ok (a_value (as_value c)) (at_place (as_threads c ! t))"
  using spots_okD by (auto simp: stands_def)

lemma athread_step: "atomic_step c c' \<Longrightarrow> loads_ok c \<Longrightarrow> t < length (as_threads c) \<Longrightarrow> athread_ok progs c t \<Longrightarrow> athread_ok progs c' t"
proof (induction rule: atomic_step.induct)
  case (store u c call r v)
  then show ?case
    using spots_okD [OF store(1,2)] by (auto simp: athread_ok_def moved Let_def)
next
  case (copy u c call)
  then show ?case
    using by_value_writes [of call] by (auto simp: athread_ok_def moved Let_def)
next
  case (unlock_copy u c call r)
  then show ?case
    using spots_okD [OF unlock_copy(1,2)] by (auto simp: athread_ok_def moved Let_def)
next
  case (read_ref u c call)
  then show ?case
    using spots_okD [OF read_ref(1,2)] by (auto simp: athread_ok_def moved Let_def)
qed (auto simp: athread_ok_def moved Let_def)

lemma athread_reach: "atomic_reach v progs c \<Longrightarrow> t < length progs \<Longrightarrow> athread_ok progs c t"
proof (induction rule: atomic_reach.induct)
  case atomic_begin
  then show ?case
    by (simp add: athread_ok_def atomic_start_def stored_by_def)
next
  case (atomic_next c c')
  then show ?case
    using athread_step loads_reach atomic_reach_length by metis
qed

text \<open>
  Any number of threads use one counter.  Their changes take effect one after the other, none is lost, and each thread's are those
  of its program in order.  A function that returns a copy returns the value that its own change replaced.  While a thread is
  in a function that changes the counter, no other thread is in any.
\<close>

theorem atomic_changes_serial:
  assumes "atomic_reach v progs c"
  shows "chained v (as_log c) (a_value (as_value c))"
    and "t < length progs \<Longrightarrow> map fst (stored_by t (as_log c)) @ unstored (at_place (as_threads c ! t)) @ changes (at_todo (as_threads c ! t)) = changes (progs ! t)"
    and "t < length progs \<Longrightarrow> copies (at_got (as_threads c ! t)) @ unreturned (at_place (as_threads c ! t)) = copies (stored_by t (as_log c))"
    and "t < length progs \<Longrightarrow> u < length progs \<Longrightarrow> u \<noteq> t \<Longrightarrow> writing (spots c ! t) \<Longrightarrow> in_call (spots c ! u) = None"
  using serial_reach [OF assms] athread_reach [OF assms, of t] writer_alone [OF rw_reach [OF assms]] atomic_reach_length [OF assms]
  by (simp_all add: athread_ok_def Let_def)

section \<open>Numbers drawn from a counter\<close>

lemma chained_count:
  fixes v :: int
  assumes "chained v log w" and "\<forall>(t, call, old) \<in> set log. call = PostIncr"
  shows "map (\<lambda>(t, call, old). old) log = [v..w - 1] \<and> v \<le> w"
  using assms
proof (induction log arbitrary: v)
  case (Cons e log)
  obtain t call old where e: "e = (t, call, old)"
    by (cases e)
  have "chained (v + 1) log w"
    using Cons.prems by (simp add: e new_value_def Atomic_post_incr_def)
  then have "map (\<lambda>(t, call, old). old) log = [v + 1..w - 1] \<and> v + 1 \<le> w"
    using Cons.IH Cons.prems(2) by simp
  then show ?case
    using Cons.prems(1) by (simp add: e upto_rec1)
qed simp

lemma log_step: "atomic_step c c' \<Longrightarrow> \<forall>(t, call, old) \<in> set (as_log c). t < length (as_threads c) \<Longrightarrow>
    \<forall>(t, call, old) \<in> set (as_log c'). t < length (as_threads c')"
  by (induction rule: atomic_step.induct) (auto simp: stands_def)

lemma log_reach: "atomic_reach v progs c \<Longrightarrow> \<forall>(t, call, old) \<in> set (as_log c). t < length progs"
proof (induction rule: atomic_reach.induct)
  case atomic_begin
  then show ?case
    by (simp add: atomic_start_def)
next
  case (atomic_next c c')
  then show ?case
    using log_step [OF atomic_next(2)] atomic_reach_length [OF atomic_next(1)] atomic_step_length [OF atomic_next(2)] by (simp add: split_beta)
qed

lemma stored_by_iff: "(call, old) \<in> set (stored_by t log) \<longleftrightarrow> (t, call, old) \<in> set log"
  by (force simp: stored_by_def)

lemma logged_calls:
  assumes "atomic_reach v progs c" and "(t, call, old) \<in> set (as_log c)"
  shows "t < length progs \<and> call \<in> set (changes (progs ! t))"
proof -
  have t: "t < length progs"
    using log_reach [OF assms(1)] assms(2) by blast
  have "call \<in> set (map fst (stored_by t (as_log c)))"
    using assms(2) stored_by_iff by (metis fst_conv image_eqI list.set_map)
  then show ?thesis
    using t athread_reach [OF assms(1) t] unfolding athread_ok_def Let_def by (metis Un_iff set_append)
qed

lemma copies_logged:
  assumes "atomic_reach v progs c" and "t < length progs"
  shows "\<exists>rest. copies (at_got (as_threads c ! t)) @ rest = copies (stored_by t (as_log c))"
  using athread_reach [OF assms] by (auto simp: athread_ok_def Let_def)

text \<open>
  If a counter is only read and incremented with the postfix operator, all numbers it returns differ, to whichever threads, and
  lie between the first value and the present one.
\<close>

theorem tickets_differ:
  fixes v :: int
  assumes reach: "atomic_reach v progs c" and progs: "\<forall>p \<in> set progs. \<forall>call \<in> set p. call = PostIncr \<or> call = GetRef"
    and t: "t < length progs" and u: "u < length progs"
  defines "tickets \<equiv> \<lambda>t. map snd (copies (at_got (as_threads c ! t)))"
  shows "distinct (tickets t)" and "set (tickets t) \<subseteq> {v..<a_value (as_value c)}" and "t \<noteq> u \<Longrightarrow> set (tickets t) \<inter> set (tickets u) = {}"
proof -
  have "call = PostIncr" if "(t, call, old) \<in> set (as_log c)" for t call old
  proof -
    have "progs ! t \<in> set progs" "call \<in> set (progs ! t)" "\<not> only_reads call"
      using logged_calls [OF reach that] by auto
    then show ?thesis
      using progs by fastforce
  qed
  then have "\<forall>(t, call, old) \<in> set (as_log c). call = PostIncr"
    by blast
  note olds = chained_count [OF serial_reach [OF reach] this]
  then have diff: "distinct (map (\<lambda>(t, call, old). old) (as_log c))"
    by simp
  have logged: "\<exists>call. (t, call, x) \<in> set (as_log c)" if "x \<in> set (tickets t)" "t < length progs" for x t
  proof -
    from that(1) obtain call where "(call, x) \<in> set (copies (at_got (as_threads c ! t)))"
      by (auto simp: tickets_def)
    moreover obtain rest where "copies (at_got (as_threads c ! t)) @ rest = copies (stored_by t (as_log c))"
      using copies_logged [OF reach \<open>t < length progs\<close>] by blast
    then have "set (copies (at_got (as_threads c ! t))) \<subseteq> set (copies (stored_by t (as_log c)))"
      by (metis Un_upper1 set_append)
    ultimately show ?thesis
      using stored_by_iff by fastforce
  qed
  have "map snd (stored_by t (as_log c)) = map (\<lambda>(t, call, old). old) (filter (\<lambda>(u, call, old). u = t) (as_log c))"
    by (simp add: stored_by_def split_beta)
  then have "distinct (map snd (copies (stored_by t (as_log c))))"
    using diff distinct_map_filter by metis
  then show "distinct (tickets t)"
    using copies_logged [OF reach t] unfolding tickets_def by (metis distinct_append map_append)
  have "x \<in> set (map (\<lambda>(t, call, old). old) (as_log c))" if "x \<in> set (tickets t)" for x
    using logged [OF that t] by force
  then show "set (tickets t) \<subseteq> {v..<a_value (as_value c)}"
    using olds by auto
  show "set (tickets t) \<inter> set (tickets u) = {}" if "t \<noteq> u"
  proof -
    have False if x: "x \<in> set (tickets t)" "x \<in> set (tickets u)" for x
    proof -
      obtain p q where "(t, p, x) \<in> set (as_log c)" "(u, q, x) \<in> set (as_log c)"
        using logged x t u by blast
      with diff show False
        using \<open>t \<noteq> u\<close> by (auto simp: distinct_map inj_on_def)
    qed
    then show ?thesis
      by blast
  qed
qed

section \<open>Increments that return a reference\<close>

abbreviation counter_at :: "int \<Rightarrow> nat option \<Rightarrow> int athread list \<Rightarrow> (nat \<times> int atomic_call \<times> int) list \<Rightarrow> int atomic_system" where
  "counter_at v w ts log \<equiv> \<lparr>as_value = \<lparr>a_value = v\<rparr>, as_lock = \<lparr>rw_readers = [], rw_writer = w\<rparr>, as_threads = ts, as_log = log\<rparr>"

abbreviation athr :: "int atomic_place \<Rightarrow> int atomic_call list \<Rightarrow> (int atomic_call \<times> int) list \<Rightarrow> int athread" where
  "athr p todo got \<equiv> \<lparr>at_place = p, at_todo = todo, at_got = got\<rparr>"

lemmas atomic_demo = stands_def moves_def gets_value_def lock_for_def unlock_for_def AutoWLock_new_def AutoWLock_destroy_def RWlock_Wrlock_def
  RWlock_Unlock_def new_value_def Atomic_pre_incr_def Let_def

text \<open>Thread \<open>t\<close> runs \<open>++a\<close> up to the reference.\<close>

lemma run_pre_incr:
  assumes "atomic_reach k progs (counter_at v None ts log)" and "t < length ts" and "ts ! t = athr Idle [PreIncr] []"
  shows "atomic_reach k progs (counter_at (v + 1) None (ts[t := athr (HasRef PreIncr) [] []]) (log @ [(t, PreIncr, v)]))"
proof -
  let ?ts = "\<lambda>p. ts[t := athr p [] []]"
  have "atomic_step (counter_at v None ts log) (counter_at v (Some t) (?ts (Locked PreIncr)) log)"
    using atomic_step.lock [of t "counter_at v None ts log" PreIncr "[]"] assms(2,3) by (simp add: atomic_demo)
  note r = atomic_next [OF assms(1) this]
  have "atomic_step (counter_at v (Some t) (?ts (Locked PreIncr)) log) (counter_at v (Some t) (?ts (Loaded PreIncr None v)) log)"
    using atomic_step.load [of t "counter_at v (Some t) (?ts (Locked PreIncr)) log" PreIncr] assms(2) by (simp add: atomic_demo)
  note r = atomic_next [OF r this]
  let ?log = "log @ [(t, PreIncr, v)]"
  have "atomic_step (counter_at v (Some t) (?ts (Loaded PreIncr None v)) log) (counter_at (v + 1) (Some t) (?ts (Changed PreIncr None)) ?log)"
    using atomic_step.store [of t "counter_at v (Some t) (?ts (Loaded PreIncr None v)) log" PreIncr None v] assms(2) by (simp add: atomic_demo)
  note r = atomic_next [OF r this]
  have "atomic_step (counter_at (v + 1) (Some t) (?ts (Changed PreIncr None)) ?log) (counter_at (v + 1) None (?ts (HasRef PreIncr)) ?log)"
    using atomic_step.unlock_ref [of t "counter_at (v + 1) (Some t) (?ts (Changed PreIncr None)) ?log" PreIncr] assms(2)
    by (simp add: atomic_demo)
  then show ?thesis
    by (rule atomic_next [OF r])
qed

text \<open>Two threads that both run \<open>++a\<close> may both get 2: each increment counts, but the reference is read without the lock.\<close>

theorem pre_increments_collide:
  "\<exists>c. atomic_reach 0 [[PreIncr], [PreIncr]] c \<and> as_threads c = [athr Idle [] [(PreIncr, 2)], athr Idle [] [(PreIncr, 2)]]"
proof -
  let ?log = "[(0, PreIncr, 0), (1, PreIncr, 1)]"
  have "atomic_reach 0 [[PreIncr], [PreIncr]] (counter_at 0 None [athr Idle [PreIncr] [], athr Idle [PreIncr] []] [])"
    using atomic_begin [of 0 "[[PreIncr], [PreIncr]]"] by (simp add: atomic_start_def RWlock_new_def)
  from run_pre_incr [OF this, of 0]
  have "atomic_reach 0 [[PreIncr], [PreIncr]] (counter_at 1 None [athr (HasRef PreIncr) [] [], athr Idle [PreIncr] []] [(0, PreIncr, 0)])"
    by simp
  from run_pre_incr [OF this, of 1]
  have r: "atomic_reach 0 [[PreIncr], [PreIncr]] (counter_at 2 None [athr (HasRef PreIncr) [] [], athr (HasRef PreIncr) [] []] ?log)"
    by simp
  have "atomic_step (counter_at 2 None [athr (HasRef PreIncr) [] [], athr (HasRef PreIncr) [] []] ?log)
      (counter_at 2 None [athr Idle [] [(PreIncr, 2)], athr (HasRef PreIncr) [] []] ?log)"
    using atomic_step.read_ref [of 0 "counter_at 2 None [athr (HasRef PreIncr) [] [], athr (HasRef PreIncr) [] []] ?log" PreIncr]
    by (simp add: atomic_demo)
  note r = atomic_next [OF r this]
  have "atomic_step (counter_at 2 None [athr Idle [] [(PreIncr, 2)], athr (HasRef PreIncr) [] []] ?log)
      (counter_at 2 None [athr Idle [] [(PreIncr, 2)], athr Idle [] [(PreIncr, 2)]] ?log)"
    using atomic_step.read_ref [of 1 "counter_at 2 None [athr Idle [] [(PreIncr, 2)], athr (HasRef PreIncr) [] []] ?log" PreIncr]
    by (simp add: atomic_demo)
  from atomic_next [OF r this] show ?thesis
    by (rule exI [of _ "counter_at 2 None [athr Idle [] [(PreIncr, 2)], athr Idle [] [(PreIncr, 2)]] ?log", OF conjI]) simp
qed

end
