(* ===== verification/Sip_Samples.thy ===== *)
theory Sip_Samples
  imports Sip_Ua
begin

text \<open>
  \<open>sip.c\<close> and \<open>siptest/sip.c\<close>: two programs that register an account with a SIP server and send one message.  The results of
  the library's functions are arguments; the calls made are recorded in order.  The account's number is written only if the
  account is added, and is whatever the variable held otherwise.
\<close>

section \<open>Accounts, messages and calls\<close>

record sip_account =
  sa_id :: string
  sa_reg_uri :: string
  sa_reg_timeout :: int
  sa_realm :: string
  sa_scheme :: string
  sa_username :: string
  sa_data :: string
  sa_proxies :: "string list"

record sip_message =
  sm_to :: string
  sm_mime :: string
  sm_content :: string

datatype sample_call =
    CallCreate
  | CallError int
  | CallInit "sip_callback list" bool
  | CallStart
  | CallTransport int
  | CallAddLocal int
  | CallAdd sip_account
  | CallSleep nat
  | CallSend int sip_message
  | CallRegisterThread
  | CallWait
  | CallSignal
  | CallUnregister int

text \<open>What \<open>signal\<close> (twice), \<open>pjsua_create\<close>, \<open>pjsua_init\<close>, \<open>pjsua_start\<close>, \<open>pjsua_transport_create\<close> and \<open>pjsua_acc_add\<close> return; the
  transport and the account they make, and what the variable \<open>user_aid\<close> holds before.\<close>

record sample_env =
  se_sigerr :: "bool \<times> bool"
  se_create :: int
  se_init :: int
  se_start :: int
  se_transport :: "int \<times> int"
  se_add :: "int \<times> int"
  se_junk :: int

definition user_aid :: "sample_env \<Rightarrow> int" where
  "user_aid e = (if fst (se_add e) = PJ_SUCCESS then snd (se_add e) else se_junk e)"

section \<open>The first sample\<close>

definition first_account :: sip_account where
  "first_account =
    \<lparr>sa_id = ''sip:test@192.168.1.197'', sa_reg_uri = ''sip:192.168.1.197'', sa_reg_timeout = 300, sa_realm = ''192.168.1.197'',
     sa_scheme = ''digest'', sa_username = ''test'', sa_data = ''test'', sa_proxies = []\<rparr>"

definition first_message :: sip_message where
  "first_message = \<lparr>sm_to = ''sip:manage@192.168.1.197'', sm_mime = ''text/plain'', sm_content = ''hello''\<rparr>"

definition sip_main :: "sample_env \<Rightarrow> int \<times> sample_call list" where
  "sip_main e =
    (if se_create e \<noteq> PJ_SUCCESS then (se_create e, [CallCreate, CallError (se_create e)])
     else
       let calls = [CallCreate, CallInit [On_reg_started, On_reg_state, On_reg_state2] True] in
       if se_init e \<noteq> PJ_SUCCESS then (se_init e, calls @ [CallError (se_init e)])
       else
         let calls = calls @ [CallTransport 5060] in
         if fst (se_transport e) \<noteq> PJ_SUCCESS then (-1, calls)
         else (fst (se_add e),
           calls @ [CallAddLocal (snd (se_transport e)), CallAdd first_account, CallSleep 2, CallSend (user_aid e) first_message,
             CallSleep 2, CallUnregister (user_aid e), CallSleep 2]))"

section \<open>The second sample\<close>

definition second_account :: sip_account where
  "second_account =
    \<lparr>sa_id = ''sip:Server_301007@192.168.1.197'', sa_reg_uri = ''sip:192.168.1.197'', sa_reg_timeout = 300, sa_realm = ''192.168.1.197'',
     sa_scheme = ''digest'', sa_username = ''Server_301007'', sa_data = ''Server'', sa_proxies = [''sip:192.168.1.197;lr'']\<rparr>"

definition sip_prolog :: string where
  "sip_prolog = ''<?xml version=\"1.0\" encoding=\"UTF-8\"?>''"

definition second_message :: sip_message where
  "second_message =
    \<lparr>sm_to = ''sip:Manage@192.168.1.197'', sm_mime = ''text/plain'',
     sm_content = sip_prolog @ ''<SIP_XML EventType=\"MediaTeardown\">'' @ ''<User uri=\"sip:user1@192.168.1.197\"/>'' @
       ''<Media type=\"1\" id=\"000001-001\"/>'' @ ''</SIP_XML>''\<rparr>"

definition thread_message :: sip_message where
  "thread_message =
    \<lparr>sm_to = ''sip:user1@192.168.1.197'', sm_mime = ''text/plain'',
     sm_content = sip_prolog @ ''<SIP_XML EventType=\"TimeSync\"/>'' @ ''<Item operation=\"query\" time=\"0-0-0 0:0:0\"/>'' @ ''</SIP_XML>''\<rparr>"

text \<open>The callbacks: only a redirection has an answer, the library's \<open>PJSIP_REDIRECT_ACCEPT\<close>; the others print.\<close>

definition sample_callback :: "int \<Rightarrow> sip_callback \<Rightarrow> sip_return" where
  "sample_callback accept c = (if c = On_call_redirected then Redirect accept else Nothing)"

text \<open>\<open>test_thread\<close>, which \<open>main\<close> no longer creates, waits for the condition \<open>main\<close> signals.\<close>

definition test_thread :: "int \<Rightarrow> sample_call list" where
  "test_thread aid = [CallRegisterThread, CallWait, CallSend aid thread_message]"

text \<open>The handler of the two signals sets the flag that ends the loop.\<close>

definition sample_signal :: "bool \<Rightarrow> bool" where
  "sample_signal bShutdown = True"

text \<open>\<open>while(!bShutdown) sleep(1);\<close> on the signals that arrive before the first test and in each second; \<open>None\<close>: not over yet.\<close>

fun sample_loop :: "nat list \<Rightarrow> bool \<Rightarrow> sample_call list option" where
  "sample_loop signals bShutdown =
    (if bShutdown then Some []
     else case signals of [] \<Rightarrow> None | n # ns \<Rightarrow> map_option ((#) (CallSleep 1)) (sample_loop ns ((sample_signal ^^ n) bShutdown)))"

declare sample_loop.simps [simp del]

text \<open>The first element of the signals is their number before the loop.\<close>

definition siptest_main :: "sample_env \<Rightarrow> nat list \<Rightarrow> (int \<times> sample_call list) option" where
  "siptest_main e signals =
    (if fst (se_sigerr e) \<or> snd (se_sigerr e) then Some (-1, [])
     else if se_create e \<noteq> PJ_SUCCESS then Some (se_create e, [CallCreate, CallError (se_create e)])
     else
       let calls = [CallCreate, CallInit [On_reg_started, On_reg_state, On_reg_state2, On_pager2, On_call_redirected] False] in
       if se_init e \<noteq> PJ_SUCCESS then Some (se_init e, calls @ [CallError (se_init e)])
       else
         let calls = calls @ [CallStart] in
         if se_start e \<noteq> PJ_SUCCESS then Some (se_start e, calls @ [CallError (se_start e)])
         else
           let calls = calls @ [CallTransport 5091] in
           if fst (se_transport e) \<noteq> PJ_SUCCESS then Some (-1, calls)
           else
             let calls = calls @ [CallAddLocal (snd (se_transport e)), CallAdd second_account, CallSleep 2,
               CallSend (user_aid e) second_message, CallSleep 1, CallSignal] in
             case sample_loop (tl signals) ((sample_signal ^^ hd (signals @ [0])) False) of
               None \<Rightarrow> None
             | Some sleeps \<Rightarrow> Some (fst (se_add e), calls @ sleeps @ [CallUnregister (user_aid e), CallSleep 1]))"

section \<open>How the samples end\<close>

lemma signals_set [simp]: "(sample_signal ^^ n) b = (b \<or> 0 < n)"
  by (induction n) (simp_all add: sample_signal_def)

text \<open>The loop sleeps once for every second before the first signal, and that second.\<close>

lemma sample_loop_quiet: "sample_loop (replicate k 0 @ n # ns) False = (if 0 < n then Some (replicate (Suc k) (CallSleep 1)) else
    map_option ((@) (replicate (Suc k) (CallSleep 1))) (sample_loop ns False))"
proof (induction k)
  case 0
  show ?case
    by (subst sample_loop.simps) (cases "sample_loop ns False"; auto simp: sample_loop.simps [of ns True])
next
  case (Suc k)
  have "sample_loop (0 # xs) False = map_option ((#) (CallSleep 1)) (sample_loop xs False)" for xs
    by (subst sample_loop.simps) simp
  then show ?case
    using Suc by (simp add: option.map_comp comp_def)
qed

text \<open>Once the library is up, the second sample runs until a signal, then unregisters and returns what \<open>pjsua_acc_add\<close> returned.\<close>

theorem siptest_ends:
  assumes "se_sigerr e = (False, False)" and "se_create e = 0" and "se_init e = 0" and "se_start e = 0" and "fst (se_transport e) = 0" and "0 < n"
  shows "\<exists>calls. siptest_main e (0 # replicate k 0 @ n # ns) = Some (fst (se_add e), calls) \<and>
    drop (length calls - 2) calls = [CallUnregister (user_aid e), CallSleep 1] \<and> length (filter (\<lambda>c. c = CallSleep 1) calls) = k + 3"
  using assms by (auto simp: siptest_main_def PJ_SUCCESS_def sample_loop_quiet)

text \<open>Neither sample looks at the result of \<open>pjsua_acc_add\<close> before it uses the account: when it fails, the message goes out
  with an uninitialised account number.\<close>

theorem account_unchecked:
  assumes "se_create e = 0" and "se_init e = 0" and "fst (se_transport e) = 0" and "fst (se_add e) \<noteq> 0"
  shows "CallSend (se_junk e) first_message \<in> set (snd (sip_main e))"
  using assms by (simp add: sip_main_def user_aid_def PJ_SUCCESS_def Let_def)

text \<open>The first sample never starts the library.\<close>

theorem never_started: "CallStart \<notin> set (snd (sip_main e))"
  by (simp add: sip_main_def Let_def)

end
