(* ===== verification/Repo_Tests.thy ===== *)
theory Repo_Tests
  imports Containers Util_String Agent_Xml
begin

text \<open>
  \<open>test/test.cpp\<close>: the assertions of the program's own tests, run on the model.  What the tests only print is compared with
  the values it must have.  The tests of threads, sockets and the log have no assertions.  TinyXML is the parameter it is for
  the parsers: the tests of these suppose that it reads the given text as the tree that is written there.
\<close>

section \<open>Identifiers, texts and counters\<close>

definition GlobalIDTest :: bool where
  "GlobalIDTest \<longleftrightarrow>
    (let id1 = MCCGlobalID 1 10; id2 = MCCGlobalID 10 2; id3 = MCCGlobalID 1 2
     in gid_ne id1 id2 \<and> gid_eq id1 id1 \<and> gid_le id1 id2 \<and> gid_ge id1 id3 \<and> mid id1 = 1)"

theorem GlobalIDTest_passes: GlobalIDTest
  by (simp add: GlobalIDTest_def gid_defs Let_def del: gid_ops)

definition StringUtilTest :: "bool option" where
  "StringUtilTest = map_option (\<lambda>(rc, res).
     StringUtil_atoi (res ! 0) = 9600 \<and> StringUtil_atoi (res ! 1) = 8 \<and> StringUtil_atoi (res ! 2) = 1 \<and> hd (res ! 3) = CHR ''n'')
     (StringUtil_split ''9600,8,1,n'' '','' [])"

theorem StringUtilTest_passes: "StringUtilTest = Some True"
  by (simp add: StringUtilTest_def split_fields StringUtil_atoi_def is_digit_def digit_val_def is_int32_def)

definition AtomicTest :: "int \<times> int" where
  "AtomicTest = (case Atomic_pre_incr \<lparr>a_value = 3\<rparr> of (b1, a) \<Rightarrow> case Atomic_post_incr a of (b2, a) \<Rightarrow> (b1, b2))"

theorem AtomicTest_prints: "AtomicTest = (4, 4)"
  by (simp add: AtomicTest_def Atomic_pre_incr_def Atomic_post_incr_def Let_def)

section \<open>The heap\<close>

fun heap_checks :: "nat \<Rightarrow> int \<Rightarrow> int \<Rightarrow> int Heap \<Rightarrow> bool" where
  "heap_checks 0 last_e e heap = True"
| "heap_checks (Suc n) last_e e heap =
     (case Heap_pop (<) e heap of (ok, e, heap) \<Rightarrow> if ok then e \<le> last_e \<and> heap_checks n e e heap else heap_checks n last_e e heap)"

text \<open>On the random numbers and what \<open>last_e\<close> and \<open>e\<close> hold at first.\<close>

definition HeapTest :: "int list \<Rightarrow> int \<Rightarrow> int \<Rightarrow> bool" where
  "HeapTest rands junk1 junk2 =
    (case Heap_pop (<) junk1 (fold (Heap_push (<)) rands \<lparr>h_data = []\<rparr>) of (ok, last_e, heap) \<Rightarrow> heap_checks 100 last_e junk2 heap)"

lemma int_compare: "std_compare ((<) :: int \<Rightarrow> int \<Rightarrow> bool)"
  by unfold_locales auto

lemma pop_greatest:
  fixes x :: int
  assumes "heap_order (<) (h_data heap)" and "Heap_pop (<) e heap = (ok, x, heap')"
  shows "heap_order (<) (h_data heap') \<and> set (h_data heap') \<subseteq> set (h_data heap) \<and>
    (if ok then x \<in> set (h_data heap) \<and> (\<forall>y \<in> set (h_data heap'). y \<le> x) else h_data heap' = [])"
proof (cases ok)
  case True
  with std_compare.Heap_pop_spec [OF int_compare assms(1)] assms(2)
  have m: "mset (h_data heap) = add_mset x (mset (h_data heap'))" "heap_order (<) (h_data heap')" "\<forall>y \<in> set (h_data heap). \<not> x < y"
    by auto
  then have "set (h_data heap) = insert x (set (h_data heap'))"
    by (metis set_mset_add_mset_insert set_mset_mset)
  then show ?thesis
    using m True by (auto simp: not_less)
next
  case False
  then show ?thesis
    using assms by (auto simp: Heap_pop_def Let_def split: if_splits)
qed

lemma heap_checks_pass:
  "heap_order (<) (h_data heap) \<Longrightarrow> \<forall>y \<in> set (h_data heap). y \<le> last_e \<Longrightarrow> heap_checks n last_e e heap"
proof (induction n arbitrary: last_e e heap)
  case (Suc n)
  obtain ok x heap' where pop: "Heap_pop (<) e heap = (ok, x, heap')"
    by (metis prod_cases3)
  note spec = pop_greatest [OF Suc.prems(1) pop]
  have "\<forall>y \<in> set (h_data heap'). y \<le> last_e"
    using spec Suc.prems(2) by blast
  then show ?case
    using spec Suc.IH [of heap'] Suc.prems(2) pop by auto
qed simp

lemma pushed_heap: "heap_order (<) (h_data heap) \<Longrightarrow> heap_order (<) (h_data (fold (Heap_push (<)) rands heap))" for heap :: "int Heap"
  by (induction rands arbitrary: heap) (simp_all add: std_compare.Heap_push_order [OF int_compare])

text \<open>The test passes whatever the random numbers are.\<close>

theorem HeapTest_passes: "HeapTest rands junk1 junk2"
proof -
  obtain ok x h where pop: "Heap_pop (<) junk1 (fold (Heap_push (<)) rands \<lparr>h_data = []\<rparr>) = (ok, x, h)"
    by (metis prod_cases3)
  have "heap_order (<) (h_data (fold (Heap_push (<)) rands \<lparr>h_data = []\<rparr>))"
    by (rule pushed_heap) (simp add: heap_order_def)
  from pop_greatest [OF this pop] have "heap_order (<) (h_data h)" "\<forall>y \<in> set (h_data h). y \<le> x"
    by (auto split: if_splits)
  then show ?thesis
    using heap_checks_pass pop by (simp add: HeapTest_def)
qed

section \<open>The priority queues\<close>

text \<open>What is printed: the elements from the greatest on.\<close>

fun get_each :: "nat \<Rightarrow> MCCGlobalID \<Rightarrow> MCCGlobalID PrioQueue \<Rightarrow> MCCGlobalID list result option" where
  "get_each 0 a q = Some (Inr [])"
| "get_each (Suc n) a q =
     (case PrioQueue_get gid_lt a [] q of
        None \<Rightarrow> None
      | Some (Inl f) \<Rightarrow> Some (Inl f)
      | Some (Inr (a, q)) \<Rightarrow> map_option (map_sum id ((#) a)) (get_each n a q))"

definition PrioQueueTest :: "MCCGlobalID list result option" where
  "PrioQueueTest = get_each 4 NullID
     (fold (PrioQueue_add gid_lt) [MCCGlobalID 12 9, MCCGlobalID 11 9, MCCGlobalID 12 8, MCCGlobalID 2 29] \<lparr>pq_heap = \<lparr>h_data = []\<rparr>\<rparr>)"

theorem PrioQueueTest_prints:
  "PrioQueueTest = Some (Inr [MCCGlobalID 12 9, MCCGlobalID 12 8, MCCGlobalID 11 9, MCCGlobalID 2 29])"
  by code_simp

text \<open>The second test uses \<open>std::priority_queue\<close> with \<open>greater\<close>: \<open>top\<close> is the front, and \<open>pop\<close> removes it.\<close>

fun top_each :: "nat \<Rightarrow> MCCGlobalID list \<Rightarrow> MCCGlobalID list" where
  "top_each 0 q = []"
| "top_each (Suc n) q = hd q # top_each n (butlast (pop_heap gid_gt q))"

definition PrioQueueTest2 :: "MCCGlobalID list" where
  "PrioQueueTest2 = top_each 4
     (fold (\<lambda>e q. push_heap gid_gt (q @ [e])) [MCCGlobalID 12 9, MCCGlobalID 11 9, MCCGlobalID 12 8, MCCGlobalID 2 29] [])"

theorem PrioQueueTest2_prints:
  "PrioQueueTest2 = [MCCGlobalID 2 29, MCCGlobalID 11 9, MCCGlobalID 12 8, MCCGlobalID 12 9]"
  by code_simp

section \<open>Messages\<close>

text \<open>The messages are built in objects whose other members are uninitialised.\<close>

definition BuildTest :: "int \<Rightarrow> int \<Rightarrow> MCCAgentRequest \<Rightarrow> MCCAgentRequest \<Rightarrow> bool" where
  "BuildTest rnd1 rnd2 m1 m2 \<longleftrightarrow>
    (let m = buildSwitchRequest rnd1 (MCCGlobalID 1000 9) (MCCGlobalID 2000 20) m1
     in a_from m = 1000 \<and> a_to m = 2000 \<and> a_initiator m = 9 \<and> a_method m = SWITCH \<and> a_type m = REQUEST \<and>
       swi_userid (a_content m) = 9 \<and> swi_cameraid (a_content m) = 20) \<and>
    (let m = buildPtzRequest rnd2 (MCCGlobalID 1000 9) (MCCGlobalID 2000 20) 1 20 m2
     in a_from m = 1000 \<and> a_to m = 2000 \<and> a_initiator m = 9 \<and> a_method m = PTZ \<and> a_type m = REQUEST \<and>
       ptz_userid (a_content m) = 9 \<and> swi_cameraid (a_content m) = 20 \<and> ptz_direction (a_content m) = 1 \<and> ptz_angle (a_content m) = 20)"

theorem BuildTest_passes:
  assumes "length (a_content m1) = content_size" and "length (a_content m2) = content_size"
  shows "BuildTest rnd1 rnd2 m1 m2"
  using assms by (simp add: BuildTest_def buildSwitchRequest_def buildPtzRequest_def Let_def content_size_def MAX_CHILDREN_NUM_def)

text \<open>The texts of the parser's tests and the trees that are written there.\<close>

definition test_prolog :: string where
  "test_prolog = ''<?xml version=\"1.0\" encoding=\"UTF-8\"?>''"

definition test_attrs :: "string \<Rightarrow> string \<Rightarrow> (string \<times> string) list" where
  "test_attrs type method = [(''type'', type), (''method'', method), (''seq'', ''12345''), (''from'', ''1000''), (''to'', ''2000''), (''initiator'', ''2'')]"

definition switch_text :: string where
  "switch_text = test_prolog @
    ''<XML_MESSAGE type=\"0\" method=\"1\" seq=\"12345\" from=\"1000\" to=\"2000\" initiator=\"2\">'' @
    ''<User id=\"2\"/>'' @ ''<Camera id=\"20\"/>'' @ ''</XML_MESSAGE>''"

definition switch_tree :: xml where
  "switch_tree = Element ''XML_MESSAGE'' (test_attrs ''0'' ''1'') [Element ''User'' [(''id'', ''2'')] [], Element ''Camera'' [(''id'', ''20'')] []]"

definition register_text :: string where
  "register_text = test_prolog @
    ''<XML_MESSAGE type=\"0\" method=\"0\" seq=\"12345\" from=\"1000\" to=\"2000\" initiator=\"2\">'' @
    ''<Expire time=\"3600\"/>'' @ ''<ChildMatrix>'' @ ''<Item id=\"2001\"/>'' @ ''<Item id=\"2002\"/>'' @ ''<Item id=\"2003\"/>'' @
    ''</ChildMatrix>'' @ ''</XML_MESSAGE>''"

definition register_tree :: xml where
  "register_tree = Element ''XML_MESSAGE'' (test_attrs ''0'' ''0'')
    [Element ''Expire'' [(''time'', ''3600'')] [],
     Element ''ChildMatrix'' [] (map (\<lambda>i. Element ''Item'' [(''id'', i)] []) [''2001'', ''2002'', ''2003''])]"

definition ptz_text :: string where
  "ptz_text = test_prolog @
    ''<XML_MESSAGE type=\"0\" method=\"2\" seq=\"12345\" from=\"1000\" to=\"2000\" initiator=\"2\">'' @
    ''<User id=\"2\"/>'' @ ''<Camera id=\"20\"/>'' @ ''<Operation direction=\"1\" angle=\"20\"/>'' @ ''</XML_MESSAGE>''"

definition ptz_tree :: xml where
  "ptz_tree = Element ''XML_MESSAGE'' (test_attrs ''0'' ''2'')
    [Element ''User'' [(''id'', ''2'')] [], Element ''Camera'' [(''id'', ''20'')] [],
     Element ''Operation'' [(''direction'', ''1''), (''angle'', ''20'')] []]"

definition reads_tests :: "TiXml \<Rightarrow> bool" where
  "reads_tests X \<longleftrightarrow> xml_root X switch_text = Some switch_tree \<and> xml_root X register_text = Some register_tree \<and>
     xml_root X ptz_text = Some ptz_tree \<and>
     (\<forall>n i. n \<in> {0, 1, 2, 20, 1000, 2000, 2001, 2002, 2003, 3600, 12345} \<longrightarrow> xml_int X (Some (show_int n)) i = n)"

definition header_asserts :: "int \<Rightarrow> MCCAgentRequest \<Rightarrow> bool" where
  "header_asserts method m \<longleftrightarrow> a_method m = method \<and> a_id m = 12345 \<and> a_from m = 1000 \<and> a_to m = 2000 \<and> a_initiator m = 2"

text \<open>On the uninitialised members of the three requests and the junk in the parser's variables.\<close>

definition RequestParseTest :: "TiXml \<Rightarrow> int \<Rightarrow> MCCAgentRequest \<Rightarrow> MCCAgentRequest \<Rightarrow> MCCAgentRequest \<Rightarrow> bool result" where
  "RequestParseTest X junk m1 m2 m3 =
    bindr (MCCAgentRequest_new X junk switch_text m1) (\<lambda>r1.
    bindr (MCCAgentRequest_new X junk register_text m2) (\<lambda>r2.
    bindr (children_get (a_content r2) 0) (\<lambda>c0.
    bindr (children_get (a_content r2) 1) (\<lambda>c1.
    bindr (children_get (a_content r2) 2) (\<lambda>c2.
    bindr (MCCAgentRequest_new X junk ptz_text m3) (\<lambda>r3.
      Inr (header_asserts 1 r1 \<and> swi_userid (a_content r1) = 2 \<and> swi_cameraid (a_content r1) = 20 \<and>
        header_asserts 0 r2 \<and> reg_expire (a_content r2) = 3600 \<and> reg_children_num (a_content r2) = 3 \<and> c0 = 2001 \<and> c1 = 2002 \<and> c2 = 2003 \<and>
        header_asserts 2 r3 \<and> ptz_userid (a_content r3) = 2 \<and> ptz_cameraid (a_content r3) = 20 \<and>
        ptz_direction (a_content r3) = 1 \<and> ptz_angle (a_content r3) = 20)))))))"

lemma test_digits:
  "digit_char 0 = CHR ''0''" "digit_char (Suc 0) = CHR ''1''" "digit_char 2 = CHR ''2''" "digit_char 3 = CHR ''3''" "digit_char 4 = CHR ''4''"
  "digit_char 5 = CHR ''5''" "digit_char 6 = CHR ''6''"
  by code_simp+

lemma test_numbers:
  "show_int 0 = ''0''" "show_int 1 = ''1''" "show_int 2 = ''2''" "show_int 20 = ''20''" "show_int 1000 = ''1000''" "show_int 2000 = ''2000''"
  "show_int 2001 = ''2001''" "show_int 2002 = ''2002''" "show_int 2003 = ''2003''" "show_int 3600 = ''3600''" "show_int 12345 = ''12345''"
  by (simp_all add: show_int_def nat_digits.simps test_digits)

lemma reads_numbers:
  assumes "reads_tests X"
  shows "xml_int X (Some ''0'') i = 0" "xml_int X (Some ''1'') i = 1" "xml_int X (Some ''2'') i = 2" "xml_int X (Some ''20'') i = 20"
    "xml_int X (Some ''1000'') i = 1000" "xml_int X (Some ''2000'') i = 2000" "xml_int X (Some ''2001'') i = 2001" "xml_int X (Some ''2002'') i = 2002"
    "xml_int X (Some ''2003'') i = 2003" "xml_int X (Some ''3600'') i = 3600" "xml_int X (Some ''12345'') i = 12345"
proof -
  have "xml_int X (Some (show_int n)) i = n" if "n \<in> {0, 1, 2, 20, 1000, 2000, 2001, 2002, 2003, 3600, 12345}" for n i
    using assms that unfolding reads_tests_def by blast
  from this [of 0] this [of 1] this [of 2] this [of 20] this [of 1000] this [of 2000] this [of 2001] this [of 2002] this [of 2003]
    this [of 3600] this [of 12345]
  show "xml_int X (Some ''0'') i = 0" "xml_int X (Some ''1'') i = 1" "xml_int X (Some ''2'') i = 2" "xml_int X (Some ''20'') i = 20"
    "xml_int X (Some ''1000'') i = 1000" "xml_int X (Some ''2000'') i = 2000" "xml_int X (Some ''2001'') i = 2001" "xml_int X (Some ''2002'') i = 2002"
    "xml_int X (Some ''2003'') i = 2003" "xml_int X (Some ''3600'') i = 3600" "xml_int X (Some ''12345'') i = 12345"
    by (simp_all add: test_numbers)
qed

lemma test_header:
  assumes "reads_tests X" and "xml_int X (Some method) (a_method m) = k"
  shows "parse_header X (Element ''XML_MESSAGE'' (test_attrs ''0'' method) cs) 0 m =
    (0, m\<lparr>a_type := 0, a_method := k, a_id := 12345, a_from := 1000, a_to := 2000, a_initiator := 2\<rparr>)"
  using assms by (simp add: parse_header_def Attribute_def test_attrs_def reads_numbers [OF assms(1)])

lemmas test_parse = MCCAgentRequest_new_def MCCAgentRequest_Parse_def message_enums child_element_def FirstChild_def Attribute_def

theorem RequestParseTest_passes:
  assumes "reads_tests X" and "length (a_content m1) = content_size" and "length (a_content m2) = content_size" and "length (a_content m3) = content_size"
  shows "RequestParseTest X junk m1 m2 m3 = Inr True"
proof -
  note n = reads_numbers [OF assms(1)]
  have roots: "xml_root X switch_text = Some switch_tree" "xml_root X register_text = Some register_tree" "xml_root X ptz_text = Some ptz_tree"
    using assms(1) by (simp_all add: reads_tests_def)
  note head = test_header [OF assms(1)]
  have one: "MCCAgentRequest_new X junk switch_text m1 = Inr (m1\<lparr>a_type := 0, a_method := 1, a_id := 12345, a_from := 1000, a_to := 2000,
      a_initiator := 2, a_content := (a_content m1)[0 := 2, 1 := 20], a_valid := True\<rparr>)"
    by (simp add: test_parse roots switch_tree_def head [where k = 1] n parse_switch_def)
  have two: "MCCAgentRequest_new X junk register_text m2 = Inr (m2\<lparr>a_type := 0, a_method := 0, a_id := 12345, a_from := 1000, a_to := 2000,
      a_initiator := 2, a_content := (a_content m2)[0 := 3600, 2 := 2001, 3 := 2002, 4 := 2003, 1 := 3], a_valid := True\<rparr>)"
    by (simp add: test_parse roots register_tree_def head [where k = 0] n parse_register_def item_chain_def children_set_def MAX_CHILDREN_NUM_def)
  have three: "MCCAgentRequest_new X junk ptz_text m3 = Inr (m3\<lparr>a_type := 0, a_method := 2, a_id := 12345, a_from := 1000, a_to := 2000,
      a_initiator := 2, a_content := (a_content m3)[0 := 2, 1 := 20, 2 := 1, 3 := 20], a_valid := True\<rparr>)"
    by (simp add: test_parse roots ptz_tree_def head [where k = 2] n parse_ptz_def parse_switch_def)
  show ?thesis
    using assms(2-4)
    by (simp add: RequestParseTest_def one two three header_asserts_def children_get_def content_size_def MAX_CHILDREN_NUM_def)
qed

text \<open>The supposition can be met.\<close>

definition test_library :: TiXml where
  "test_library =
    \<lparr>xml_root = (\<lambda>s. if s = switch_text then Some switch_tree else if s = register_text then Some register_tree
       else if s = ptz_text then Some ptz_tree else None),
     xml_int = (\<lambda>s i. case s of None \<Rightarrow> i | Some s \<Rightarrow> StringUtil_atoi s)\<rparr>"

lemma test_library_reads: "reads_tests test_library"
  unfolding reads_tests_def
proof (intro conjI allI impI)
  show "xml_root test_library switch_text = Some switch_tree"
    by (simp add: test_library_def)
  show "xml_root test_library register_text = Some register_tree"
    by (simp add: test_library_def switch_text_def register_text_def)
  show "xml_root test_library ptz_text = Some ptz_tree"
    by (simp add: test_library_def switch_text_def register_text_def ptz_text_def)
  fix n i :: int
  assume "n \<in> {0, 1, 2, 20, 1000, 2000, 2001, 2002, 2003, 3600, 12345}"
  then have "0 \<le> n" "int (nat n) < 2 ^ 31"
    by auto
  then show "xml_int test_library (Some (show_int n)) i = n"
    using atoi_nat_digits [of "nat n"] by (simp add: test_library_def show_int_def)
qed

section \<open>A response whose text is not closed\<close>

definition response_test_text :: string where
  "response_test_text = test_prolog @
    ''<XML_MESSAGE type=\"1\" method=\"2\" seq=\"12345\" from=\"1000\" to=\"2000\" initiator=\"2\">'' @
    ''<Status code=\"200\" reason=\"ok\"/>'' @ ''<Connection outport=\"10\"/>''"

definition response_test_tree :: xml where
  "response_test_tree = Element ''XML_MESSAGE'' (test_attrs ''1'' ''2'')
    [Element ''Status'' [(''code'', ''200''), (''reason'', ''ok'')] [], Element ''Connection'' [(''outport'', ''10'')] []]"

definition ResponseParseTest :: "TiXml \<Rightarrow> int \<Rightarrow> MCCAgentResponse \<Rightarrow> bool result" where
  "ResponseParseTest X junk m =
    bindr (MCCAgentResponse_new X junk response_test_text m) (\<lambda>r.
      Inr (a_method r = 2 \<and> a_id r = 12345 \<and> a_from r = 1000 \<and> a_to r = 2000 \<and> a_initiator r = 2 \<and> r_statuscode r = 200 \<and> r_reason r = ''ok''))"

text \<open>The parser reads the reason with the number of the initiator as the integer to fill in, so the test passes only if the
  library leaves an integer alone when the text is none.\<close>

theorem ResponseParseTest_depends:
  assumes "xml_root X response_test_text = Some response_test_tree" and "reads_tests X" and "\<And>i. xml_int X (Some ''200'') i = 200"
  shows "ResponseParseTest X junk m = Inr (xml_int X (Some ''ok'') 2 = 2)"
proof -
  have "parse_header X response_test_tree RESPONSE m =
      (0, m\<lparr>a_type := 1, a_method := 2, a_id := 12345, a_from := 1000, a_to := 2000, a_initiator := 2\<rparr>)"
    by (simp add: response_test_tree_def parse_header_def Attribute_def test_attrs_def reads_numbers [OF assms(2)] RESPONSE_def)
  moreover have "child_element response_test_tree ''Status'' = Some (Element ''Status'' [(''code'', ''200''), (''reason'', ''ok'')] [])"
    by (simp add: response_test_tree_def child_element_def FirstChild_def)
  ultimately show ?thesis
    using assms(1,3)
    by (simp add: ResponseParseTest_def MCCAgentResponse_new_def MCCAgentResponse_Parse_def Attribute_def SWITCH_def Let_def)
qed

end
