(* ===== verification/Config_Free.thy ===== *)
theory Config_Free
  imports Config_File
begin

text \<open>
  The end of the settings in \<open>confile.c\<close>: \<open>ini_config_destroy\<close> and what it frees.  Memory is a list of blocks, named by the
  keys that lead to them.  \<open>config_btree_destroy_section\<close> has no \<open>return\<close>: what its caller tests is whatever value is left,
  here an argument for each section.
\<close>

section \<open>Freeing\<close>

text \<open>The tree of the sections, the node of a section in it, the tree of a section, and the node of a setting in that.\<close>

datatype block = ConfigBlock | SectionNode string | SectionBlock string | SettingNode string string

definition config_btree_free_node :: "string \<Rightarrow> string \<Rightarrow> string \<Rightarrow> block list \<Rightarrow> int \<times> block list" where
  "config_btree_free_node sec key data freed = (1, freed @ [SettingNode sec key])"

definition config_btree_destroy_section :: "(string \<Rightarrow> int) \<Rightarrow> string \<Rightarrow> Section \<Rightarrow> block list \<Rightarrow> int \<times> block list" where
  "config_btree_destroy_section junk key section freed =
     (case postorder_traverse (config_btree_free_node key) (bt_root section) freed of
        (_, freed) \<Rightarrow> (junk key, freed @ [SectionBlock key]))"

definition config_btree_destroy :: "(string \<Rightarrow> int) \<Rightarrow> INI_CONFIG option \<Rightarrow> int \<times> block list" where
  "config_btree_destroy junk config =
    (case config of
       None \<Rightarrow> (0, [])
     | Some config \<Rightarrow>
         (case postorder_traverse (config_btree_destroy_section junk) (bt_root config) [] of
            (_, freed) \<Rightarrow> (1, freed @ [ConfigBlock])))"

definition ini_config_destroy :: "(string \<Rightarrow> int) \<Rightarrow> INI_CONFIG option \<Rightarrow> block list" where
  "ini_config_destroy junk config = snd (config_btree_destroy junk config)"

section \<open>What is freed\<close>

fun postorder :: "'d config_node \<Rightarrow> (string \<times> 'd) list" where
  "postorder Null = []"
| "postorder (Node k d l r) = postorder l @ postorder r @ [(k, d)]"

lemma traverse_settings:
  "postorder_traverse (config_btree_free_node sec) t freed = (1, freed @ map (\<lambda>(k, d). SettingNode sec k) (postorder t))"
  by (induction t arbitrary: freed) (simp_all add: config_btree_free_node_def)

definition section_blocks :: "string \<times> Section \<Rightarrow> block list" where
  "section_blocks = (\<lambda>(sec, t). map (\<lambda>(k, d). SettingNode sec k) (postorder (bt_root t)) @ [SectionBlock sec])"

lemma destroy_section: "config_btree_destroy_section junk sec t freed = (junk sec, freed @ section_blocks (sec, t))"
  by (simp add: config_btree_destroy_section_def traverse_settings section_blocks_def)

text \<open>The sections that the traversal reaches: it stops after the first that left a zero.\<close>

fun reached :: "(string \<Rightarrow> int) \<Rightarrow> (string \<times> Section) list \<Rightarrow> (string \<times> Section) list" where
  "reached junk [] = []"
| "reached junk (p # ps) = p # (if junk (fst p) = 0 then [] else reached junk ps)"

abbreviation all_left :: "(string \<Rightarrow> int) \<Rightarrow> (string \<times> Section) list \<Rightarrow> bool" where
  "all_left junk ps \<equiv> \<forall>p \<in> set ps. junk (fst p) \<noteq> 0"

lemma reached_append: "reached junk (ps @ qs) = (if all_left junk ps then ps @ reached junk qs else reached junk ps)"
  by (induction ps) auto

lemma reached_prefix: "\<exists>qs. ps = reached junk ps @ qs"
  by (induction ps) auto

lemma traverse_sections:
  "postorder_traverse (config_btree_destroy_section junk) t freed =
    (of_bool (all_left junk (postorder t)), freed @ concat (map section_blocks (reached junk (postorder t))))"
proof (induction t arbitrary: freed)
  case (Node k d l r)
  have all: "reached junk ps = ps" if "all_left junk ps" for ps
    using that by (induction ps) auto
  show ?case
    using Node all [of "postorder l"] all [of "postorder r"] by (auto simp: reached_append destroy_section)
qed simp

text \<open>
  Of every section that is reached the settings and the tree are freed, and then the configuration.  The nodes of the sections
  in the configuration never are.  If every section leaves something else than zero, all are reached.
\<close>

theorem destroy_frees:
  "ini_config_destroy junk (Some c) = concat (map section_blocks (reached junk (postorder (bt_root c)))) @ [ConfigBlock]"
  by (simp add: ini_config_destroy_def config_btree_destroy_def traverse_sections)

theorem section_nodes_leak: "SectionNode sec \<notin> set (ini_config_destroy junk config)"
proof (cases config)
  case (Some c)
  have "SectionNode sec \<notin> set (section_blocks p)" for p
    by (cases p) (auto simp: section_blocks_def)
  then show ?thesis
    by (simp add: Some destroy_frees)
qed (simp add: ini_config_destroy_def config_btree_destroy_def)

text \<open>No block is freed twice, when the keys of each tree differ.\<close>

definition keys_differ :: "INI_CONFIG \<Rightarrow> bool" where
  "keys_differ c \<longleftrightarrow> distinct (map fst (postorder (bt_root c))) \<and>
     (\<forall>(sec, s) \<in> set (postorder (bt_root c)). distinct (map fst (postorder (bt_root s))))"

lemma section_blocks_distinct: "distinct (map fst (postorder (bt_root s))) \<Longrightarrow> distinct (section_blocks (sec, s))"
  by (auto simp: section_blocks_def distinct_map inj_on_def split_beta)

fun block_section :: "block \<Rightarrow> string" where
  "block_section (SettingNode sec k) = sec"
| "block_section (SectionBlock sec) = sec"
| "block_section (SectionNode sec) = sec"
| "block_section ConfigBlock = []"

lemma sections_distinct:
  "distinct (map fst ps) \<Longrightarrow> \<forall>(sec, s) \<in> set ps. distinct (map fst (postorder (bt_root s))) \<Longrightarrow> distinct (concat (map section_blocks ps))"
proof (induction ps)
  case (Cons p ps)
  have sec: "b \<in> set (section_blocks q) \<Longrightarrow> block_section b = fst q" for b q
    by (cases q) (auto simp: section_blocks_def)
  have "set (section_blocks p) \<inter> set (section_blocks q) = {}" if "q \<in> set ps" for q
    using sec [of _ p] sec [of _ q] that Cons.prems(1) by (force simp: image_iff)
  then show ?case
    using Cons section_blocks_distinct [of "snd p" "fst p"] by (auto simp: split_beta)
qed simp

theorem freed_once:
  assumes "keys_differ c"
  shows "distinct (ini_config_destroy junk (Some c))"
proof -
  let ?p = "postorder (bt_root c)"
  let ?t = "reached junk ?p"
  obtain qs where p: "?p = ?t @ qs"
    using reached_prefix by blast
  have "distinct (map fst ?t)" "\<forall>(sec, s) \<in> set ?t. distinct (map fst (postorder (bt_root s)))"
    using assms p unfolding keys_differ_def by (metis distinct_append map_append, metis (no_types, lifting) UnI1 set_append)
  then have "distinct (concat (map section_blocks ?t))"
    by (rule sections_distinct)
  moreover have "ConfigBlock \<notin> set (concat (map section_blocks ?t))"
    by (auto simp: section_blocks_def)
  ultimately show ?thesis
    by (simp add: destroy_frees)
qed

end
