(* ===== verification/Spec2Isabelle.thy ===== *)
theory Spec2Isabelle
  imports Mcc_Steps Mcc_Main Matrix_Store Locks Thread_Pool Process_Util Http_Server Sip_Ua Time_Util Mcc_Proto Key_Recorder Resource_Ptz
    Queue_Progress Atomic_Threads Sip_Samples Repo_Tests Config_Free
begin

text \<open>
  A verification library for the matrix control centre \<open>mcc\<close>: a server that lets operators at serial keyboards and network
  clients switch cameras to monitors through video matrices, and that connects matrices to a tree whose nodes lend each
  other their cameras over trunk lines.

  \<^bold>\<open>The parts of the program and how they work together.\<close>
  \<open>MCCRunner::run\<close> reads the settings file, creates the resource manager, the keyboard manager and the client manager and
  loads up to four keyboards.  A keyboard driver decodes the packets on its serial line and posts messages to the keyboard
  manager; the client manager posts what the network clients ask for to the same queue.  The manager's thread hands each
  message to the resource manager (\<open>onSwitch\<close>, \<open>onPtz\<close>), which arbitrates cameras, monitors and trunks by the users'
  identifiers and a holding time of 20 seconds.  It answers by calls: to the keyboard manager, whose drivers send the
  command to the matrix; to the client manager, which notifies the clients; and, for a camera of another matrix, to the
  agents, which send XML requests to the matrix below or above and hand its requests and responses back.

  \<^bold>\<open>Theories and the code they model\<close> (file names under \<open>src/src\<close>).
  \<^item> \<open>Prelude\<close>: faults, the result type \<open>fault + 'a\<close> with \<open>bindr\<close>, 32-bit arithmetic, characters and numbers as texts.
  \<^item> \<open>Std_Map\<close>, \<open>Std_Heap\<close>: \<open>std::map\<close> with iteration and the heap algorithms of the standard library, with the locales
    \<open>ordered_map\<close>, \<open>std_compare\<close> and \<open>prio_queue\<close>.
  \<^item> \<open>Global_Id\<close>, \<open>User\<close>: \<open>mccglobalid\<close> (an instance of \<open>linorder\<close>) and \<open>mccuser\<close> with its two heap comparisons.
  \<^item> \<open>Containers\<close>: \<open>queue.h\<close>, \<open>squeue.h\<close>, \<open>heap.h\<close>, \<open>prioqueue.h\<close>, \<open>atomic.h\<close>, \<open>conditional.h\<close>; the locale \<open>fifo\<close>.
  \<^item> \<open>Util_String\<close>, \<open>Thread_If\<close>, \<open>Serial_Port\<close>: \<open>util.cpp\<close>, \<open>threadif.cpp\<close>, \<open>serialport.cpp\<close>.
  \<^item> \<open>Keyboard_Message\<close>, \<open>Keyboard_Codec\<close>: \<open>mcckeyboardmessage\<close> and the packet formats of the drivers.
  \<^item> \<open>Client_Packet\<close>: the clients' packet and the client library \<open>testclient/mccclient.cpp\<close> with its receiving thread.
  \<^item> \<open>Keyboard_Driver\<close>, \<open>Keyboard_Manager\<close>, \<open>Keyboard_Props\<close>: \<open>mcckeyboard.cpp\<close>, the six drivers and
    \<open>mcckeyboardmanager.cpp\<close>.
  \<^item> \<open>Client_Manager\<close>: \<open>mccclientmanager.cpp\<close>.
  \<^item> \<open>Agent_Message\<close>, \<open>Agent_Xml\<close>, \<open>Async_Tcp\<close>, \<open>Agent_Io\<close>: \<open>mccagentmessage.cpp\<close>, its text form, \<open>asynctcpserver.cpp\<close>
    and \<open>asynctcpclient.cpp\<close>, \<open>mccagentserver.cpp\<close> and \<open>mccagentclient.cpp\<close>.
  \<^item> \<open>Resource_Data\<close>, \<open>Resource_Manager\<close>, \<open>Resource_Init\<close>: the classes nested in \<open>MCCResourceManager\<close>, its handlers and the
    reading of its settings (\<open>mccresourcemanager.h\<close>, \<open>mccresourcemanager.cpp\<close>).
  \<^item> \<open>Config_Tree\<close>, \<open>Config_File\<close>, \<open>Config_Props\<close>, \<open>Config_Free\<close>: the settings file library \<open>confile.c\<close>, with the locale
    \<open>config_store\<close>, and what its destructors free.
  \<^item> \<open>Mcc_System\<close>: the calls of the resource manager carried out by the managers and agents.
  \<^item> \<open>Mcc_Runner\<close>, \<open>Mcc_Main\<close>: \<open>configparser.cpp\<close> and \<open>mccrunner.cpp\<close>; \<open>mcc.cpp\<close> and \<open>serverprocess.cpp\<close> with
    the signals and the shutdown.
  \<^item> \<open>Mcc_Steps\<close>: the threads of the program as one step relation on \<open>mcc_system\<close>; the locale \<open>turn_invariant\<close>.
  \<^item> \<open>Matrix_Store\<close>: the registered matrices of \<open>mccresourcemanager.cpp\<close> as the code's map of pointers.
  \<^item> \<open>Locks\<close>, \<open>Thread_Pool\<close>: \<open>mutex.h\<close>, \<open>autolock.h\<close> and the locked sections of \<open>squeue.h\<close>; \<open>threadpool.h\<close>.
  \<^item> \<open>Queue_Wait\<close>, \<open>Queue_Progress\<close>: \<open>squeue.h\<close> and \<open>conditional.h\<close> statement by statement, with the threads that wait.
  \<^item> \<open>Atomic_Threads\<close>: \<open>rwlock.h\<close>, its scoped locks and the functions of \<open>atomic.h\<close> as loads and stores of several threads.
  \<^item> Beside the program: \<open>Time_Util\<close> (\<open>timeutil.cpp\<close>), \<open>Process_Util\<close> (\<open>socketpair.cpp\<close>, \<open>processfactory.cpp\<close>),
    \<open>Http_Server\<close> (\<open>httpserver.cpp\<close>), \<open>Sip_Ua\<close> (\<open>sipua.cpp\<close>, \<open>sipeventhandler.h\<close>), \<open>Sip_Samples\<close> (\<open>sip.c\<close>,
    \<open>siptest/sip.c\<close>), \<open>Mcc_Proto\<close> (the first version of the centre, \<open>mccsys.cpp\<close>) and \<open>Key_Recorder\<close> (\<open>recorder.cpp\<close>).
  \<^item> \<open>Repo_Tests\<close>: the assertions of \<open>test/test.cpp\<close>, proved of the definitions that model the code they test.

  \<^bold>\<open>How the code is modelled.\<close>
  Every class is a record with the class's members, every method a function from the object to the object, the values it
  returns and the calls it makes, in order.  A step that the C++ language leaves undefined, or that stops the program, is a
  \<open>fault\<close>, so a theorem whose result is \<open>Inr\<close> also says that the code survives.  The values of uninitialised members, the
  time and what the operating system returns are arguments (\<open>junk\<close>, \<open>now\<close>, the records \<open>rm_env\<close>, \<open>load_env\<close>, \<open>send_env\<close>,
  \<open>sys_env\<close>, \<open>run_env\<close>).  Integers are \<open>int\<close> with \<open>wrap32\<close> and the other wrap functions where the code can leave their
  range; bytes of packets are words or integers of the range of \<open>char\<close>, which is signed.

  \<^bold>\<open>Turns and interleavings.\<close>
  The inductive relations \<open>rm_reach\<close>, \<open>km_step\<close> and \<open>sys_step\<close> put whole operations one after the other, in any order: a turn of
  a thread is one step.  The code's locks do not make all turns atomic: \<open>mCameras\<close>, \<open>mProcessContexts\<close>, \<open>__last_switch_cid\<close> and
  the set of connections are used by several threads without a lock (a finding), and what two such turns do to each other inside
  is not modelled.  Where the code has locks or deliberately goes without, the steps are finer: \<open>Locks\<close> interleaves the calls
  of the shared queue lock by lock in the relation \<open>turn\<close>; \<open>Queue_Wait\<close> goes on to the statements: in the relation
  \<open>queue_step\<close> a thread that waits is in the condition variable without the mutex, a signal wakes any non-empty set of the
  threads that wait, and a thread may wake without a signal, or have its timed wait refused (\<open>futile_step\<close>); the history of what
  was added and taken is kept beside the code's state.  \<open>Atomic_Threads\<close> interleaves loads and stores of the counters.  In
  \<open>Serial_Port\<close> the relation \<open>sp_step\<close> interleaves the sections of a port's lock with what its receive thread does without it.
  Objects that the code reaches through pointers are kept in the maps themselves; \<open>Matrix_Store\<close> justifies this for the
  registered matrices, and shows the one reader that does not take their lock.

  \<^bold>\<open>What the lemmas show.\<close>
  \<^item> Resource manager: the invariant of all reachable states, who is accepted and for how long (monitors, pan-tilt heads,
    trunks), the decision of \<open>processLocalPtz\<close> as a specification on an abstract view, routing to lower matrices and its
    propagation, the settling of pending requests, and for every handler the conditions under which it returns, those on the
    text it logs included.
  \<^item> Keyboards: round trips of the packet formats, framing of a noisy line in whatever pieces it arrives, delivery of every
    queued command to a matrix that polls, the invariant of the keyboard table, what loading a keyboard does, and the life of a
    serial port with its receive thread.
  \<^item> Clients and agents: every packet becomes one message in order; which clients are told what as they come and go; printed
    requests and responses are parsed back, by any XML reader that reads documents with proper, distinct names; which
    messages fit their buffers.
  \<^item> Settings: the tree refines a finite map, the parser with its jump table equals a reading line by line, saved settings
    load again, and the program starts from them with the configured objects, both servers on their ports included.
  \<^item> The whole: a keyboard's packet reaches the matrix as the command that switches the camera, and a switch across two
    matrices is carried through as texts on both connections.  Every turn of every thread keeps the invariants of the
    managers together, and keeps a monitor with its user for the holding time.
  \<^item> Memory and locks: the map of pointers refines the map of objects while its readers hold the lock, and what a reader
    without it meets; concurrent calls of the shared queue have the effect of the calls in some order; which locked methods
    wait for themselves.
  \<^item> Waiting: in every interleaving one thread at a time is in the queue's section, everything added is taken once and in
    order or is still there, no wake-up is lost, and the calls return as long as there are elements for them and no timed wait
    is refused.
  \<^item> Counters: no change of a shared counter is lost and the numbers drawn from it by postfix increments differ; those of the
    prefix operators, which return references, need not.
  \<^item> The end: what the signals make of the process, in the sleep of the loop and outside, and how the shutdown ends when it destroys
    the condition that a thread waits on.
  \<^item> Beside the program: dates agree with the calendar, descriptors of a socket pair are closed once, the status page is a
    well-formed reply, a pool runs its tasks in order, and the prototype keeps a camera with its user.
  Several theorems state what the code does where it does not do what it means to; these are listed as findings.

  \<^bold>\<open>Bounds and fuel.\<close>
  The loops over lists are structural; the settings parser, the readers of the settings' lists, the heap algorithms, the
  clients' packets and the RC driver's commands have termination proofs.  Four loops need not end and are
  \<open>partial_function (option)\<close>: \<open>StringUtil::split\<close> (an empty separator), \<open>Readn\<close> (a line that fails for ever, or is closed) and the two
  loops that look for a packet's first byte; the theorems about them prove that they return.  A fifth,
  \<open>Camera_empty\<close>, waits for its own lock, and is proved not to return.  The loop of a reply's header lines and that of the
  pool's \<open>StopAll\<close> have termination proofs.  There is no fuel.

  \<^bold>\<open>Not modelled.\<close>
  TinyXML (the parameter record \<open>TiXml\<close>, with the library's documented behaviour as hypothesis); log4cplus, pthreads, epoll,
  termios and pjsua beyond the results of their calls; the text that goes to the console or the log, but for the agents' messages,
  whose text passes a buffer of 1024 bytes on its way to the log (\<open>request_output\<close>, \<open>response_output\<close>).  \<open>timer.cpp\<close>,
  \<open>mccresource.h\<close> and \<open>mccresource.cpp\<close> do not compile: the header declares its class twice, and the code calls a method of
  \<open>MCCUser\<close> that the class does not have.
  The wrappers of semaphores are single calls that nothing uses, the early classes are empty, and
  \<open>writesp.cpp\<close> copies what is typed to a serial port.  The tests of threads, sockets, the log and the parser's speed
  assert nothing.

  \<^bold>\<open>Plan.\<close>
  What is left are the turns that share tables without a lock, statement by statement; the shutdown interleaved with the turns of the server threads, and the tables that the prototype's thread
  and console share without a lock.
\<close>

end
